(* ===== verification/Prelude.thy ===== *)
theory Prelude
  imports Main "HOL-Library.Sublist"
begin

text \<open>
  Shared vocabulary of the development: C strings as character lists, the string
  operations of the C runtime and of SQL that the code relies on (tokenising,
  decimal formatting, \<open>LIKE\<close>, \<open>replace\<close>, \<open>string_to_array\<close>), the error values
  of the server, the codec interface, and the collections of rewrite rules that
  the component theories extend.
\<close>

named_theorems stmt_simps \<open>evaluation of database statements\<close>
named_theorems row_simps \<open>what a statement does to the rows of the tables\<close>

section \<open>Error values\<close>

text \<open>
  The server's functions return \<open>dav_error *\<close>: \<open>NULL\<close> (here \<open>None\<close>) or an error with
  an HTTP status, the name of a precondition tag and a description.
\<close>

record dav_error =
  status :: nat
  tagname :: "string option"
  desc :: "string option"

abbreviation (input) OK :: nat where "OK \<equiv> 0"
abbreviation (input) HTTP_BAD_REQUEST :: nat where "HTTP_BAD_REQUEST \<equiv> 400"
abbreviation (input) HTTP_FORBIDDEN :: nat where "HTTP_FORBIDDEN \<equiv> 403"
abbreviation (input) HTTP_CONFLICT :: nat where "HTTP_CONFLICT \<equiv> 409"
abbreviation (input) HTTP_PRECONDITION_FAILED :: nat where "HTTP_PRECONDITION_FAILED \<equiv> 412"
abbreviation (input) HTTP_INSUFFICIENT_STORAGE :: nat where "HTTP_INSUFFICIENT_STORAGE \<equiv> 507"
abbreviation (input) HTTP_INTERNAL_SERVER_ERROR :: nat where "HTTP_INTERNAL_SERVER_ERROR \<equiv> 500"

definition dav_new_error :: "nat \<Rightarrow> string \<Rightarrow> dav_error" where
  "dav_new_error st d = \<lparr>status = st, tagname = None, desc = Some d\<rparr>"

definition dav_new_error_tag :: "nat \<Rightarrow> string option \<Rightarrow> string \<Rightarrow> dav_error" where
  "dav_new_error_tag st d tag = \<lparr>status = st, tagname = Some tag, desc = d\<rparr>"

lemma status_dav_new_error [simp]: "status (dav_new_error st d) = st"
  by (simp add: dav_new_error_def)

lemma status_dav_new_error_tag [simp]: "status (dav_new_error_tag st d tag) = st"
  by (simp add: dav_new_error_tag_def)

section \<open>Codecs\<close>

text \<open>
  Several parts of the server store a value in a textual form and read it back:
  lock tokens, decimal identifiers, materialised paths. Each is an instance of one
  contract: on the values it is used for, decoding undoes encoding.
\<close>

locale codec =
  fixes enc :: "'a \<Rightarrow> 'b"
    and dec :: "'b \<Rightarrow> 'a option"
    and ok :: "'a \<Rightarrow> bool"
  assumes dec_enc: "ok x \<Longrightarrow> dec (enc x) = Some x"
begin

lemma enc_inj: "ok x \<Longrightarrow> ok y \<Longrightarrow> enc x = enc y \<longleftrightarrow> x = y"
  by (metis dec_enc option.inject)

lemma dec_enc_unique: "ok x \<Longrightarrow> dec (enc x) = Some y \<Longrightarrow> y = x"
  by (simp add: dec_enc)

end

section \<open>Directories\<close>

text \<open>
  What the server relies on when it keeps named entries: a lookup sees the last
  insertion, deletion or move, and nothing else changes.
\<close>

locale directory =
  fixes look :: "'s \<Rightarrow> 'k \<Rightarrow> 'v option"
    and ins :: "'k \<Rightarrow> 'v \<Rightarrow> 's \<Rightarrow> 's option"
    and del :: "'k \<Rightarrow> 'v \<Rightarrow> 's \<Rightarrow> 's"
    and move :: "'k \<Rightarrow> 'k \<Rightarrow> 's \<Rightarrow> 's option"
    and inv :: "'s \<Rightarrow> bool"
  assumes ins_fresh: "inv s \<Longrightarrow> ins k v s = Some s' \<Longrightarrow> look s k = None"
    and look_ins: "inv s \<Longrightarrow> ins k v s = Some s' \<Longrightarrow> look s' = (look s)(k \<mapsto> v)"
    and inv_ins: "inv s \<Longrightarrow> ins k v s = Some s' \<Longrightarrow> inv s'"
    and look_del: "inv s \<Longrightarrow> look s k = Some v \<Longrightarrow> look (del k v s) = (look s)(k := None)"
    and inv_del: "inv s \<Longrightarrow> inv (del k v s)"
    and move_fresh: "inv s \<Longrightarrow> move k k' s = Some s' \<Longrightarrow> look s k = Some v \<Longrightarrow> k' \<noteq> k \<Longrightarrow> look s k' = None"
    and look_move: "inv s \<Longrightarrow> move k k' s = Some s' \<Longrightarrow> look s k = Some v \<Longrightarrow>
      look s' = (look s)(k := None, k' \<mapsto> v)"
    and inv_move: "inv s \<Longrightarrow> move k k' s = Some s' \<Longrightarrow> inv s'"
begin

lemma ins_del: "inv s \<Longrightarrow> ins k v s = Some s' \<Longrightarrow> look (del k v s') = look s"
  using ins_fresh [of s k v s'] look_ins [of s k v s'] inv_ins [of s k v s'] look_del [of s' k v]
  by (simp add: fun_upd_idem)

lemma move_back:
  assumes "inv s" "look s k = Some v" "move k k' s = Some s'" "move k' k s' = Some s''"
  shows "look s'' = look s"
proof -
  have 1: "look s' = (look s)(k := None, k' \<mapsto> v)" using assms(1,3,2) by (rule look_move)
  have "look s'' = (look s')(k' := None, k \<mapsto> v)"
    using inv_move [OF assms(1,3)] assms(4) by (rule look_move) (simp add: 1)
  then show ?thesis
    using assms(2) move_fresh [OF assms(1,3,2)] by (cases "k' = k") (auto simp: 1 fun_eq_iff)
qed

lemma move_as_ins_del:
  assumes "inv s" "look s k = Some v" "k' \<noteq> k" "move k k' s = Some s'" "ins k' v s = Some t"
  shows "look s' = look (del k v t)"
proof -
  have t: "look t = (look s)(k' \<mapsto> v)" using assms(1,5) by (rule look_ins)
  have "look (del k v t) = (look t)(k := None)"
    using inv_ins [OF assms(1,5)] by (rule look_del) (use t assms in simp)
  then show ?thesis
    using look_move [OF assms(1,4,2)] t assms(3) by (simp add: fun_upd_twist)
qed

lemma overwrite:
  assumes "inv s" "look s k = Some v" "look s k' = Some w" "k' \<noteq> k" "move k k' (del k' w s) = Some s'"
  shows "look s' = (look s)(k := None, k' \<mapsto> v)"
proof -
  have d: "look (del k' w s) = (look s)(k' := None)" using assms(1,3) by (rule look_del)
  have "look s' = (look (del k' w s))(k := None, k' \<mapsto> v)"
    using inv_del [OF assms(1)] assms(5) by (rule look_move) (use d assms in simp)
  then show ?thesis using d assms(4) by (simp add: fun_eq_iff)
qed

end

section \<open>Queues\<close>

text \<open>Work queues: what is put first is taken first, and nothing is lost or repeated.\<close>

locale fifo =
  fixes contents :: "'s \<Rightarrow> 'a list"
    and put :: "'a list \<Rightarrow> 's \<Rightarrow> 's option"
    and get :: "'s \<Rightarrow> 'a option \<times> 's"
    and inv :: "'s \<Rightarrow> bool"
  assumes put_contents: "inv s \<Longrightarrow> put xs s = Some s' \<Longrightarrow> contents s' = contents s @ xs"
    and put_inv: "inv s \<Longrightarrow> put xs s = Some s' \<Longrightarrow> inv s'"
    and get_some: "inv s \<Longrightarrow> contents s = x # xs \<Longrightarrow> fst (get s) = Some x \<and> contents (snd (get s)) = xs"
    and get_none: "inv s \<Longrightarrow> contents s = [] \<Longrightarrow> get s = (None, s)"
    and get_inv: "inv s \<Longrightarrow> inv (snd (get s))"
begin

lemma get_put:
  assumes "inv s" "contents s = x # xs" "put ys s = Some s'"
  shows "fst (get s') = Some x \<and> contents (snd (get s')) = xs @ ys"
  using get_some [OF put_inv [OF assms(1,3)], of x "xs @ ys"] put_contents [OF assms(1,3)] assms(2) by simp

lemma drained:
  assumes "inv s" "length (contents s) \<le> n"
  shows "contents (((\<lambda>s. snd (get s)) ^^ n) s) = []"
  using assms
proof (induction n arbitrary: s)
  case 0
  then show ?case by simp
next
  case (Suc n)
  have "length (contents (snd (get s))) \<le> n"
    using Suc.prems get_some [of s] get_none [of s] by (cases "contents s") auto
  with Suc get_inv [of s] show ?case by (simp add: funpow_Suc_right del: funpow.simps)
qed

end

section \<open>Splitting and joining\<close>

fun splitc :: "char \<Rightarrow> string \<Rightarrow> string list" where
  "splitc c [] = [[]]"
| "splitc c (x # xs) =
     (if x = c then [] # splitc c xs
      else (case splitc c xs of [] \<Rightarrow> [[x]] | t # ts \<Rightarrow> (x # t) # ts))"

fun joinc :: "char \<Rightarrow> string list \<Rightarrow> string" where
  "joinc c [] = []"
| "joinc c [x] = x"
| "joinc c (x # y # zs) = x @ c # joinc c (y # zs)"

lemma splitc_nonempty [simp]: "splitc c s \<noteq> []"
  by (induction s) (auto split: list.splits)

lemma splitc_no_sep: "c \<notin> set s \<Longrightarrow> splitc c s = [s]"
  by (induction s) auto

lemma splitc_append_sep: "c \<notin> set s \<Longrightarrow> splitc c (s @ c # t) = s # splitc c t"
  by (induction s) auto

lemma splitc_joinc:
  "xs \<noteq> [] \<Longrightarrow> (\<And>x. x \<in> set xs \<Longrightarrow> c \<notin> set x) \<Longrightarrow> splitc c (joinc c xs) = xs"
  by (induction c xs rule: joinc.induct) (simp_all add: splitc_no_sep splitc_append_sep)

lemma joinc_splitc [simp]: "joinc c (splitc c s) = s"
proof (induction s)
  case Nil
  show ?case by simp
next
  case (Cons x s)
  obtain t ts where split: "splitc c s = t # ts"
    by (cases "splitc c s") auto
  with Cons.IH have join: "joinc c (t # ts) = s" by simp
  show ?case
  proof (cases "x = c")
    case True
    with split join show ?thesis by simp
  next
    case False
    with split have "splitc c (x # s) = (x # t) # ts" by simp
    moreover have "joinc c ((x # t) # ts) = x # joinc c (t # ts)" by (cases ts) auto
    ultimately show ?thesis using join by simp
  qed
qed

lemma splitc_set: "t \<in> set (splitc c s) \<Longrightarrow> c \<notin> set t \<and> set t \<subseteq> set s"
proof (induction s arbitrary: t)
  case Nil
  then show ?case by simp
next
  case (Cons x s)
  show ?case
  proof (cases "splitc c s")
    case Nil
    then show ?thesis by simp
  next
    case (Cons u us)
    with Cons.prems Cons.IH [of t] Cons.IH [of u] show ?thesis
      by (auto split: if_splits)
  qed
qed

lemma joinc_append:
  "xs \<noteq> [] \<Longrightarrow> ys \<noteq> [] \<Longrightarrow> joinc c (xs @ ys) = joinc c xs @ c # joinc c ys"
  by (induction c xs rule: joinc.induct) (auto simp: neq_Nil_conv)

lemma joinc_snoc: "xs \<noteq> [] \<Longrightarrow> joinc c (xs @ [y]) = joinc c xs @ c # y"
  by (simp add: joinc_append)

text \<open>
  \<open>apr_strtok\<close> behaves as \<open>strtok_r\<close>: skip separators, return the token up to the
  next separator, remember where to go on. Calling it until it returns \<open>NULL\<close> yields
  the tokens of the string.
\<close>

definition apr_strtok :: "char \<Rightarrow> string \<Rightarrow> (string \<times> string) option" where
  "apr_strtok sep s =
     (let s' = dropWhile (\<lambda>c. c = sep) s
      in if s' = [] then None
         else Some (takeWhile (\<lambda>c. c \<noteq> sep) s', tl (dropWhile (\<lambda>c. c \<noteq> sep) s')))"

lemma apr_strtok_shorter: "apr_strtok sep s = Some (t, rest) \<Longrightarrow> length rest < length s"
proof -
  assume tok: "apr_strtok sep s = Some (t, rest)"
  let ?s = "dropWhile (\<lambda>c. c = sep) s"
  from tok have ne: "?s \<noteq> []" and rest: "rest = tl (dropWhile (\<lambda>c. c \<noteq> sep) ?s)"
    by (auto simp: apr_strtok_def Let_def split: if_splits)
  have "length rest \<le> length ?s - 1"
    using rest length_dropWhile_le [of "\<lambda>c. c \<noteq> sep" ?s] by (simp add: diff_le_mono)
  moreover have "length ?s \<le> length s" by (rule length_dropWhile_le)
  ultimately show ?thesis using ne by (cases ?s) auto
qed

function tokens :: "char \<Rightarrow> string \<Rightarrow> string list" where
  "tokens sep s = (case apr_strtok sep s of None \<Rightarrow> [] | Some (t, rest) \<Rightarrow> t # tokens sep rest)"
  by pat_completeness auto
termination
  by (relation "measure (\<lambda>(sep, s). length s)") (auto dest: apr_strtok_shorter)

declare tokens.simps [simp del]

lemma tokens_Nil [simp]: "tokens sep [] = []"
  by (simp add: tokens.simps apr_strtok_def)

lemma tokens_sep [simp]: "tokens sep (sep # s) = tokens sep s"
  by (simp add: tokens.simps [of sep "sep # s"] tokens.simps [of sep s] apr_strtok_def)

lemma tokens_word:
  assumes "sep \<notin> set w" and "w \<noteq> []"
  shows "tokens sep (w @ sep # s) = w # tokens sep s"
    and "tokens sep w = [w]"
proof -
  from assms have hd: "dropWhile (\<lambda>c. c = sep) (w @ r) = w @ r" for r
    by (cases w) auto
  from assms(1) have tk: "takeWhile (\<lambda>c. c \<noteq> sep) (w @ sep # s) = w"
    "dropWhile (\<lambda>c. c \<noteq> sep) (w @ sep # s) = sep # s"
    by (induction w) auto
  from hd [of "sep # s"] tk assms show "tokens sep (w @ sep # s) = w # tokens sep s"
    by (simp add: tokens.simps [of sep "w @ sep # s"] apr_strtok_def)
  from assms(1) have tw: "takeWhile (\<lambda>c. c \<noteq> sep) w = w" "dropWhile (\<lambda>c. c \<noteq> sep) w = []"
    by (induction w) auto
  from hd [of "[]"] assms(2) show "tokens sep w = [w]"
    by (simp add: tokens.simps [of sep w] apr_strtok_def tw)
qed

lemma tokens_splitc: "tokens sep s = filter (\<lambda>t. t \<noteq> []) (splitc sep s)"
proof (induction s rule: length_induct)
  case (1 s)
  show ?case
  proof (cases "sep \<in> set s")
    case False
    then show ?thesis
      by (cases "s = []") (auto simp: splitc_no_sep tokens_word)
  next
    case True
    then obtain w r where s: "s = w @ sep # r" and w: "sep \<notin> set w"
      by (meson split_list_first)
    with 1 have IH: "tokens sep r = filter (\<lambda>t. t \<noteq> []) (splitc sep r)" by simp
    from s w IH show ?thesis
      by (cases "w = []") (auto simp: splitc_append_sep tokens_word)
  qed
qed

lemma tokens_nonempty: "t \<in> set (tokens sep s) \<Longrightarrow> t \<noteq> [] \<and> sep \<notin> set t"
  by (auto simp: tokens_splitc dest: splitc_set)

section \<open>Decimal numbers\<close>

definition digit :: "nat \<Rightarrow> char" where
  "digit d = char_of (48 + d)"

definition digit_val :: "char \<Rightarrow> nat" where
  "digit_val c = of_char c - 48"

definition is_digit :: "char \<Rightarrow> bool" where
  "is_digit c \<longleftrightarrow> 48 \<le> (of_char c :: nat) \<and> (of_char c :: nat) \<le> 57"

fun show_nat :: "nat \<Rightarrow> string" where
  "show_nat n = (if n < 10 then [digit n] else show_nat (n div 10) @ [digit (n mod 10)])"

declare show_nat.simps [simp del]

text \<open>\<open>atol\<close> on a string of digits: accumulate up to the first non-digit.\<close>

fun atol_acc :: "nat \<Rightarrow> string \<Rightarrow> nat" where
  "atol_acc a [] = a"
| "atol_acc a (c # cs) = (if is_digit c then atol_acc (10 * a + digit_val c) cs else a)"

definition show_long :: "int \<Rightarrow> string" where
  "show_long i = (if i < 0 then CHR ''-'' # show_nat (nat (- i)) else show_nat (nat i))"

definition atol :: "string \<Rightarrow> int" where
  "atol s = (if s \<noteq> [] \<and> hd s = CHR ''-'' then - int (atol_acc 0 (tl s)) else int (atol_acc 0 s))"

lemma is_digit_digit [simp]: "d < 10 \<Longrightarrow> is_digit (digit d)"
  by (simp add: is_digit_def digit_def)

lemma digit_val_digit [simp]: "d < 10 \<Longrightarrow> digit_val (digit d) = d"
  by (simp add: digit_val_def digit_def)

lemma show_nat_nonempty [simp]: "show_nat n \<noteq> []"
  by (subst show_nat.simps) simp

lemma show_nat_digits: "c \<in> set (show_nat n) \<Longrightarrow> is_digit c"
proof (induction n rule: show_nat.induct)
  case (1 n)
  then show ?case by (auto simp: show_nat.simps [of n] split: if_splits)
qed

lemma atol_acc_append:
  "(\<And>c. c \<in> set xs \<Longrightarrow> is_digit c) \<Longrightarrow> atol_acc a (xs @ ys) = atol_acc (atol_acc a xs) ys"
  by (induction xs arbitrary: a) auto

lemma atol_acc_show_nat: "atol_acc 0 (show_nat n) = n"
proof (induction n rule: show_nat.induct)
  case (1 n)
  show ?case
  proof (cases "n < 10")
    case True
    then show ?thesis by (simp add: show_nat.simps [of n])
  next
    case False
    with 1 have "atol_acc 0 (show_nat (n div 10)) = n div 10" by simp
    with False show ?thesis
      by (simp add: show_nat.simps [of n] atol_acc_append show_nat_digits)
  qed
qed

lemma not_digit_minus [simp]: "\<not> is_digit CHR ''-''"
  by (simp add: is_digit_def)

lemma show_nat_no_minus: "show_nat n \<noteq> CHR ''-'' # r"
proof
  assume "show_nat n = CHR ''-'' # r"
  then have "is_digit CHR ''-''" using show_nat_digits [of "CHR ''-''" n] by simp
  then show False by simp
qed

lemma atol_show_long [simp]: "atol (show_long i) = i"
proof (cases "i < 0")
  case True
  then show ?thesis by (simp add: atol_def show_long_def atol_acc_show_nat)
next
  case False
  obtain c cs where s: "show_nat (nat i) = c # cs" by (cases "show_nat (nat i)") auto
  then have "c \<noteq> CHR ''-''" using show_nat_no_minus by blast
  with False s atol_acc_show_nat [of "nat i"] show ?thesis
    by (simp add: atol_def show_long_def)
qed

lemma show_long_nonempty [simp]: "show_long i \<noteq> []"
  by (simp add: show_long_def)

lemma show_long_chars: "c \<in> set (show_long i) \<Longrightarrow> is_digit c \<or> c = CHR ''-''"
  by (auto simp: show_long_def dest: show_nat_digits split: if_splits)

lemma show_long_no_comma [simp]: "CHR '','' \<notin> set (show_long i)"
  using show_long_chars [of "CHR '',''" i] by (auto simp: is_digit_def)

lemma show_nat_length: "n < 10 ^ k \<Longrightarrow> 0 < k \<Longrightarrow> length (show_nat n) \<le> k"
proof (induction n arbitrary: k rule: show_nat.induct)
  case (1 n)
  show ?case
  proof (cases "n < 10")
    case True
    with 1 show ?thesis by (simp add: show_nat.simps [of n])
  next
    case False
    with 1(2,3) obtain j where k: "k = Suc j" "0 < j"
      by (cases k; cases "k - 1") auto
    with 1(2) have "n div 10 < 10 ^ j" by auto
    with 1(1) False k have "length (show_nat (n div 10)) \<le> j" by blast
    with False k show ?thesis by (simp add: show_nat.simps [of n])
  qed
qed

text \<open>A C \<open>long\<close> prints in at most 20 characters.\<close>

definition is_long :: "int \<Rightarrow> bool" where
  "is_long i \<longleftrightarrow> - (2 ^ 63) \<le> i \<and> i < 2 ^ 63"

lemma show_long_length:
  assumes "is_long i"
  shows "length (show_long i) \<le> 20"
proof -
  have big: "(2::int) ^ 63 < 10 ^ 19" by simp
  have lo: "- i < 10 ^ 19" and hi: "i < 10 ^ 19" using assms big unfolding is_long_def by linarith+
  have "nat (- i) < 10 ^ 19" "nat i < 10 ^ 19"
    using lo hi by simp_all
  then have "length (show_nat (nat (- i))) \<le> 19" "length (show_nat (nat i)) \<le> 19"
    using show_nat_length [of "nat (- i)" 19] show_nat_length [of "nat i" 19] by simp_all
  then show ?thesis by (auto simp: show_long_def)
qed

interpretation decimal: codec show_long "\<lambda>s. Some (atol s)" "\<lambda>_. True"
  by unfold_locales simp

section \<open>SQL string functions\<close>

text \<open>\<open>replace(s, old, to)\<close>: every occurrence, old the left, without overlaps.\<close>

function sql_replace :: "string \<Rightarrow> string \<Rightarrow> string \<Rightarrow> string" where
  "sql_replace [] old to = []"
| "sql_replace (c # s) old to =
     (if old = [] then c # s
      else if prefix old (c # s) then to @ sql_replace (drop (length old) (c # s)) old to
      else c # sql_replace s old to)"
  by pat_completeness auto
termination
  by (relation "measure (\<lambda>(s, old, to). length s)") (auto simp: drop_Cons')

declare sql_replace.simps(2) [simp del]

text \<open>\<open>s LIKE p\<close>: a percent sign matches any string, an underscore any character, a
  backslash takes the next character literally.\<close>

fun sql_like :: "string \<Rightarrow> string \<Rightarrow> bool" where
  "sql_like [] s = (s = [])"
| "sql_like (p # ps) [] = (p = CHR ''%'' \<and> sql_like ps [])"
| "sql_like (p # ps) (c # cs) =
     (if p = CHR ''%'' then sql_like ps (c # cs) \<or> sql_like (p # ps) cs
      else if p = CHR ''_'' then sql_like ps cs
      else if p = CHR 0x5C \<and> ps \<noteq> [] then hd ps = c \<and> sql_like (tl ps) cs
      else p = c \<and> sql_like ps cs)"

definition like_plain :: "string \<Rightarrow> bool" where
  "like_plain s \<longleftrightarrow> CHR ''%'' \<notin> set s \<and> CHR ''_'' \<notin> set s \<and> CHR 0x5C \<notin> set s"

lemma sql_like_percent: "sql_like ''%'' s"
  by (induction s) auto

lemma sql_like_prefix: "like_plain p \<Longrightarrow> sql_like (p @ ''%'') s \<longleftrightarrow> prefix p s"
proof (induction p arbitrary: s)
  case Nil
  show ?case by (simp add: sql_like_percent del: sql_like.simps)
next
  case (Cons c p)
  then show ?case by (cases s) (auto simp: like_plain_def)
qed

lemma sql_replace_prefix:
  "old \<noteq> [] \<Longrightarrow> sql_replace (old @ s) old to = to @ sql_replace s old to"
  by (cases old) (simp_all add: sql_replace.simps(2))

lemma sql_replace_absent: "\<not> sublist old s \<Longrightarrow> sql_replace s old to = s"
  by (induction s) (auto simp: sql_replace.simps(2) sublist_Cons_right)

section \<open>Lists\<close>

lemma find_filter: "find P xs = (case filter P xs of [] \<Rightarrow> None | x # _ \<Rightarrow> Some x)"
  by (induction xs) auto

lemma filter_map_eq: "(\<And>x. x \<in> set xs \<Longrightarrow> P (f x) = P x) \<Longrightarrow> filter P (map f xs) = map f (filter P xs)"
  by (induction xs) auto

end
