(* ===== verification/Util.thy ===== *)
theory Util
  imports Prelude "HOL-Library.Word"
begin

text \<open>
  Model of \<^verbatim>\<open>util.c\<close>: the string helpers of the server. A C string is the list of its
  characters before the terminating zero. Where the C code can read or write outside
  a buffer, the model returns \<open>None\<close>.
\<close>

unbundle bit_operations_syntax

section \<open>Slashes and tokens\<close>

text \<open>\<open>dav_repos_chomp_slash\<close>: drop trailing slashes, one per iteration.\<close>

function dav_repos_chomp_slash :: "string \<Rightarrow> string" where
  "dav_repos_chomp_slash str =
     (if str \<noteq> [] \<and> last str = CHR ''/'' then dav_repos_chomp_slash (butlast str) else str)"
  by pat_completeness auto
termination
  by (relation "measure length") auto

declare dav_repos_chomp_slash.simps [simp del]

definition dav_repos_chomp_trailing_slash :: "string \<Rightarrow> string" where
  "dav_repos_chomp_trailing_slash str =
     (if 1 < length str then dav_repos_chomp_slash str else str)"

text \<open>\<open>compact_uri\<close>: \<open>v\<close> is the output buffer, \<open>last v\<close> the C expression \<open>v[j]\<close>.\<close>

fun compact_loop :: "string \<Rightarrow> string \<Rightarrow> string" where
  "compact_loop v [] = v"
| "compact_loop v (c # cs) =
     (if last v \<noteq> CHR ''/'' \<or> c \<noteq> CHR ''/'' then compact_loop (v @ [c]) cs
      else compact_loop v cs)"

definition compact_uri :: "string \<Rightarrow> string" where
  "compact_uri u = (case u of [] \<Rightarrow> [] | c # cs \<Rightarrow> compact_loop [c] cs)"

text \<open>\<open>get_parent_uri\<close>: \<open>ap_make_dirstr_parent\<close> is a function of the HTTP server and a
  parameter here.\<close>

definition get_parent_uri :: "(string \<Rightarrow> string) \<Rightarrow> string \<Rightarrow> string" where
  "get_parent_uri ap_make_dirstr_parent uri =
     dav_repos_chomp_slash (ap_make_dirstr_parent uri)"

fun count_tokens :: "nat \<Rightarrow> string list \<Rightarrow> nat" where
  "count_tokens n [] = n"
| "count_tokens n (t # ts) = count_tokens (Suc n) ts"

definition get_num_tokens :: "string \<Rightarrow> nat" where
  "get_num_tokens uri = count_tokens 0 (tokens CHR ''/'' uri)"

section \<open>Property keys and attributes\<close>

definition NULL_NAMESPACE :: string where
  "NULL_NAMESPACE = '' ''"

definition dav_repos_build_ns_name_key :: "string option \<Rightarrow> string option \<Rightarrow> string option" where
  "dav_repos_build_ns_name_key ns name =
     (case (ns, name) of
        (Some ns, Some name) \<Rightarrow>
          Some ((if length ns = 0 then NULL_NAMESPACE else ns) @ [CHR 0x09] @ name)
      | _ \<Rightarrow> None)"

fun dav_find_attr :: "(string \<times> string) list \<Rightarrow> string \<Rightarrow> string option" where
  "dav_find_attr [] attr_name = None"
| "dav_find_attr ((name, value) # attrs) attr_name =
     (if name = attr_name then Some value else dav_find_attr attrs attr_name)"

section \<open>Content storage paths\<close>

text \<open>
  \<open>generate_path\<close> reads \<open>hash[0..7]\<close> and \<open>hash + 8\<close>: a shorter string is read past its
  end. \<open>ap_no2slash\<close> and the outcome of \<open>apr_dir_make_recursive\<close> come from outside.
\<close>

definition generate_path ::
  "(string \<Rightarrow> string) \<Rightarrow> (string \<Rightarrow> bool) \<Rightarrow> string \<Rightarrow> string \<Rightarrow> (dav_error + string) option" where
  "generate_path ap_no2slash mkdir_ok file_dir hash =
     (if length hash < 8 then None
      else
        let dirpath = ap_no2slash
              (file_dir @ ''/'' @ take 2 hash @ ''/'' @ take 2 (drop 2 hash) @ ''/''
               @ take 2 (drop 4 hash) @ ''/'' @ take 2 (drop 6 hash))
        in if mkdir_ok dirpath then Some (Inr (dirpath @ ''/'' @ drop 8 hash))
           else Some (Inl (dav_new_error HTTP_INTERNAL_SERVER_ERROR
                  ''Unable to create directory for storage.'')))"

section \<open>Identifiers\<close>

text \<open>
  \<open>add_hyphens_to_uuid\<close>: 32 characters are copied with hyphens before the positions 8,
  12, 16 and 20. A string of fewer than 32 characters is read past its end.
\<close>

fun add_hyphens_loop :: "nat \<Rightarrow> string \<Rightarrow> string \<Rightarrow> string" where
  "add_hyphens_loop i out [] = out"
| "add_hyphens_loop i out (c # cs) =
     add_hyphens_loop (Suc i)
       ((if i = 8 \<or> i = 12 \<or> i = 16 \<or> i = 20 then out @ ''-'' else out) @ [c]) cs"

definition add_hyphens_to_uuid :: "string \<Rightarrow> string option" where
  "add_hyphens_to_uuid uuid =
     (if length uuid < 32 then None else Some (add_hyphens_loop 0 [] (take 32 uuid)))"

text \<open>
  \<open>remove_hyphens_from_uuid\<close> copies into \<open>char buf[33]\<close>. A write at index 33 or above
  is outside the buffer.
\<close>

fun remove_hyphens_loop :: "string \<Rightarrow> string \<Rightarrow> string option" where
  "remove_hyphens_loop buf [] = (if length buf < 33 then Some buf else None)"
| "remove_hyphens_loop buf (c # cs) =
     (if c \<noteq> CHR ''-'' then
        (if length buf < 33 then remove_hyphens_loop (buf @ [c]) cs else None)
      else remove_hyphens_loop buf cs)"

definition remove_hyphens_from_uuid :: "string \<Rightarrow> string option" where
  "remove_hyphens_from_uuid uuid = remove_hyphens_loop [] uuid"

definition get_new_plain_uuid :: "string \<Rightarrow> string option" where
  "get_new_plain_uuid apr_uuid = remove_hyphens_from_uuid apr_uuid"

section \<open>Content types and whitespace\<close>

definition bad_content_types :: "string list" where
  "bad_content_types = [''multipart/form-data'']"

definition is_content_type_good :: "string option \<Rightarrow> bool" where
  "is_content_type_good content_type =
     (case content_type of
        None \<Rightarrow> False
      | Some t \<Rightarrow> t \<noteq> [] \<and> \<not> list_ex (\<lambda>b. take (length b) t = b) bad_content_types)"

definition isspace :: "char \<Rightarrow> bool" where
  "isspace c \<longleftrightarrow> (of_char c :: nat) = 32 \<or> 9 \<le> (of_char c :: nat) \<and> (of_char c :: nat) \<le> 13"

text \<open>
  \<open>strip_whitespace\<close>: the first loop tests \<open>isspace(data[--len])\<close> before \<open>len >= 0\<close>, so
  on a string of white space only it reads \<open>data[-1]\<close>.
\<close>

function strip_tail :: "string \<Rightarrow> string option" where
  "strip_tail data =
     (if data = [] then None
      else if isspace (last data) then strip_tail (butlast data)
      else Some data)"
  by pat_completeness auto
termination
  by (relation "measure length") auto

declare strip_tail.simps [simp del]

definition strip_whitespace :: "string option \<Rightarrow> string option option" where
  "strip_whitespace data =
     (case data of
        None \<Rightarrow> Some None
      | Some d \<Rightarrow> (if d = [] then Some (Some d)
                  else map_option (\<lambda>t. Some (dropWhile isspace t)) (strip_tail d)))"

section \<open>In-place reversal\<close>

text \<open>
  \<open>reverse_string\<close> swaps the ends of the buffer with three exclusive-or assignments.
  Bytes are 8-bit words; \<open>start\<close> and \<open>e\<close> are the C variables \<open>start\<close> and \<open>end\<close>.
\<close>

definition xor_swap :: "8 word list \<Rightarrow> nat \<Rightarrow> nat \<Rightarrow> 8 word list" where
  "xor_swap str start e =
     (let s1 = str[start := (str ! start) XOR (str ! e)];
          s2 = s1[e := (s1 ! e) XOR (s1 ! start)]
      in s2[start := (s2 ! start) XOR (s2 ! e)])"

function reverse_loop :: "8 word list \<Rightarrow> nat \<Rightarrow> int \<Rightarrow> 8 word list" where
  "reverse_loop str start e =
     (if int start < e then reverse_loop (xor_swap str start (nat e)) (Suc start) (e - 1)
      else str)"
  by pat_completeness auto
termination
  by (relation "measure (\<lambda>(str, start, e). nat (e - int start))") auto

declare reverse_loop.simps [simp del]

definition reverse_string :: "8 word list \<Rightarrow> 8 word list" where
  "reverse_string str = reverse_loop str 0 (int (length str) - 1)"

section \<open>Digests\<close>

definition hex_digit :: "nat \<Rightarrow> char" where
  "hex_digit n = (if n < 10 then char_of (48 + n) else char_of (87 + n))"

definition hex_byte :: "8 word \<Rightarrow> string" where
  "hex_byte b = [hex_digit (unat b div 16), hex_digit (unat b mod 16)]"

text \<open>\<open>get_password_hash\<close>: \<open>apr_md5\<close> is a parameter; its 16 bytes are printed in hex.\<close>

definition get_password_hash :: "(string \<Rightarrow> 8 word list) \<Rightarrow> string \<Rightarrow> string \<Rightarrow> string" where
  "get_password_hash apr_md5 user password =
     concat (map hex_byte (apr_md5 (user @ '':users@limebits.com:'' @ password)))"

text \<open>
  \<open>compute_file_sha1\<close>: when the file cannot be opened the code goes on with an
  uninitialised file handle; that case is \<open>None\<close>.
\<close>

definition compute_file_sha1 :: "(string \<Rightarrow> 8 word list) \<Rightarrow> string option \<Rightarrow> string option" where
  "compute_file_sha1 apr_sha1 contents =
     map_option (\<lambda>c. concat (map (\<lambda>i. hex_byte (apr_sha1 c ! i)) [0..<20])) contents"

section \<open>Slashes and tokens: properties\<close>

lemma chomp_slash_snoc [simp]:
  "dav_repos_chomp_slash (s @ [c]) = (if c = CHR ''/'' then dav_repos_chomp_slash s else s @ [c])"
  by (simp add: dav_repos_chomp_slash.simps [of "s @ [c]"])

lemma chomp_slash_Nil [simp]: "dav_repos_chomp_slash [] = []"
  by (simp add: dav_repos_chomp_slash.simps)

lemma chomp_slash_shape:
  "\<exists>n. s = dav_repos_chomp_slash s @ replicate n CHR ''/''"
proof (induction s rule: rev_induct)
  case Nil
  show ?case by simp
next
  case (snoc c s)
  then obtain n where "s = dav_repos_chomp_slash s @ replicate n CHR ''/''" by blast
  then have "s @ ''/'' = dav_repos_chomp_slash s @ replicate (Suc n) CHR ''/''"
    by (metis append.assoc replicate_append_same replicate_Suc)
  then show ?case by (metis append_Nil2 chomp_slash_snoc replicate_empty)
qed

lemma chomp_slash_last: "dav_repos_chomp_slash s \<noteq> [] \<Longrightarrow> last (dav_repos_chomp_slash s) \<noteq> CHR ''/''"
  by (induction s rule: rev_induct) auto

definition single_slashes :: "string \<Rightarrow> bool" where
  "single_slashes s \<longleftrightarrow> \<not> sublist ''//'' s"

lemma single_slashes_snoc:
  "v \<noteq> [] \<Longrightarrow> single_slashes (v @ [c]) \<longleftrightarrow> single_slashes v \<and> \<not> (last v = CHR ''/'' \<and> c = CHR ''/'')"
proof -
  assume "v \<noteq> []"
  then obtain w d where v: "v = w @ [d]" by (metis rev_exhaust)
  have "suffix ''//'' (v @ [c]) \<longleftrightarrow> d = CHR ''/'' \<and> c = CHR ''/''"
    by (auto simp: v suffix_def)
  moreover have "sublist ''//'' (v @ [c]) \<longleftrightarrow> suffix ''//'' (v @ [c]) \<or> sublist ''//'' v"
    by (rule sublist_snoc)
  ultimately show ?thesis unfolding single_slashes_def v by (simp only: last_snoc) blast
qed

lemma single_slashes_short: "length s \<le> 1 \<Longrightarrow> single_slashes s"
  using sublist_length_le [of "''//''" s] by (auto simp: single_slashes_def)

lemma compact_loop_single:
  "v \<noteq> [] \<Longrightarrow> single_slashes v \<Longrightarrow> single_slashes (compact_loop v cs)"
  by (induction v cs rule: compact_loop.induct) (auto simp: single_slashes_snoc)

lemma compact_uri_single: "single_slashes (compact_uri u)"
  by (auto simp: compact_uri_def compact_loop_single single_slashes_short split: list.split)

lemma compact_loop_id:
  "v \<noteq> [] \<Longrightarrow> single_slashes (v @ cs) \<Longrightarrow> compact_loop v cs = v @ cs"
proof (induction v cs rule: compact_loop.induct)
  case (1 v)
  then show ?case by simp
next
  case (2 v c cs)
  from "2.prems"(2) have "single_slashes (v @ [c])"
    unfolding single_slashes_def by (metis append.assoc append_Cons append_Nil sublist_append)
  with "2.prems" have "last v \<noteq> CHR ''/'' \<or> c \<noteq> CHR ''/''" by (simp add: single_slashes_snoc)
  with 2 show ?case by simp
qed

lemma compact_uri_id: "single_slashes u \<Longrightarrow> compact_uri u = u"
  by (auto simp: compact_uri_def compact_loop_id split: list.split)

lemma tokens_double:
  "tokens CHR ''/'' (a @ CHR ''/'' # CHR ''/'' # b) = tokens CHR ''/'' (a @ CHR ''/'' # b)"
proof (induction a rule: length_induct)
  case (1 a)
  show ?case
  proof (cases "CHR ''/'' \<in> set a")
    case True
    then obtain w r where a: "a = w @ CHR ''/'' # r" and w: "CHR ''/'' \<notin> set w"
      by (meson split_list_first)
    with 1 have "tokens CHR ''/'' (r @ CHR ''/'' # CHR ''/'' # b) = tokens CHR ''/'' (r @ CHR ''/'' # b)"
      by simp
    with a w show ?thesis by (cases "w = []") (simp_all add: tokens_word)
  next
    case False
    then show ?thesis by (cases "a = []") (simp_all add: tokens_word)
  qed
qed

lemma compact_loop_tokens:
  "v \<noteq> [] \<Longrightarrow> tokens CHR ''/'' (compact_loop v cs) = tokens CHR ''/'' (v @ cs)"
proof (induction v cs rule: compact_loop.induct)
  case (1 v)
  then show ?case by simp
next
  case (2 v c cs)
  show ?case
  proof (cases "last v = CHR ''/'' \<and> c = CHR ''/''")
    case True
    with "2.prems" obtain w where v: "v = w @ ''/''" by (metis append_butlast_last_id)
    with True 2 show ?thesis by (simp add: tokens_double)
  next
    case False
    with 2 show ?thesis by auto
  qed
qed

lemma compact_uri_tokens: "tokens CHR ''/'' (compact_uri u) = tokens CHR ''/'' u"
  by (auto simp: compact_uri_def compact_loop_tokens split: list.split)

lemma count_tokens_length: "count_tokens n ts = n + length ts"
  by (induction n ts rule: count_tokens.induct) auto

lemma get_num_tokens_length: "get_num_tokens uri = length (tokens CHR ''/'' uri)"
  by (simp add: get_num_tokens_def count_tokens_length)

section \<open>Identifiers: properties\<close>

lemma remove_hyphens_loop_eq:
  "remove_hyphens_loop buf s =
     (if length buf + length (filter (\<lambda>c. c \<noteq> CHR ''-'') s) < 33
      then Some (buf @ filter (\<lambda>c. c \<noteq> CHR ''-'') s) else None)"
  by (induction buf s rule: remove_hyphens_loop.induct) auto

lemma remove_hyphens_eq:
  "remove_hyphens_from_uuid s =
     (if length (filter (\<lambda>c. c \<noteq> CHR ''-'') s) \<le> 32
      then Some (filter (\<lambda>c. c \<noteq> CHR ''-'') s) else None)"
  by (auto simp: remove_hyphens_from_uuid_def remove_hyphens_loop_eq)

lemma add_hyphens_filter:
  "CHR ''-'' \<notin> set s \<Longrightarrow>
   filter (\<lambda>c. c \<noteq> CHR ''-'') (add_hyphens_loop i out s) = filter (\<lambda>c. c \<noteq> CHR ''-'') out @ s"
  by (induction i out s rule: add_hyphens_loop.induct) auto

definition plain_uuid :: "string \<Rightarrow> bool" where
  "plain_uuid s \<longleftrightarrow> length s = 32 \<and> CHR ''-'' \<notin> set s"

lemma hyphens_round_trip:
  "plain_uuid u \<Longrightarrow> \<exists>f. add_hyphens_to_uuid u = Some f \<and> remove_hyphens_from_uuid f = Some u"
  by (auto simp: plain_uuid_def add_hyphens_to_uuid_def remove_hyphens_eq add_hyphens_filter)

section \<open>White space: properties\<close>

lemma strip_tail_snoc [simp]:
  "strip_tail (s @ [c]) = (if isspace c then strip_tail s else Some (s @ [c]))"
  by (simp add: strip_tail.simps [of "s @ [c]"])

lemma strip_tail_Nil [simp]: "strip_tail [] = None"
  by (simp add: strip_tail.simps)

lemma strip_tail_None: "strip_tail s = None \<longleftrightarrow> list_all isspace s"
  by (induction s rule: rev_induct) auto

lemma strip_tail_Some:
  "strip_tail s = Some t \<Longrightarrow> \<exists>w. s = t @ w \<and> list_all isspace w \<and> t \<noteq> [] \<and> \<not> isspace (last t)"
proof (induction s rule: rev_induct)
  case Nil
  then show ?case by simp
next
  case (snoc c s)
  show ?case
  proof (cases "isspace c")
    case True
    with snoc obtain w where "s = t @ w" "list_all isspace w" "t \<noteq> []" "\<not> isspace (last t)"
      by auto
    with True show ?thesis by (intro exI [of _ "w @ [c]"]) auto
  next
    case False
    with snoc.prems show ?thesis by auto
  qed
qed

section \<open>Reversal: properties\<close>

lemma xor_swap_eq:
  assumes "i < length xs" and "j < length xs" and "i \<noteq> j"
  shows "xor_swap xs i j = xs[i := xs ! j, j := xs ! i]"
proof -
  have "(a XOR b) XOR (b XOR (a XOR b)) = b" "b XOR (a XOR b) = a" for a b :: "8 word"
    by (simp_all add: xor.left_commute xor.commute)
  with assms show ?thesis
    by (simp add: xor_swap_def Let_def list_update_swap [of i j])
qed

lemma reverse_loop_eq:
  "length str = start + length mid + length post \<Longrightarrow> start = length pre \<Longrightarrow>
   str = pre @ mid @ post \<Longrightarrow> e = int start + int (length mid) - 1 \<Longrightarrow>
   reverse_loop str start e = pre @ rev mid @ post"
proof (induction "length mid" arbitrary: str start mid pre post e rule: less_induct)
  case less
  show ?case
  proof (cases "length mid \<le> 1")
    case True
    with less.prems have "rev mid = mid" by (cases mid) auto
    with True less.prems show ?thesis by (subst reverse_loop.simps) auto
  next
    case False
    then obtain a ms b where mid: "mid = a # ms @ [b]"
      by (metis One_nat_def Suc_le_eq append_Nil length_Cons length_greater_0_conv less_Suc_eq_le
          list.exhaust list.size(3) nat_le_linear not_less rev_exhaust append_Cons)
    let ?l = "length pre"
    let ?e = "length pre + length ms + 1"
    have e: "e = int ?e" using less.prems mid by simp
    have swap: "xor_swap str start (nat e) = (pre @ [b]) @ ms @ (a # post)"
      using less.prems mid e
      by (simp add: xor_swap_eq nth_append list_update_append nat_add_distrib)
    have "reverse_loop ((pre @ [b]) @ ms @ (a # post)) (Suc start) (e - 1)
        = (pre @ [b]) @ rev ms @ (a # post)"
      by (rule less.hyps) (use less.prems mid e in auto)
    moreover have "int start < e" using less.prems mid by simp
    ultimately show ?thesis using mid swap by (simp add: reverse_loop.simps [of str])
  qed
qed

lemma reverse_string_rev: "reverse_string str = rev str"
  using reverse_loop_eq [of str 0 str "[]" "[]" "int (length str) - 1"]
  by (simp add: reverse_string_def)

section \<open>Properties\<close>

text \<open>C37: \<open>compact_uri\<close> yields a URI with no two slashes in a row and the same segments, and
  applying it again changes nothing.\<close>

theorem compact_uri_normal_form:
  "single_slashes (compact_uri u) \<and> tokens CHR ''/'' (compact_uri u) = tokens CHR ''/'' u
   \<and> compact_uri (compact_uri u) = compact_uri u"
  by (simp add: compact_uri_single compact_uri_tokens compact_uri_id)

text \<open>Adding hyphens to a 32 character identifier and removing them again returns the
  identifier.\<close>

theorem uuid_hyphens_round_trip:
  assumes "plain_uuid u"
  shows "\<exists>f. add_hyphens_to_uuid u = Some f \<and> length f = 36 \<and> remove_hyphens_from_uuid f = Some u"
proof -
  have len: "length (add_hyphens_loop i out s) = length out + length s
      + length (filter (\<lambda>j. j = 8 \<or> j = 12 \<or> j = 16 \<or> j = 20) [i..<i + length s])" for i out s
  proof (induction i out s rule: add_hyphens_loop.induct)
    case (2 i out c cs)
    have "[i..<i + length (c # cs)] = i # [Suc i..<Suc i + length cs]"
      by (simp only: list.size add_Suc_right add_Suc upt_rec [of i]) simp
    with 2 show ?case by simp
  qed simp
  from hyphens_round_trip [OF assms] obtain f where f: "add_hyphens_to_uuid u = Some f"
    "remove_hyphens_from_uuid f = Some u" by blast
  then have "f = add_hyphens_loop 0 [] u" using assms by (auto simp: add_hyphens_to_uuid_def plain_uuid_def)
  moreover have "filter (\<lambda>j. j = 8 \<or> j = 12 \<or> j = 16 \<or> j = 20) [0..<32] = [8, 12, 16, 20::nat]" by code_simp
  ultimately have "length f = 36" using assms by (simp add: len plain_uuid_def)
  with f show ?thesis by blast
qed

theorem uuid_hyphens_round_trip_witness:
  "plain_uuid (replicate 32 CHR ''a'') \<and>
   (\<exists>f. add_hyphens_to_uuid (replicate 32 CHR ''a'') = Some f \<and> length f = 36 \<and>
     remove_hyphens_from_uuid f = Some (replicate 32 CHR ''a''))"
proof -
  have "plain_uuid (replicate 32 CHR ''a'')" by (simp add: plain_uuid_def)
  with uuid_hyphens_round_trip [OF this] show ?thesis by blast
qed

text \<open>C37: \<open>remove_hyphens_from_uuid\<close> stays inside its 33 byte buffer exactly when the string has at
  most 32 characters other than hyphens, and then returns those characters. (The lock token
  of a request reaches it without a check of its length.)\<close>

theorem remove_hyphens_bounds:
  "remove_hyphens_from_uuid s =
     (if length (filter (\<lambda>c. c \<noteq> CHR ''-'') s) \<le> 32
      then Some (filter (\<lambda>c. c \<noteq> CHR ''-'') s) else None)"
  by (rule remove_hyphens_eq)

text \<open>C25: \<open>reverse_string\<close>, which exchanges bytes in place with three exclusive ors, reverses the
  string; twice is the identity.\<close>

theorem reverse_string_correct:
  "reverse_string str = rev str \<and> reverse_string (reverse_string str) = str"
  by (simp add: reverse_string_rev)

end
