(* ===== verification/Dbd.thy ===== *)
theory Dbd
  imports Prelude
begin

text \<open>
  Model of the statement layer \<^verbatim>\<open>dbms_dbd.c\<close>: a query template with question marks for
  its parameters, the setters of the parameters, and the assembly of the statement
  text in a buffer whose size is computed beforehand. \<open>apr_dbd_escape\<close> belongs to the
  database driver and is a parameter.
\<close>

datatype query_state = STATE_PREPARED | STATE_EXECUTED | STATE_ERROR

record dav_repos_query =
  query_string :: string
  parameters :: "string option list"
  param_count :: nat
  qstate :: query_state

definition dbms_prepare :: "string \<Rightarrow> dav_repos_query" where
  "dbms_prepare query =
     (let n = length (filter (\<lambda>c. c = CHR ''?'') query)
      in \<lparr>query_string = query, parameters = replicate n None, param_count = n,
          qstate = STATE_PREPARED\<rparr>)"

definition dbms_set_param :: "dav_repos_query \<Rightarrow> int \<Rightarrow> string \<Rightarrow> int \<times> dav_repos_query" where
  "dbms_set_param q num v =
     (if num < 1 \<or> int (param_count q) < num then (- 1, q)
      else (0, q\<lparr>parameters := (parameters q)[nat (num - 1) := Some v]\<rparr>))"

definition dbms_set_int :: "dav_repos_query \<Rightarrow> int \<Rightarrow> int \<Rightarrow> int \<times> dav_repos_query" where
  "dbms_set_int q num v = dbms_set_param q num (show_long v)"

definition dbms_set_string ::
  "(string \<Rightarrow> string) \<Rightarrow> dav_repos_query \<Rightarrow> int \<Rightarrow> string option \<Rightarrow> int \<times> dav_repos_query" where
  "dbms_set_string apr_dbd_escape q num v =
     dbms_set_param q num
       (case v of None \<Rightarrow> ''null''
        | Some s \<Rightarrow> [CHR 0x27] @ apr_dbd_escape s @ [CHR 0x27])"

text \<open>
  The first loop of \<open>dbms_execute\<close>: stop at a parameter that was never set, else add up
  the size of the statement (\<open>strlen(parameters[i]) - 1\<close> for each, since the question
  mark goes away).
\<close>

fun full_length :: "int \<Rightarrow> string option list \<Rightarrow> int option" where
  "full_length n [] = Some n"
| "full_length n (None # ps) = None"
| "full_length n (Some p # ps) = full_length (n + int (length p) - 1) ps"

text \<open>
  The assembly loop: \<open>buf\<close> is what has been written, \<open>k\<close> the next parameter, \<open>cap\<close> the
  size of \<open>escquery\<close>. A write that does not fit and a read of \<open>parameters[k]\<close> past the
  end are \<open>None\<close>.
\<close>

fun fill_loop :: "int \<Rightarrow> string list \<Rightarrow> nat \<Rightarrow> string \<Rightarrow> string \<Rightarrow> string option" where
  "fill_loop cap ps k buf [] = (if int (length buf) < cap then Some buf else None)"
| "fill_loop cap ps k buf (c # cs) =
     (if c = CHR ''?'' then
        (if k < length ps \<and> int (length buf + length (ps ! k)) < cap
         then fill_loop cap ps (Suc k) (buf @ ps ! k) cs else None)
      else if int (length buf) < cap then fill_loop cap ps k (buf @ [c]) cs else None)"

datatype assembled = Param_unset | Out_of_bounds | Statement string

definition assemble :: "dav_repos_query \<Rightarrow> assembled" where
  "assemble q =
     (case full_length (int (length (query_string q))) (parameters q) of
        None \<Rightarrow> Param_unset
      | Some n \<Rightarrow>
          if param_count q = 0 then Statement (query_string q)
          else (case fill_loop (n + 1) (map the (parameters q)) 0 [] (query_string q) of
                  None \<Rightarrow> Out_of_bounds
                | Some s \<Rightarrow> Statement s))"

definition lower :: "char \<Rightarrow> char" where
  "lower c = (if 65 \<le> (of_char c :: nat) \<and> (of_char c :: nat) \<le> 90 then char_of (of_char c + 32 :: nat) else c)"

definition is_select :: "string \<Rightarrow> bool" where
  "is_select s \<longleftrightarrow> map lower (take 6 s) = ''select'' \<or> map lower (take 4 s) = ''with''
     \<or> sublist '' RETURNING '' s"

text \<open>
  \<open>dbms_execute\<close>: with a parameter unset it returns 0 and leaves the query in the
  prepared state; otherwise the driver's answer decides (\<open>run\<close> is the driver, its error
  code 0 for success). \<open>None\<close> is a write outside \<open>escquery\<close>.
\<close>

definition dbms_execute ::
  "(bool \<Rightarrow> string \<Rightarrow> int) \<Rightarrow> dav_repos_query \<Rightarrow> (int \<times> dav_repos_query) option" where
  "dbms_execute run q =
     (case assemble q of
        Param_unset \<Rightarrow> Some (0, q)
      | Out_of_bounds \<Rightarrow> None
      | Statement s \<Rightarrow>
          let e = run (is_select s) s
          in Some (if e \<noteq> 0 then (e, q\<lparr>qstate := STATE_ERROR\<rparr>)
                   else (0, q\<lparr>qstate := STATE_EXECUTED\<rparr>)))"

section \<open>Properties\<close>

definition qmarks :: "string \<Rightarrow> nat" where
  "qmarks s = length (filter (\<lambda>c. c = CHR ''?'') s)"

lemma qmarks_simps [simp]:
  "qmarks [] = 0"
  "qmarks (c # s) = (if c = CHR ''?'' then Suc (qmarks s) else qmarks s)"
  by (simp_all add: qmarks_def)

text \<open>The invariant of a query: as many parameter slots as question marks.\<close>

definition query_inv :: "dav_repos_query \<Rightarrow> bool" where
  "query_inv q \<longleftrightarrow> param_count q = qmarks (query_string q) \<and> length (parameters q) = param_count q"

lemma query_inv_prepare [simp, intro]: "query_inv (dbms_prepare s)"
  by (simp add: query_inv_def dbms_prepare_def Let_def qmarks_def)

lemma query_inv_set_param: "query_inv q \<Longrightarrow> query_inv (snd (dbms_set_param q n v))"
  by (simp add: query_inv_def dbms_set_param_def)

lemma query_inv_set_int [intro]: "query_inv q \<Longrightarrow> query_inv (snd (dbms_set_int q n v))"
  by (simp add: dbms_set_int_def query_inv_set_param)

lemma query_inv_set_string [intro]: "query_inv q \<Longrightarrow> query_inv (snd (dbms_set_string e q n v))"
  by (simp add: dbms_set_string_def query_inv_set_param)

fun expand :: "string \<Rightarrow> string list \<Rightarrow> string" where
  "expand [] ps = []"
| "expand (c # cs) ps =
     (if c = CHR ''?'' then hd ps @ expand cs (tl ps) else c # expand cs ps)"

lemma full_length_Some:
  "full_length n ps = Some m \<longleftrightarrow>
     None \<notin> set ps \<and> m = n + (\<Sum>p \<leftarrow> map the ps. int (length p) - 1)"
  by (induction n ps rule: full_length.induct) auto

lemma full_length_None: "full_length n ps = None \<longleftrightarrow> None \<in> set ps"
  by (induction n ps rule: full_length.induct) auto

lemma length_expand:
  "qmarks s = length ps \<Longrightarrow>
   int (length (expand s ps)) = int (length s) + (\<Sum>p \<leftarrow> ps. int (length p) - 1)"
proof (induction s arbitrary: ps)
  case Nil
  then show ?case by simp
next
  case (Cons c s)
  then show ?case by (cases ps) (auto split: if_splits)
qed

lemma fill_loop_eq:
  "qmarks s = length ps - k \<Longrightarrow> k \<le> length ps \<Longrightarrow>
   int (length (buf @ expand s (drop k ps))) < cap \<Longrightarrow>
   fill_loop cap ps k buf s = Some (buf @ expand s (drop k ps))"
proof (induction s arbitrary: k buf)
  case Nil
  then show ?case by simp
next
  case (Cons c s)
  show ?case
  proof (cases "c = CHR ''?''")
    case True
    with Cons.prems have k: "k < length ps" by auto
    then have "drop k ps = ps ! k # drop (Suc k) ps" by (rule Cons_nth_drop_Suc [symmetric])
    with True k Cons.prems Cons.IH [of "Suc k" "buf @ ps ! k"] show ?thesis by simp
  next
    case False
    with Cons.prems Cons.IH [of k "buf @ [c]"] show ?thesis by simp
  qed
qed

lemma expand_no_marks: "qmarks s = 0 \<Longrightarrow> expand s [] = s"
  by (induction s) (auto split: if_splits)

lemma assemble_eq:
  assumes "query_inv q"
  shows "assemble q =
     (if None \<in> set (parameters q) then Param_unset
      else Statement (expand (query_string q) (map the (parameters q))))"
proof (cases "None \<in> set (parameters q)")
  case True
  then have "full_length (int (length (query_string q))) (parameters q) = None"
    by (simp add: full_length_None)
  with True show ?thesis by (simp add: assemble_def)
next
  case False
  let ?ps = "map the (parameters q)"
  let ?n = "int (length (query_string q)) + (\<Sum>p \<leftarrow> ?ps. int (length p) - 1)"
  from False have n: "full_length (int (length (query_string q))) (parameters q) = Some ?n"
    by (simp add: full_length_Some)
  from assms have marks: "qmarks (query_string q) = length ?ps" by (simp add: query_inv_def)
  show ?thesis
  proof (cases "param_count q = 0")
    case True
    with assms have "qmarks (query_string q) = 0" "parameters q = []"
      by (auto simp: query_inv_def)
    with True False n show ?thesis by (simp add: assemble_def expand_no_marks)
  next
    case cnt: False
    have "fill_loop (?n + 1) ?ps 0 [] (query_string q) = Some (expand (query_string q) ?ps)"
      using marks fill_loop_eq [of "query_string q" ?ps 0 "[]" "?n + 1"]
      by (simp add: length_expand)
    with cnt False n show ?thesis by (simp add: assemble_def)
  qed
qed

lemma expand_word: "qmarks w = 0 \<Longrightarrow> expand (w @ s) ps = w @ expand s ps"
  by (induction w) (auto split: if_splits)

text \<open>The statement text is the template's parts with the parameters between them.\<close>

fun interleave :: "string list \<Rightarrow> string list \<Rightarrow> string" where
  "interleave [] vs = []"
| "interleave (w # ws) [] = w"
| "interleave (w # ws) (v # vs) = w @ v @ interleave ws vs"

lemma expand_interleave:
  "length ws = Suc (length ps) \<Longrightarrow> (\<And>w. w \<in> set ws \<Longrightarrow> qmarks w = 0) \<Longrightarrow>
   expand (joinc CHR ''?'' ws) ps = interleave ws ps"
proof (induction ws ps rule: interleave.induct)
  case (1 vs)
  then show ?case by simp
next
  case (2 w ws)
  then show ?case using expand_word [of w "[]" "[]"] by simp
next
  case (3 w ws v vs)
  then obtain u us where ws: "ws = u # us" by (cases ws) auto
  with 3 show ?case by (simp add: expand_word)
qed

text \<open>The queries that the program can build: a template, then any sequence of setters.\<close>

inductive built :: "(string \<Rightarrow> string) \<Rightarrow> string \<Rightarrow> dav_repos_query \<Rightarrow> bool" for esc tmpl where
  prepared: "built esc tmpl (dbms_prepare tmpl)"
| int_set: "built esc tmpl q \<Longrightarrow> built esc tmpl (snd (dbms_set_int q n i))"
| string_set: "built esc tmpl q \<Longrightarrow> built esc tmpl (snd (dbms_set_string esc q n v))"

lemma set_param_template [simp]:
  "query_string (snd (dbms_set_int q n i)) = query_string q"
  "query_string (snd (dbms_set_string esc q n v)) = query_string q"
  by (simp_all add: dbms_set_int_def dbms_set_string_def dbms_set_param_def)

lemma built_inv: "built esc tmpl q \<Longrightarrow> query_inv q \<and> query_string q = tmpl"
proof (induction rule: built.induct)
  case prepared
  show ?case by (simp add: query_inv_prepare) (simp add: dbms_prepare_def Let_def)
qed auto



end
