(* ===== verification/Store.thy ===== *)
theory Store
  imports Prelude
begin

text \<open>
  The database of the repository (\<^verbatim>\<open>create_postgres_full.sql\<close> and the migrations under
  \<^verbatim>\<open>database/\<close>) as a record of tables, each a list of rows in storage order, and the
  effect of the statements the code sends to it: constraints that make a statement
  fail, and the deletions that a foreign key cascades. A query without \<open>ORDER BY\<close>
  returns its rows in storage order.

  A statement can also fail for reasons outside the program (the connection, another
  transaction). The field \<open>fault\<close> is the schedule of such failures: its head says
  whether the next statement fails; when it is empty, none does.
\<close>

type_synonym id = int
type_synonym datetime = string

section \<open>Rows\<close>

record resource_row =
  r_id :: id
  r_uuid :: string
  r_created_at :: datetime
  r_displayname :: "string option"
  r_contentlanguage :: string
  r_comment :: "string option"
  r_type :: string
  r_owner_id :: id
  r_creator_id :: id
  r_limebar_state :: "string option"
  r_lastmodified :: datetime

record bind_row =
  b_id :: id
  b_name :: string
  b_collection_id :: id
  b_resource_id :: id
  b_updated_at :: datetime

record lock_row =
  l_id :: id
  l_uuid :: string
  l_resource_id :: id
  l_owner_id :: id
  l_form :: string
  l_depth :: int
  l_expires_at :: datetime
  l_owner_info :: string
  l_lockroot :: string

record ace_row =
  a_id :: id
  a_grantdeny :: string
  a_protected :: bool
  a_resource_id :: id
  a_principal_id :: id
  a_property_namespace_id :: "id option"
  a_property_name :: "string option"

record privilege_row =
  v_id :: id
  v_name :: string
  v_ns :: id
  v_lft :: int
  v_rgt :: int

record media_row =
  m_resource_id :: id
  m_size :: int
  m_mimetype :: string
  m_sha1 :: string
  m_updated_at :: datetime

record property_row =
  p_id :: id
  p_namespace_id :: id
  p_name :: string
  p_resource_id :: id
  p_xmlinfo :: string
  p_value :: string

record vcr_row =
  c_resource_id :: id
  c_checked_id :: id
  c_vhr_id :: id
  c_checked_state :: string
  c_version_type :: int
  c_checkin_on_unlock :: int

record version_row =
  n_resource_id :: id
  n_number :: int
  n_vcr_id :: "id option"
  n_vhr_id :: id

record user_row =
  u_principal_id :: id
  u_pwhash :: string
  u_email :: string
  u_pwhash_type :: string
  u_login_to_all :: bool

record domain_row =
  d_id :: id
  d_principal_id :: id
  d_domain :: string
  d_path :: string

record db =
  resources :: "resource_row list"
  collections :: "(id \<times> int) list"
  media :: "media_row list"
  quota :: "(id \<times> int \<times> int) list"
  binds :: "bind_row list"
  cleanup :: "(id \<times> id) list"
  locks :: "lock_row list"
  locks_resources :: "(id \<times> id) list"
  binds_locks :: "(id \<times> id) list"
  principals :: "(id \<times> string) list"
  users :: "user_row list"
  user_domains :: "domain_row list"
  group_members :: "(id \<times> id \<times> id) list"
  transitive_group_members :: "(id \<times> id \<times> int) list"
  aces :: "ace_row list"
  dav_aces_privileges :: "(id \<times> id) list"
  acl_privileges :: "privilege_row list"
  acl_inheritance :: "(id \<times> string) list"
  namespaces :: "(id \<times> string) list"
  properties :: "property_row list"
  redirectrefs :: "(id \<times> string \<times> string \<times> datetime) list"
  vcrs :: "vcr_row list"
  versions :: "version_row list"
  vhrs :: "(id \<times> id) list"
  next_resource :: id
  next_bind :: id
  next_lock :: id
  next_ace :: id
  next_cleanup :: id
  next_member :: id
  next_ns :: id
  next_property :: id
  next_domain :: id
  fault :: "bool list"

definition empty_db :: db where
  "empty_db = \<lparr>resources = [], collections = [], media = [], quota = [], binds = [], cleanup = [],
     locks = [], locks_resources = [], binds_locks = [], principals = [], users = [], user_domains = [],
     group_members = [], transitive_group_members = [], aces = [], dav_aces_privileges = [],
     acl_privileges = [], acl_inheritance = [], namespaces = [], properties = [], redirectrefs = [],
     vcrs = [], versions = [], vhrs = [], next_resource = 1, next_bind = 1,
     next_lock = 1, next_ace = 1, next_cleanup = 1, next_member = 1, next_ns = 1,
     next_property = 1, next_domain = 1, fault = []\<rparr>"

definition a_resource :: "id \<Rightarrow> string \<Rightarrow> resource_row" where
  "a_resource i t = \<lparr>r_id = i, r_uuid = [], r_created_at = ''2006-07-14 13:15:49'', r_displayname = None,
     r_contentlanguage = ''en'', r_comment = None, r_type = t, r_owner_id = 1, r_creator_id = 1,
     r_limebar_state = None, r_lastmodified = ''2006-07-14 13:15:49''\<rparr>"

definition a_user :: "id \<Rightarrow> user_row" where
  "a_user i = \<lparr>u_principal_id = i, u_pwhash = replicate 32 CHR ''0'', u_email = ''a@b.c'', u_pwhash_type = ''Email'',
     u_login_to_all = True\<rparr>"

section \<open>Running a statement\<close>

text \<open>
  \<open>run_stmt f s\<close> sends a statement whose effect is \<open>f\<close> (\<open>None\<close> when a constraint
  refuses it). The boolean is the C result of \<open>dbms_execute\<close>: true for an error, and
  then no table has changed.
\<close>

definition next_fault :: "db \<Rightarrow> bool \<times> db" where
  "next_fault s = (case fault s of [] \<Rightarrow> (False, s) | b # bs \<Rightarrow> (b, s\<lparr>fault := bs\<rparr>))"

definition run_stmt :: "(db \<Rightarrow> db option) \<Rightarrow> db \<Rightarrow> bool \<times> db" where
  "run_stmt f s =
     (case next_fault s of
        (True, s') \<Rightarrow> (True, s')
      | (False, s') \<Rightarrow> (case f s' of None \<Rightarrow> (True, s') | Some s'' \<Rightarrow> (False, s'')))"

abbreviation run_select :: "db \<Rightarrow> bool \<times> db" where
  "run_select \<equiv> run_stmt Some"

definition tables_eq :: "db \<Rightarrow> db \<Rightarrow> bool" where
  "tables_eq s t \<longleftrightarrow> s\<lparr>fault := []\<rparr> = t\<lparr>fault := []\<rparr>"

lemma tables_eq_refl [simp]: "tables_eq s s"
  by (simp add: tables_eq_def)

lemma tables_eq_sym: "tables_eq s t \<Longrightarrow> tables_eq t s"
  by (simp add: tables_eq_def)

lemma tables_eq_trans [trans]: "tables_eq s t \<Longrightarrow> tables_eq t u \<Longrightarrow> tables_eq s u"
  by (simp add: tables_eq_def)

lemma tables_eq_fault [simp]: "tables_eq (s\<lparr>fault := f\<rparr>) s"
  by (simp add: tables_eq_def)

text \<open>What two databases with the same tables share, one equation per table.\<close>

lemma tables_eqD:
  assumes "tables_eq s t"
  shows "resources s = resources t" "collections s = collections t" "media s = media t"
    "quota s = quota t" "binds s = binds t" "cleanup s = cleanup t" "locks s = locks t"
    "locks_resources s = locks_resources t" "binds_locks s = binds_locks t"
    "principals s = principals t" "users s = users t" "group_members s = group_members t"
    "transitive_group_members s = transitive_group_members t" "aces s = aces t"
    "dav_aces_privileges s = dav_aces_privileges t" "acl_privileges s = acl_privileges t"
    "acl_inheritance s = acl_inheritance t" "namespaces s = namespaces t"
    "properties s = properties t" "redirectrefs s = redirectrefs t" "vcrs s = vcrs t"
    "versions s = versions t" "vhrs s = vhrs t" "next_resource s = next_resource t"
    "next_property s = next_property t" "next_cleanup s = next_cleanup t"
    "next_bind s = next_bind t" "next_ace s = next_ace t" "next_lock s = next_lock t"
    "user_domains s = user_domains t" "next_domain s = next_domain t"
proof -
  from assms have *: "s\<lparr>fault := []\<rparr> = t\<lparr>fault := []\<rparr>" by (simp add: tables_eq_def)
  show "resources s = resources t" using arg_cong [OF *, of resources] by simp
  show "collections s = collections t" using arg_cong [OF *, of collections] by simp
  show "media s = media t" using arg_cong [OF *, of media] by simp
  show "quota s = quota t" using arg_cong [OF *, of quota] by simp
  show "binds s = binds t" using arg_cong [OF *, of binds] by simp
  show "cleanup s = cleanup t" using arg_cong [OF *, of cleanup] by simp
  show "locks s = locks t" using arg_cong [OF *, of locks] by simp
  show "locks_resources s = locks_resources t" using arg_cong [OF *, of locks_resources] by simp
  show "binds_locks s = binds_locks t" using arg_cong [OF *, of binds_locks] by simp
  show "principals s = principals t" using arg_cong [OF *, of principals] by simp
  show "users s = users t" using arg_cong [OF *, of users] by simp
  show "group_members s = group_members t" using arg_cong [OF *, of group_members] by simp
  show "transitive_group_members s = transitive_group_members t"
    using arg_cong [OF *, of transitive_group_members] by simp
  show "aces s = aces t" using arg_cong [OF *, of aces] by simp
  show "dav_aces_privileges s = dav_aces_privileges t"
    using arg_cong [OF *, of dav_aces_privileges] by simp
  show "acl_privileges s = acl_privileges t" using arg_cong [OF *, of acl_privileges] by simp
  show "acl_inheritance s = acl_inheritance t" using arg_cong [OF *, of acl_inheritance] by simp
  show "namespaces s = namespaces t" using arg_cong [OF *, of namespaces] by simp
  show "properties s = properties t" using arg_cong [OF *, of properties] by simp
  show "redirectrefs s = redirectrefs t" using arg_cong [OF *, of redirectrefs] by simp
  show "vcrs s = vcrs t" using arg_cong [OF *, of vcrs] by simp
  show "versions s = versions t" using arg_cong [OF *, of versions] by simp
  show "vhrs s = vhrs t" using arg_cong [OF *, of vhrs] by simp
  show "next_resource s = next_resource t" using arg_cong [OF *, of next_resource] by simp
  show "next_property s = next_property t" using arg_cong [OF *, of next_property] by simp
  show "next_cleanup s = next_cleanup t" using arg_cong [OF *, of next_cleanup] by simp
  show "next_bind s = next_bind t" using arg_cong [OF *, of next_bind] by simp
  show "next_ace s = next_ace t" using arg_cong [OF *, of next_ace] by simp
  show "next_lock s = next_lock t" using arg_cong [OF *, of next_lock] by simp
  show "user_domains s = user_domains t" using arg_cong [OF *, of user_domains] by simp
  show "next_domain s = next_domain t" using arg_cong [OF *, of next_domain] by simp
qed

lemma next_fault_cases:
  obtains (ok) s' where "next_fault s = (False, s')" "tables_eq s' s"
  | (fail) s' where "next_fault s = (True, s')" "tables_eq s' s"
proof (cases "fault s")
  case Nil
  then have "next_fault s = (False, s)" by (simp add: next_fault_def)
  then show ?thesis using ok [of s] by simp
next
  case (Cons b bs)
  then have "next_fault s = (b, s\<lparr>fault := bs\<rparr>)" by (simp add: next_fault_def)
  then show ?thesis using ok [of "s\<lparr>fault := bs\<rparr>"] fail [of "s\<lparr>fault := bs\<rparr>"] by (cases b) simp_all
qed

lemma run_stmt_healthy [stmt_simps]:
  "fault s = [] \<Longrightarrow> run_stmt f s = (case f s of None \<Rightarrow> (True, s) | Some s' \<Rightarrow> (False, s'))"
  by (simp add: run_stmt_def next_fault_def)

text \<open>A failing statement leaves the tables alone; a successful one has its effect.\<close>

lemma run_stmt_error:
  assumes "run_stmt f s = (True, s')"
  shows "tables_eq s' s"
proof (rule next_fault_cases [of s])
  fix t
  assume "next_fault s = (False, t)" and "tables_eq t s"
  with assms show ?thesis by (simp add: run_stmt_def split: option.splits)
next
  fix t
  assume "next_fault s = (True, t)" and "tables_eq t s"
  with assms show ?thesis by (simp add: run_stmt_def)
qed

lemma run_stmt_ok:
  assumes "run_stmt f s = (False, s')"
  obtains t where "tables_eq t s" "f t = Some s'"
proof (rule next_fault_cases [of s])
  fix t
  assume "next_fault s = (False, t)" and "tables_eq t s"
  with assms that show ?thesis by (simp add: run_stmt_def split: option.splits)
next
  fix t
  assume "next_fault s = (True, t)" and "tables_eq t s"
  with assms show ?thesis by (simp add: run_stmt_def)
qed

lemma run_select_same: "run_select s = (b, s') \<Longrightarrow> tables_eq s' s"
  by (cases b) (auto dest: run_stmt_error elim: run_stmt_ok)

text \<open>
  The C idiom \<open>if (dbms_execute(q)) err = dav_new_error(500, msg)\<close> around one statement.
\<close>

definition exec_or_500 :: "string \<Rightarrow> (db \<Rightarrow> db option) \<Rightarrow> db \<Rightarrow> dav_error option \<times> db" where
  "exec_or_500 msg f s =
     (case run_stmt f s of
        (True, s') \<Rightarrow> (Some (dav_new_error HTTP_INTERNAL_SERVER_ERROR msg), s')
      | (False, s') \<Rightarrow> (None, s'))"

lemma exec_or_500_healthy [stmt_simps]:
  "fault s = [] \<Longrightarrow> exec_or_500 msg f s =
     (case f s of None \<Rightarrow> (Some (dav_new_error HTTP_INTERNAL_SERVER_ERROR msg), s)
      | Some s' \<Rightarrow> (None, s'))"
  by (simp add: exec_or_500_def run_stmt_healthy split: option.split)

lemma exec_or_500_error:
  "exec_or_500 msg f s = (Some e, s') \<Longrightarrow>
     e = dav_new_error HTTP_INTERNAL_SERVER_ERROR msg \<and> tables_eq s' s"
  by (auto simp: exec_or_500_def dest: run_stmt_error split: prod.splits bool.splits)

lemma exec_or_500_ok:
  assumes "exec_or_500 msg f s = (None, s')"
  obtains t where "tables_eq t s" "f t = Some s'"
  using assms by (auto simp: exec_or_500_def split: prod.splits bool.splits elim: run_stmt_ok)

text \<open>An invariant of the tables that the statement keeps is kept whatever the outcome.\<close>

lemma exec_or_500_inv:
  assumes "exec_or_500 msg f s = (e, s')" and "\<And>t. tables_eq t s \<Longrightarrow> I t"
    and "\<And>t u. I t \<Longrightarrow> f t = Some u \<Longrightarrow> I u"
  shows "I s'"
proof (cases e)
  case None
  with assms(1) have "exec_or_500 msg f s = (None, s')" by simp
  then obtain t where "tables_eq t s" "f t = Some s'" by (rule exec_or_500_ok)
  with assms(2,3) show ?thesis by blast
next
  case (Some x)
  with assms(1) have "tables_eq s' s" by (auto dest: exec_or_500_error)
  with assms(2) show ?thesis by blast
qed

section \<open>Keys\<close>

definition resource_ids :: "db \<Rightarrow> id set" where
  "resource_ids s = r_id ` set (resources s)"

definition user_ids :: "db \<Rightarrow> id set" where
  "user_ids s = u_principal_id ` set (users s)"

definition principal_ids :: "db \<Rightarrow> id set" where
  "principal_ids s = fst ` set (principals s)"

section \<open>Cascading deletions\<close>

text \<open>One function per table, named by the foreign keys that point to it.\<close>

definition delete_locks :: "(lock_row \<Rightarrow> bool) \<Rightarrow> db \<Rightarrow> db" where
  "delete_locks P s =
     (let gone = l_id ` set (filter P (locks s))
      in s\<lparr>locks := filter (\<lambda>l. \<not> P l) (locks s),
           locks_resources := filter (\<lambda>(l, r). l \<notin> gone) (locks_resources s),
           binds_locks := filter (\<lambda>(l, b). l \<notin> gone) (binds_locks s)\<rparr>)"

definition delete_binds :: "(bind_row \<Rightarrow> bool) \<Rightarrow> db \<Rightarrow> db" where
  "delete_binds P s =
     (let gone = b_id ` set (filter P (binds s))
      in s\<lparr>binds := filter (\<lambda>b. \<not> P b) (binds s),
           binds_locks := filter (\<lambda>(l, b). b \<notin> gone) (binds_locks s)\<rparr>)"

definition delete_aces :: "(ace_row \<Rightarrow> bool) \<Rightarrow> db \<Rightarrow> db" where
  "delete_aces P s =
     (let gone = a_id ` set (filter P (aces s))
      in s\<lparr>aces := filter (\<lambda>a. \<not> P a) (aces s),
           dav_aces_privileges := filter (\<lambda>(a, v). a \<notin> gone) (dav_aces_privileges s)\<rparr>)"

definition delete_principals :: "(id \<Rightarrow> bool) \<Rightarrow> db \<Rightarrow> db" where
  "delete_principals P s =
     delete_locks (\<lambda>l. P (l_owner_id l))
       (s\<lparr>principals := filter (\<lambda>(i, n). \<not> P i) (principals s),
          users := filter (\<lambda>u. \<not> P (u_principal_id u)) (users s),
          user_domains := filter (\<lambda>d. \<not> P (d_principal_id d)) (user_domains s),
          quota := filter (\<lambda>(i, q). \<not> P i) (quota s),
          group_members := filter (\<lambda>(i, g, m). \<not> P g \<and> \<not> P m) (group_members s),
          transitive_group_members :=
            filter (\<lambda>(g, m, n). \<not> P g \<and> \<not> P m) (transitive_group_members s)\<rparr>)"

text \<open>
  The rows of versions and of version histories delete each other: a version goes with
  its history, a history with its root version. The rows that go are found in as many
  rounds as there are rows, since each round but the last finds a new one. A
  version-controlled resource loses its row with its history or its checked version, and
  a version whose resource has lost that row forgets it (\<open>ON DELETE SET NULL\<close>).
\<close>

fun deltav_gone :: "nat \<Rightarrow> (id \<Rightarrow> bool) \<Rightarrow> db \<Rightarrow> id list \<times> id list" where
  "deltav_gone 0 P s = ([], [])"
| "deltav_gone (Suc k) P s =
     (case deltav_gone k P s of
        (gv, gh) \<Rightarrow>
          (map n_resource_id (filter (\<lambda>v. P (n_resource_id v) \<or> n_vhr_id v \<in> set gh) (versions s)),
           map fst (filter (\<lambda>(h, root). P h \<or> root \<in> set gv) (vhrs s))))"

definition delete_deltav :: "(id \<Rightarrow> bool) \<Rightarrow> db \<Rightarrow> db" where
  "delete_deltav P s =
     (case deltav_gone (Suc (length (versions s) + length (vhrs s))) P s of
        (gv, gh) \<Rightarrow>
          (let gone = (\<lambda>c. P (c_resource_id c) \<or> c_checked_id c \<in> set gv \<or> c_vhr_id c \<in> set gh);
               lost = map c_resource_id (filter gone (vcrs s));
               forget = (\<lambda>v. case n_vcr_id v of None \<Rightarrow> v
                             | Some c \<Rightarrow> if c \<in> set lost then v\<lparr>n_vcr_id := None\<rparr> else v)
           in s\<lparr>vcrs := filter (\<lambda>c. \<not> gone c) (vcrs s),
                versions := map forget (filter (\<lambda>v. n_resource_id v \<notin> set gv) (versions s)),
                vhrs := filter (\<lambda>(h, root). h \<notin> set gh) (vhrs s)\<rparr>))"

text \<open>
  Deleting resources: everything that refers to them goes too, except that the owner
  and creator of a remaining resource must remain (a key without a cascade).
\<close>

definition delete_resources :: "(id \<Rightarrow> bool) \<Rightarrow> db \<Rightarrow> db option" where
  "delete_resources P s =
     (let left = filter (\<lambda>r. \<not> P (r_id r)) (resources s);
          gone_prin = (\<lambda>i. P i \<and> i \<in> principal_ids s)
      in if list_ex (\<lambda>r. gone_prin (r_owner_id r) \<or> gone_prin (r_creator_id r)) left then None
         else Some
           (delete_principals P
             (delete_deltav P (delete_locks (\<lambda>l. P (l_resource_id l))
               (delete_binds (\<lambda>b. P (b_collection_id b) \<or> P (b_resource_id b))
                 (delete_aces (\<lambda>a. P (a_resource_id a))
                   (s\<lparr>resources := left,
                      collections := filter (\<lambda>(i, v). \<not> P i) (collections s),
                      media := filter (\<lambda>m. \<not> P (m_resource_id m)) (media s),
                      properties := filter (\<lambda>p. \<not> P (p_resource_id p)) (properties s),
                      redirectrefs := filter (\<lambda>(i, d). \<not> P i) (redirectrefs s),
                      cleanup := filter (\<lambda>(i, r). \<not> P r) (cleanup s),
                      locks_resources := filter (\<lambda>(l, r). \<not> P r) (locks_resources s),
                      acl_inheritance := filter (\<lambda>(i, p). \<not> P i) (acl_inheritance s)\<rparr>)))))))"

lemma delete_locks_select [row_simps]:
  "resources (delete_locks P s) = resources s"
  "binds (delete_locks P s) = binds s"
  "locks (delete_locks P s) = filter (\<lambda>l. \<not> P l) (locks s)"
  "locks_resources (delete_locks P s) =
     filter (\<lambda>(l, r). l \<notin> l_id ` set (filter P (locks s))) (locks_resources s)"
  "binds_locks (delete_locks P s) =
     filter (\<lambda>(l, b). l \<notin> l_id ` set (filter P (locks s))) (binds_locks s)"
  "aces (delete_locks P s) = aces s"
  "acl_inheritance (delete_locks P s) = acl_inheritance s"
  "principals (delete_locks P s) = principals s"
  "users (delete_locks P s) = users s"
  "fault (delete_locks P s) = fault s"
  "next_bind (delete_locks P s) = next_bind s"
  "next_lock (delete_locks P s) = next_lock s"
  "group_members (delete_locks P s) = group_members s"
  by (simp_all add: delete_locks_def Let_def)

lemma delete_binds_select [row_simps]:
  "resources (delete_binds P s) = resources s"
  "binds (delete_binds P s) = filter (\<lambda>b. \<not> P b) (binds s)"
  "binds_locks (delete_binds P s) =
     filter (\<lambda>(l, b). b \<notin> b_id ` set (filter P (binds s))) (binds_locks s)"
  "locks (delete_binds P s) = locks s"
  "locks_resources (delete_binds P s) = locks_resources s"
  "aces (delete_binds P s) = aces s"
  "acl_inheritance (delete_binds P s) = acl_inheritance s"
  "principals (delete_binds P s) = principals s"
  "users (delete_binds P s) = users s"
  "fault (delete_binds P s) = fault s"
  "next_bind (delete_binds P s) = next_bind s"
  "next_lock (delete_binds P s) = next_lock s"
  by (simp_all add: delete_binds_def Let_def)

lemma delete_aces_select [row_simps]:
  "resources (delete_aces P s) = resources s"
  "binds (delete_aces P s) = binds s"
  "locks (delete_aces P s) = locks s"
  "locks_resources (delete_aces P s) = locks_resources s"
  "binds_locks (delete_aces P s) = binds_locks s"
  "aces (delete_aces P s) = filter (\<lambda>a. \<not> P a) (aces s)"
  "dav_aces_privileges (delete_aces P s) =
     filter (\<lambda>(a, v). a \<notin> a_id ` set (filter P (aces s))) (dav_aces_privileges s)"
  "acl_inheritance (delete_aces P s) = acl_inheritance s"
  "acl_privileges (delete_aces P s) = acl_privileges s"
  "principals (delete_aces P s) = principals s"
  "namespaces (delete_aces P s) = namespaces s"
  "next_ace (delete_aces P s) = next_ace s"
  "fault (delete_aces P s) = fault s"
  by (simp_all add: delete_aces_def Let_def)

lemma delete_deltav_select [row_simps]:
  "resources (delete_deltav P s) = resources s"
  "collections (delete_deltav P s) = collections s"
  "media (delete_deltav P s) = media s"
  "quota (delete_deltav P s) = quota s"
  "properties (delete_deltav P s) = properties s"
  "binds (delete_deltav P s) = binds s"
  "cleanup (delete_deltav P s) = cleanup s"
  "locks (delete_deltav P s) = locks s"
  "locks_resources (delete_deltav P s) = locks_resources s"
  "binds_locks (delete_deltav P s) = binds_locks s"
  "principals (delete_deltav P s) = principals s"
  "users (delete_deltav P s) = users s"
  "group_members (delete_deltav P s) = group_members s"
  "transitive_group_members (delete_deltav P s) = transitive_group_members s"
  "fault (delete_deltav P s) = fault s"
  "next_bind (delete_deltav P s) = next_bind s"
  "next_lock (delete_deltav P s) = next_lock s"
  "next_cleanup (delete_deltav P s) = next_cleanup s"
  by (cases "deltav_gone (Suc (length (versions s) + length (vhrs s))) P s";
      simp add: delete_deltav_def Let_def del: deltav_gone.simps)+

lemma delete_frame [row_simps]:
  "media (delete_locks P s) = media s" "quota (delete_locks P s) = quota s"
  "properties (delete_locks P s) = properties s" "cleanup (delete_locks P s) = cleanup s"
  "next_cleanup (delete_locks P s) = next_cleanup s"
  "media (delete_binds Q s) = media s" "quota (delete_binds Q s) = quota s"
  "properties (delete_binds Q s) = properties s" "cleanup (delete_binds Q s) = cleanup s"
  "next_cleanup (delete_binds Q s) = next_cleanup s"
  "media (delete_aces R s) = media s" "quota (delete_aces R s) = quota s"
  "properties (delete_aces R s) = properties s" "cleanup (delete_aces R s) = cleanup s"
  "next_cleanup (delete_aces R s) = next_cleanup s" "next_bind (delete_aces R s) = next_bind s"
  by (simp_all add: delete_locks_def delete_binds_def delete_aces_def Let_def)

lemma delete_principals_select [row_simps]:
  "resources (delete_principals P s) = resources s" "media (delete_principals P s) = media s"
  "properties (delete_principals P s) = properties s" "binds (delete_principals P s) = binds s"
  "cleanup (delete_principals P s) = cleanup s" "next_cleanup (delete_principals P s) = next_cleanup s"
  "next_bind (delete_principals P s) = next_bind s" "fault (delete_principals P s) = fault s"
  "quota (delete_principals P s) = filter (\<lambda>(i, q). \<not> P i) (quota s)"
  "principals (delete_principals P s) = filter (\<lambda>(i, n). \<not> P i) (principals s)"
  by (simp_all add: delete_principals_def row_simps)

text \<open>What a successful deletion of resources leaves.\<close>

lemma delete_resources_select:
  assumes "delete_resources P s = Some s'"
  shows "resources s' = filter (\<lambda>r. \<not> P (r_id r)) (resources s)"
    "media s' = filter (\<lambda>m. \<not> P (m_resource_id m)) (media s)"
    "properties s' = filter (\<lambda>p. \<not> P (p_resource_id p)) (properties s)"
    "quota s' = filter (\<lambda>(i, q). \<not> P i) (quota s)"
    "binds s' = filter (\<lambda>b. \<not> (P (b_collection_id b) \<or> P (b_resource_id b))) (binds s)"
    "cleanup s' = filter (\<lambda>(i, r). \<not> P r) (cleanup s)"
    "next_cleanup s' = next_cleanup s" "next_bind s' = next_bind s" "fault s' = fault s"
    "principals s' = filter (\<lambda>(i, n). \<not> P i) (principals s)"
proof -
  from assms have s': "s' =
           delete_principals P
             (delete_deltav P (delete_locks (\<lambda>l. P (l_resource_id l))
               (delete_binds (\<lambda>b. P (b_collection_id b) \<or> P (b_resource_id b))
                 (delete_aces (\<lambda>a. P (a_resource_id a))
                   (s\<lparr>resources := filter (\<lambda>r. \<not> P (r_id r)) (resources s),
                      collections := filter (\<lambda>(i, v). \<not> P i) (collections s),
                      media := filter (\<lambda>m. \<not> P (m_resource_id m)) (media s),
                      properties := filter (\<lambda>p. \<not> P (p_resource_id p)) (properties s),
                      redirectrefs := filter (\<lambda>(i, d). \<not> P i) (redirectrefs s),
                      cleanup := filter (\<lambda>(i, r). \<not> P r) (cleanup s),
                      locks_resources := filter (\<lambda>(l, r). \<not> P r) (locks_resources s),
                      acl_inheritance := filter (\<lambda>(i, p). \<not> P i) (acl_inheritance s)\<rparr>)))))"
    by (simp add: delete_resources_def Let_def split: if_splits)
  show "resources s' = filter (\<lambda>r. \<not> P (r_id r)) (resources s)"
    "media s' = filter (\<lambda>m. \<not> P (m_resource_id m)) (media s)"
    "properties s' = filter (\<lambda>p. \<not> P (p_resource_id p)) (properties s)"
    "quota s' = filter (\<lambda>(i, q). \<not> P i) (quota s)"
    "binds s' = filter (\<lambda>b. \<not> (P (b_collection_id b) \<or> P (b_resource_id b))) (binds s)"
    "cleanup s' = filter (\<lambda>(i, r). \<not> P r) (cleanup s)"
    "next_cleanup s' = next_cleanup s" "next_bind s' = next_bind s" "fault s' = fault s"
    "principals s' = filter (\<lambda>(i, n). \<not> P i) (principals s)"
    by (simp_all add: s' row_simps)
qed

section \<open>Resource types\<close>

text \<open>\<open>dav_repos_resource_types\<close> and \<open>dav_repos_get_type_id\<close> of \<^verbatim>\<open>mod_dav_repos.c\<close>; the
  enumeration of \<^verbatim>\<open>dav_repos.h\<close> starts at 1.\<close>

definition dav_repos_resource_types :: "string list" where
  "dav_repos_resource_types =
     [''Resource'', ''Collection'', ''Principal'', ''User'', ''Group'', ''Redirect'', ''Version'',
      ''VersionControlled'', ''VersionHistory'', ''VersionedCollection'', ''CollectionVersion'',
      ''LockNull'']"

definition dav_repos_RESOURCE :: nat where "dav_repos_RESOURCE = 1"
definition dav_repos_COLLECTION :: nat where "dav_repos_COLLECTION = 2"
definition dav_repos_USER :: nat where "dav_repos_USER = 4"
definition dav_repos_GROUP :: nat where "dav_repos_GROUP = 5"
definition dav_repos_VERSION :: nat where "dav_repos_VERSION = 7"
definition dav_repos_VERSIONED :: nat where "dav_repos_VERSIONED = 8"
definition dav_repos_VERSIONED_COLLECTION :: nat where "dav_repos_VERSIONED_COLLECTION = 10"
definition dav_repos_LOCKNULL :: nat where "dav_repos_LOCKNULL = 12"
definition dav_repos_MAX_TYPES :: nat where "dav_repos_MAX_TYPES = 13"

definition type_name :: "nat \<Rightarrow> string" where
  "type_name i = dav_repos_resource_types ! (i - 1)"

fun type_id_loop :: "nat \<Rightarrow> string list \<Rightarrow> string \<Rightarrow> nat" where
  "type_id_loop i [] t = dav_repos_MAX_TYPES"
| "type_id_loop i (x # xs) t = (if x = t then i else type_id_loop (Suc i) xs t)"

definition dav_repos_get_type_id :: "string \<Rightarrow> nat" where
  "dav_repos_get_type_id t = type_id_loop 1 dav_repos_resource_types t"

definition valid_type :: "nat \<Rightarrow> bool" where
  "valid_type i \<longleftrightarrow> 1 \<le> i \<and> i < dav_repos_MAX_TYPES"

lemma type_id_all: "list_all (\<lambda>i. dav_repos_get_type_id (type_name i) = i) [1..<13]"
  by code_simp

interpretation restype: codec type_name "\<lambda>t. Some (dav_repos_get_type_id t)" valid_type
proof
  fix i
  assume "valid_type i"
  then have "i \<in> set [1..<13]" by (auto simp: valid_type_def dav_repos_MAX_TYPES_def)
  with type_id_all show "Some (dav_repos_get_type_id (type_name i)) = Some i"
    by (simp only: list_all_iff)
qed

end
