(* ===== verification/Membership.thy ===== *)
theory Membership
  imports Store
begin

text \<open>
  Group membership: the table \<open>group_members\<close> of direct memberships, the table
  \<open>transitive_group_members\<close> that caches their transitive closure with path counts, the
  statements of \<^verbatim>\<open>dbms_principal.c\<close> that maintain both and the operations of
  \<^verbatim>\<open>principal.c\<close> built from them.
\<close>

section \<open>Statements\<close>

definition dbms_add_prin_to_group :: "id \<Rightarrow> id \<Rightarrow> db \<Rightarrow> dav_error option \<times> db" where
  "dbms_add_prin_to_group group_id principal_id =
     exec_or_500 ''Couldn't add principal to group''
       (\<lambda>s. if group_id \<in> principal_ids s \<and> principal_id \<in> principal_ids s
            then Some (s\<lparr>group_members := group_members s @ [(next_member s, group_id, principal_id)],
                         next_member := next_member s + 1\<rparr>)
            else None)"

definition dbms_is_prin_in_grp :: "id \<Rightarrow> id \<Rightarrow> db \<Rightarrow> int \<times> db" where
  "dbms_is_prin_in_grp prin_id grp_id s =
     (case run_select s of
        (True, s) \<Rightarrow> (- 1, s)
      | (False, s) \<Rightarrow>
          (if list_ex (\<lambda>(i, g, m). g = grp_id \<and> m = prin_id) (group_members s) then 1 else 0, s))"

text \<open>Sub-selects over the closure table: the groups above a principal and the members
  below a group, each with the principal itself.\<close>

definition groups_above :: "id \<Rightarrow> db \<Rightarrow> id list" where
  "groups_above grp s =
     map (\<lambda>(g, m, n). g) (filter (\<lambda>(g, m, n). m = grp) (transitive_group_members s)) @ [grp]"

definition members_below :: "id \<Rightarrow> db \<Rightarrow> id list" where
  "members_below prin s =
     map (\<lambda>(g, m, n). m) (filter (\<lambda>(g, m, n). g = prin) (transitive_group_members s)) @ [prin]"

definition groups_above_pos :: "id \<Rightarrow> db \<Rightarrow> id list" where
  "groups_above_pos grp s =
     map (\<lambda>(g, m, n). g) (filter (\<lambda>(g, m, n). m = grp \<and> 0 < n) (transitive_group_members s)) @ [grp]"

definition members_below_pos :: "id \<Rightarrow> db \<Rightarrow> id list" where
  "members_below_pos prin s =
     map (\<lambda>(g, m, n). m) (filter (\<lambda>(g, m, n). g = prin \<and> 0 < n) (transitive_group_members s)) @ [prin]"

definition dbms_will_loop_prin_add_grp :: "id \<Rightarrow> id \<Rightarrow> db \<Rightarrow> int \<times> db" where
  "dbms_will_loop_prin_add_grp grp_id prin_id s =
     (case run_select s of
        (True, s) \<Rightarrow> (- 1, s)
      | (False, s) \<Rightarrow>
          (if list_ex (\<lambda>g. g \<in> set (members_below_pos prin_id s)) (groups_above_pos grp_id s)
           then 1 else 0, s))"

text \<open>
  The scalar sub-selects of the two \<open>UPDATE\<close> statements. In
  \<open>WHERE t.transitive_group_id = transitive_group_id AND t.transitive_member_id = ?\<close> the
  unqualified column is that of \<open>t\<close>, the innermost table, so the first comparison is
  always true: the sub-select ranges over all groups above \<open>grp\<close>, not over the group of
  the row being updated (likewise for the members below \<open>prin\<close>). \<open>COALESCE\<close> turns the
  empty result into 1, and more than one row is an error (\<open>None\<close>).
\<close>

definition coalesce_scalar :: "int list \<Rightarrow> int option" where
  "coalesce_scalar ns = (case ns of [] \<Rightarrow> Some 1 | [n] \<Rightarrow> Some n | _ \<Rightarrow> None)"

definition paths_to :: "id \<Rightarrow> db \<Rightarrow> int list" where
  "paths_to grp s = map (\<lambda>(g, m, n). n) (filter (\<lambda>(g, m, n). m = grp) (transitive_group_members s))"

definition paths_from :: "id \<Rightarrow> db \<Rightarrow> int list" where
  "paths_from prin s = map (\<lambda>(g, m, n). n) (filter (\<lambda>(g, m, n). g = prin) (transitive_group_members s))"

definition affected :: "id \<Rightarrow> id \<Rightarrow> db \<Rightarrow> id \<times> id \<times> int \<Rightarrow> bool" where
  "affected grp prin s = (\<lambda>(g, m, n). g \<in> set (groups_above grp s) \<and> m \<in> set (members_below prin s))"

fun bump :: "(id \<times> id \<times> int \<Rightarrow> bool) \<Rightarrow> (int \<Rightarrow> int) \<Rightarrow> id \<times> id \<times> int \<Rightarrow> id \<times> id \<times> int" where
  "bump P f (g, m, n) = (if P (g, m, n) then (g, m, f n) else (g, m, n))"

definition update_counts :: "(int \<Rightarrow> int \<Rightarrow> int) \<Rightarrow> id \<Rightarrow> id \<Rightarrow> db \<Rightarrow> db option" where
  "update_counts op grp prin s =
     (if list_ex (affected grp prin s) (transitive_group_members s) then
        (case (coalesce_scalar (paths_to grp s), coalesce_scalar (paths_from prin s)) of
           (Some a, Some b) \<Rightarrow>
             Some (s\<lparr>transitive_group_members :=
               map (bump (affected grp prin s) (\<lambda>n. op n (a * b))) (transitive_group_members s)\<rparr>)
         | _ \<Rightarrow> None)
      else Some s)"

fun key :: "id \<times> id \<times> int \<Rightarrow> id \<times> id" where
  "key (g, m, n) = (g, m)"

definition above_counts :: "id \<Rightarrow> db \<Rightarrow> (id \<times> int) list" where
  "above_counts grp s =
     remdups (map (\<lambda>(g, m, n). (g, n)) (filter (\<lambda>(g, m, n). m = grp) (transitive_group_members s)) @ [(grp, 1)])"

definition below_counts :: "id \<Rightarrow> db \<Rightarrow> (id \<times> int) list" where
  "below_counts prin s =
     remdups (map (\<lambda>(g, m, n). (m, n)) (filter (\<lambda>(g, m, n). g = prin) (transitive_group_members s)) @ [(prin, 1)])"

definition cross_join :: "(id \<times> int) list \<Rightarrow> (id \<times> int) list \<Rightarrow> (id \<times> id \<times> int) list" where
  "cross_join gs ms = concat (map (\<lambda>(g, a). map (\<lambda>(m, b). (g, m, a * b)) ms) gs)"

definition new_pairs :: "id \<Rightarrow> id \<Rightarrow> db \<Rightarrow> (id \<times> id \<times> int) list" where
  "new_pairs grp prin s =
     filter (\<lambda>r. key r \<notin> set (map key (transitive_group_members s)))
       (cross_join (above_counts grp s) (below_counts prin s))"

definition insert_pairs :: "id \<Rightarrow> id \<Rightarrow> db \<Rightarrow> db option" where
  "insert_pairs grp prin s =
     (if list_all (\<lambda>(g, m, n). g \<in> principal_ids s \<and> m \<in> principal_ids s) (new_pairs grp prin s)
      then Some (s\<lparr>transitive_group_members := transitive_group_members s @ new_pairs grp prin s\<rparr>)
      else None)"

definition dbms_add_prin_to_grp_xitively :: "id \<Rightarrow> id \<Rightarrow> db \<Rightarrow> dav_error option \<times> db" where
  "dbms_add_prin_to_grp_xitively grp_id prin_id s =
     (case exec_or_500 ''Couldn't add principal to group'' (update_counts (+) grp_id prin_id) s of
        (Some e, s) \<Rightarrow> (Some e, s)
      | (None, s) \<Rightarrow> exec_or_500 ''Couldn't add principal to group'' (insert_pairs grp_id prin_id) s)"

definition dbms_rem_prin_frm_grp :: "id \<Rightarrow> id \<Rightarrow> db \<Rightarrow> dav_error option \<times> db" where
  "dbms_rem_prin_frm_grp grp_id prin_id =
     exec_or_500 ''Couldn't add principal to group''
       (\<lambda>s. Some (s\<lparr>group_members :=
          filter (\<lambda>(i, g, m). \<not> (g = grp_id \<and> m = prin_id)) (group_members s)\<rparr>))"

definition delete_zero_pairs :: "id \<Rightarrow> id \<Rightarrow> db \<Rightarrow> db option" where
  "delete_zero_pairs grp prin s =
     Some (s\<lparr>transitive_group_members :=
       filter (\<lambda>(g, m, n). \<not> (affected grp prin s (g, m, n) \<and> n = 0)) (transitive_group_members s)\<rparr>)"

definition dbms_rem_prin_frm_grp_xitively :: "id \<Rightarrow> id \<Rightarrow> db \<Rightarrow> dav_error option \<times> db" where
  "dbms_rem_prin_frm_grp_xitively grp_id prin_id s =
     (case exec_or_500 ''Couldn't add principal to group'' (update_counts (-) grp_id prin_id) s of
        (Some e, s) \<Rightarrow> (Some e, s)
      | (None, s) \<Rightarrow> exec_or_500 ''Couldn't add principal to group'' (delete_zero_pairs grp_id prin_id) s)"

section \<open>Operations\<close>

text \<open>
  \<open>sabridge_add_prin_to_grp\<close> calls \<open>dbms_is_prin_in_grp(pool, db, grp_id, prin_id)\<close>, while
  the function takes the principal first: the test asks whether the group is a member of
  the principal.
\<close>

definition sabridge_add_prin_to_grp :: "id \<Rightarrow> id \<Rightarrow> db \<Rightarrow> dav_error option \<times> db" where
  "sabridge_add_prin_to_grp grp_id prin_id s =
     (case dbms_is_prin_in_grp grp_id prin_id s of (r, s) \<Rightarrow>
      if r \<noteq> 0 then (Some (dav_new_error HTTP_CONFLICT ''Principal already in group''), s)
      else (case dbms_will_loop_prin_add_grp grp_id prin_id s of (r, s) \<Rightarrow>
      if r \<noteq> 0 then (Some (dav_new_error HTTP_CONFLICT ''Can't add principal to group''), s)
      else (case dbms_add_prin_to_group grp_id prin_id s of
              (Some e, s) \<Rightarrow> (Some e, s)
            | (None, s) \<Rightarrow> dbms_add_prin_to_grp_xitively grp_id prin_id s)))"

definition sabridge_rem_prin_frm_grp :: "id \<Rightarrow> id \<Rightarrow> db \<Rightarrow> dav_error option \<times> db" where
  "sabridge_rem_prin_frm_grp grp_id prin_id s =
     (case dbms_rem_prin_frm_grp grp_id prin_id s of
        (Some e, s) \<Rightarrow> (Some e, s)
      | (None, s) \<Rightarrow> dbms_rem_prin_frm_grp_xitively grp_id prin_id s)"

section \<open>The closure invariant\<close>

definition edges :: "db \<Rightarrow> (id \<times> id) set" where
  "edges s = snd ` set (group_members s)"

definition cached :: "db \<Rightarrow> (id \<times> id) set" where
  "cached s = key ` set (transitive_group_members s)"

definition counts_pos :: "db \<Rightarrow> bool" where
  "counts_pos s \<longleftrightarrow> list_all (\<lambda>r. 0 < snd (snd r)) (transitive_group_members s)"

definition groups_inv :: "db \<Rightarrow> bool" where
  "groups_inv s \<longleftrightarrow> acyclic (edges s) \<and> cached s = (edges s)\<^sup>+ \<and> counts_pos s"

lemma mem_cached: "(g, m) \<in> cached s \<longleftrightarrow> (\<exists>n. (g, m, n) \<in> set (transitive_group_members s))"
  by (force simp: cached_def)

lemma key_bump [simp]: "key (bump P f r) = key r"
  by (cases r) simp

lemma groups_tables:
  assumes "tables_eq s t"
  shows "groups_inv s = groups_inv t" "cached s = cached t" "edges s = edges t"
    "counts_pos s = counts_pos t"
  using assms by (simp_all add: groups_inv_def edges_def cached_def counts_pos_def tables_eqD)

lemma set_groups_above: "set (groups_above grp s) = {g. (g, grp) \<in> cached s} \<union> {grp}"
  by (force simp: groups_above_def mem_cached)

lemma set_members_below: "set (members_below prin s) = {m. (prin, m) \<in> cached s} \<union> {prin}"
  by (force simp: members_below_def mem_cached)

lemma above_rtrancl: "groups_inv s \<Longrightarrow> g \<in> set (groups_above grp s) \<longleftrightarrow> (g, grp) \<in> (edges s)\<^sup>*"
  by (auto simp: set_groups_above groups_inv_def rtrancl_eq_or_trancl)

lemma below_rtrancl: "groups_inv s \<Longrightarrow> m \<in> set (members_below prin s) \<longleftrightarrow> (prin, m) \<in> (edges s)\<^sup>*"
  by (auto simp: set_members_below groups_inv_def rtrancl_eq_or_trancl)

lemma pos_filter:
  "counts_pos s \<Longrightarrow> filter (\<lambda>(g, m, n). P g m \<and> 0 < n) (transitive_group_members s)
     = filter (\<lambda>(g, m, n). P g m) (transitive_group_members s)"
  by (intro filter_cong) (auto simp: counts_pos_def list_all_iff)

lemma above_below_pos:
  "counts_pos s \<Longrightarrow> groups_above_pos grp s = groups_above grp s"
  "counts_pos s \<Longrightarrow> members_below_pos prin s = members_below prin s"
  using pos_filter [of s "\<lambda>g m. m = grp"] pos_filter [of s "\<lambda>g m. g = prin"]
  by (simp_all add: groups_above_pos_def groups_above_def members_below_pos_def members_below_def)

text \<open>The loop test: the answer 1 means that the new edge would close a cycle.\<close>

lemma will_loop_value:
  assumes "groups_inv s" and "dbms_will_loop_prin_add_grp grp prin s = (r, s')"
  shows "tables_eq s' s \<and> (r = - 1 \<or> r = (if (prin, grp) \<in> (edges s)\<^sup>* then 1 else 0))"
proof (cases "run_select s")
  case (Pair b t)
  then have same: "tables_eq t s" by (rule run_select_same)
  then have inv: "groups_inv t" and E: "edges t = edges s" using assms(1) by (simp_all add: groups_tables)
  then have "list_ex (\<lambda>g. g \<in> set (members_below_pos prin t)) (groups_above_pos grp t)
      \<longleftrightarrow> (prin, grp) \<in> (edges s)\<^sup>*"
    using inv
    by (auto simp: list_ex_iff above_below_pos groups_inv_def
        above_rtrancl [OF inv] below_rtrancl [OF inv])
  with Pair same assms(2) show ?thesis
    by (auto simp: dbms_will_loop_prin_add_grp_def split: bool.splits if_splits)
qed

lemma update_counts_cases:
  assumes "update_counts op grp prin s = Some s'"
  obtains (none) "s' = s"
  | (some) a b where "coalesce_scalar (paths_to grp s) = Some a" "coalesce_scalar (paths_from prin s) = Some b"
      "s' = s\<lparr>transitive_group_members :=
         map (bump (affected grp prin s) (\<lambda>n. op n (a * b))) (transitive_group_members s)\<rparr>"
proof (cases "list_ex (affected grp prin s) (transitive_group_members s)")
  case False
  with assms show ?thesis using none by (simp add: update_counts_def)
next
  case True
  with assms show ?thesis
    using some by (simp add: update_counts_def split: option.splits)
qed

lemma update_counts_keys:
  assumes "update_counts op grp prin s = Some s'"
  shows "cached s' = cached s" "edges s' = edges s"
  using assms by (cases rule: update_counts_cases; simp add: cached_def edges_def image_image)+

lemma coalesce_scalar_pos:
  "coalesce_scalar ns = Some a \<Longrightarrow> list_all (\<lambda>n. 0 < n) ns \<Longrightarrow> 0 < a"
  by (auto simp: coalesce_scalar_def split: list.splits)

lemma paths_pos:
  assumes "counts_pos s"
  shows "list_all (\<lambda>n. 0 < n) (paths_to grp s)" "list_all (\<lambda>n. 0 < n) (paths_from prin s)"
  using assms by (auto simp: counts_pos_def paths_to_def paths_from_def list_all_iff)

lemma count_bump [simp]:
  "snd (snd (bump P f r)) = (if P r then f (snd (snd r)) else snd (snd r))"
  by (cases r) simp

lemma counts_pos_update_add:
  assumes "counts_pos s" and "update_counts (+) grp prin s = Some s'"
  shows "counts_pos s'"
  using assms(2)
proof (cases rule: update_counts_cases)
  case none
  with assms(1) show ?thesis by simp
next
  case (some a b)
  with assms(1) have "0 < a * b" by (blast intro: coalesce_scalar_pos paths_pos mult_pos_pos)
  moreover have "transitive_group_members s'
      = map (bump (affected grp prin s) (\<lambda>n. n + a * b)) (transitive_group_members s)"
    by (simp add: some(3))
  ultimately show ?thesis
    using assms(1) by (auto simp: counts_pos_def list_all_iff intro: add_pos_pos)
qed

lemma set_above_counts:
  "(g, a) \<in> set (above_counts grp s) \<longleftrightarrow> (g, grp, a) \<in> set (transitive_group_members s) \<or> g = grp \<and> a = 1"
  by (force simp: above_counts_def)

lemma set_below_counts:
  "(m, b) \<in> set (below_counts prin s) \<longleftrightarrow> (prin, m, b) \<in> set (transitive_group_members s) \<or> m = prin \<and> b = 1"
  by (force simp: below_counts_def)

lemma set_cross_join:
  "(g, m, n) \<in> set (cross_join gs ms) \<longleftrightarrow> (\<exists>a b. (g, a) \<in> set gs \<and> (m, b) \<in> set ms \<and> n = a * b)"
  by (force simp: cross_join_def)

lemma set_new_pairs:
  "(g, m, n) \<in> set (new_pairs grp prin s) \<longleftrightarrow>
     (\<exists>a b. (g, a) \<in> set (above_counts grp s) \<and> (m, b) \<in> set (below_counts prin s) \<and> n = a * b)
     \<and> (g, m) \<notin> cached s"
  by (auto simp: new_pairs_def set_cross_join cached_def)

lemma above_counts_fst: "(\<exists>a. (g, a) \<in> set (above_counts grp s)) \<longleftrightarrow> g \<in> set (groups_above grp s)"
  by (auto simp: set_above_counts set_groups_above mem_cached)

lemma below_counts_fst: "(\<exists>b. (m, b) \<in> set (below_counts prin s)) \<longleftrightarrow> m \<in> set (members_below prin s)"
  by (auto simp: set_below_counts set_members_below mem_cached)

lemma key_new_pairs:
  "(g, m) \<in> key ` set (new_pairs grp prin s) \<longleftrightarrow>
     g \<in> set (groups_above grp s) \<and> m \<in> set (members_below prin s) \<and> (g, m) \<notin> cached s"
proof -
  have "(g, m) \<in> key ` set (new_pairs grp prin s) \<longleftrightarrow> (\<exists>n. (g, m, n) \<in> set (new_pairs grp prin s))"
    by force
  also have "\<dots> \<longleftrightarrow> (\<exists>a. (g, a) \<in> set (above_counts grp s)) \<and> (\<exists>b. (m, b) \<in> set (below_counts prin s))
      \<and> (g, m) \<notin> cached s"
    by (auto simp: set_new_pairs)
  finally show ?thesis by (simp only: above_counts_fst below_counts_fst)
qed

lemma new_pairs_pos: "counts_pos s \<Longrightarrow> r \<in> set (new_pairs grp prin s) \<Longrightarrow> 0 < snd (snd r)"
proof -
  assume pos: "counts_pos s" and r: "r \<in> set (new_pairs grp prin s)"
  obtain g m n where rn: "r = (g, m, n)" by (cases r)
  with r obtain a b where ab: "(g, a) \<in> set (above_counts grp s)" "(m, b) \<in> set (below_counts prin s)"
    "n = a * b" by (auto simp: set_new_pairs)
  with pos have "0 < a" "0 < b"
    by (auto simp: set_above_counts set_below_counts counts_pos_def list_all_iff)
  with ab rn show ?thesis by simp
qed

lemma insert_pairs_rows:
  assumes "insert_pairs grp prin s = Some s'"
  shows "transitive_group_members s' = transitive_group_members s @ new_pairs grp prin s"
    and "group_members s' = group_members s"
proof -
  from assms have s': "s' = s\<lparr>transitive_group_members := transitive_group_members s @ new_pairs grp prin s\<rparr>"
    by (simp add: insert_pairs_def split: if_splits)
  show "transitive_group_members s' = transitive_group_members s @ new_pairs grp prin s"
    "group_members s' = group_members s" by (simp_all add: s')
qed

lemma cached_insert_pairs:
  assumes "insert_pairs grp prin s = Some s'"
  shows "cached s' = cached s \<union> set (groups_above grp s) \<times> set (members_below prin s)"
    and "edges s' = edges s" and "counts_pos s \<Longrightarrow> counts_pos s'"
proof -
  note rows = insert_pairs_rows [OF assms]
  have "cached s' = cached s \<union> key ` set (new_pairs grp prin s)"
    by (simp add: rows cached_def image_Un)
  then show "cached s' = cached s \<union> set (groups_above grp s) \<times> set (members_below prin s)"
    unfolding set_eq_iff split_paired_All Un_iff mem_Sigma_iff key_new_pairs by blast
  show "edges s' = edges s" by (simp add: rows edges_def)
  show "counts_pos s'" if "counts_pos s"
    using that new_pairs_pos [OF that] by (simp add: rows counts_pos_def list_all_iff) blast
qed

text \<open>Adding a member keeps the invariant: the cache stays the transitive closure.\<close>

lemma add_xitively_inv:
  assumes inv: "groups_inv s" and nl: "(prin, grp) \<notin> (edges s)\<^sup>*"
    and E: "edges t = insert (grp, prin) (edges s)" and C: "cached t = cached s" "counts_pos t"
    and run: "dbms_add_prin_to_grp_xitively grp prin t = (None, u)"
  shows "groups_inv u \<and> edges u = edges t"
proof -
  from run obtain v where
    v: "exec_or_500 ''Couldn't add principal to group'' (update_counts (+) grp prin) t = (None, v)"
    and u: "exec_or_500 ''Couldn't add principal to group'' (insert_pairs grp prin) v = (None, u)"
    by (auto simp: dbms_add_prin_to_grp_xitively_def split: prod.splits option.splits)
  from exec_or_500_ok [OF v] obtain t1 where t1: "tables_eq t1 t" "update_counts (+) grp prin t1 = Some v" .
  from exec_or_500_ok [OF u] obtain v1 where v1: "tables_eq v1 v" "insert_pairs grp prin v1 = Some u" .
  have cv: "cached v1 = cached s" and ev: "edges v1 = edges t"
    using update_counts_keys [OF t1(2)] groups_tables [OF t1(1)] groups_tables [OF v1(1)] C by simp_all
  have pv: "counts_pos v1"
    using counts_pos_update_add [OF _ t1(2)] groups_tables [OF t1(1)] groups_tables [OF v1(1)] C by simp
  have "set (groups_above grp v1) = {g. (g, grp) \<in> (edges s)\<^sup>*}"
    "set (members_below prin v1) = {m. (prin, m) \<in> (edges s)\<^sup>*}"
    using inv cv by (auto simp: set_groups_above set_members_below groups_inv_def rtrancl_eq_or_trancl)
  then have "cached u = (insert (grp, prin) (edges s))\<^sup>+"
    using cached_insert_pairs(1) [OF v1(2)] cv inv by (auto simp: groups_inv_def trancl_insert)
  moreover have "acyclic (insert (grp, prin) (edges s))"
    using inv nl by (simp add: groups_inv_def acyclic_insert)
  ultimately show ?thesis
    using cached_insert_pairs(2,3) [OF v1(2)] pv ev E by (simp add: groups_inv_def)
qed

lemma add_prin_to_group_ok:
  assumes "dbms_add_prin_to_group grp prin s = (None, t)"
  shows "edges t = insert (grp, prin) (edges s)" "cached t = cached s" "counts_pos t = counts_pos s"
proof -
  from assms obtain s1 where s1: "tables_eq s1 s"
    and t: "t = s1\<lparr>group_members := group_members s1 @ [(next_member s1, grp, prin)],
              next_member := next_member s1 + 1\<rparr>"
    unfolding dbms_add_prin_to_group_def by (rule exec_or_500_ok) (simp split: if_splits)
  have "group_members t = group_members s1 @ [(next_member s1, grp, prin)]"
    "transitive_group_members t = transitive_group_members s1" by (simp_all add: t)
  with s1 show "edges t = insert (grp, prin) (edges s)" "cached t = cached s" "counts_pos t = counts_pos s"
    by (simp_all add: edges_def cached_def counts_pos_def tables_eqD)
qed

lemma is_prin_in_grp_tables: "dbms_is_prin_in_grp p g s = (r, s') \<Longrightarrow> tables_eq s' s"
  by (auto simp: dbms_is_prin_in_grp_def dest: run_select_same split: prod.splits bool.splits)

lemma add_prin_inv:
  assumes inv: "groups_inv s" and run: "sabridge_add_prin_to_grp grp prin s = (None, u)"
  shows "groups_inv u \<and> edges u = insert (grp, prin) (edges s)"
proof -
  obtain s1 r1 where r1: "dbms_is_prin_in_grp grp prin s = (r1, s1)" by (cases "dbms_is_prin_in_grp grp prin s")
  obtain s2 r2 where r2: "dbms_will_loop_prin_add_grp grp prin s1 = (r2, s2)"
    by (cases "dbms_will_loop_prin_add_grp grp prin s1")
  from run r1 r2 obtain s3 where zero: "r2 = 0" and s3: "dbms_add_prin_to_group grp prin s2 = (None, s3)"
    and x: "dbms_add_prin_to_grp_xitively grp prin s3 = (None, u)"
    by (auto simp: sabridge_add_prin_to_grp_def split: if_splits prod.splits option.splits)
  have t1: "tables_eq s1 s" using r1 by (rule is_prin_in_grp_tables)
  have inv1: "groups_inv s1" using inv groups_tables(1) [OF t1] by simp
  from will_loop_value [OF inv1 r2] zero
  have t2: "tables_eq s2 s1" and nl: "(prin, grp) \<notin> (edges s1)\<^sup>*" by (auto split: if_splits)
  have inv2: "groups_inv s2" and e2: "edges s2 = edges s" and nl2: "(prin, grp) \<notin> (edges s2)\<^sup>*"
    using inv1 nl groups_tables(1,3) [OF t2] groups_tables(3) [OF t1] by simp_all
  note ok = add_prin_to_group_ok [OF s3]
  have "counts_pos s3" using ok(3) inv2 by (simp add: groups_inv_def)
  from add_xitively_inv [OF inv2 nl2 ok(1,2) this x] ok(1) e2 show ?thesis by simp
qed

text \<open>The memberships a database can reach by additions alone.\<close>

inductive grown :: "db \<Rightarrow> bool" where
  empty: "group_members s = [] \<Longrightarrow> transitive_group_members s = [] \<Longrightarrow> grown s"
| add: "grown s \<Longrightarrow> sabridge_add_prin_to_grp grp prin s = (None, u) \<Longrightarrow> grown u"
| refused: "grown s \<Longrightarrow> tables_eq u s \<Longrightarrow> grown u"

inductive_cases grown_cases: "grown s"

lemma grown_inv: "grown s \<Longrightarrow> groups_inv s"
proof (induction rule: grown.induct)
  case (empty s)
  then show ?case by (simp add: groups_inv_def edges_def cached_def counts_pos_def acyclic_def)
next
  case (add s grp prin u)
  then show ?case using add_prin_inv by blast
next
  case (refused s u)
  then show ?case using groups_tables(1) by blast
qed

section \<open>Removal\<close>

text \<open>The statements in a database without faults.\<close>

lemma rem_healthy:
  assumes "fault s = []"
  shows "sabridge_rem_prin_frm_grp grp prin s =
    (let s1 = s\<lparr>group_members := filter (\<lambda>(i, g, m). \<not> (g = grp \<and> m = prin)) (group_members s)\<rparr>
     in dbms_rem_prin_frm_grp_xitively grp prin s1)"
  using assms by (simp add: sabridge_rem_prin_frm_grp_def dbms_rem_prin_frm_grp_def exec_or_500_healthy Let_def)

lemma paths_to_two:
  assumes "(g1, grp, n1) \<in> set (transitive_group_members s)" "(g2, grp, n2) \<in> set (transitive_group_members s)"
    and "g1 \<noteq> g2"
  shows "coalesce_scalar (paths_to grp s) = None"
proof -
  let ?f = "filter (\<lambda>(g, m, n). m = grp) (transitive_group_members s)"
  have "(g1, grp, n1) \<in> set ?f" "(g2, grp, n2) \<in> set ?f" using assms by auto
  then obtain x y zs where "?f = x # y # zs"
    using assms(3) by (cases ?f rule: remdups_adj.cases) auto
  then show ?thesis by (simp add: paths_to_def coalesce_scalar_def)
qed

lemma rem_two_parents:
  assumes "fault s = []" and "(g1, grp, n1) \<in> set (transitive_group_members s)"
    and "(g2, grp, n2) \<in> set (transitive_group_members s)" and "g1 \<noteq> g2"
    and "(grp, prin, n) \<in> set (transitive_group_members s)"
  shows "\<exists>e u. sabridge_rem_prin_frm_grp grp prin s = (Some e, u) \<and> status e = HTTP_INTERNAL_SERVER_ERROR"
proof -
  define s1 where "s1 = s\<lparr>group_members := filter (\<lambda>(i, g, m). \<not> (g = grp \<and> m = prin)) (group_members s)\<rparr>"
  have t: "transitive_group_members s1 = transitive_group_members s" and f: "fault s1 = []"
    using assms(1) by (simp_all add: s1_def)
  have "affected grp prin s1 (grp, prin, n)"
    by (simp add: affected_def groups_above_def members_below_def)
  then have ex: "list_ex (affected grp prin s1) (transitive_group_members s1)"
    using assms(5) t by (force simp: list_ex_iff)
  have "coalesce_scalar (paths_to grp s1) = None"
    using paths_to_two [of g1 grp n1 s1 g2 n2] assms t by simp
  with ex have "update_counts (-) grp prin s1 = None" by (simp add: update_counts_def)
  then have "dbms_rem_prin_frm_grp_xitively grp prin s1
      = (Some (dav_new_error HTTP_INTERNAL_SERVER_ERROR ''Couldn't add principal to group''), s1)"
    using f by (simp add: dbms_rem_prin_frm_grp_xitively_def exec_or_500_healthy)
  then show ?thesis using rem_healthy [OF assms(1)] by (simp add: s1_def Let_def)
qed

section \<open>Adding and removing a plain member\<close>

text \<open>A top-level group and a principal without members: the common case of a user.\<close>

definition plain_pair :: "id \<Rightarrow> id \<Rightarrow> db \<Rightarrow> bool" where
  "plain_pair grp prin s \<longleftrightarrow>
     list_all (\<lambda>(g, m, n). m \<noteq> grp \<and> g \<noteq> prin) (transitive_group_members s) \<and>
     list_all (\<lambda>r. key r \<noteq> (grp, prin)) (transitive_group_members s) \<and> grp \<noteq> prin"

lemma plain_filters:
  assumes "list_all (\<lambda>(g, m, n). m \<noteq> grp \<and> g \<noteq> prin) rows"
  shows "filter (\<lambda>(g, m, n). m = grp) rows = []" "filter (\<lambda>(g, m, n). g = prin) rows = []"
  using assms by (auto simp: filter_empty_conv list_all_iff)

lemma plain_lists:
  assumes "list_all (\<lambda>(g, m, n). m \<noteq> grp \<and> g \<noteq> prin) (transitive_group_members s)"
  shows "groups_above grp s = [grp]" "members_below prin s = [prin]"
    "paths_to grp s = []" "paths_from prin s = []"
    "above_counts grp s = [(grp, 1)]" "below_counts prin s = [(prin, 1)]"
  by (simp_all add: groups_above_def members_below_def paths_to_def paths_from_def
      above_counts_def below_counts_def plain_filters [OF assms])

lemma affected_plain:
  assumes "list_all (\<lambda>(g, m, n). m \<noteq> grp \<and> g \<noteq> prin) (transitive_group_members s)"
  shows "affected grp prin s r \<longleftrightarrow> key r = (grp, prin)"
  by (cases r) (simp add: affected_def plain_lists [OF assms])

lemma map_bump_id: "list_all (\<lambda>r. \<not> P r) rows \<Longrightarrow> map (bump P f) rows = rows"
  by (induction rows) auto

definition with_member :: "id \<Rightarrow> id \<Rightarrow> db \<Rightarrow> db" where
  "with_member grp prin s =
     s\<lparr>group_members := group_members s @ [(next_member s, grp, prin)],
       next_member := next_member s + 1,
       transitive_group_members := transitive_group_members s @ [(grp, prin, 1)]\<rparr>"

lemma plain_no_edge:
  assumes inv: "groups_inv s" and pp: "plain_pair grp prin s"
  shows "(grp, prin) \<notin> edges s" "(prin, grp) \<notin> edges s"
proof -
  have "(g, m) \<in> cached s" if "(g, m) \<in> edges s" for g m
    using that inv by (auto simp: groups_inv_def)
  then show "(grp, prin) \<notin> edges s" "(prin, grp) \<notin> edges s"
    using pp by (force simp: plain_pair_def cached_def list_all_iff)+
qed

lemma add_plain:
  assumes inv: "groups_inv s" and ok: "fault s = []" and pp: "plain_pair grp prin s"
    and prins: "grp \<in> principal_ids s" "prin \<in> principal_ids s"
  shows "sabridge_add_prin_to_grp grp prin s = (None, with_member grp prin s)"
proof -
  let ?T = "transitive_group_members s"
  have pl: "list_all (\<lambda>(g, m, n). m \<noteq> grp \<and> g \<noteq> prin) ?T" and nk: "list_all (\<lambda>r. key r \<noteq> (grp, prin)) ?T"
    and ne: "grp \<noteq> prin" using pp by (simp_all add: plain_pair_def)
  have q1: "dbms_is_prin_in_grp grp prin s = (0, s)"
    using ok plain_no_edge(2) [OF inv pp]
    by (force simp: dbms_is_prin_in_grp_def run_stmt_healthy list_ex_iff edges_def image_iff)
  have cp: "counts_pos s" using inv by (simp add: groups_inv_def)
  have q2: "dbms_will_loop_prin_add_grp grp prin s = (0, s)"
    using ok ne by (simp add: dbms_will_loop_prin_add_grp_def run_stmt_healthy above_below_pos [OF cp] plain_lists [OF pl])
  define s1 where "s1 = s\<lparr>group_members := group_members s @ [(next_member s, grp, prin)],
      next_member := next_member s + 1\<rparr>"
  have q3: "dbms_add_prin_to_group grp prin s = (None, s1)"
    using ok prins by (simp add: dbms_add_prin_to_group_def exec_or_500_healthy s1_def)
  have s1: "transitive_group_members s1 = ?T" "fault s1 = []" "principal_ids s1 = principal_ids s"
    using ok by (simp_all add: s1_def principal_ids_def)
  have pl1: "list_all (\<lambda>(g, m, n). m \<noteq> grp \<and> g \<noteq> prin) (transitive_group_members s1)"
    using pl s1 by simp
  have "\<not> list_ex (affected grp prin s1) (transitive_group_members s1)"
    using nk by (simp add: affected_plain [OF pl1] s1 list_ex_iff list_all_iff)
  then have u1: "update_counts (+) grp prin s1 = Some s1" by (simp add: update_counts_def)
  have np: "new_pairs grp prin s1 = [(grp, prin, 1)]"
    using nk by (force simp: new_pairs_def plain_lists [OF pl1] cross_join_def s1 list_all_iff)
  have u2: "insert_pairs grp prin s1 = Some (with_member grp prin s)"
    using prins by (simp add: insert_pairs_def np s1) (simp add: s1_def with_member_def)
  show ?thesis
    by (simp add: sabridge_add_prin_to_grp_def q1 q2 q3 dbms_add_prin_to_grp_xitively_def
        exec_or_500_healthy s1 u1 u2)
qed

lemma rem_plain_cache:
  assumes pp: "plain_pair grp prin s" and ok: "fault s = []"
  defines "a1 \<equiv> s\<lparr>transitive_group_members := transitive_group_members s @ [(grp, prin, 1)]\<rparr>"
  shows "dbms_rem_prin_frm_grp_xitively grp prin a1 = (None, s)"
proof -
  let ?T = "transitive_group_members s"
  have pl: "list_all (\<lambda>(g, m, n). m \<noteq> grp \<and> g \<noteq> prin) ?T" and nk: "list_all (\<lambda>r. key r \<noteq> (grp, prin)) ?T"
    and ne: "grp \<noteq> prin" using pp by (simp_all add: plain_pair_def)
  have pl2: "list_all (\<lambda>(g, m, n). m \<noteq> grp \<and> g \<noteq> prin) (transitive_group_members a1)"
    using pl ne by (simp add: a1_def)
  have T1: "transitive_group_members a1 = ?T @ [(grp, prin, 1)]" "fault a1 = []"
    using ok by (simp_all add: a1_def)
  have af: "list_all (\<lambda>r. \<not> affected grp prin a1 r) ?T" "affected grp prin a1 (grp, prin, n)" for n
    using nk by (simp_all add: affected_plain [OF pl2] list_all_iff)
  define a2 where "a2 = s\<lparr>transitive_group_members := ?T @ [(grp, prin, 0)]\<rparr>"
  have "update_counts (-) grp prin a1 = Some (a1\<lparr>transitive_group_members := ?T @ [(grp, prin, 0)]\<rparr>)"
    by (simp add: update_counts_def T1 plain_lists [OF pl2] coalesce_scalar_def af map_bump_id [OF af(1)])
  then have d1: "update_counts (-) grp prin a1 = Some a2" by (simp add: a1_def a2_def)
  have T2: "transitive_group_members a2 = ?T @ [(grp, prin, 0)]" "fault a2 = []"
    using ok by (simp_all add: a2_def)
  have pl3: "list_all (\<lambda>(g, m, n). m \<noteq> grp \<and> g \<noteq> prin) (transitive_group_members a2)"
    using pl ne by (simp add: a2_def)
  have "filter (\<lambda>(g, m, n). \<not> (affected grp prin a2 (g, m, n) \<and> n = 0)) ?T = ?T"
    using nk by (auto simp: filter_id_conv affected_plain [OF pl3] list_all_iff)
  then have d2: "delete_zero_pairs grp prin a2 = Some s"
    by (simp add: delete_zero_pairs_def T2 affected_plain [OF pl3] del: key.simps)
      (simp add: a2_def)
  show ?thesis
    by (simp add: dbms_rem_prin_frm_grp_xitively_def exec_or_500_healthy T1 T2 d1 d2)
qed

lemma rem_plain:
  assumes inv: "groups_inv s" and ok: "fault s = []" and pp: "plain_pair grp prin s"
  shows "sabridge_rem_prin_frm_grp grp prin (with_member grp prin s) = (None, s\<lparr>next_member := next_member s + 1\<rparr>)"
proof -
  let ?s = "s\<lparr>next_member := next_member s + 1\<rparr>" and ?a = "with_member grp prin s"
  have fa: "fault ?a = []" using ok by (simp add: with_member_def)
  have "filter (\<lambda>(i, g, m). \<not> (g = grp \<and> m = prin)) (group_members s) = group_members s"
    using plain_no_edge(1) [OF inv pp] by (force simp: filter_id_conv edges_def image_iff)
  then have a1: "?a\<lparr>group_members := filter (\<lambda>(i, g, m). \<not> (g = grp \<and> m = prin)) (group_members ?a)\<rparr>
      = ?s\<lparr>transitive_group_members := transitive_group_members ?s @ [(grp, prin, 1)]\<rparr>"
    by (simp add: with_member_def)
  have "plain_pair grp prin ?s" "fault ?s = []" using pp ok by (simp_all add: plain_pair_def)
  then have "dbms_rem_prin_frm_grp_xitively grp prin
      (?s\<lparr>transitive_group_members := transitive_group_members ?s @ [(grp, prin, 1)]\<rparr>) = (None, ?s)"
    by (rule rem_plain_cache)
  then show ?thesis by (simp only: rem_healthy [OF fa] a1 Let_def)
qed

section \<open>Properties\<close>

definition three_principals :: db where
  "three_principals = empty_db\<lparr>principals := [(10, ''staff''), (11, ''editors''), (12, ''ann'')]\<rparr>"

definition nested_groups :: db where
  "nested_groups = three_principals\<lparr>group_members := [(1, 10, 11)], next_member := 2,
     transitive_group_members := [(10, 11, 1)]\<rparr>"

lemma nested_groups_inv: "groups_inv nested_groups"
proof -
  have "edges nested_groups = {(10, 11)}" "cached nested_groups = {(10, 11)}"
    by (simp_all add: nested_groups_def edges_def cached_def)
  moreover have "counts_pos nested_groups" by (simp add: nested_groups_def counts_pos_def)
  ultimately show ?thesis by (simp add: groups_inv_def acyclic_insert trancl_insert acyclic_def [of "{}"])
qed

text \<open>C4: When \<open>sabridge_add_prin_to_grp\<close> succeeds, whatever statements of the session failed
  before, exactly the membership it was asked for is added, the membership graph stays
  acyclic and the cached table stays its transitive closure, with positive path counts.\<close>

theorem add_prin_to_grp_closure:
  assumes "groups_inv s" and "sabridge_add_prin_to_grp grp prin s = (None, u)"
  shows "edges u = insert (grp, prin) (edges s) \<and> acyclic (edges u) \<and> cached u = (edges u)\<^sup>+
    \<and> counts_pos u"
  using add_prin_inv [OF assms] unfolding groups_inv_def by blast

theorem add_prin_to_grp_closure_witness:
  "groups_inv nested_groups \<and>
   (let u = snd (sabridge_add_prin_to_grp 11 12 nested_groups)
    in edges u = insert (11, 12) (edges nested_groups) \<and> cached u = (edges u)\<^sup>+ \<and> acyclic (edges u))"
proof -
  have "fst (sabridge_add_prin_to_grp 11 12 nested_groups) = None" by code_simp
  then have "sabridge_add_prin_to_grp 11 12 nested_groups
      = (None, snd (sabridge_add_prin_to_grp 11 12 nested_groups))" by (simp add: prod_eq_iff)
  from add_prin_to_grp_closure [OF nested_groups_inv this] nested_groups_inv
  show ?thesis unfolding Let_def by blast
qed

text \<open>C5: A membership that would close a cycle (the group is the principal itself or lies
  below it) is refused with 409 Conflict and no table changes.\<close>

theorem add_prin_to_grp_refuses_loops:
  assumes "groups_inv s" and "(prin, grp) \<in> (edges s)\<^sup>*"
  shows "\<exists>e u. sabridge_add_prin_to_grp grp prin s = (Some e, u) \<and> status e = HTTP_CONFLICT
    \<and> tables_eq u s"
proof -
  obtain s1 r1 where r1: "dbms_is_prin_in_grp grp prin s = (r1, s1)" by (cases "dbms_is_prin_in_grp grp prin s")
  obtain s2 r2 where r2: "dbms_will_loop_prin_add_grp grp prin s1 = (r2, s2)"
    by (cases "dbms_will_loop_prin_add_grp grp prin s1")
  have t1: "tables_eq s1 s" using r1 by (rule is_prin_in_grp_tables)
  have "groups_inv s1" "(prin, grp) \<in> (edges s1)\<^sup>*" using assms groups_tables [OF t1] by simp_all
  with will_loop_value [OF _ r2] have t2: "tables_eq s2 s1" and "r2 \<noteq> 0" by auto
  moreover have "tables_eq s2 s" using t2 t1 by (rule tables_eq_trans)
  ultimately show ?thesis
    using r1 r2 t1 by (simp add: sabridge_add_prin_to_grp_def)
qed

theorem add_prin_to_grp_refuses_loops_witness:
  "(10, 11) \<in> (edges nested_groups)\<^sup>* \<and>
   (\<exists>e u. sabridge_add_prin_to_grp 11 10 nested_groups = (Some e, u) \<and> status e = HTTP_CONFLICT
     \<and> tables_eq u nested_groups)"
proof -
  have r: "(10, 11) \<in> (edges nested_groups)\<^sup>*"
    by (rule r_into_rtrancl) (simp add: nested_groups_def edges_def)
  with add_prin_to_grp_refuses_loops [OF nested_groups_inv r] show ?thesis by simp
qed

text \<open>C6: After any history of successful and refused additions that starts with no memberships,
  asking the cached table whether a principal belongs to a group is the same as asking for a
  non-empty chain of direct memberships, and no principal belongs to itself.\<close>

theorem membership_cache_exact:
  assumes "grown s"
  shows "((g, m) \<in> cached s \<longleftrightarrow> (g, m) \<in> (edges s)\<^sup>+) \<and> (g, g) \<notin> cached s"
  using grown_inv [OF assms] by (auto simp: groups_inv_def acyclic_def)

theorem membership_cache_exact_witness:
  "(\<lambda>s. ((10, 12) \<in> cached s \<longleftrightarrow> (10, 12) \<in> (edges s)\<^sup>+) \<and> (10, 10) \<notin> cached s)
     (snd (sabridge_add_prin_to_grp 11 12 (snd (sabridge_add_prin_to_grp 10 11 three_principals))))"
proof -
  let ?s1 = "snd (sabridge_add_prin_to_grp 10 11 three_principals)"
  let ?s2 = "snd (sabridge_add_prin_to_grp 11 12 ?s1)"
  have "fst (sabridge_add_prin_to_grp 10 11 three_principals) = None"
    "fst (sabridge_add_prin_to_grp 11 12 ?s1) = None" by code_simp+
  then have runs: "sabridge_add_prin_to_grp 10 11 three_principals = (None, ?s1)"
    "sabridge_add_prin_to_grp 11 12 ?s1 = (None, ?s2)" by (simp_all add: prod_eq_iff)
  have "grown three_principals" by (rule grown.empty) (simp_all add: three_principals_def empty_db_def)
  then have "grown ?s1" using runs(1) by (rule grown.add)
  then have "grown ?s2" using runs(2) by (rule grown.add)
  then show ?thesis using membership_cache_exact [of ?s2 10 12] membership_cache_exact [of ?s2 10 10] by simp
qed

text \<open>C7: For a top-level group and a principal without members of its own, adding and then
  removing the membership succeeds and restores every table (only the row counter moves).\<close>

theorem add_rem_round_trip:
  assumes "groups_inv s" and "fault s = []" and "plain_pair grp prin s"
    and "grp \<in> principal_ids s" "prin \<in> principal_ids s"
  shows "\<exists>u. sabridge_add_prin_to_grp grp prin s = (None, u) \<and>
    sabridge_rem_prin_frm_grp grp prin u = (None, s\<lparr>next_member := next_member s + 1\<rparr>)"
  using add_plain [OF assms] rem_plain [OF assms(1-3)] by blast

theorem add_rem_round_trip_witness:
  "plain_pair 10 12 nested_groups \<and>
   (\<exists>u. sabridge_add_prin_to_grp 10 12 nested_groups = (None, u) \<and>
    sabridge_rem_prin_frm_grp 10 12 u = (None, nested_groups\<lparr>next_member := 3\<rparr>))"
proof -
  have h: "fault nested_groups = []" "plain_pair 10 12 nested_groups" "10 \<in> principal_ids nested_groups"
    "12 \<in> principal_ids nested_groups" "next_member nested_groups = 2" by code_simp+
  from add_rem_round_trip [OF nested_groups_inv h(1-4)] h show ?thesis by simp
qed

text \<open>C39: Removing a member from a group that is itself cached below two other groups always
  fails with 500: the scalar sub-select of the first \<open>UPDATE\<close> returns two rows.\<close>

theorem rem_below_two_groups_fails:
  assumes "fault s = []" and "(g1, grp, n1) \<in> set (transitive_group_members s)"
    and "(g2, grp, n2) \<in> set (transitive_group_members s)" and "g1 \<noteq> g2"
    and "(grp, prin, n) \<in> set (transitive_group_members s)"
  shows "\<exists>e u. sabridge_rem_prin_frm_grp grp prin s = (Some e, u) \<and> status e = HTTP_INTERNAL_SERVER_ERROR"
  by (rule rem_two_parents [OF assms])

definition two_parents :: db where
  "two_parents = snd (sabridge_add_prin_to_grp 12 13 (snd (sabridge_add_prin_to_grp 11 12
     (snd (sabridge_add_prin_to_grp 10 12
       (empty_db\<lparr>principals := [(10, ''a''), (11, ''b''), (12, ''c''), (13, ''d'')]\<rparr>))))))"

theorem rem_below_two_groups_fails_witness:
  "(11, 12, 1) \<in> set (transitive_group_members two_parents) \<and>
   (\<exists>e u. sabridge_rem_prin_frm_grp 12 13 two_parents = (Some e, u) \<and> status e = HTTP_INTERNAL_SERVER_ERROR)"
proof -
  have h: "fault two_parents = []"
    "transitive_group_members two_parents = [(10, 12, 1), (11, 12, 1), (10, 13, 1), (11, 13, 1), (12, 13, 1)]"
    by code_simp+
  then have m: "(10, 12, 1) \<in> set (transitive_group_members two_parents)"
    "(11, 12, 1) \<in> set (transitive_group_members two_parents)"
    "(12, 13, 1) \<in> set (transitive_group_members two_parents)" by simp_all
  have "(10::int) \<noteq> 11" by simp
  from rem_below_two_groups_fails [OF h(1) m(1,2) this m(3)] m show ?thesis by simp
qed

text \<open>C40: The membership test of \<open>sabridge_add_prin_to_grp\<close> is called with its arguments exchanged,
  so adding the same member twice is accepted; removing it then leaves no direct membership
  but a cached one.\<close>

theorem duplicate_member_leaves_stale_cache:
  "(let (e1, s1) = sabridge_add_prin_to_grp 10 12 three_principals;
        (e2, s2) = sabridge_add_prin_to_grp 10 12 s1;
        (e3, s3) = sabridge_rem_prin_frm_grp 10 12 s2
    in e1 = None \<and> e2 = None \<and> e3 = None \<and>
       group_members s3 = [] \<and> transitive_group_members s3 = [(10, 12, 1)])"
  by code_simp

end
