(* ===== verification/Binds.thy ===== *)
theory Binds
  imports Store Util "HOL-Library.List_Lexorder" "HOL-Library.Char_ord"
begin

text \<open>
  Bindings: the edges, named by path segments, from collections to the resources they
  hold (\<^verbatim>\<open>dbms_bind.c\<close>), and the queue of resources for the garbage collector. The
  search for shortest paths is in \<open>Paths\<close>. The current time is a parameter \<open>now\<close>.
  A \<open>NULL\<close> column is read by \<open>dbms_fetch_row\<close> as the empty string. Time stamps are
  compared as strings of the form year-month-day hours:minutes:seconds.
\<close>

definition ROOT_COLLECTION_ID :: id where "ROOT_COLLECTION_ID = 2"
definition ROOT_UPDATED_AT :: datetime where "ROOT_UPDATED_AT = ''2006-07-14 13:15:49''"

record dbms_bind_list =
  bind_id :: id
  parent_id :: id
  resource_id :: id
  bind_name :: "string option"
  updated_at :: "datetime option"
  uri :: "string option"

definition zero_bind :: dbms_bind_list where
  "zero_bind = \<lparr>bind_id = 0, parent_id = 0, resource_id = 0, bind_name = None, updated_at = None, uri = None\<rparr>"

section \<open>Looking up a URI\<close>

text \<open>The row a collection has under a name: at most one, by the unique key of the table.\<close>

definition find_bind :: "id \<Rightarrow> string \<Rightarrow> db \<Rightarrow> bind_row option" where
  "find_bind c n s = find (\<lambda>b. b_collection_id b = c \<and> b_name b = n) (binds s)"

text \<open>The chain of left outer joins: one entry per path segment, \<open>None\<close> for the \<open>NULL\<close>s
  of an unmatched join.\<close>

fun join_binds :: "db \<Rightarrow> id option \<Rightarrow> string list \<Rightarrow> bind_row option list" where
  "join_binds s c [] = []"
| "join_binds s c (t # ts) =
     (let b = (case c of None \<Rightarrow> None | Some c \<Rightarrow> find_bind c t s)
      in b # join_binds s (map_option b_resource_id b) ts)"

definition id_column :: "(bind_row \<Rightarrow> id) \<Rightarrow> bind_row option \<Rightarrow> string" where
  "id_column f b = (case b of None \<Rightarrow> [] | Some b \<Rightarrow> show_long (f b))"

definition lastmodified_of :: "db \<Rightarrow> id option \<Rightarrow> datetime option" where
  "lastmodified_of s r =
     (case r of None \<Rightarrow> None
      | Some r \<Rightarrow> map_option r_lastmodified (find (\<lambda>x. r_id x = r) (resources s)))"

text \<open>\<open>greatest\<close> ignores \<open>NULL\<close> arguments.\<close>

fun greatest :: "datetime option list \<Rightarrow> datetime option" where
  "greatest [] = None"
| "greatest (None # ts) = greatest ts"
| "greatest (Some t # ts) = (case greatest ts of None \<Rightarrow> Some t | Some u \<Rightarrow> Some (max t u))"

text \<open>The loop that looks for the slash after the last segment found.\<close>

fun scan_slashes :: "nat \<Rightarrow> nat \<Rightarrow> nat \<Rightarrow> string \<Rightarrow> nat \<times> nat" where
  "scan_slashes lim offset count [] = (offset, count)"
| "scan_slashes lim offset count (c # cs) =
     (if count < lim
      then scan_slashes lim (Suc offset) (if c = CHR ''/'' then Suc count else count) cs
      else (offset, count))"

definition cut_uri :: "nat \<Rightarrow> string \<Rightarrow> string" where
  "cut_uri lim u =
     (case scan_slashes lim 0 0 u of (offset, count) \<Rightarrow>
        take (if count = lim then offset - 1 else offset) u)"

text \<open>
  The segments are part of the text of the query: a question mark in one of them counts as a
  parameter that is never set, so that \<open>dbms_execute\<close> reports success without sending the
  query (\<open>execute_sends_statement\<close> of theory \<open>Dbd\<close>) and \<open>dbms_results_count\<close> then reads
  results that do not exist. \<open>None\<close> is that read through a null pointer.
\<close>

definition has_qmark :: "string list \<Rightarrow> bool" where
  "has_qmark toks = list_ex (\<lambda>t. CHR ''?'' \<in> set t) toks"

definition dbms_lookup_uri :: "string \<Rightarrow> db \<Rightarrow> ((dav_error + dbms_bind_list option) \<times> db) option" where
  "dbms_lookup_uri uri_from_root s =
     (let u = compact_uri uri_from_root; toks = tokens CHR ''/'' u
      in if toks = [] then
           Some (Inr (Some (zero_bind\<lparr>resource_id := ROOT_COLLECTION_ID, updated_at := Some ROOT_UPDATED_AT\<rparr>)), s)
         else if has_qmark toks then None
         else Some (case run_select s of
             (True, s) \<Rightarrow> (Inl (dav_new_error HTTP_INTERNAL_SERVER_ERROR ''dbms_execute error''), s)
           | (False, s) \<Rightarrow>
              (let row = join_binds s (Some ROOT_COLLECTION_ID) toks
               in if hd row = None then (Inr None, s)
                  else
                    let i = length toks;
                        dbrow = map (id_column b_resource_id) row;
                        j = length (takeWhile (\<lambda>c. c \<noteq> []) dbrow);
                        stamp = greatest (lastmodified_of s (map_option b_resource_id (last row))
                                          # map (map_option b_updated_at) row);
                        b = zero_bind\<lparr>updated_at := stamp, bind_id := atol (id_column b_id (last row))\<rparr>
                    in (Inr (Some
                         (if j \<noteq> i
                          then b\<lparr>resource_id := - 1, parent_id := atol (dbrow ! (j - 1)),
                                 uri := Some (cut_uri (j + 1) u)\<rparr>
                          else b\<lparr>resource_id := atol (dbrow ! (j - 1))\<rparr>)), s))))"

text \<open>
  \<open>dbms_get_collection_max_updated_at\<close> goes on after a failed statement and reads the
  destroyed query: \<open>None\<close> is the string \<open>NULL\<close> that it then returns.
\<close>

definition dbms_get_collection_max_updated_at :: "id \<Rightarrow> datetime \<Rightarrow> db \<Rightarrow> datetime option \<times> db" where
  "dbms_get_collection_max_updated_at collection_id upd s =
     (case run_select s of
        (True, s) \<Rightarrow> (None, s)
      | (False, s) \<Rightarrow>
          (greatest (Some upd # map (\<lambda>b. Some (b_updated_at b))
             (filter (\<lambda>b. b_collection_id b = collection_id) (binds s))), s))"

section \<open>Changing bindings\<close>

definition dbms_delete_bind :: "id \<Rightarrow> id \<Rightarrow> string \<Rightarrow> db \<Rightarrow> dav_error option \<times> db" where
  "dbms_delete_bind coll_id res_id name =
     exec_or_500 ''Could not update binds table in the database.''
       (\<lambda>s. Some (delete_binds
          (\<lambda>b. b_collection_id b = coll_id \<and> b_resource_id b = res_id \<and> b_name b = name) s))"

text \<open>The effect of inserting one row: unique key, foreign keys, column width.\<close>

definition insert_bind_row :: "datetime \<Rightarrow> id \<Rightarrow> id \<Rightarrow> string \<Rightarrow> db \<Rightarrow> db option" where
  "insert_bind_row now res coll name s =
     (if coll \<in> resource_ids s \<and> res \<in> resource_ids s \<and> find_bind coll name s = None \<and> length name \<le> 767
      then Some (s\<lparr>binds := binds s @ [\<lparr>b_id = next_bind s, b_name = name, b_collection_id = coll,
                                         b_resource_id = res, b_updated_at = now\<rparr>],
                   next_bind := next_bind s + 1\<rparr>)
      else None)"

text \<open>A \<open>NULL\<close> name is only noted as an error; the statement is sent with \<open>null\<close>, refused by
  the column, and its error replaces the first.\<close>

definition dbms_insert_bind :: "datetime \<Rightarrow> id \<Rightarrow> id \<Rightarrow> string option \<Rightarrow> db \<Rightarrow> dav_error option \<times> db" where
  "dbms_insert_bind now res coll bindname =
     exec_or_500 ''Could not insert into binds table.''
       (\<lambda>s. case bindname of None \<Rightarrow> None | Some n \<Rightarrow> insert_bind_row now res coll n s)"

definition dbms_get_bind_resource_id :: "id \<Rightarrow> string \<Rightarrow> db \<Rightarrow> (dav_error + id) \<times> db" where
  "dbms_get_bind_resource_id coll name s =
     (case run_select s of
        (True, s) \<Rightarrow> (Inl (dav_new_error HTTP_INTERNAL_SERVER_ERROR ''Error querying database''), s)
      | (False, s) \<Rightarrow> (Inr (case find_bind coll name s of None \<Rightarrow> 0 | Some b \<Rightarrow> b_resource_id b), s))"

text \<open>
  \<open>dbms_insert_bind_list\<close> builds one statement in a buffer of \<open>300 + 150 * array\<close>
  characters; a longer text is written past it (\<open>None\<close>). Every name goes through
  \<open>dbms_escape\<close> twice while the server undoes it once, so the stored name is the escaped
  one. A question mark in a name is taken for a parameter that is never set, and the
  statement is not sent. The driver's escape function is a parameter.
\<close>

definition bind_values :: "(string \<Rightarrow> string) \<Rightarrow> datetime \<Rightarrow> dbms_bind_list \<Rightarrow> string" where
  "bind_values esc now b =
     ''('' @ show_long (parent_id b) @ '', '' @ [CHR 0x27] @ esc (esc (the (bind_name b))) @ [CHR 0x27] @ '', ''
       @ show_long (resource_id b) @ '', '' @ [CHR 0x27] @ now @ [CHR 0x27] @ '')''"

definition bind_list_query :: "(string \<Rightarrow> string) \<Rightarrow> datetime \<Rightarrow> dbms_bind_list list \<Rightarrow> string" where
  "bind_list_query esc now bs =
     ''INSERT INTO binds(collection_id,name,resource_id,updated_at) VALUES ''
       @ joinc CHR '','' (map (bind_values esc now) bs)"

fun insert_bind_rows :: "(string \<Rightarrow> string) \<Rightarrow> datetime \<Rightarrow> dbms_bind_list list \<Rightarrow> db \<Rightarrow> db option" where
  "insert_bind_rows esc now [] s = Some s"
| "insert_bind_rows esc now (b # bs) s =
     (case insert_bind_row now (resource_id b) (parent_id b) (esc (the (bind_name b))) s of
        None \<Rightarrow> None
      | Some s \<Rightarrow> insert_bind_rows esc now bs s)"

definition dbms_insert_bind_list ::
  "(string \<Rightarrow> string) \<Rightarrow> datetime \<Rightarrow> dbms_bind_list list \<Rightarrow> int \<Rightarrow> db \<Rightarrow> (dav_error option \<times> db) option" where
  "dbms_insert_bind_list esc now bind_list array s =
     (if array \<le> 0 then
        Some (Some (dav_new_error HTTP_INTERNAL_SERVER_ERROR ''inserting a chain not supported yet''), s)
      else
        let bs = take (nat array) bind_list
        in if 300 + 150 * array < int (length (bind_list_query esc now bs)) + 1 then None
           else if CHR ''?'' \<in> set (bind_list_query esc now bs) then Some (None, s)
           else Some (exec_or_500 ''Could not insert into binds table.'' (insert_bind_rows esc now bs) s))"

text \<open>\<open>dbms_get_bind\<close> with the outcome 0 of \<open>dbms_next\<close> reads zeros.\<close>

definition dbms_get_bind :: "dbms_bind_list \<Rightarrow> db \<Rightarrow> dav_error option \<times> dbms_bind_list \<times> db" where
  "dbms_get_bind b s =
     (case run_select s of
        (True, s) \<Rightarrow> (Some (dav_new_error HTTP_INTERNAL_SERVER_ERROR ''Error querying database''), b, s)
      | (False, s) \<Rightarrow>
          (None,
           (case (case bind_name b of None \<Rightarrow> None | Some n \<Rightarrow> find_bind (parent_id b) n s) of
              None \<Rightarrow> b\<lparr>bind_id := 0, resource_id := 0, updated_at := None\<rparr>
            | Some r \<Rightarrow> b\<lparr>bind_id := b_id r, resource_id := b_resource_id r,
                          updated_at := Some (b_updated_at r)\<rparr>), s))"

definition rebind_row :: "datetime \<Rightarrow> id \<Rightarrow> string \<Rightarrow> id \<Rightarrow> string \<Rightarrow> bind_row \<Rightarrow> bind_row" where
  "rebind_row now sp sn dp dn b =
     (if b_collection_id b = sp \<and> b_name b = sn
      then b\<lparr>b_collection_id := dp, b_name := dn, b_updated_at := now\<rparr> else b)"

definition rebind_rows :: "datetime \<Rightarrow> id \<Rightarrow> string \<Rightarrow> id \<Rightarrow> string \<Rightarrow> db \<Rightarrow> db option" where
  "rebind_rows now sp sn dp dn s =
     (if find_bind sp sn s = None then Some s
      else if dp \<notin> resource_ids s \<or> 767 < length dn
              \<or> ((dp, dn) \<noteq> (sp, sn) \<and> find_bind dp dn s \<noteq> None) then None
      else Some (s\<lparr>binds := map (rebind_row now sp sn dp dn) (binds s)\<rparr>))"

definition dbms_rebind_resource ::
  "datetime \<Rightarrow> id \<Rightarrow> string \<Rightarrow> id \<Rightarrow> string \<Rightarrow> db \<Rightarrow> dav_error option \<times> db" where
  "dbms_rebind_resource now src_parent_id src_bind_name dst_parent_id dst_bind_name =
     exec_or_500 ''Could update binds to rebind''
       (rebind_rows now src_parent_id src_bind_name dst_parent_id dst_bind_name)"

section \<open>The bindings along a path\<close>

text \<open>Errors of \<open>dbms_get_bind\<close> are not looked at: the entry keeps its zeros.\<close>

fun path_binds_loop :: "id \<Rightarrow> string list \<Rightarrow> db \<Rightarrow> dbms_bind_list list \<times> db" where
  "path_binds_loop parent [] s = ([], s)"
| "path_binds_loop parent (t # ts) s =
     (case dbms_get_bind (zero_bind\<lparr>parent_id := parent, bind_name := Some t\<rparr>) s of (e, b, s) \<Rightarrow>
      case path_binds_loop (resource_id b) ts s of (bs, s) \<Rightarrow> (b # bs, s))"

definition dbms_get_path_binds :: "string \<Rightarrow> db \<Rightarrow> (dbms_bind_list list \<times> nat) \<times> db" where
  "dbms_get_path_binds path s =
     (case path_binds_loop ROOT_COLLECTION_ID (tokens CHR ''/'' path) s of
        (bs, s) \<Rightarrow> ((bs, get_num_tokens path), s))"

text \<open>\<open>dbms_detect_bind\<close>: \<open>next_bind\<close> is an uninitialised local variable, here the argument
  \<open>junk\<close>; what is left of it matters only when a statement fails.\<close>

fun detect_loop :: "id \<Rightarrow> string \<Rightarrow> dbms_bind_list \<Rightarrow> string list \<Rightarrow> db \<Rightarrow> string \<times> db" where
  "detect_loop target pre nb [] s = (pre, s)"
| "detect_loop target pre nb (t # ts) s =
     (let pre = pre @ ''/'' @ t
      in if bind_id nb = target then (pre, s)
         else (case dbms_get_bind (nb\<lparr>parent_id := resource_id nb,
                     bind_name := (case ts of [] \<Rightarrow> None | t' # _ \<Rightarrow> Some t')\<rparr>) s of
                 (e, nb, s) \<Rightarrow> detect_loop target pre nb ts s))"

definition dbms_detect_bind :: "dbms_bind_list \<Rightarrow> dbms_bind_list \<Rightarrow> string \<Rightarrow> db \<Rightarrow> string \<times> db" where
  "dbms_detect_bind junk b path s =
     (let toks = tokens CHR ''/'' path
      in case dbms_get_bind (junk\<lparr>parent_id := ROOT_COLLECTION_ID,
                bind_name := (case toks of [] \<Rightarrow> None | t # _ \<Rightarrow> Some t)\<rparr>) s of
           (e, nb, s) \<Rightarrow> detect_loop (bind_id b) [] nb toks s)"

definition child_bind :: "bind_row \<Rightarrow> dbms_bind_list" where
  "child_bind r = zero_bind\<lparr>bind_id := b_id r, resource_id := b_resource_id r, updated_at := Some (b_updated_at r)\<rparr>"

definition dbms_get_child_binds :: "id \<Rightarrow> bool \<Rightarrow> db \<Rightarrow> (dav_error + dbms_bind_list list) \<times> db" where
  "dbms_get_child_binds serialno exclude_self s =
     (case run_select s of
        (True, s) \<Rightarrow> (Inl (dav_new_error HTTP_INTERNAL_SERVER_ERROR ''Error querying database''), s)
      | (False, s) \<Rightarrow>
          (Inr (rev (map child_bind
             (filter (\<lambda>b. b_collection_id b = serialno \<and> (exclude_self \<longrightarrow> b_resource_id b \<noteq> b_collection_id b))
               (binds s)))), s))"

section \<open>The clean-up queue\<close>

text \<open>\<open>UNION\<close> removes duplicates; the ids of the new rows come from the sequence.\<close>

fun number_from :: "id \<Rightarrow> id list \<Rightarrow> (id \<times> id) list" where
  "number_from i [] = []"
| "number_from i (r # rs) = (i, r) # number_from (i + 1) rs"

definition enqueue_rows :: "id list \<Rightarrow> db \<Rightarrow> db option" where
  "enqueue_rows rs s =
     (if list_all (\<lambda>r. r \<in> resource_ids s) rs
      then Some (s\<lparr>cleanup := cleanup s @ number_from (next_cleanup s) rs,
                   next_cleanup := next_cleanup s + int (length rs)\<rparr>)
      else None)"

definition dbms_insert_cleanup_reqs :: "dbms_bind_list list \<Rightarrow> db \<Rightarrow> dav_error option \<times> db" where
  "dbms_insert_cleanup_reqs bs s =
     (if bs = [] then (None, s)
      else exec_or_500 ''INSERT INTO cleanup(resource_id)'' (enqueue_rows (remdups (map resource_id bs))) s)"

definition first_cleanup :: "db \<Rightarrow> (id \<times> id) option" where
  "first_cleanup s =
     (case sort_key fst (cleanup s) of [] \<Rightarrow> None | r # _ \<Rightarrow> Some r)"

definition dbms_next_cleanup_req :: "db \<Rightarrow> dav_error option \<times> id \<times> db" where
  "dbms_next_cleanup_req s =
     (case run_select s of
        (True, s) \<Rightarrow> (Some (dav_new_error HTTP_INTERNAL_SERVER_ERROR ''Couldn't get cleanup request''), 0, s)
      | (False, s) \<Rightarrow>
          (let (cleanup_id, res) = (case first_cleanup s of None \<Rightarrow> (0, 0) | Some r \<Rightarrow> r)
           in if 0 < cleanup_id
              then (None, res, snd (run_stmt (\<lambda>s. Some (s\<lparr>cleanup := filter (\<lambda>(i, r). i \<noteq> cleanup_id) (cleanup s)\<rparr>)) s))
              else (None, res, s)))"

section \<open>The directory of bindings\<close>

definition bind_key :: "bind_row \<Rightarrow> id \<times> string" where
  "bind_key b = (b_collection_id b, b_name b)"

definition binds_inv :: "db \<Rightarrow> bool" where
  "binds_inv s \<longleftrightarrow>
     distinct (map bind_key (binds s)) \<and> distinct (map b_id (binds s)) \<and>
     list_all (\<lambda>b. 0 < b_id b \<and> b_id b < next_bind s) (binds s) \<and> 0 < next_bind s \<and>
     list_all (\<lambda>b. b_collection_id b \<in> resource_ids s \<and> b_resource_id b \<in> resource_ids s) (binds s)"

definition bind_at :: "db \<Rightarrow> id \<times> string \<Rightarrow> id option" where
  "bind_at s k = map_option b_resource_id (find_bind (fst k) (snd k) s)"

definition unbind_key :: "id \<times> string \<Rightarrow> id \<Rightarrow> db \<Rightarrow> db" where
  "unbind_key k r s =
     delete_binds (\<lambda>b. b_collection_id b = fst k \<and> b_resource_id b = r \<and> b_name b = snd k) s"

lemma find_bind_key: "find_bind c n s = find (\<lambda>b. bind_key b = (c, n)) (binds s)"
  by (simp add: find_bind_def bind_key_def)

lemma find_bind_Some:
  assumes "distinct (map bind_key (binds s))"
  shows "find_bind c n s = Some b \<longleftrightarrow> b \<in> set (binds s) \<and> bind_key b = (c, n)"
proof -
  have "distinct (map f xs) \<Longrightarrow> find (\<lambda>b. f b = k) xs = Some b \<longleftrightarrow> b \<in> set xs \<and> f b = k"
    for f :: "bind_row \<Rightarrow> id \<times> string" and k xs
    by (induction xs) (force)+
  with assms show ?thesis by (simp add: find_bind_key)
qed

lemma find_bind_None: "find_bind c n s = None \<longleftrightarrow> (c, n) \<notin> bind_key ` set (binds s)"
  by (force simp: find_bind_key find_None_iff)

lemma bind_at_Some:
  "binds_inv s \<Longrightarrow> bind_at s k = Some r \<longleftrightarrow> (\<exists>b \<in> set (binds s). bind_key b = k \<and> b_resource_id b = r)"
  by (cases k) (auto simp: bind_at_def binds_inv_def find_bind_Some)

lemma bind_at_None: "bind_at s k = None \<longleftrightarrow> k \<notin> bind_key ` set (binds s)"
  by (cases k) (simp add: bind_at_def find_bind_None)

text \<open>Two directories agree when they agree on every key and value.\<close>

lemma map_eqI: "(\<And>k v. m k = Some v \<longleftrightarrow> m' k = Some v) \<Longrightarrow> m = m'"
  by (rule ext) (metis option.exhaust)

lemma insert_bind_row_cases:
  assumes "insert_bind_row now r c n s = Some s'"
  shows "s' = s\<lparr>binds := binds s @ [\<lparr>b_id = next_bind s, b_name = n, b_collection_id = c,
                                     b_resource_id = r, b_updated_at = now\<rparr>],
               next_bind := next_bind s + 1\<rparr>"
    and "find_bind c n s = None" "c \<in> resource_ids s" "r \<in> resource_ids s"
  using assms by (simp_all add: insert_bind_row_def split: if_splits)

lemma insert_bind_row_rows:
  assumes "insert_bind_row now r c n s = Some s'"
  shows "binds s' = binds s @ [\<lparr>b_id = next_bind s, b_name = n, b_collection_id = c,
                                b_resource_id = r, b_updated_at = now\<rparr>]"
    and "next_bind s' = next_bind s + 1" "resource_ids s' = resource_ids s"
  by (simp_all add: insert_bind_row_cases(1) [OF assms] resource_ids_def)

lemma insert_bind_row_inv:
  assumes inv: "binds_inv s" and ins: "insert_bind_row now r c n s = Some s'"
  shows "binds_inv s'"
proof -
  note rows = insert_bind_row_rows [OF ins] and ok = insert_bind_row_cases [OF ins]
  have "(c, n) \<notin> bind_key ` set (binds s)" using ok(2) by (simp add: find_bind_None)
  moreover have "next_bind s \<notin> b_id ` set (binds s)"
    using inv by (auto simp: binds_inv_def list_all_iff)
  ultimately show ?thesis
    using inv ok(3,4) by (auto simp: binds_inv_def rows bind_key_def list_all_iff)
qed

lemma resource_ids_delete_binds [simp]: "resource_ids (delete_binds P s) = resource_ids s"
  by (simp add: resource_ids_def row_simps)

lemma distinct_map_filter: "distinct (map f xs) \<Longrightarrow> distinct (map f (filter P xs))"
  by (induction xs) auto

lemma delete_binds_inv: "binds_inv s \<Longrightarrow> binds_inv (delete_binds P s)"
  by (simp add: binds_inv_def row_simps distinct_map_filter) (simp add: list_all_iff)

lemma rebind_rows_cases:
  assumes "rebind_rows now sp sn dp dn s = Some s'" and "find_bind sp sn s \<noteq> None"
  shows "s' = s\<lparr>binds := map (rebind_row now sp sn dp dn) (binds s)\<rparr>"
    and "dp \<in> resource_ids s" "(dp, dn) \<noteq> (sp, sn) \<Longrightarrow> find_bind dp dn s = None"
  using assms by (auto simp: rebind_rows_def split: if_splits)

lemma rebind_row_select [simp]:
  "b_id (rebind_row now sp sn dp dn b) = b_id b"
  "b_resource_id (rebind_row now sp sn dp dn b) = b_resource_id b"
  "bind_key (rebind_row now sp sn dp dn b) = (if bind_key b = (sp, sn) then (dp, dn) else bind_key b)"
  by (simp_all add: rebind_row_def bind_key_def)

lemma inj_on_replace: "k' = k \<or> k' \<notin> A \<Longrightarrow> inj_on (\<lambda>x. if x = k then k' else x) A"
  by (auto simp: inj_on_def)

lemma rebind_rows_inv:
  assumes inv: "binds_inv s" and run: "rebind_rows now sp sn dp dn s = Some s'"
  shows "binds_inv s'"
proof (cases "find_bind sp sn s")
  case None
  with run inv show ?thesis by (simp add: rebind_rows_def)
next
  case (Some b)
  then have ne: "find_bind sp sn s \<noteq> None" by simp
  note c = rebind_rows_cases [OF run ne]
  have rows: "binds s' = map (rebind_row now sp sn dp dn) (binds s)" "next_bind s' = next_bind s"
    "resource_ids s' = resource_ids s" by (simp_all add: c(1) resource_ids_def)
  let ?k = "\<lambda>k. if k = (sp, sn) then (dp, dn) else k"
  have "inj_on ?k (bind_key ` set (binds s))"
    using c(3) by (intro inj_on_replace) (unfold find_bind_None, blast)
  moreover have "map (bind_key \<circ> rebind_row now sp sn dp dn) (binds s) = map ?k (map bind_key (binds s))"
    by simp
  ultimately have "distinct (map (bind_key \<circ> rebind_row now sp sn dp dn) (binds s))"
    using inv by (simp only: distinct_map [of ?k] set_map binds_inv_def)
  moreover have "b_collection_id (rebind_row now sp sn dp dn b) \<in> resource_ids s"
    if "b_collection_id b \<in> resource_ids s" for b using that c(2) by (simp add: rebind_row_def)
  moreover have "b_id \<circ> rebind_row now sp sn dp dn = b_id" by (simp add: fun_eq_iff)
  ultimately show ?thesis
    using inv by (auto simp: binds_inv_def rows list_all_iff)
qed

lemma bind_at_insert:
  assumes inv: "binds_inv s" and ins: "insert_bind_row now r (fst k) (snd k) s = Some s'"
  shows "bind_at s' = (bind_at s)(k \<mapsto> r)"
proof (rule map_eqI)
  fix k' v
  have "bind_at s k = None" using insert_bind_row_cases(2) [OF ins] by (simp add: bind_at_def)
  then show "bind_at s' k' = Some v \<longleftrightarrow> ((bind_at s)(k \<mapsto> r)) k' = Some v"
    unfolding bind_at_Some [OF insert_bind_row_inv [OF inv ins]] insert_bind_row_rows(1) [OF ins]
    by (cases "k' = k") (auto simp: bind_key_def bind_at_Some [OF inv] bind_at_None)
qed

lemma bind_at_delete:
  assumes inv: "binds_inv s" and at: "bind_at s k = Some r"
  shows "bind_at (unbind_key k r s) = (bind_at s)(k := None)"
proof (rule map_eqI)
  fix k' v
  have inv': "binds_inv (unbind_key k r s)" using inv by (simp add: unbind_key_def delete_binds_inv)
  have uni: "b_resource_id b = r" if "b \<in> set (binds s)" "bind_key b = k" for b
    using bind_at_Some [OF inv, of k "b_resource_id b"] at that by auto
  have "binds (unbind_key k r s) = filter (\<lambda>b. \<not> (bind_key b = k \<and> b_resource_id b = r)) (binds s)"
    by (auto simp: unbind_key_def row_simps bind_key_def prod_eq_iff intro: filter_cong)
  then show "bind_at (unbind_key k r s) k' = Some v \<longleftrightarrow> ((bind_at s)(k := None)) k' = Some v"
    unfolding bind_at_Some [OF inv'] using uni by (auto simp: bind_at_Some [OF inv])
qed

lemma bind_at_rebind:
  assumes inv: "binds_inv s" and run: "rebind_rows now (fst k) (snd k) (fst k') (snd k') s = Some s'"
    and at: "bind_at s k = Some v"
  shows "bind_at s' = (bind_at s)(k := None, k' \<mapsto> v)"
    and "k' \<noteq> k \<Longrightarrow> bind_at s k' = None"
proof -
  have ne: "find_bind (fst k) (snd k) s \<noteq> None" using at by (auto simp: bind_at_def)
  note c = rebind_rows_cases [OF run ne]
  show free: "bind_at s k' = None" if "k' \<noteq> k"
    using c(3) that by (simp add: bind_at_def prod_eq_iff)
  have inv': "binds_inv s'" using inv run by (rule rebind_rows_inv)
  have rows: "binds s' = map (rebind_row now (fst k) (snd k) (fst k') (snd k')) (binds s)"
    by (simp add: c(1))
  have uni: "b_resource_id b = v" if "b \<in> set (binds s)" "bind_key b = k" for b
    using bind_at_Some [OF inv, of k "b_resource_id b"] at that by auto
  have no: "bind_key b \<noteq> k'" if "b \<in> set (binds s)" "k' \<noteq> k" for b
    using free that by (auto simp: bind_at_None)
  obtain b0 where b0: "b0 \<in> set (binds s)" "bind_key b0 = k" "b_resource_id b0 = v"
    using at by (auto simp: bind_at_Some [OF inv])
  show "bind_at s' = (bind_at s)(k := None, k' \<mapsto> v)"
  proof (rule map_eqI)
    fix j w
    show "bind_at s' j = Some w \<longleftrightarrow> ((bind_at s)(k := None, k' \<mapsto> v)) j = Some w"
      unfolding bind_at_Some [OF inv'] rows using b0 uni no
      by (cases "j = k'"; cases "j = k"; simp add: bind_at_Some [OF inv] split: if_splits) blast+
  qed
qed

lemma rebind_missing: "find_bind sp sn s = None \<Longrightarrow> rebind_rows now sp sn dp dn s = Some s"
  by (simp add: rebind_rows_def)

interpretation bd: directory bind_at
    "\<lambda>k r. insert_bind_row now r (fst k) (snd k)"
    unbind_key
    "\<lambda>k k'. rebind_rows now (fst k) (snd k) (fst k') (snd k')"
    binds_inv
  for now
proof (unfold_locales, goal_cases)
  case (1 s k v s')
  then show ?case using insert_bind_row_cases(2) by (simp add: bind_at_def)
next
  case (2 s k v s')
  then show ?case by (rule bind_at_insert)
next
  case (3 s k v s')
  then show ?case by (rule insert_bind_row_inv)
next
  case (4 s k v)
  then show ?case by (rule bind_at_delete)
next
  case (5 s k v)
  then show ?case by (simp add: unbind_key_def delete_binds_inv)
next
  case (6 s k k' s' v)
  then show ?case by (rule bind_at_rebind(2))
next
  case (7 s k k' s' v)
  then show ?case by (rule bind_at_rebind(1))
next
  case (8 s k k' s')
  then show ?case by (rule rebind_rows_inv)
qed

section \<open>What a URI resolves to\<close>

fun resolve :: "db \<Rightarrow> id \<Rightarrow> string list \<Rightarrow> id option" where
  "resolve s c [] = Some c"
| "resolve s c (t # ts) = (case bind_at s (c, t) of None \<Rightarrow> None | Some r \<Rightarrow> resolve s r ts)"

fun depth :: "db \<Rightarrow> id \<Rightarrow> string list \<Rightarrow> nat" where
  "depth s c [] = 0"
| "depth s c (t # ts) = (case bind_at s (c, t) of None \<Rightarrow> 0 | Some r \<Rightarrow> Suc (depth s r ts))"

definition path_of :: "string list \<Rightarrow> string" where
  "path_of ts = concat (map (\<lambda>t. CHR ''/'' # t) ts)"

lemma path_of_simps [simp]:
  "path_of [] = []" "path_of (t # ts) = CHR ''/'' # t @ path_of ts"
  "path_of (xs @ ys) = path_of xs @ path_of ys"
  by (simp_all add: path_of_def)

lemma depth_le: "depth s c ts \<le> length ts"
  by (induction s c ts rule: depth.induct) (auto split: option.split)

lemma resolve_None_depth: "resolve s c ts = None \<longleftrightarrow> depth s c ts < length ts"
  by (induction s c ts rule: depth.induct) (auto split: option.split)

lemma resolve_depth: "\<exists>r. resolve s c (take (depth s c ts) ts) = Some r"
  by (induction s c ts rule: depth.induct) (auto split: option.split)

lemma length_join_binds [simp]: "length (join_binds s c ts) = length ts"
  by (induction s c ts rule: join_binds.induct) (simp_all add: Let_def)

lemma join_binds_None: "join_binds s None ts = replicate (length ts) None"
  by (induction ts) (simp_all add: Let_def)

lemma id_column_empty [simp]: "id_column f b = [] \<longleftrightarrow> b = None"
  by (simp add: id_column_def split: option.split)

lemma join_binds_depth:
  "length (takeWhile (\<lambda>c. c \<noteq> []) (map (id_column f) (join_binds s (Some c) ts))) = depth s c ts"
proof (induction ts arbitrary: c)
  case Nil
  show ?case by simp
next
  case (Cons t ts)
  then show ?case
    by (cases "find_bind c t s") (simp_all add: bind_at_def Let_def join_binds_None id_column_def)
qed

lemma join_binds_nth:
  "j < depth s c ts \<Longrightarrow>
   \<exists>b. join_binds s (Some c) ts ! j = Some b \<and> resolve s c (take (Suc j) ts) = Some (b_resource_id b)"
proof (induction ts arbitrary: c j)
  case Nil
  then show ?case by simp
next
  case (Cons t ts)
  then obtain b where b: "find_bind c t s = Some b" by (auto simp: bind_at_def split: option.splits)
  show ?case
  proof (cases j)
    case 0
    with b show ?thesis by (simp add: bind_at_def Let_def)
  next
    case (Suc i)
    with Cons.prems b have "i < depth s (b_resource_id b) ts" by (simp add: bind_at_def)
    from Cons.IH [OF this] b Suc show ?thesis by (simp add: bind_at_def Let_def)
  qed
qed

lemma join_binds_hd: "ts \<noteq> [] \<Longrightarrow> hd (join_binds s (Some c) ts) = None \<longleftrightarrow> depth s c ts = 0"
  by (cases ts) (simp_all add: bind_at_def Let_def split: option.split)

text \<open>Cutting a URI after the segments that exist.\<close>

lemma scan_word:
  "CHR ''/'' \<notin> set w \<Longrightarrow> count < lim \<Longrightarrow>
   scan_slashes lim offset count (w @ r) = scan_slashes lim (offset + length w) count r"
  by (induction w arbitrary: offset) auto

lemma scan_stop: "scan_slashes lim offset lim r = (offset, lim)"
  by (cases r) simp_all

lemma scan_path:
  "(\<And>t. t \<in> set xs \<Longrightarrow> CHR ''/'' \<notin> set t) \<Longrightarrow>
   scan_slashes (count + length xs + 1) offset count (path_of xs @ CHR ''/'' # r)
     = (offset + length (path_of xs) + 1, count + length xs + 1)"
proof (induction xs arbitrary: offset count)
  case Nil
  show ?case by (simp add: scan_stop)
next
  case (Cons t xs)
  then show ?case
    using Cons.IH [of "Suc count" "Suc offset + length t"] by (simp add: scan_word)
qed

lemma cut_path:
  assumes "\<And>t. t \<in> set ts \<Longrightarrow> CHR ''/'' \<notin> set t" and "k < length ts"
  shows "cut_uri (k + 1) (path_of ts @ r) = path_of (take k ts)"
proof -
  have "ts = take k ts @ ts ! k # drop (Suc k) ts" using assms(2) by (rule id_take_nth_drop)
  then have "path_of ts = path_of (take k ts @ ts ! k # drop (Suc k) ts)" by simp
  then have split: "path_of ts @ r
      = path_of (take k ts) @ CHR ''/'' # (ts ! k @ path_of (drop (Suc k) ts) @ r)"
    by (simp only: path_of_simps append_assoc append_Cons)
  have "scan_slashes (0 + length (take k ts) + 1) 0 0
      (path_of (take k ts) @ CHR ''/'' # (ts ! k @ path_of (drop (Suc k) ts) @ r))
     = (0 + length (path_of (take k ts)) + 1, 0 + length (take k ts) + 1)"
    by (rule scan_path) (use assms in \<open>auto dest: in_set_takeD\<close>)
  then show ?thesis
    unfolding cut_uri_def split using assms(2) by simp
qed

lemma single_slashes_append: "single_slashes (a @ b) \<Longrightarrow> single_slashes a \<and> single_slashes b"
  unfolding single_slashes_def
  by (meson sublist_append_leftI sublist_append_rightI sublist_order.order.trans)

text \<open>A compacted absolute URI is its segments, each after a slash, and perhaps a last slash.\<close>

lemma absolute_shape:
  "single_slashes (CHR ''/'' # w) \<Longrightarrow>
   \<exists>r. CHR ''/'' # w = path_of (tokens CHR ''/'' w) @ r"
proof (induction w rule: length_induct)
  case (1 w)
  show ?case
  proof (cases "w = []")
    case True
    then show ?thesis by simp
  next
    case False
    define t where "t = takeWhile (\<lambda>c. c \<noteq> CHR ''/'') w"
    define r where "r = dropWhile (\<lambda>c. c \<noteq> CHR ''/'') w"
    have w: "w = t @ r" by (simp add: t_def r_def)
    have t: "CHR ''/'' \<notin> set t" by (auto simp: t_def dest: set_takeWhileD)
    have ne: "t \<noteq> []"
    proof
      assume "t = []"
      then obtain v where "w = CHR ''/'' # v" using False by (cases w) (auto simp: t_def split: if_splits)
      then show False using "1.prems" by (simp add: single_slashes_def)
    qed
    show ?thesis
    proof (cases r)
      case Nil
      with w t ne show ?thesis by (simp add: tokens_word)
    next
      case (Cons c v)
      then have c: "c = CHR ''/''" using hd_dropWhile [of "\<lambda>c. c \<noteq> CHR ''/''" w] by (simp add: r_def)
      have "single_slashes (CHR ''/'' # v)"
        using "1.prems" single_slashes_append [of "CHR ''/'' # t" "CHR ''/'' # v"] by (simp add: w Cons c)
      with "1.IH" w Cons obtain q where q: "CHR ''/'' # v = path_of (tokens CHR ''/'' v) @ q" by force
      have "CHR ''/'' # w = CHR ''/'' # t @ CHR ''/'' # v" by (simp only: w Cons c)
      also have "\<dots> = path_of (t # tokens CHR ''/'' v) @ q" by (simp add: q)
      also have "t # tokens CHR ''/'' v = tokens CHR ''/'' w"
        using tokens_word(1) [OF t ne, of v] by (simp only: w Cons c)
      finally show ?thesis by blast
    qed
  qed
qed

lemma cut_compact:
  assumes "u = CHR ''/'' # w" and "k < length (tokens CHR ''/'' u)"
  shows "cut_uri (k + 1) (compact_uri u) = path_of (take k (tokens CHR ''/'' u))"
proof -
  obtain v where v: "compact_uri u = CHR ''/'' # v"
  proof -
    have "\<exists>v. compact_loop (c # x) cs = c # v" for c x cs
      by (induction "c # x" cs arbitrary: x rule: compact_loop.induct) auto
    then show ?thesis using assms(1) that by (auto simp: compact_uri_def)
  qed
  have toks: "tokens CHR ''/'' v = tokens CHR ''/'' u" using v compact_uri_tokens [of u] by simp
  have "single_slashes (CHR ''/'' # v)" using compact_uri_single [of u] v by simp
  then obtain r where "compact_uri u = path_of (tokens CHR ''/'' u) @ r"
    using absolute_shape toks v by metis
  then show ?thesis
    using cut_path [OF _ assms(2)] tokens_nonempty by metis
qed

lemma lookup_row:
  assumes ok: "fault s = []" and ne: "tokens CHR ''/'' u \<noteq> []" and nq: "\<not> has_qmark (tokens CHR ''/'' u)"
    and d: "0 < depth s ROOT_COLLECTION_ID (tokens CHR ''/'' u)"
  defines "toks \<equiv> tokens CHR ''/'' u" and "k \<equiv> depth s ROOT_COLLECTION_ID (tokens CHR ''/'' u)"
  shows "\<exists>b r. dbms_lookup_uri u s = Some (Inr (Some b), s) \<and> resolve s ROOT_COLLECTION_ID (take k toks) = Some r \<and>
     (if k = length toks then resource_id b = r
      else resource_id b = - 1 \<and> parent_id b = r \<and> uri b = Some (cut_uri (k + 1) (compact_uri u)))"
proof -
  let ?row = "join_binds s (Some ROOT_COLLECTION_ID) toks"
  have dp: "0 < depth s ROOT_COLLECTION_ID toks" using d by (simp add: toks_def)
  then have hd: "hd ?row \<noteq> None" using join_binds_hd [of toks s ROOT_COLLECTION_ID] ne by (simp add: toks_def)
  have k: "k = depth s ROOT_COLLECTION_ID toks" by (simp add: k_def toks_def)
  have "k - 1 < depth s ROOT_COLLECTION_ID toks" using dp k by simp
  from join_binds_nth [OF this] obtain b where b: "?row ! (k - 1) = Some b"
    "resolve s ROOT_COLLECTION_ID (take k toks) = Some (b_resource_id b)" using dp k by auto
  have "k - 1 < length ?row" using depth_le [of s ROOT_COLLECTION_ID toks] dp k by simp
  then have entry: "atol (map (id_column b_resource_id) ?row ! (k - 1)) = b_resource_id b"
    using b(1) by (simp add: id_column_def)
  from hd entry b(2) ok ne nq show ?thesis
    by (simp add: dbms_lookup_uri_def compact_uri_tokens run_stmt_healthy Let_def join_binds_depth
        k [symmetric] toks_def [symmetric])
      (auto simp: nth_map)
qed

section \<open>Walking a path\<close>

lemma get_bind_healthy:
  "fault s = [] \<Longrightarrow> dbms_get_bind b s =
     (None, (case (case bind_name b of None \<Rightarrow> None | Some n \<Rightarrow> find_bind (parent_id b) n s) of
              None \<Rightarrow> b\<lparr>bind_id := 0, resource_id := 0, updated_at := None\<rparr>
            | Some r \<Rightarrow> b\<lparr>bind_id := b_id r, resource_id := b_resource_id r,
                          updated_at := Some (b_updated_at r)\<rparr>), s)"
  by (simp add: dbms_get_bind_def run_stmt_healthy)

lemma path_binds_healthy:
  "fault s = [] \<Longrightarrow> snd (path_binds_loop c ts s) = s \<and> length (fst (path_binds_loop c ts s)) = length ts"
  by (induction c ts s rule: path_binds_loop.induct)
    (auto simp: get_bind_healthy split: prod.splits option.splits)

lemma path_binds_resolve:
  assumes "fault s = []"
  shows "resolve s c ts = Some r \<Longrightarrow> ts \<noteq> [] \<Longrightarrow> resource_id (last (fst (path_binds_loop c ts s))) = r"
proof (induction ts arbitrary: c)
  case Nil
  then show ?case by simp
next
  case (Cons t ts)
  then obtain b where b: "find_bind c t s = Some b" and r: "resolve s (b_resource_id b) ts = Some r"
    by (auto simp: bind_at_def split: option.splits)
  have len: "fst (path_binds_loop c' ts s) = [] \<longleftrightarrow> ts = []" for c'
    using path_binds_healthy [OF assms, of c' ts] by (cases ts) auto
  show ?case
    using Cons.IH [of "b_resource_id b"] b r assms len [of "b_resource_id b"]
    by (cases "ts = []"; cases "path_binds_loop (b_resource_id b) ts s") (simp_all add: get_bind_healthy)
qed

text \<open>\<open>dbms_detect_bind\<close> stops at the same entry of the path that \<open>dbms_get_path_binds\<close> lists.\<close>

lemma detect_loop_prefix:
  assumes "fault s = []"
  shows "ts \<noteq> [] \<Longrightarrow> bind_id nb = bind_id (hd (fst (path_binds_loop c ts s))) \<Longrightarrow>
    resource_id nb = resource_id (hd (fst (path_binds_loop c ts s))) \<Longrightarrow>
    detect_loop target pre nb ts s =
      (pre @ path_of (take (Suc (length (takeWhile (\<lambda>b. bind_id b \<noteq> target) (fst (path_binds_loop c ts s))))) ts), s)"
proof (induction ts arbitrary: c nb pre)
  case Nil
  then show ?case by simp
next
  case (Cons t ts)
  define b where "b = fst (snd (dbms_get_bind (zero_bind\<lparr>parent_id := c, bind_name := Some t\<rparr>) s))"
  have l: "fst (path_binds_loop c (t # ts) s) = b # fst (path_binds_loop (resource_id b) ts s)"
    using assms by (simp add: b_def get_bind_healthy split: prod.split)
  have nb: "bind_id nb = bind_id b" "resource_id nb = resource_id b" using Cons.prems l by simp_all
  show ?case
  proof (cases "bind_id b = target")
    case True
    with nb l show ?thesis by simp
  next
    case False
    show ?thesis
    proof (cases ts)
      case Nil
      with False nb l assms show ?thesis by (simp add: get_bind_healthy)
    next
      case (Cons t' ts')
      let ?nb = "fst (snd (dbms_get_bind (nb\<lparr>parent_id := resource_id nb, bind_name := Some t'\<rparr>) s))"
      have "bind_id ?nb = bind_id (hd (fst (path_binds_loop (resource_id b) ts s)))"
        "resource_id ?nb = resource_id (hd (fst (path_binds_loop (resource_id b) ts s)))"
        using assms nb Cons by (simp_all add: get_bind_healthy split: prod.split option.split)
      from Cons.IH [OF _ this, of "pre @ ''/'' @ t"] Cons False nb l assms show ?thesis
        by (simp add: get_bind_healthy)
    qed
  qed
qed

section \<open>The clean-up queue as a queue\<close>

definition queue_inv :: "db \<Rightarrow> bool" where
  "queue_inv s \<longleftrightarrow> fault s = [] \<and> sorted_wrt (<) (map fst (cleanup s)) \<and> 0 < next_cleanup s \<and>
     list_all (\<lambda>(i, r). 0 < i \<and> i < next_cleanup s \<and> r \<noteq> 0) (cleanup s) \<and> 0 \<notin> resource_ids s"

definition take_req :: "db \<Rightarrow> id option \<times> db" where
  "take_req s = (case dbms_next_cleanup_req s of (e, r, s) \<Rightarrow> (if r = 0 then None else Some r, s))"

lemma number_from_map [simp]: "map snd (number_from i rs) = rs"
  by (induction i rs rule: number_from.induct) simp_all

lemma number_from_fst: "map fst (number_from i rs) = map (\<lambda>j. i + int j) [0..<length rs]"
proof (induction i rs rule: number_from.induct)
  case (1 i)
  show ?case by simp
next
  case (2 i r rs)
  have "map (\<lambda>j. i + int j) [0..<Suc (length rs)] = i # map (\<lambda>j. (i + 1) + int j) [0..<length rs]"
    by (simp only: upt_conv_Cons [of 0] map_Suc_upt [symmetric] zero_less_Suc list.map map_map o_def) simp
  with 2 show ?case by simp
qed

lemma number_from_bounds: "(j, r) \<in> set (number_from i rs) \<Longrightarrow> i \<le> j \<and> j < i + int (length rs) \<and> r \<in> set rs"
  by (induction i rs rule: number_from.induct) auto

lemma number_from_sorted: "sorted_wrt (<) (map fst (number_from i rs))"
  by (auto simp: number_from_fst sorted_wrt_map sorted_wrt_iff_nth_less)

lemma enqueue_rows_ok:
  assumes inv: "queue_inv s" and put: "enqueue_rows rs s = Some s'"
  shows "map snd (cleanup s') = map snd (cleanup s) @ rs" and "queue_inv s'"
proof -
  have res: "list_all (\<lambda>r. r \<in> resource_ids s) rs"
    and s': "s' = s\<lparr>cleanup := cleanup s @ number_from (next_cleanup s) rs,
                   next_cleanup := next_cleanup s + int (length rs)\<rparr>"
    using put by (simp_all add: enqueue_rows_def split: if_splits)
  have f: "cleanup s' = cleanup s @ number_from (next_cleanup s) rs" "fault s' = fault s"
    "next_cleanup s' = next_cleanup s + int (length rs)" "resource_ids s' = resource_ids s"
    by (simp_all add: s' resource_ids_def)
  show "map snd (cleanup s') = map snd (cleanup s) @ rs" by (simp add: f)
  have "\<forall>i\<in>set (map fst (cleanup s)). \<forall>j\<in>set (map fst (number_from (next_cleanup s) rs)). i < j"
    using inv by (fastforce simp: queue_inv_def list_all_iff dest: number_from_bounds)
  then have "sorted_wrt (<) (map fst (cleanup s'))"
    using inv number_from_sorted by (simp add: f queue_inv_def sorted_wrt_append)
  moreover have "0 < j \<and> j < next_cleanup s' \<and> r \<noteq> 0" if "(j, r) \<in> set (number_from (next_cleanup s) rs)" for j r
    using number_from_bounds [OF that] inv res by (auto simp: queue_inv_def f list_all_iff)
  ultimately show "queue_inv s'"
    using inv by (auto simp: queue_inv_def f list_all_iff)
qed

lemma sort_key_sorted: "sorted_wrt (<) (map fst xs) \<Longrightarrow> sort_key fst xs = (xs :: (id \<times> id) list)"
  by (rule sort_key_id_if_sorted) (metis strict_sorted_iff)

lemma take_req_Cons:
  assumes inv: "queue_inv s" and c: "cleanup s = (i, r) # xs"
  shows "take_req s = (Some r, s\<lparr>cleanup := xs\<rparr>)" and "queue_inv (s\<lparr>cleanup := xs\<rparr>)"
proof -
  have "first_cleanup s = Some (i, r)"
    using inv c sort_key_sorted [of "cleanup s"] by (simp add: first_cleanup_def queue_inv_def)
  moreover have "filter (\<lambda>(j, r). j \<noteq> i) (cleanup s) = xs"
    using inv c by (force simp: queue_inv_def filter_id_conv)
  ultimately show "take_req s = (Some r, s\<lparr>cleanup := xs\<rparr>)"
    using inv c by (simp add: take_req_def dbms_next_cleanup_req_def run_stmt_healthy queue_inv_def)
  show "queue_inv (s\<lparr>cleanup := xs\<rparr>)" using inv c by (simp add: queue_inv_def resource_ids_def)
qed

lemma take_req_Nil: "queue_inv s \<Longrightarrow> cleanup s = [] \<Longrightarrow> take_req s = (None, s)"
  by (simp add: take_req_def dbms_next_cleanup_req_def run_stmt_healthy queue_inv_def first_cleanup_def)

interpretation cq: fifo "\<lambda>s. map snd (cleanup s)" enqueue_rows take_req queue_inv
proof (unfold_locales, goal_cases)
  case (1 s xs s')
  then show ?case by (rule enqueue_rows_ok(1))
next
  case (2 s xs s')
  then show ?case by (rule enqueue_rows_ok(2))
next
  case (3 s x xs)
  then obtain i ys where "cleanup s = (i, x) # ys" "xs = map snd ys" by (cases "cleanup s") auto
  with take_req_Cons(1) [OF 3(1)] show ?case by simp
next
  case (4 s)
  then show ?case by (simp add: take_req_Nil)
next
  case (5 s)
  then show ?case
    using take_req_Cons [OF 5] take_req_Nil [OF 5]
    by (cases "cleanup s") (auto split: prod.splits)
qed

section \<open>The statement buffer\<close>

lemma bind_values_length:
  assumes "is_long (parent_id b)" "is_long (resource_id b)" "length now = 19"
    and "length (esc (esc (the (bind_name b)))) \<le> 78"
  shows "length (bind_values esc now b) \<le> 149"
  using assms show_long_length [of "parent_id b"] show_long_length [of "resource_id b"]
  by (simp add: bind_values_def)

lemma joinc_length:
  "xs \<noteq> [] \<Longrightarrow> (\<And>x. x \<in> set xs \<Longrightarrow> length x \<le> m) \<Longrightarrow> length (joinc c xs) + 1 \<le> (m + 1) * length xs"
proof (induction c xs rule: joinc.induct)
  case (3 c x y zs)
  then have "length x \<le> m" "length (joinc c (y # zs)) + 1 \<le> (m + 1) * length (y # zs)" by simp_all
  then show ?case by simp
qed simp_all

section \<open>Statements on the directory\<close>

lemma binds_tables:
  assumes "tables_eq s t"
  shows "bind_at s = bind_at t" "binds_inv s = binds_inv t"
  using assms by (simp_all add: fun_eq_iff bind_at_def find_bind_def binds_inv_def resource_ids_def tables_eqD)

lemma insert_bind_ok:
  assumes inv: "binds_inv s" and run: "dbms_insert_bind now r c (Some n) s = (None, s')"
  shows "binds_inv s' \<and> bind_at s (c, n) = None \<and> bind_at s' = (bind_at s)((c, n) \<mapsto> r)"
proof -
  from run obtain t where t: "tables_eq t s" and ins: "insert_bind_row now r (fst (c, n)) (snd (c, n)) t = Some s'"
    unfolding dbms_insert_bind_def by (rule exec_or_500_ok) simp
  have inv': "binds_inv t" using inv binds_tables(2) [OF t] by simp
  show ?thesis
    using bd.ins_fresh [OF inv' ins] bd.look_ins [OF inv' ins] bd.inv_ins [OF inv' ins]
    unfolding binds_tables(1) [OF t] by blast
qed

lemma delete_bind_ok:
  assumes run: "dbms_delete_bind c r n s = (None, s')"
  obtains t where "tables_eq t s" "s' = unbind_key (c, n) r t"
  using run unfolding dbms_delete_bind_def
  by (rule exec_or_500_ok) (simp add: unbind_key_def that)

lemma rebind_ok:
  assumes run: "dbms_rebind_resource now sp sn dp dn s = (None, s')"
  obtains t where "tables_eq t s" "rebind_rows now (fst (sp, sn)) (snd (sp, sn)) (fst (dp, dn)) (snd (dp, dn)) t = Some s'"
  using run unfolding dbms_rebind_resource_def by (rule exec_or_500_ok) (simp add: that)

section \<open>Properties\<close>

definition sample_binds :: db where
  "sample_binds = empty_db
     \<lparr>resources := [a_resource 2 ''Collection'', a_resource 6 ''Collection'', a_resource 7 ''Collection'',
                    a_resource 9 ''Resource''],
      binds := [\<lparr>b_id = 1, b_name = ''groups'', b_collection_id = 2, b_resource_id = 6, b_updated_at = ''2006-07-14''\<rparr>,
                \<lparr>b_id = 2, b_name = ''home'', b_collection_id = 2, b_resource_id = 7, b_updated_at = ''2006-07-14''\<rparr>,
                \<lparr>b_id = 3, b_name = ''a'', b_collection_id = 7, b_resource_id = 9, b_updated_at = ''2006-07-15''\<rparr>],
      next_bind := 4\<rparr>"

lemma sample_binds_inv: "binds_inv sample_binds" "fault sample_binds = []"
  by code_simp+

text \<open>C3: \<open>dbms_lookup_uri\<close> on an absolute URI with no question mark in a segment. The URI of the root gives the root collection. A URI
  whose segments all exist gives the resource that following the bindings from the root
  leads to. If the first segment does not exist there is no result; otherwise the answer is
  the deepest collection that exists, the marker -1 for the resource, and the URI cut after
  the last segment that exists.\<close>

theorem lookup_uri_resolves:
  assumes "fault s = []" and "u = CHR ''/'' # w" and nq: "\<not> has_qmark (tokens CHR ''/'' u)"
  defines "toks \<equiv> tokens CHR ''/'' u" and "k \<equiv> depth s ROOT_COLLECTION_ID (tokens CHR ''/'' u)"
  shows "case resolve s ROOT_COLLECTION_ID toks of
     Some r \<Rightarrow> \<exists>b. dbms_lookup_uri u s = Some (Inr (Some b), s) \<and> resource_id b = r
   | None \<Rightarrow>
      if k = 0 then dbms_lookup_uri u s = Some (Inr None, s)
      else \<exists>b r. dbms_lookup_uri u s = Some (Inr (Some b), s) \<and> resource_id b = - 1 \<and>
        resolve s ROOT_COLLECTION_ID (take k toks) = Some r \<and> parent_id b = r \<and>
        uri b = Some (path_of (take k toks))"
proof (cases "toks = []")
  case True
  then show ?thesis by (simp add: dbms_lookup_uri_def compact_uri_tokens toks_def)
next
  case ne: False
  have le: "k \<le> length toks" and res: "resolve s ROOT_COLLECTION_ID toks = None \<longleftrightarrow> k < length toks"
    by (simp_all add: k_def toks_def depth_le resolve_None_depth)
  show ?thesis
  proof (cases "k = 0")
    case True
    with ne have "dbms_lookup_uri u s = Some (Inr None, s)"
      using assms(1) nq join_binds_hd [of toks s ROOT_COLLECTION_ID]
      by (simp add: dbms_lookup_uri_def compact_uri_tokens run_stmt_healthy Let_def k_def toks_def)
    with True ne res show ?thesis by simp
  next
    case False
    with ne obtain b r where b: "dbms_lookup_uri u s = Some (Inr (Some b), s)"
      "resolve s ROOT_COLLECTION_ID (take k toks) = Some r"
      "if k = length toks then resource_id b = r
       else resource_id b = - 1 \<and> parent_id b = r \<and> uri b = Some (cut_uri (k + 1) (compact_uri u))"
      using lookup_row [of s u] assms(1) nq unfolding toks_def k_def by blast
    show ?thesis
    proof (cases "k = length toks")
      case True
      with b show ?thesis by simp
    next
      case less: False
      with le have "k < length (tokens CHR ''/'' u)" by (simp add: toks_def)
      from cut_compact [OF assms(2) this] b less le res False show ?thesis by (simp add: toks_def)
    qed
  qed
qed

theorem lookup_uri_resolves_witness:
  "resolve sample_binds ROOT_COLLECTION_ID [''home'', ''a''] = Some 9 \<and>
   (\<exists>b. dbms_lookup_uri ''/home//a'' sample_binds = Some (Inr (Some b), sample_binds) \<and> resource_id b = 9) \<and>
   (\<exists>b. dbms_lookup_uri ''/home/x/y'' sample_binds = Some (Inr (Some b), sample_binds) \<and>
        resource_id b = - 1 \<and> parent_id b = 7 \<and> uri b = Some ''/home'')"
proof -
  have e: "resolve sample_binds ROOT_COLLECTION_ID (tokens CHR ''/'' ''/home//a'') = Some 9"
    "resolve sample_binds ROOT_COLLECTION_ID (tokens CHR ''/'' ''/home/x/y'') = None"
    "depth sample_binds ROOT_COLLECTION_ID (tokens CHR ''/'' ''/home/x/y'') = 1"
    "tokens CHR ''/'' ''/home/x/y'' = [''home'', ''x'', ''y'']"
    "resolve sample_binds ROOT_COLLECTION_ID [''home''] = Some 7"
    "resolve sample_binds ROOT_COLLECTION_ID [''home'', ''a''] = Some 9"
    "\<not> has_qmark (tokens CHR ''/'' ''/home//a'')" "\<not> has_qmark (tokens CHR ''/'' ''/home/x/y'')" by code_simp+
  from lookup_uri_resolves [OF sample_binds_inv(2), of "''/home//a''" "''home//a''"]
    lookup_uri_resolves [OF sample_binds_inv(2), of "''/home/x/y''" "''home/x/y''"] e
  show ?thesis by auto
qed

text \<open>C18: A question mark in a segment of the URI makes \<open>dbms_lookup_uri\<close> read the results of a
  query that was never sent, in every state of the database.\<close>

theorem lookup_uri_question_mark:
  "has_qmark (tokens CHR ''/'' u) \<longleftrightarrow> dbms_lookup_uri u s = None"
  by (auto simp: dbms_lookup_uri_def compact_uri_tokens has_qmark_def Let_def)

text \<open>C14: A successful \<open>dbms_insert_bind\<close> found the name free in the collection and adds exactly that
  entry to the directory of bindings; deleting it again with \<open>dbms_delete_bind\<close> restores the
  directory. All keys of the table stay valid.\<close>

theorem insert_delete_bind:
  assumes "binds_inv s" and "dbms_insert_bind now r c (Some n) s = (None, s1)"
    and "dbms_delete_bind c r n s1 = (None, s2)"
  shows "binds_inv s1 \<and> bind_at s (c, n) = None \<and> bind_at s1 = (bind_at s)((c, n) \<mapsto> r)
    \<and> binds_inv s2 \<and> bind_at s2 = bind_at s"
proof -
  note i = insert_bind_ok [OF assms(1,2)]
  from assms(3) obtain t where t: "tables_eq t s1" "s2 = unbind_key (c, n) r t" by (rule delete_bind_ok)
  have inv: "binds_inv t" and at: "bind_at t (c, n) = Some r" and un: "bind_at t = bind_at s1"
    using i binds_tables [OF t(1)] by simp_all
  have "bind_at s2 = (bind_at s)((c, n) := None)"
    using bd.look_del [OF inv at] i un t(2) by simp
  moreover have "(bind_at s)((c, n) := None) = bind_at s" using i by (simp add: fun_upd_idem)
  moreover have "binds_inv s2" using bd.inv_del [OF inv] t(2) by simp
  ultimately show ?thesis using i by simp
qed

theorem insert_delete_bind_witness:
  "(let s1 = snd (dbms_insert_bind ''2008-01-01'' 9 6 (Some ''b'') sample_binds);
        s2 = snd (dbms_delete_bind 6 9 ''b'' s1)
    in bind_at s1 = (bind_at sample_binds)((6, ''b'') \<mapsto> 9) \<and> bind_at s2 = bind_at sample_binds)"
proof -
  let ?p1 = "dbms_insert_bind ''2008-01-01'' 9 6 (Some ''b'') sample_binds"
  let ?p2 = "dbms_delete_bind 6 9 ''b'' (snd ?p1)"
  have "fst ?p1 = None" "fst ?p2 = None" by code_simp+
  then have "?p1 = (None, snd ?p1)" "?p2 = (None, snd ?p2)" by (simp_all add: prod_eq_iff)
  from insert_delete_bind [OF sample_binds_inv(1) this] show ?thesis by (simp add: Let_def)
qed

text \<open>C14: Overwriting a binding, as \<open>dav_repos_rebind_resource\<close> does it (delete the entry at the
  destination, then \<open>dbms_rebind_resource\<close>): if both statements succeed, the source name is
  free, the destination name leads to the resource that the source named, and every other
  entry is as before.\<close>

theorem rebind_overwrites:
  assumes inv: "binds_inv s" and ne: "(dp, dn) \<noteq> (sp, sn)"
    and src: "bind_at s (sp, sn) = Some v" and dst: "bind_at s (dp, dn) = Some w"
    and del: "dbms_delete_bind dp w dn s = (None, s1)"
    and run: "dbms_rebind_resource now sp sn dp dn s1 = (None, s2)"
  shows "binds_inv s2 \<and> bind_at s2 = (bind_at s)((sp, sn) := None, (dp, dn) \<mapsto> v)"
proof -
  from del obtain t where t: "tables_eq t s" "s1 = unbind_key (dp, dn) w t" by (rule delete_bind_ok)
  from run obtain u where u: "tables_eq u s1"
    "rebind_rows now (fst (sp, sn)) (snd (sp, sn)) (fst (dp, dn)) (snd (dp, dn)) u = Some s2" by (rule rebind_ok)
  have t': "binds_inv t" "bind_at t = bind_at s" using inv binds_tables [OF t(1)] by simp_all
  have d: "bind_at s1 = (bind_at s)((dp, dn) := None)" "binds_inv s1"
    using bd.look_del [OF t'(1), of "(dp, dn)" w] bd.inv_del [OF t'(1)] t(2) t'(2) dst by simp_all
  have u': "binds_inv u" "bind_at u = bind_at s1" using d binds_tables [OF u(1)] by simp_all
  have "bind_at u (sp, sn) = Some v" using u'(2) d(1) src ne by auto
  from bd.look_move [OF u'(1) u(2) this] bd.inv_move [OF u'(1) u(2)] u'(2) d(1) show ?thesis
    by (auto simp: fun_eq_iff)
qed

theorem rebind_overwrites_witness:
  "(let s1 = snd (dbms_delete_bind 2 6 ''groups'' sample_binds);
        s2 = snd (dbms_rebind_resource ''2008-01-01'' 7 ''a'' 2 ''groups'' s1)
    in bind_at s2 = (bind_at sample_binds)((7, ''a'') := None, (2, ''groups'') \<mapsto> 9))"
proof -
  let ?p1 = "dbms_delete_bind 2 6 ''groups'' sample_binds"
  let ?p2 = "dbms_rebind_resource ''2008-01-01'' 7 ''a'' 2 ''groups'' (snd ?p1)"
  have h: "bind_at sample_binds (7, ''a'') = Some 9" "bind_at sample_binds (2, ''groups'') = Some 6"
    by code_simp+
  have "fst ?p1 = None" "fst ?p2 = None" by code_simp+
  then have p: "?p1 = (None, snd ?p1)" "?p2 = (None, snd ?p2)" by (simp_all add: prod_eq_iff)
  have "(2::int, ''groups'') \<noteq> (7, ''a'')" by simp
  from rebind_overwrites [OF sample_binds_inv(1) this h p] show ?thesis by (simp add: Let_def)
qed

text \<open>C26: \<open>dbms_detect_bind\<close> returns the prefix of the path up to and including the first entry of
  \<open>dbms_get_path_binds\<close> that is the binding it looks for (the whole path when there is none),
  whatever its uninitialised variable held; and for a path that resolves, the last entry
  of \<open>dbms_get_path_binds\<close> is the resource the path leads to.\<close>

theorem detect_bind_prefix:
  assumes ok: "fault s = []" and ne: "tokens CHR ''/'' path \<noteq> []"
  shows "dbms_detect_bind junk b path s =
      (path_of (take (Suc (length (takeWhile (\<lambda>x. bind_id x \<noteq> bind_id b)
         (fst (fst (dbms_get_path_binds path s)))))) (tokens CHR ''/'' path)), s)
    \<and> (\<forall>r. resolve s ROOT_COLLECTION_ID (tokens CHR ''/'' path) = Some r \<longrightarrow>
         resource_id (last (fst (fst (dbms_get_path_binds path s)))) = r)"
proof
  let ?toks = "tokens CHR ''/'' path"
  let ?bs = "fst (path_binds_loop ROOT_COLLECTION_ID ?toks s)"
  have bs: "fst (fst (dbms_get_path_binds path s)) = ?bs"
    by (simp add: dbms_get_path_binds_def split: prod.split)
  obtain t ts where ts: "?toks = t # ts" using ne by (cases ?toks) auto
  let ?nb = "fst (snd (dbms_get_bind (junk\<lparr>parent_id := ROOT_COLLECTION_ID, bind_name := Some t\<rparr>) s))"
  have nb: "bind_id ?nb = bind_id (hd ?bs)" "resource_id ?nb = resource_id (hd ?bs)"
    using ok by (simp_all add: ts get_bind_healthy split: prod.split option.split)
  have "dbms_detect_bind junk b path s = detect_loop (bind_id b) [] ?nb ?toks s"
    using ok by (simp add: dbms_detect_bind_def Let_def ts get_bind_healthy del: detect_loop.simps split: option.split)
  also have "\<dots> = (path_of (take (Suc (length (takeWhile (\<lambda>x. bind_id x \<noteq> bind_id b) ?bs))) ?toks), s)"
    using detect_loop_prefix [OF ok ne nb] by simp
  finally show "dbms_detect_bind junk b path s =
      (path_of (take (Suc (length (takeWhile (\<lambda>x. bind_id x \<noteq> bind_id b)
         (fst (fst (dbms_get_path_binds path s)))))) ?toks), s)" by (simp only: bs)
  show "\<forall>r. resolve s ROOT_COLLECTION_ID ?toks = Some r \<longrightarrow>
      resource_id (last (fst (fst (dbms_get_path_binds path s)))) = r"
    unfolding bs using path_binds_resolve [OF ok _ ne] by blast
qed

theorem detect_bind_prefix_witness:
  "dbms_detect_bind zero_bind (zero_bind\<lparr>bind_id := 2\<rparr>) ''/home/a'' sample_binds = (''/home'', sample_binds)"
proof -
  have "tokens CHR ''/'' ''/home/a'' = [''home'', ''a'']"
    "length (takeWhile (\<lambda>x. bind_id x \<noteq> 2) (fst (fst (dbms_get_path_binds ''/home/a'' sample_binds)))) = 0"
    by code_simp+
  with detect_bind_prefix [OF sample_binds_inv(2), of "''/home/a''" zero_bind "zero_bind\<lparr>bind_id := 2\<rparr>"]
  show ?thesis by simp
qed

text \<open>C33: Clean-up requests are served first come, first served: after \<open>dbms_insert_cleanup_reqs\<close> the
  requests already waiting come first and the new resources follow, each once; each
  \<open>dbms_next_cleanup_req\<close> takes the oldest; and as many calls as there are requests empty the
  queue.\<close>

theorem cleanup_queue_fifo:
  assumes inv: "queue_inv s" and put: "dbms_insert_cleanup_reqs bs s = (None, s1)"
  shows "map snd (cleanup s1) = map snd (cleanup s) @ remdups (map resource_id bs)
    \<and> (case map snd (cleanup s1) of
         [] \<Rightarrow> take_req s1 = (None, s1)
       | r # rs \<Rightarrow> fst (take_req s1) = Some r \<and> map snd (cleanup (snd (take_req s1))) = rs)
    \<and> cleanup (((\<lambda>s. snd (take_req s)) ^^ length (cleanup s1)) s1) = []"
proof -
  have "map snd (cleanup s1) = map snd (cleanup s) @ remdups (map resource_id bs) \<and> queue_inv s1"
  proof (cases "bs = []")
    case True
    with inv put show ?thesis by (simp add: dbms_insert_cleanup_reqs_def)
  next
    case False
    with put inv have "enqueue_rows (remdups (map resource_id bs)) s = Some s1"
      by (simp add: dbms_insert_cleanup_reqs_def exec_or_500_healthy queue_inv_def split: option.splits)
    with inv show ?thesis using cq.put_contents cq.put_inv by blast
  qed
  then have c: "map snd (cleanup s1) = map snd (cleanup s) @ remdups (map resource_id bs)"
    and inv1: "queue_inv s1" by simp_all
  have "cleanup (((\<lambda>s. snd (take_req s)) ^^ length (cleanup s1)) s1) = []"
    using cq.drained [OF inv1, of "length (cleanup s1)"] by simp
  moreover have "case map snd (cleanup s1) of [] \<Rightarrow> take_req s1 = (None, s1)
      | r # rs \<Rightarrow> fst (take_req s1) = Some r \<and> map snd (cleanup (snd (take_req s1))) = rs"
    using cq.get_none [OF inv1] cq.get_some [OF inv1] by (cases "cleanup s1") simp_all
  ultimately show ?thesis using c by blast
qed

theorem cleanup_queue_fifo_witness:
  "(let s = sample_binds\<lparr>cleanup := [(3, 6)], next_cleanup := 4\<rparr>;
        bs = [zero_bind\<lparr>resource_id := 9\<rparr>, zero_bind\<lparr>resource_id := 7\<rparr>, zero_bind\<lparr>resource_id := 9\<rparr>];
        s1 = snd (dbms_insert_cleanup_reqs bs s)
    in map snd (cleanup s1) = [6, 7, 9] \<and> fst (take_req s1) = Some 6)"
proof -
  let ?s = "sample_binds\<lparr>cleanup := [(3, 6)], next_cleanup := 4\<rparr>"
  let ?bs = "[zero_bind\<lparr>resource_id := 9\<rparr>, zero_bind\<lparr>resource_id := 7\<rparr>, zero_bind\<lparr>resource_id := 9\<rparr>]"
  let ?p = "dbms_insert_cleanup_reqs ?bs ?s"
  have inv: "queue_inv ?s" and "fst ?p = None" by code_simp+
  then have p: "?p = (None, snd ?p)" by (simp add: prod_eq_iff)
  note q = cleanup_queue_fifo [OF inv p]
  have c: "map snd (cleanup (snd ?p)) = [6, 7, 9]" using q by (rule conjE) simp
  with q show ?thesis by (simp add: Let_def)
qed

text \<open>C32: The statement that \<open>dbms_insert_bind_list\<close> builds fits its buffer of \<open>300 + 150 * array\<close>
  characters when every name is at most 78 characters long after the two escapes (the
  identifiers being C longs and the time stamp 19 characters), and is sent when no name has a
  question mark.\<close>

theorem insert_bind_list_fits:
  assumes arr: "0 < array" and len: "length bs = nat array" and now: "length now = 19"
    and longs: "list_all (\<lambda>b. is_long (parent_id b) \<and> is_long (resource_id b)) bs"
    and names: "list_all (\<lambda>b. length (esc (esc (the (bind_name b)))) \<le> 78) bs"
    and nq: "CHR ''?'' \<notin> set (bind_list_query esc now bs)"
  shows "dbms_insert_bind_list esc now bs array s
     = Some (exec_or_500 ''Could not insert into binds table.'' (insert_bind_rows esc now bs) s)"
proof -
  have ne: "map (bind_values esc now) bs \<noteq> []" using arr len by auto
  have "length x \<le> 149" if "x \<in> set (map (bind_values esc now) bs)" for x
  proof -
    from that obtain b where "b \<in> set bs" "x = bind_values esc now b" by auto
    with longs names now show ?thesis by (simp add: bind_values_length list_all_iff)
  qed
  from joinc_length [OF ne this] have "length (joinc CHR '','' (map (bind_values esc now) bs)) + 1 \<le> 150 * nat array"
    using len by simp
  then have "length (bind_list_query esc now bs) + 1 \<le> 300 + 150 * nat array"
    by (simp add: bind_list_query_def)
  then have "\<not> 300 + 150 * array < int (length (bind_list_query esc now bs)) + 1" using arr by linarith
  then show ?thesis using arr len nq by (simp add: dbms_insert_bind_list_def)
qed

theorem insert_bind_list_fits_witness:
  "dbms_insert_bind_list (\<lambda>x. x) ''2008-01-01 00:00:00'' [zero_bind\<lparr>parent_id := 6, resource_id := 9, bind_name := Some ''b''\<rparr>] 1 sample_binds
     \<noteq> None"
proof -
  let ?bs = "[zero_bind\<lparr>parent_id := 6, resource_id := 9, bind_name := Some ''b''\<rparr>]"
  have "CHR ''?'' \<notin> set (bind_list_query (\<lambda>x. x) ''2008-01-01 00:00:00'' ?bs)" by code_simp
  then show ?thesis
    using insert_bind_list_fits [of 1 ?bs "''2008-01-01 00:00:00''" "\<lambda>x. x" sample_binds]
    by (simp add: is_long_def)
qed

text \<open>A name within the width of the column can still overflow that buffer: with one binding,
  every name whose escaped form has 400 characters or more writes past its end.\<close>

theorem insert_bind_list_overflows:
  assumes "400 \<le> length (esc (esc n))"
  shows "dbms_insert_bind_list esc now [zero_bind\<lparr>parent_id := c, resource_id := r, bind_name := Some n\<rparr>] 1 s = None"
  using assms by (simp add: dbms_insert_bind_list_def bind_list_query_def bind_values_def)

theorem insert_bind_list_overflows_witness:
  "length (replicate 400 CHR ''a'') \<le> 767 \<and>
   dbms_insert_bind_list (\<lambda>x. x) ''2008-01-01 00:00:00''
     [zero_bind\<lparr>parent_id := 6, resource_id := 9, bind_name := Some (replicate 400 CHR ''a'')\<rparr>] 1 sample_binds = None"
  using insert_bind_list_overflows [of "\<lambda>x. x" "replicate 400 CHR ''a''"] by simp

end
