(* ===== verification/Paths.thy ===== *)
theory Paths
  imports Binds
begin

text \<open>
  \<open>dbms_find_shortest_path_excl_binds\<close> of \<^verbatim>\<open>dbms_bind.c\<close>: a breadth-first search from the
  target towards the source, one \<open>SELECT\<close> per level. The hash table of the C code is a
  map from collections to the path found for them; a level reads the bindings whose
  resource is among the collections found so far.
\<close>

section \<open>The search\<close>

text \<open>The rows of one level, and the paths found in it. The result is the path when the source
  is met, the table, and the new ancestors.\<close>

fun level_rows :: "id \<Rightarrow> bind_row list \<Rightarrow> (id \<rightharpoonup> string) \<Rightarrow> id list
    \<Rightarrow> string option \<times> (id \<rightharpoonup> string) \<times> id list" where
  "level_rows src [] h new = (None, h, new)"
| "level_rows src (b # bs) h new =
     (if h (b_collection_id b) \<noteq> None then level_rows src bs h new
      else
        let new = new @ [b_collection_id b];
            parent_sp = ''/'' @ b_name b @ (case h (b_resource_id b) of None \<Rightarrow> [] | Some p \<Rightarrow> p)
        in if b_collection_id b = src then (Some parent_sp, h, new)
           else level_rows src bs (h(b_collection_id b \<mapsto> parent_sp)) new)"

lemma level_rows_grow:
  "level_rows src bs h new = (None, h', new') \<Longrightarrow>
     (\<exists>xs. new' = new @ xs \<and> set xs = b_collection_id ` set bs - dom h \<and> dom h' = dom h \<union> set xs)"
proof (induction bs arbitrary: h new)
  case Nil
  then show ?case by simp
next
  case (Cons b bs)
  show ?case
  proof (cases "h (b_collection_id b)")
    case (Some p)
    with Cons.prems Cons.IH [of h new] have "\<exists>xs. new' = new @ xs \<and> set xs = b_collection_id ` set bs - dom h
        \<and> dom h' = dom h \<union> set xs" by simp
    with Some show ?thesis by auto
  next
    case None
    let ?sp = "''/'' @ b_name b @ (case h (b_resource_id b) of None \<Rightarrow> [] | Some p \<Rightarrow> p)"
    define h1 where "h1 = h(b_collection_id b \<mapsto> ?sp)"
    have d1: "dom h1 = insert (b_collection_id b) (dom h)" by (simp add: h1_def)
    from None Cons.prems have
      "level_rows src bs h1 (new @ [b_collection_id b]) = (None, h', new')"
      by (simp add: Let_def h1_def split: if_splits)
    from Cons.IH [OF this] obtain xs where xs: "new' = new @ [b_collection_id b] @ xs"
      "set xs = b_collection_id ` set bs - dom h1" "dom h' = dom h1 \<union> set xs" by auto
    with d1 show ?thesis using None by (intro exI [of _ "b_collection_id b # xs"]) auto
  qed
qed

definition excl_ids :: "dbms_bind_list list \<Rightarrow> id list" where
  "excl_ids bs = (case bs of [] \<Rightarrow> [] | b # bs \<Rightarrow> bind_id b # filter (\<lambda>i. 0 < i) (map bind_id bs))"

lemma search_measure:
  assumes "run_select s = (False, s')"
    and "level_rows src (filter P (binds s')) h [] = (None, h', new)" and "new \<noteq> []"
  shows "card (b_collection_id ` set (binds s') - dom h') < card (b_collection_id ` set (binds s) - dom h)"
proof -
  have eq: "binds s' = binds s" using run_select_same [OF assms(1)] by (simp add: tables_eqD)
  from level_rows_grow [OF assms(2)] have n: "set new = b_collection_id ` set (filter P (binds s')) - dom h"
    "dom h' = dom h \<union> set new" by auto
  obtain c where "c \<in> set new" using assms(3) by (cases new) auto
  with n eq have "b_collection_id ` set (binds s') - dom h' \<subset> b_collection_id ` set (binds s) - dom h" by auto
  then show ?thesis by (intro psubset_card_mono) auto
qed

text \<open>
  The list of excluded bindings is walked to its end while the first query is built, and
  the later iterations find it empty.
\<close>

function search :: "id \<Rightarrow> dbms_bind_list list \<Rightarrow> id list \<Rightarrow> (id \<rightharpoonup> string) \<Rightarrow> db
    \<Rightarrow> (dav_error + string option) \<times> db" where
  "search src excl forefathers h s =
     (case run_select s of
        (True, s') \<Rightarrow> (Inl (dav_new_error HTTP_INTERNAL_SERVER_ERROR ''Couldn't get all parent binds''), s')
      | (False, s') \<Rightarrow>
          (case level_rows src
                  (filter (\<lambda>b. b_resource_id b \<in> set forefathers \<and> b_id b \<notin> set (excl_ids excl)) (binds s'))
                  h [] of
             (Some p, h', new) \<Rightarrow> (Inr (Some p), s')
           | (None, h', new) \<Rightarrow>
               if new = [] then (Inr None, s') else search src [] (forefathers @ new) h' s'))"
  by pat_completeness auto

termination
  by (relation "measure (\<lambda>(src, excl, ff, h, s). card (b_collection_id ` set (binds s) - dom h))")
    (auto intro: search_measure [OF sym sym])

declare search.simps [simp del]

definition dbms_find_shortest_path_excl_binds ::
  "id \<Rightarrow> id \<Rightarrow> dbms_bind_list list \<Rightarrow> db \<Rightarrow> (dav_error + string option) \<times> db" where
  "dbms_find_shortest_path_excl_binds from_res_id to_res_id excl_binds s =
     (if from_res_id = to_res_id then (Inr (Some []), s)
      else search from_res_id excl_binds [to_res_id] [to_res_id \<mapsto> []] s)"

definition dbms_find_shortest_path :: "id \<Rightarrow> id \<Rightarrow> db \<Rightarrow> (dav_error + string option) \<times> db" where
  "dbms_find_shortest_path from_res_id to_res_id s =
     dbms_find_shortest_path_excl_binds from_res_id to_res_id [] s"

section \<open>Paths in the graph of bindings\<close>

fun walk :: "bind_row list \<Rightarrow> id \<Rightarrow> string list \<Rightarrow> id \<Rightarrow> bool" where
  "walk bs c [] r = (c = r)"
| "walk bs c (n # ns) r = (\<exists>b \<in> set bs. b_collection_id b = c \<and> b_name b = n \<and> walk bs (b_resource_id b) ns r)"

text \<open>Collections that reach the target in at most \<open>k\<close> steps.\<close>

definition near :: "bind_row list \<Rightarrow> id \<Rightarrow> nat \<Rightarrow> id set" where
  "near bs r k = {c. \<exists>ns. length ns \<le> k \<and> walk bs c ns r}"

definition shortest :: "bind_row list \<Rightarrow> id \<Rightarrow> id \<Rightarrow> string list \<Rightarrow> bool" where
  "shortest bs c r ns \<longleftrightarrow> walk bs c ns r \<and> (\<forall>ms. walk bs c ms r \<longrightarrow> length ns \<le> length ms)"

lemma near_0 [simp]: "near bs r 0 = {r}"
  by (auto simp: near_def)

lemma near_Suc: "near bs r (Suc k) = near bs r k \<union> {b_collection_id b | b. b \<in> set bs \<and> b_resource_id b \<in> near bs r k}"
proof (intro set_eqI iffI)
  fix c
  assume "c \<in> near bs r (Suc k)"
  then obtain ns where ns: "length ns \<le> Suc k" "walk bs c ns r" by (auto simp: near_def)
  show "c \<in> near bs r k \<union> {b_collection_id b | b. b \<in> set bs \<and> b_resource_id b \<in> near bs r k}"
  proof (cases ns)
    case Nil
    with ns show ?thesis by (auto simp: near_def intro!: exI [of _ "[]"])
  next
    case (Cons n ms)
    with ns show ?thesis by (auto simp: near_def)
  qed
next
  fix c
  assume "c \<in> near bs r k \<union> {b_collection_id b | b. b \<in> set bs \<and> b_resource_id b \<in> near bs r k}"
  then show "c \<in> near bs r (Suc k)"
  proof
    assume "c \<in> near bs r k"
    then show ?thesis by (auto simp: near_def intro: le_SucI)
  next
    assume "c \<in> {b_collection_id b | b. b \<in> set bs \<and> b_resource_id b \<in> near bs r k}"
    then obtain b ns where "b \<in> set bs" "c = b_collection_id b" "length ns \<le> k" "walk bs (b_resource_id b) ns r"
      by (auto simp: near_def)
    then show ?thesis by (auto simp: near_def intro!: exI [of _ "b_name b # ns"])
  qed
qed

lemma near_closed:
  assumes "near bs r (Suc k) = near bs r k"
  shows "walk bs c ns r \<Longrightarrow> c \<in> near bs r k"
proof (induction ns arbitrary: c)
  case Nil
  then show ?case by (auto simp: near_def intro!: exI [of _ "[]"])
next
  case (Cons n ns)
  then obtain b where "b \<in> set bs" "b_collection_id b = c" "b_resource_id b \<in> near bs r k" by auto
  then have "c \<in> near bs r (Suc k)" by (auto simp: near_Suc)
  with assms show ?case by simp
qed

text \<open>A new ancestor gets a shortest path: one step, then the shortest path of the row's
  resource.\<close>

lemma shortest_step:
  assumes "b \<in> set bs" "shortest bs (b_resource_id b) r ns"
    and "b_resource_id b \<in> near bs r k" "b_collection_id b \<notin> near bs r k"
  shows "shortest bs (b_collection_id b) r (b_name b # ns)"
proof -
  obtain ms where "length ms \<le> k" "walk bs (b_resource_id b) ms r" using assms(3) by (auto simp: near_def)
  with assms(2) have "length ns \<le> k" by (auto simp: shortest_def intro: order_trans)
  moreover have "k < length ms" if "walk bs (b_collection_id b) ms r" for ms
    using that assms(4) by (auto simp: near_def not_le [symmetric])
  ultimately show ?thesis using assms(1,2) by (force simp: shortest_def)
qed

section \<open>Correctness of the search\<close>

definition via :: "(id \<rightharpoonup> string) \<Rightarrow> bind_row \<Rightarrow> string" where
  "via h b = ''/'' @ b_name b @ (case h (b_resource_id b) of None \<Rightarrow> [] | Some p \<Rightarrow> p)"

lemma via_map_le: "h0 \<subseteq>\<^sub>m h \<Longrightarrow> b_resource_id b \<in> dom h0 \<Longrightarrow> via h b = via h0 b"
  by (auto simp: via_def map_le_def)

lemma level_rows_sound:
  "level_rows src bs h new = (r, h', new') \<Longrightarrow> h0 \<subseteq>\<^sub>m h \<Longrightarrow> \<forall>b\<in>set bs. b_resource_id b \<in> dom h0 \<Longrightarrow>
     h \<subseteq>\<^sub>m h' \<and>
     (\<forall>c p. h' c = Some p \<and> h c = None \<longrightarrow> (\<exists>b\<in>set bs. b_collection_id b = c \<and> p = via h0 b)) \<and>
     (\<forall>p. r = Some p \<longrightarrow> h0 src = None \<and> (\<exists>b\<in>set bs. b_collection_id b = src \<and> p = via h0 b)) \<and>
     (r = None \<and> h src = None \<longrightarrow> h' src = None)"
proof (induction bs arbitrary: h new)
  case Nil
  then show ?case by (simp add: map_le_def)
next
  case (Cons b bs)
  show ?case
  proof (cases "h (b_collection_id b)")
    case (Some p)
    then have "level_rows src bs h new = (r, h', new')" using Cons.prems(1) by simp
    from Cons.IH [OF this Cons.prems(2)] Cons.prems(3) show ?thesis by auto
  next
    case None
    have v: "via h b = via h0 b" using Cons.prems(2,3) by (simp add: via_map_le)
    have h0: "h0 (b_collection_id b) = None"
      using None Cons.prems(2) by (auto simp: map_le_def dom_def)
    show ?thesis
    proof (cases "b_collection_id b = src")
      case True
      with None Cons.prems(1) have "r = Some (via h b)" "h' = h" by (auto simp: via_def Let_def)
      with True v h0 show ?thesis by auto
    next
      case False
      define h1 where "h1 = h(b_collection_id b \<mapsto> via h b)"
      have run: "level_rows src bs h1 (new @ [b_collection_id b]) = (r, h', new')"
        using None False Cons.prems(1) by (simp add: via_def h1_def Let_def)
      have "h \<subseteq>\<^sub>m h1" using None by (auto simp: h1_def map_le_def)
      moreover from this have "h0 \<subseteq>\<^sub>m h1" using Cons.prems(2) map_le_trans by blast
      moreover have "h1 src = None" if "h src = None" using that False by (simp add: h1_def)
      moreover have "h1 c = None \<or> c = b_collection_id b \<and> h1 c = Some (via h0 b)" if "h c = None" for c
        using that v by (auto simp: h1_def)
      ultimately show ?thesis
        using Cons.IH [OF run] Cons.prems(3) map_le_trans [of h h1 h']
        by (simp add: map_le_def) (metis domI option.inject)
    qed
  qed
qed

definition search_inv :: "bind_row list \<Rightarrow> id \<Rightarrow> id \<Rightarrow> nat \<Rightarrow> id list \<Rightarrow> (id \<rightharpoonup> string) \<Rightarrow> bool" where
  "search_inv bs src tgt k ff h \<longleftrightarrow>
     set ff = dom h \<and> dom h = near bs tgt k \<and> h src = None \<and>
     (\<forall>c p. h c = Some p \<longrightarrow> (\<exists>ns. shortest bs c tgt ns \<and> p = path_of ns))"

lemma via_shortest:
  assumes inv: "search_inv bs src tgt k ff h" and b: "b \<in> set bs" "b_resource_id b \<in> dom h"
    and new: "h (b_collection_id b) = None"
  shows "\<exists>ns. shortest bs (b_collection_id b) tgt ns \<and> via h b = path_of ns"
proof -
  from b(2) obtain p where p: "h (b_resource_id b) = Some p" by auto
  with inv obtain ns where ns: "shortest bs (b_resource_id b) tgt ns" "p = path_of ns"
    unfolding search_inv_def by blast
  have "b_resource_id b \<in> near bs tgt k" "b_collection_id b \<notin> near bs tgt k"
    using inv b(2) new by (auto simp: search_inv_def)
  from shortest_step [OF b(1) ns(1) this] ns(2) p show ?thesis
    by (intro exI [of _ "b_name b # ns"]) (simp add: via_def)
qed

text \<open>One level: it finds the source with a shortest path, or moves to the next distance, or
  shows that there is nothing more to find.\<close>

lemma level_step:
  assumes inv: "search_inv bs src tgt k ff h"
    and run: "level_rows src (filter (\<lambda>b. b_resource_id b \<in> set ff) bs) h [] = (r, h', new)"
  shows "case r of Some p \<Rightarrow> \<exists>ns. shortest bs src tgt ns \<and> p = path_of ns
    | None \<Rightarrow> if new = [] then \<forall>ns. \<not> walk bs src ns tgt else search_inv bs src tgt (Suc k) (ff @ new) h'"
proof -
  let ?rows = "filter (\<lambda>b. b_resource_id b \<in> set ff) bs"
  have ff: "set ff = dom h" and near: "dom h = near bs tgt k" and src: "h src = None"
    using inv by (simp_all add: search_inv_def)
  have "\<forall>b\<in>set ?rows. b_resource_id b \<in> dom h" using ff by simp
  note sound = level_rows_sound [OF run map_le_refl this]
  show ?thesis
  proof (cases r)
    case (Some p)
    with sound obtain b where "b \<in> set ?rows" "b_collection_id b = src" "p = via h b" by blast
    with via_shortest [OF inv, of b] src ff Some show ?thesis by auto
  next
    case None
    with run have "level_rows src ?rows h [] = (None, h', new)" by simp
    from level_rows_grow [OF this] have new: "set new = b_collection_id ` set ?rows - dom h"
      and dom: "dom h' = dom h \<union> set new" by auto
    have "near bs tgt (Suc k) = dom h \<union> b_collection_id ` set ?rows"
      using near ff by (auto simp: near_Suc)
    then have near': "near bs tgt (Suc k) = dom h'" using new dom by auto
    show ?thesis
    proof (cases "new = []")
      case True
      then have "near bs tgt (Suc k) = near bs tgt k" using near' dom near by simp
      from near_closed [OF this] have "walk bs src ns tgt \<Longrightarrow> src \<in> dom h" for ns using near by simp
      with True None src show ?thesis by auto
    next
      case False
      have "\<exists>ns. shortest bs c tgt ns \<and> p = path_of ns" if c: "h' c = Some p" for c p
      proof (cases "h c")
        case None
        with c sound obtain b where "b \<in> set ?rows" "b_collection_id b = c" "p = via h b" by blast
        with via_shortest [OF inv, of b] ff None show ?thesis by auto
      next
        case (Some q)
        with c sound have "q = p" by (auto simp: map_le_def dom_def)
        with Some inv show ?thesis by (auto simp: search_inv_def)
      qed
      moreover have "h' src = None" using sound src None by simp
      ultimately have "search_inv bs src tgt (Suc k) (ff @ new) h'"
        using near' dom ff by (simp add: search_inv_def)
      with False None show ?thesis by simp
    qed
  qed
qed

lemma search_correct:
  assumes "search_inv (binds s) src tgt k ff h" and "search src [] ff h s = (r, s')"
  shows "tables_eq s' s \<and> (case r of
      Inl e \<Rightarrow> fault s \<noteq> [] \<and> status e = HTTP_INTERNAL_SERVER_ERROR
    | Inr (Some p) \<Rightarrow> \<exists>ns. shortest (binds s) src tgt ns \<and> p = path_of ns
    | Inr None \<Rightarrow> \<forall>ns. \<not> walk (binds s) src ns tgt)"
  using assms
proof (induction src "[] :: dbms_bind_list list" ff h s arbitrary: k r s' rule: search.induct)
  case (1 src ff h s)
  show ?case
  proof (cases "run_select s")
    case (Pair b t)
    have same: "tables_eq t s" using Pair by (rule run_select_same)
    then have bt: "binds t = binds s" by (simp add: tables_eqD)
    show ?thesis
    proof (cases b)
      case True
      then have "fault s \<noteq> []" using Pair by (auto simp: run_stmt_healthy)
      moreover from True have "r = Inl (dav_new_error HTTP_INTERNAL_SERVER_ERROR ''Couldn't get all parent binds'')" "s' = t"
        using 1(3) Pair by (simp_all add: search.simps [of src "[]" ff h s])
      ultimately show ?thesis using same by simp
    next
      case False
      obtain x h' new where lv: "level_rows src (filter (\<lambda>b. b_resource_id b \<in> set ff) (binds t)) h [] = (x, h', new)"
        by (cases "level_rows src (filter (\<lambda>b. b_resource_id b \<in> set ff) (binds t)) h []") auto
      have inv: "search_inv (binds t) src tgt k ff h" using 1(2) bt by simp
      note step = level_step [OF inv lv]
      have run: "(r, s') = (case x of Some p \<Rightarrow> (Inr (Some p), t)
          | None \<Rightarrow> if new = [] then (Inr None, t) else search src [] (ff @ new) h' t)"
        using 1(3) Pair False lv
        by (simp add: search.simps [of src "[]" ff h s] excl_ids_def split: option.splits if_splits)
      show ?thesis
      proof (cases "x = None \<and> new \<noteq> []")
        case True
        have ft: "fault t \<noteq> [] \<Longrightarrow> fault s \<noteq> []" using Pair False by (auto simp: run_stmt_healthy)
        have lv': "(x, h', new) = level_rows src (filter (\<lambda>b. b_resource_id b \<in> set ff \<and> b_id b \<notin> set (excl_ids [])) (binds t)) h []"
          using lv by (simp add: excl_ids_def)
        from True step have inv': "search_inv (binds t) src tgt (Suc k) (ff @ new) h'" by simp
        have "search src [] (ff @ new) h' t = (r, s')" using run True by simp
        with "1.hyps" [OF Pair [symmetric] _ lv' _ _ _ inv'] True False
        have "tables_eq s' t \<and> (case r of
            Inl e \<Rightarrow> fault t \<noteq> [] \<and> status e = HTTP_INTERNAL_SERVER_ERROR
          | Inr (Some p) \<Rightarrow> \<exists>ns. shortest (binds t) src tgt ns \<and> p = path_of ns
          | Inr None \<Rightarrow> \<forall>ns. \<not> walk (binds t) src ns tgt)" by simp
        then show ?thesis using tables_eq_trans [OF _ same] ft by (auto simp: bt split: sum.splits option.splits)
      next
        case False
        with run step same bt show ?thesis by (auto split: option.splits if_splits)
      qed
    qed
  qed
qed

lemma shortest_path_spec:
  "case dbms_find_shortest_path src tgt s of (r, s') \<Rightarrow> tables_eq s' s \<and> (case r of
      Inl e \<Rightarrow> fault s \<noteq> [] \<and> status e = HTTP_INTERNAL_SERVER_ERROR
    | Inr (Some p) \<Rightarrow> \<exists>ns. shortest (binds s) src tgt ns \<and> p = path_of ns
    | Inr None \<Rightarrow> \<not> (\<exists>ns. walk (binds s) src ns tgt))"
proof (cases "src = tgt")
  case True
  then show ?thesis
    by (auto simp: dbms_find_shortest_path_def dbms_find_shortest_path_excl_binds_def shortest_def
        intro!: exI [of _ "[]"])
next
  case False
  have "shortest (binds s) tgt tgt []" by (simp add: shortest_def)
  with False have "search_inv (binds s) src tgt 0 [tgt] [tgt \<mapsto> []]"
    by (auto simp: search_inv_def intro!: exI [of _ "[]"])
  from search_correct [OF this] False show ?thesis
    by (auto simp: dbms_find_shortest_path_def dbms_find_shortest_path_excl_binds_def
        split: prod.split sum.splits option.splits)
qed

section \<open>Properties\<close>

text \<open>C2: \<open>dbms_find_shortest_path\<close> always returns. Unless a statement fails from outside (the only
  error, a 500), it answers with a path that leads from the source to the target along the
  bindings and has the fewest segments of all such paths, or with \<open>NULL\<close> exactly when no
  path exists. No table changes.\<close>

theorem find_shortest_path_correct:
  "case dbms_find_shortest_path src tgt s of (r, s') \<Rightarrow> tables_eq s' s \<and> (case r of
      Inl e \<Rightarrow> fault s \<noteq> [] \<and> status e = HTTP_INTERNAL_SERVER_ERROR
    | Inr (Some p) \<Rightarrow> \<exists>ns. shortest (binds s) src tgt ns \<and> p = path_of ns
    | Inr None \<Rightarrow> \<not> (\<exists>ns. walk (binds s) src ns tgt))"
  by (rule shortest_path_spec)

definition chain_binds :: db where
  "chain_binds = empty_db
     \<lparr>binds := [\<lparr>b_id = 1, b_name = ''a'', b_collection_id = 2, b_resource_id = 10, b_updated_at = []\<rparr>,
                \<lparr>b_id = 2, b_name = ''b'', b_collection_id = 10, b_resource_id = 11, b_updated_at = []\<rparr>]\<rparr>"

text \<open>C37: The bindings to exclude are left out of the first level of the search only: with the single
  chain root - a - b and the binding of \<open>a\<close> excluded, the search still answers with a path
  through it.\<close>

theorem excluded_binds_are_used:
  "fst (dbms_find_shortest_path_excl_binds 2 11 [zero_bind\<lparr>bind_id := 1\<rparr>] chain_binds) = Inr (Some ''/a/b'')
   \<and> \<not> walk (filter (\<lambda>b. b_id b \<noteq> 1) (binds chain_binds)) 2 [''a'', ''b''] 11"
  by code_simp

end
