(* ===== verification/Locks.thy ===== *)
theory Locks
  imports Paths
begin

text \<open>
  Locks: the statements of \<^verbatim>\<open>dbms_locks.c\<close> on the tables \<open>locks\<close> (one row per lock, with the
  resource it was taken on), \<open>locks_resources\<close> (the resources a lock covers) and
  \<open>binds_locks\<close> (the bindings on the path it was taken through), and the hooks of
  \<^verbatim>\<open>lock.c\<close> that use only these. The calendar functions of the runtime are parameters:
  \<open>to_ansi\<close> reads a time stamp as seconds, \<open>of_ansi\<close> prints one.

  An operation that may never return has the type \<open>option\<close>; \<open>None\<close> is not returning.
\<close>

datatype lock_scope = DAV_LOCKSCOPE_UNKNOWN | DAV_LOCKSCOPE_EXCLUSIVE | DAV_LOCKSCOPE_SHARED
datatype lock_rectype = DAV_LOCKREC_DIRECT | DAV_LOCKREC_INDIRECT

definition DAV_INFINITY :: int where "DAV_INFINITY = 2147483647"

record dav_lock =
  lk_uuid :: string
  lk_scope :: lock_scope
  lk_rectype :: lock_rectype
  lk_res_id :: id
  lk_depth :: int
  lk_timeout :: int
  lk_owner :: string
  lk_auth_user :: string
  lk_lock_id :: id
  lk_lockroot :: string
  lk_post_bind_uri :: "string option"

section \<open>Reading locks\<close>

type_synonym lock_join_row = "lock_row \<times> id \<times> string"

definition lock_join :: "db \<Rightarrow> lock_join_row list" where
  "lock_join s = concat (map (\<lambda>(lid, rid).
     case find (\<lambda>l. l_id l = lid) (locks s) of
       None \<Rightarrow> []
     | Some l \<Rightarrow> (case find (\<lambda>(i, n). i = l_owner_id l) (principals s) of
                   None \<Rightarrow> [] | Some (i, n) \<Rightarrow> [(l, rid, n)])) (locks_resources s))"

definition scope_of :: "string \<Rightarrow> lock_scope" where
  "scope_of form =
     (if form \<noteq> [] \<and> hd form = CHR ''S'' then DAV_LOCKSCOPE_SHARED
      else if form \<noteq> [] \<and> hd form = CHR ''X'' then DAV_LOCKSCOPE_EXCLUSIVE
      else DAV_LOCKSCOPE_UNKNOWN)"

text \<open>One iteration of the loop over the rows; \<open>ind\<close> is the C variable \<open>indirect\<close>.\<close>

definition make_lock :: "(datetime \<Rightarrow> int) \<Rightarrow> string \<Rightarrow> id \<Rightarrow> bool \<Rightarrow> bool \<Rightarrow> lock_join_row \<Rightarrow> dav_lock" where
  "make_lock to_ansi root_path serialno resolve_indirect ind = (\<lambda>(l, rid, name).
     \<lparr>lk_uuid = l_uuid l, lk_scope = scope_of (l_form l),
      lk_rectype = (if ind \<and> \<not> resolve_indirect then DAV_LOCKREC_INDIRECT else DAV_LOCKREC_DIRECT),
      lk_res_id = (if ind \<and> \<not> resolve_indirect then serialno else l_resource_id l),
      lk_depth = (if ind \<and> \<not> resolve_indirect then 0 else if l_depth l \<noteq> 0 then DAV_INFINITY else 0),
      lk_timeout = to_ansi (l_expires_at l), lk_owner = l_owner_info l, lk_auth_user = name,
      lk_lock_id = l_id l, lk_lockroot = root_path @ l_lockroot l, lk_post_bind_uri = None\<rparr>)"

definition expired :: "int \<Rightarrow> dav_lock \<Rightarrow> bool" where
  "expired now k \<longleftrightarrow> lk_timeout k \<noteq> 0 \<and> lk_timeout k \<le> now"

text \<open>The variable \<open>indirect\<close> is set by the first row of another resource and never reset.\<close>

fun read_locks :: "(datetime \<Rightarrow> int) \<Rightarrow> int \<Rightarrow> string \<Rightarrow> id \<Rightarrow> bool \<Rightarrow> bool \<Rightarrow> lock_join_row list
    \<Rightarrow> dav_lock list \<times> id list" where
  "read_locks to_ansi now root serialno res ind [] = ([], [])"
| "read_locks to_ansi now root serialno res ind (r # rs) =
     (let ind = (ind \<or> l_resource_id (fst r) \<noteq> serialno);
          k = make_lock to_ansi root serialno res ind r;
          (ks, ex) = read_locks to_ansi now root serialno res ind rs
      in if expired now k then (ks, lk_lock_id k # ex) else (k # ks, ex))"

text \<open>
  \<open>dbms_delete_exp_locks\<close>. After a failed \<open>SELECT\<close> the loop \<open>while (dbms_next(q))\<close> runs on the
  result -1 for ever. The ids of lock-null resources are collected so that the second one
  replaces the text by a comma and itself: from two on the \<open>DELETE\<close> is not valid SQL.
\<close>

definition dbms_delete_exp_locks :: "id list \<Rightarrow> db \<Rightarrow> (dav_error option \<times> db) option" where
  "dbms_delete_exp_locks exp_lock_ids s =
     (case run_select s of
        (True, s) \<Rightarrow> None
      | (False, s) \<Rightarrow>
          (let roots = map l_resource_id (filter (\<lambda>l. l_id l \<in> set exp_lock_ids) (locks s));
               nulls = map r_id (filter (\<lambda>r. r_id r \<in> set roots \<and> r_type r = type_name dav_repos_LOCKNULL) (resources s))
           in case exec_or_500 ''DBMS Error retrieving locks''
                     (\<lambda>s. Some (delete_locks (\<lambda>l. l_id l \<in> set exp_lock_ids) s)) s of
                (Some e, s) \<Rightarrow> Some (Some e, s)
              | (None, s) \<Rightarrow>
                  if nulls = [] then Some (None, s)
                  else Some (exec_or_500 ''DBMS Error retrieving locks''
                    (\<lambda>s. if length nulls = 1
                         then delete_resources (\<lambda>i. i \<in> set nulls \<and> i \<notin> set (map l_resource_id (locks s))) s
                         else None) s)))"

definition dbms_get_locks_by_where_str ::
  "(datetime \<Rightarrow> int) \<Rightarrow> int \<Rightarrow> string \<Rightarrow> id \<Rightarrow> bool \<Rightarrow> (db \<Rightarrow> lock_join_row \<Rightarrow> bool) \<Rightarrow> db
    \<Rightarrow> ((dav_error + dav_lock list) \<times> db) option" where
  "dbms_get_locks_by_where_str to_ansi now root serialno resolve_indirect where_str s =
     (case run_select s of
        (True, s) \<Rightarrow> Some (Inl (dav_new_error HTTP_INTERNAL_SERVER_ERROR ''DBMS Error retrieving locks''), s)
      | (False, s) \<Rightarrow>
          (case read_locks to_ansi now root serialno resolve_indirect False (filter (where_str s) (lock_join s)) of
             (ks, ex) \<Rightarrow>
               if ex = [] then Some (Inr ks, s)
               else map_option (\<lambda>(e, s). (Inr ks, s)) (dbms_delete_exp_locks ex s)))"

definition dbms_get_locks ::
  "(datetime \<Rightarrow> int) \<Rightarrow> int \<Rightarrow> string \<Rightarrow> id \<Rightarrow> bool \<Rightarrow> db \<Rightarrow> ((dav_error + dav_lock list) \<times> db) option" where
  "dbms_get_locks to_ansi now root serialno resolve_indirect =
     dbms_get_locks_by_where_str to_ansi now root serialno resolve_indirect (\<lambda>s (l, rid, n). rid = serialno)"

text \<open>
  \<open>dbms_find_lock_by_token\<close> puts the token between quotes without escaping it. A token with
  a quote in it makes another condition of it, which the parameter \<open>injected\<close> stands for. A
  token with a question mark leaves the query unsent, and the loop over its rows reads
  through a null pointer (\<open>None\<close>). The same holds of \<open>dbms_refresh_lock\<close>.
\<close>

definition uuid_is :: "(string \<Rightarrow> lock_join_row \<Rightarrow> bool) \<Rightarrow> string \<Rightarrow> lock_join_row \<Rightarrow> bool" where
  "uuid_is injected u = (\<lambda>(l, rid, n).
     if CHR 0x27 \<in> set u then injected u (l, rid, n) else l_uuid l = u)"

definition dbms_find_lock_by_token ::
  "(string \<Rightarrow> lock_join_row \<Rightarrow> bool) \<Rightarrow> (datetime \<Rightarrow> int) \<Rightarrow> int \<Rightarrow> string \<Rightarrow> id \<Rightarrow> string \<Rightarrow> db
    \<Rightarrow> ((dav_error + dav_lock list) \<times> db) option" where
  "dbms_find_lock_by_token injected to_ansi now root serialno token =
     (if CHR ''?'' \<in> set token then (\<lambda>s. None)
      else dbms_get_locks_by_where_str to_ansi now root serialno False
        (\<lambda>s r. (case r of (l, rid, n) \<Rightarrow> rid = serialno) \<and> uuid_is injected token r))"

definition dbms_resource_has_locks :: "id \<Rightarrow> db \<Rightarrow> (dav_error + nat) \<times> db" where
  "dbms_resource_has_locks serialno s =
     (case run_select s of
        (True, s) \<Rightarrow> (Inl (dav_new_error HTTP_INTERNAL_SERVER_ERROR ''DBMS Error retrieving locks''), s)
      | (False, s) \<Rightarrow> (Inr (length (filter (\<lambda>(l, r). r = serialno) (locks_resources s))), s))"

section \<open>Writing locks\<close>

text \<open>Inserting rows into \<open>locks_resources\<close>: primary key and both foreign keys.\<close>

definition insert_lock_resources :: "(id \<times> id) list \<Rightarrow> db \<Rightarrow> db option" where
  "insert_lock_resources ps s =
     (if distinct ps \<and> list_all (\<lambda>p. p \<notin> set (locks_resources s)) ps
         \<and> list_all (\<lambda>(l, r). l \<in> l_id ` set (locks s) \<and> r \<in> resource_ids s) ps
      then Some (s\<lparr>locks_resources := locks_resources s @ ps\<rparr>) else None)"

definition dbms_add_indirect_locks :: "id \<Rightarrow> dav_lock list \<Rightarrow> db \<Rightarrow> dav_error option \<times> db" where
  "dbms_add_indirect_locks serialno lks s =
     (if lks = [] then (None, s)
      else exec_or_500 ''Could not insert indirect locks.''
        (insert_lock_resources (map (\<lambda>k. (lk_lock_id k, serialno)) lks)) s)"

definition dbms_add_indirect_locked_children :: "id list \<Rightarrow> dav_lock \<Rightarrow> db \<Rightarrow> dav_error option \<times> db" where
  "dbms_add_indirect_locked_children children lk =
     exec_or_500 ''Could not insert indirect locks.''
       (insert_lock_resources (map (\<lambda>c. (lk_lock_id lk, c)) children))"

text \<open>The owner is looked up by name in a scalar sub-select and must be a user. The lock root
  is stored without the root path in front of it.\<close>

definition insert_lock_row :: "(int \<Rightarrow> datetime) \<Rightarrow> string \<Rightarrow> id \<Rightarrow> dav_lock \<Rightarrow> db \<Rightarrow> db option" where
  "insert_lock_row of_ansi root serialno lk s =
     (case filter (\<lambda>(i, n). n = lk_auth_user lk) (principals s) of
        [(owner, n)] \<Rightarrow>
          if owner \<in> user_ids s \<and> serialno \<in> resource_ids s \<and> length (lk_uuid lk) \<le> 32
          then Some (s\<lparr>locks := locks s @ [\<lparr>l_id = next_lock s, l_uuid = lk_uuid lk, l_resource_id = serialno,
                 l_owner_id = owner,
                 l_form = (if lk_scope lk = DAV_LOCKSCOPE_EXCLUSIVE then ''X'' else ''S''),
                 l_depth = lk_depth lk, l_expires_at = of_ansi (lk_timeout lk), l_owner_info = lk_owner lk,
                 l_lockroot = drop (length root) (lk_lockroot lk)\<rparr>],
               next_lock := next_lock s + 1\<rparr>)
          else None
      | _ \<Rightarrow> None)"

definition dbms_insert_lock ::
  "(int \<Rightarrow> datetime) \<Rightarrow> string \<Rightarrow> id \<Rightarrow> dav_lock \<Rightarrow> db \<Rightarrow> dav_error option \<times> dav_lock \<times> db" where
  "dbms_insert_lock of_ansi root serialno lk s =
     (case run_stmt (insert_lock_row of_ansi root serialno lk) s of
        (True, s) \<Rightarrow> (Some (dav_new_error HTTP_INTERNAL_SERVER_ERROR ''Couldn't insert direct locks''), lk, s)
      | (False, s) \<Rightarrow> (None, lk\<lparr>lk_lock_id := next_lock s - 1\<rparr>, s))"

definition insert_binds_locks_rows :: "id \<Rightarrow> id list \<Rightarrow> db \<Rightarrow> db option" where
  "insert_binds_locks_rows lid bids s =
     (if lid \<in> l_id ` set (locks s) \<and> list_all (\<lambda>b. b \<in> b_id ` set (binds s)) bids
      then Some (s\<lparr>binds_locks := binds_locks s @ map (\<lambda>b. (lid, b)) bids\<rparr>) else None)"

definition dbms_insert_binds_locks :: "dav_lock \<Rightarrow> dbms_bind_list list \<Rightarrow> nat \<Rightarrow> db \<Rightarrow> dav_error option \<times> db" where
  "dbms_insert_binds_locks lk bind_list sz s =
     (if sz = 0 then (None, s)
      else exec_or_500 ''Could not insert indirect locks.''
        (insert_binds_locks_rows (lk_lock_id lk) (map bind_id (take sz bind_list))) s)"

definition dbms_remove_lock :: "string \<Rightarrow> db \<Rightarrow> dav_error option \<times> db" where
  "dbms_remove_lock uuid =
     exec_or_500 ''Couldn't delete lock'' (\<lambda>s. Some (delete_locks (\<lambda>l. l_uuid l = uuid) s))"

definition dbms_remove_direct_locks_w_prefix :: "string \<Rightarrow> db \<Rightarrow> dav_error option \<times> db" where
  "dbms_remove_direct_locks_w_prefix lockroot_prefix =
     exec_or_500 ''Couldn't delete children''
       (\<lambda>s. Some (delete_locks (\<lambda>l. sql_like (lockroot_prefix @ ''%'') (l_lockroot l)) s))"

definition dbms_remove_indirect_lock :: "dav_lock \<Rightarrow> id \<Rightarrow> db \<Rightarrow> dav_error option \<times> db" where
  "dbms_remove_indirect_lock lk serialno =
     exec_or_500 ''Couldn't delete children''
       (\<lambda>s. Some (s\<lparr>locks_resources :=
          filter (\<lambda>(l, r). \<not> (l = lk_lock_id lk \<and> r = serialno)) (locks_resources s)\<rparr>))"

definition set_expiry :: "id \<Rightarrow> datetime \<Rightarrow> db \<Rightarrow> db" where
  "set_expiry i t s = s\<lparr>locks := map (\<lambda>l. if l_id l = i then l\<lparr>l_expires_at := t\<rparr> else l) (locks s)\<rparr>"

definition dbms_refresh_lock ::
  "(string \<Rightarrow> lock_join_row \<Rightarrow> bool) \<Rightarrow> (datetime \<Rightarrow> int) \<Rightarrow> (int \<Rightarrow> datetime) \<Rightarrow> int \<Rightarrow> string \<Rightarrow> id
    \<Rightarrow> dav_lock \<Rightarrow> int \<Rightarrow> db \<Rightarrow> (dav_error option \<times> dav_lock \<times> db) option" where
  "dbms_refresh_lock injected to_ansi of_ansi now root serialno lk new_time s =
     (if CHR ''?'' \<in> set (lk_uuid lk) then None else
      case dbms_get_locks_by_where_str to_ansi now root serialno True
             (\<lambda>s (l, rid, n). (l_id l, serialno) \<in> set (locks_resources s) \<and> uuid_is injected (lk_uuid lk) (l, rid, n)
                \<and> l_resource_id l = rid) s of
        None \<Rightarrow> None
      | Some (Inl e, s) \<Rightarrow> Some (Some e, lk, s)
      | Some (Inr [], s) \<Rightarrow> Some (Some (dav_new_error HTTP_PRECONDITION_FAILED
            ''The submitted locktoken to refresh doesn't exist on the resource''), lk, s)
      | Some (Inr (p # ps), s) \<Rightarrow>
          (case exec_or_500 ''Couldn't refresh lock''
                  (\<lambda>s. Some (set_expiry (lk_lock_id p) (of_ansi new_time) s)) s of
             (Some e, s) \<Rightarrow> Some (Some e, p, s)
           | (None, s) \<Rightarrow> Some (None, p\<lparr>lk_timeout := new_time\<rparr>, s)))"

section \<open>Locks and bindings\<close>

fun post_bind_uris :: "dbms_bind_list \<Rightarrow> dbms_bind_list \<Rightarrow> nat \<Rightarrow> dav_lock list \<Rightarrow> db \<Rightarrow> dav_lock list \<times> db" where
  "post_bind_uris junk b n [] s = ([], s)"
| "post_bind_uris junk b n (k # ks) s =
     (let lockroot = drop n (lk_lockroot k)
      in case dbms_detect_bind junk b lockroot s of (pre, s) \<Rightarrow>
         case post_bind_uris junk b n ks s of (ks, s) \<Rightarrow>
           (k\<lparr>lk_post_bind_uri := Some (drop (length pre) lockroot)\<rparr> # ks, s))"

definition dbms_get_locks_through_bind ::
  "(datetime \<Rightarrow> int) \<Rightarrow> int \<Rightarrow> dbms_bind_list \<Rightarrow> string \<Rightarrow> id \<Rightarrow> dbms_bind_list \<Rightarrow> db
    \<Rightarrow> ((dav_error + dav_lock list) \<times> db) option" where
  "dbms_get_locks_through_bind to_ansi now junk root serialno b s =
     (case dbms_get_locks_by_where_str to_ansi now root serialno True
             (\<lambda>s (l, rid, n). (l_id l, bind_id b) \<in> set (binds_locks s) \<and> l_resource_id l = rid) s of
        None \<Rightarrow> None
      | Some (Inl e, s) \<Rightarrow> Some (Inl e, s)
      | Some (Inr ks, s) \<Rightarrow> (case post_bind_uris junk b (length root) ks s of (ks, s) \<Rightarrow> Some (Inr ks, s)))"

definition dbms_get_locks_not_directly_through_binds ::
  "(datetime \<Rightarrow> int) \<Rightarrow> int \<Rightarrow> string \<Rightarrow> id \<Rightarrow> dbms_bind_list list \<Rightarrow> db
    \<Rightarrow> ((dav_error + dav_lock list) \<times> db) option" where
  "dbms_get_locks_not_directly_through_binds to_ansi now root serialno bind_list =
     dbms_get_locks_by_where_str to_ansi now root serialno True
       (\<lambda>s (l, rid, n). rid = serialno \<and>
          l_id l \<notin> fst ` set (filter (\<lambda>(lid, b). b \<in> set (excl_ids bind_list)) (binds_locks s)))"

section \<open>The hooks\<close>

text \<open>\<open>dav_repos_alloc_lock\<close> makes a zeroed lock with the given token or a new one.\<close>

definition dav_repos_alloc_lock :: "string \<Rightarrow> string option \<Rightarrow> dav_lock option" where
  "dav_repos_alloc_lock apr_uuid lt =
     (case (case lt of Some u \<Rightarrow> Some u | None \<Rightarrow> get_new_plain_uuid apr_uuid) of
        None \<Rightarrow> None
      | Some u \<Rightarrow> Some \<lparr>lk_uuid = u, lk_scope = DAV_LOCKSCOPE_UNKNOWN, lk_rectype = DAV_LOCKREC_DIRECT,
          lk_res_id = 0, lk_depth = 0, lk_timeout = 0, lk_owner = [], lk_auth_user = [], lk_lock_id = 0,
          lk_lockroot = [], lk_post_bind_uri = None\<rparr>)"

text \<open>Tokens. The result \<open>None\<close> of parsing is the overflow of the buffer in
  \<open>remove_hyphens_from_uuid\<close>; a token without an identifier is \<open>Inr None\<close>.\<close>

definition dav_repos_parse_locktoken :: "string \<Rightarrow> (dav_error + string option) option" where
  "dav_repos_parse_locktoken char_token =
     (if prefix ''DAV:no-lock'' char_token then Some (Inr None)
      else if prefix ''opaquelocktoken:'' char_token then
        map_option (\<lambda>u. Inr (Some u)) (remove_hyphens_from_uuid (drop 16 char_token))
      else Some (Inl (dav_new_error HTTP_BAD_REQUEST
        ''The lock token uses an unknown State-token format and could not be parsed.'')))"

definition dav_repos_format_locktoken :: "string \<Rightarrow> string option" where
  "dav_repos_format_locktoken char_uuid =
     map_option (\<lambda>f. ''opaquelocktoken:'' @ f) (add_hyphens_to_uuid char_uuid)"

definition dav_repos_compare_locktoken :: "string option option \<Rightarrow> string option option \<Rightarrow> int" where
  "dav_repos_compare_locktoken lt1 lt2 =
     (case (lt1, lt2) of
        (Some (Some u1), Some (Some u2)) \<Rightarrow> (if u1 = u2 then 0 else if u1 < u2 then - 1 else 1)
      | _ \<Rightarrow> 1)"

fun remove_indirects :: "dav_lock list \<Rightarrow> id \<Rightarrow> db \<Rightarrow> dav_error option \<times> db" where
  "remove_indirects [] serialno s = (None, s)"
| "remove_indirects (k # ks) serialno s =
     (case dbms_remove_indirect_lock k serialno s of
        (Some e, s) \<Rightarrow> (Some e, s)
      | (None, s) \<Rightarrow> remove_indirects ks serialno s)"

text \<open>\<open>dav_repos_append_locks\<close>: the lock list is the lock and what its \<open>next\<close> chain holds.\<close>

definition dav_repos_append_locks ::
  "(int \<Rightarrow> datetime) \<Rightarrow> string \<Rightarrow> id \<Rightarrow> bool \<Rightarrow> dav_lock \<Rightarrow> dav_lock list \<Rightarrow> db
    \<Rightarrow> dav_error option \<times> dav_lock \<times> db" where
  "dav_repos_append_locks of_ansi root serialno make_indirect lk rest s =
     (let (err, lk, s) =
        (if make_indirect then (None, lk, s)
         else
           let (err, lk, s) = dbms_insert_lock of_ansi root serialno lk s;
               ((bind_list, level), s) = dbms_get_path_binds (drop (length root) (lk_lockroot lk)) s
           in case err of
                Some e \<Rightarrow> (Some e, lk, s)
              | None \<Rightarrow> (case dbms_insert_binds_locks lk bind_list level s of (e, s) \<Rightarrow> (e, lk, s)))
      in case err of
           Some e \<Rightarrow> (Some e, lk, s)
         | None \<Rightarrow>
             (case remove_indirects (lk # rest) serialno s of
                (Some e, s) \<Rightarrow> (Some e, lk, s)
              | (None, s) \<Rightarrow> (case dbms_add_indirect_locks serialno (lk # rest) s of (e, s) \<Rightarrow> (e, lk, s))))"

definition dav_repos_get_locks ::
  "(datetime \<Rightarrow> int) \<Rightarrow> int \<Rightarrow> string \<Rightarrow> id \<Rightarrow> bool \<Rightarrow> db \<Rightarrow> ((dav_error + dav_lock list) \<times> db) option" where
  "dav_repos_get_locks to_ansi now root serialno resolved = dbms_get_locks to_ansi now root serialno resolved"

definition use_locknull :: "string option \<Rightarrow> bool" where
  "use_locknull user_agent =
     (case user_agent of None \<Rightarrow> True | Some ua \<Rightarrow> \<not> list_ex (\<lambda>n. sublist n ua) [''litmus''])"

text \<open>\<open>dav_repos_get_bind_locks\<close> looks the binding up unless it was done before.\<close>

definition dav_repos_get_bind_locks ::
  "(datetime \<Rightarrow> int) \<Rightarrow> int \<Rightarrow> dbms_bind_list \<Rightarrow> string \<Rightarrow> id \<Rightarrow> string \<Rightarrow> dbms_bind_list option \<Rightarrow> db
    \<Rightarrow> ((dav_error + dav_lock list) \<times> dbms_bind_list option \<times> db) option" where
  "dav_repos_get_bind_locks to_ansi now junk root coll name info s =
     (let (err, b, s) = (case info of
            Some b \<Rightarrow> (None, b, s)
          | None \<Rightarrow> dbms_get_bind (zero_bind\<lparr>parent_id := coll, bind_name := Some name\<rparr>) s)
      in case err of
           Some e \<Rightarrow> Some (Inl e, info, s)
         | None \<Rightarrow> map_option (\<lambda>(r, s). (r, Some b, s)) (dbms_get_locks_through_bind to_ansi now junk root coll b s))"

text \<open>The locks that do not depend on two bindings: those that can reach the resource from
  their root without them. An error of the path search leaves \<open>spath\<close> at \<open>NULL\<close>. A second
  binding without a first one is written through a null pointer (\<open>None\<close>).\<close>

fun keep_reachable :: "id \<Rightarrow> dbms_bind_list list \<Rightarrow> dav_lock list \<Rightarrow> db \<Rightarrow> dav_lock list \<times> db" where
  "keep_reachable serialno bs [] s = ([], s)"
| "keep_reachable serialno bs (k # ks) s =
     (if lk_res_id k \<noteq> serialno then
        (case dbms_find_shortest_path_excl_binds (lk_res_id k) serialno bs s of
           (Inr (Some p), s) \<Rightarrow> (case keep_reachable serialno bs ks s of (ks, s) \<Rightarrow> (k # ks, s))
         | (_, s) \<Rightarrow> keep_reachable serialno bs ks s)
      else (case keep_reachable serialno bs ks s of (ks, s) \<Rightarrow> (k # ks, s)))"

definition dav_repos_get_locks_not_through_binds ::
  "(datetime \<Rightarrow> int) \<Rightarrow> int \<Rightarrow> string \<Rightarrow> id \<Rightarrow> (id \<times> string) option \<Rightarrow> (id \<times> string) option \<Rightarrow> db
    \<Rightarrow> ((dav_error + dav_lock list) \<times> db) option" where
  "dav_repos_get_locks_not_through_binds to_ansi now root serialno bind1 bind2 s =
     (case bind1 of None \<Rightarrow> (if bind2 = None then dbms_get_locks to_ansi now root serialno True s else None)
      | Some bind1 \<Rightarrow>
      case dbms_get_bind (zero_bind\<lparr>parent_id := fst bind1, bind_name := Some (snd bind1)\<rparr>) s of
        (Some e, b1, s) \<Rightarrow> Some (Inl e, s)
      | (None, b1, s) \<Rightarrow>
          (let (err, bs, s) = (case bind2 of
                 None \<Rightarrow> (None, [b1], s)
               | Some b2 \<Rightarrow>
                   (case dbms_get_bind (zero_bind\<lparr>parent_id := fst b2, bind_name := Some (snd b2)\<rparr>) s of
                      (e, b2, s) \<Rightarrow> (e, [b1, b2], s)))
           in case err of
                Some e \<Rightarrow> Some (Inl e, s)
              | None \<Rightarrow>
                  (case dbms_get_locks_not_directly_through_binds to_ansi now root serialno bs s of
                     None \<Rightarrow> None
                   | Some (Inl e, s) \<Rightarrow> Some (Inl e, s)
                   | Some (Inr ks, s) \<Rightarrow> (case keep_reachable serialno bs ks s of (ks, s) \<Rightarrow> Some (Inr ks, s)))))"

text \<open>\<open>sabridge_remove_all_indirect\<close> of \<^verbatim>\<open>lock_bridge.c\<close>: drop the locks whose root does not reach
  the resource. Errors are not looked at.\<close>

fun remove_unreachable :: "id \<Rightarrow> dav_lock list \<Rightarrow> bool \<Rightarrow> db \<Rightarrow> bool \<times> db" where
  "remove_unreachable serialno [] removed s = (removed, s)"
| "remove_unreachable serialno (k # ks) removed s =
     (case dbms_find_shortest_path (lk_res_id k) serialno s of
        (Inr (Some p), s) \<Rightarrow> remove_unreachable serialno ks removed s
      | (_, s) \<Rightarrow> remove_unreachable serialno ks True (snd (dbms_remove_indirect_lock k serialno s)))"

definition sabridge_remove_all_indirect ::
  "(datetime \<Rightarrow> int) \<Rightarrow> int \<Rightarrow> string \<Rightarrow> id \<Rightarrow> db \<Rightarrow> (bool \<times> db) option" where
  "sabridge_remove_all_indirect to_ansi now root serialno s =
     (case dbms_get_locks to_ansi now root serialno False s of
        None \<Rightarrow> None
      | Some (Inl e, s) \<Rightarrow> Some (False, s)
      | Some (Inr ks, s) \<Rightarrow> Some (remove_unreachable serialno ks False s))"

section \<open>The lock tables\<close>

definition locks_inv :: "db \<Rightarrow> bool" where
  "locks_inv s \<longleftrightarrow>
     distinct (map l_id (locks s)) \<and> list_all (\<lambda>l. l_id l < next_lock s) (locks s) \<and>
     list_all (\<lambda>l. l_owner_id l \<in> principal_ids s \<and> l_resource_id l \<in> resource_ids s) (locks s) \<and>
     distinct (locks_resources s) \<and>
     list_all (\<lambda>(l, r). l \<in> l_id ` set (locks s) \<and> r \<in> resource_ids s) (locks_resources s) \<and>
     list_all (\<lambda>(l, b). l \<in> l_id ` set (locks s)) (binds_locks s)"

lemma find_unique:
  "distinct (map f xs) \<Longrightarrow> find (\<lambda>x. f x = k) xs = Some x \<longleftrightarrow> x \<in> set xs \<and> f x = k"
  by (induction xs) force+

lemma concat_map_filter:
  "concat (map f (filter P xs)) = concat (map (\<lambda>x. if P x then f x else []) xs)"
  by (induction xs) simp_all

lemma filter_concat_map: "filter P (concat (map f xs)) = concat (map (\<lambda>x. filter P (f x)) xs)"
  by (induction xs) simp_all

text \<open>The rows of one entry of \<open>locks_resources\<close>.\<close>

definition join_row :: "db \<Rightarrow> id \<times> id \<Rightarrow> lock_join_row list" where
  "join_row s = (\<lambda>(lid, rid).
     case find (\<lambda>l. l_id l = lid) (locks s) of
       None \<Rightarrow> []
     | Some l \<Rightarrow> (case find (\<lambda>(i, n). i = l_owner_id l) (principals s) of
                   None \<Rightarrow> [] | Some (i, n) \<Rightarrow> [(l, rid, n)]))"

lemma lock_join_rows: "lock_join s = concat (map (join_row s) (locks_resources s))"
  by (simp add: lock_join_def join_row_def)

lemma find_filter_unique:
  assumes "distinct (map f xs)"
  shows "find (\<lambda>x. f x = k) (filter P xs)
    = (case find (\<lambda>x. f x = k) xs of None \<Rightarrow> None | Some x \<Rightarrow> if P x then Some x else None)"
  using assms
proof (induction xs)
  case (Cons x xs)
  have "k \<notin> f ` set xs \<Longrightarrow> find (\<lambda>x. f x = k) (filter P xs) = None" by (auto simp: find_None_iff)
  with Cons show ?case by (auto split: option.splits)
qed simp

lemma delete_locks_join:
  assumes "distinct (map l_id (locks s))"
  shows "lock_join (delete_locks P s) = filter (\<lambda>(l, rid, n). \<not> P l) (lock_join s)"
proof -
  let ?gone = "l_id ` set (filter P (locks s))"
  have "(if fst p \<notin> ?gone then join_row (delete_locks P s) p else [])
      = filter (\<lambda>(l, rid, n). \<not> P l) (join_row s p)" for p
  proof (cases "find (\<lambda>l. l_id l = fst p) (locks s)")
    case None
    then show ?thesis
      by (auto simp: join_row_def row_simps find_filter_unique [OF assms] split: prod.splits)
  next
    case (Some l)
    then have l: "l \<in> set (locks s)" "l_id l = fst p" using find_unique [OF assms] by auto
    have uni: "l' = l" if "l' \<in> set (locks s)" "l_id l' = fst p" for l'
      using find_unique [OF assms, of "fst p" l'] Some that by simp
    have "fst p \<in> ?gone \<longleftrightarrow> P l"
    proof
      assume "fst p \<in> ?gone"
      then obtain l' where "l' \<in> set (locks s)" "P l'" "l_id l' = fst p" by auto
      with uni show "P l" by blast
    next
      assume "P l"
      with l(1) have "l_id l \<in> ?gone" by simp
      then show "fst p \<in> ?gone" by (simp only: l(2))
    qed
    with Some show ?thesis
      by (auto simp: join_row_def row_simps find_filter_unique [OF assms] split: prod.splits option.splits)
  qed
  then show ?thesis
    by (simp add: lock_join_rows row_simps concat_map_filter filter_concat_map case_prod_beta')
qed

lemma delete_locks_inv:
  assumes "locks_inv s"
  shows "locks_inv (delete_locks P s)"
proof -
  have d: "distinct (map l_id (locks s))" using assms by (simp add: locks_inv_def)
  have left: "l \<in> l_id ` set (filter (\<lambda>l. \<not> P l) (locks s))"
    if "l \<in> l_id ` set (locks s)" "l \<notin> l_id ` set (filter P (locks s))" for l
    using that by auto
  show ?thesis
    using assms left
    by (auto simp: locks_inv_def row_simps distinct_map_filter resource_ids_def principal_ids_def list_all_iff)
qed

lemma locks_tables:
  assumes "tables_eq s t"
  shows "locks_inv s = locks_inv t" "lock_join s = lock_join t"
proof -
  note eq = tables_eqD [OF assms]
  show "locks_inv s = locks_inv t"
    by (simp only: locks_inv_def principal_ids_def resource_ids_def eq)
  show "lock_join s = lock_join t" by (simp only: lock_join_def eq)
qed

section \<open>Reading\<close>

lemma make_lock_select [simp]:
  "lk_lock_id (make_lock f root sn res ind r) = l_id (fst r)"
  "lk_timeout (make_lock f root sn res ind r) = f (l_expires_at (fst r))"
  by (simp_all add: make_lock_def split: prod.split)

definition row_expired :: "(datetime \<Rightarrow> int) \<Rightarrow> int \<Rightarrow> lock_join_row \<Rightarrow> bool" where
  "row_expired to_ansi now r \<longleftrightarrow> to_ansi (l_expires_at (fst r)) \<noteq> 0 \<and> to_ansi (l_expires_at (fst r)) \<le> now"

lemma expired_make_lock [simp]: "expired now (make_lock f root sn res ind r) = row_expired f now r"
  by (simp add: expired_def row_expired_def)

lemma read_locks_ids:
  "map lk_lock_id (fst (read_locks f now root sn res ind rs)) = map (\<lambda>r. l_id (fst r)) (filter (\<lambda>r. \<not> row_expired f now r) rs)
   \<and> snd (read_locks f now root sn res ind rs) = map (\<lambda>r. l_id (fst r)) (filter (row_expired f now) rs)"
proof (induction rs arbitrary: ind)
  case Nil
  show ?case by simp
next
  case (Cons r rs)
  obtain ks ex where k: "read_locks f now root sn res (ind \<or> l_resource_id (fst r) \<noteq> sn) rs = (ks, ex)"
    by (cases "read_locks f now root sn res (ind \<or> l_resource_id (fst r) \<noteq> sn) rs")
  from Cons [of "ind \<or> l_resource_id (fst r) \<noteq> sn"] show ?case by (simp add: Let_def k)
qed

lemma read_locks_resolved:
  "fst (read_locks f now root sn True ind rs)
     = map (make_lock f root sn True False) (filter (\<lambda>r. \<not> row_expired f now r) rs)"
proof (induction rs arbitrary: ind)
  case Nil
  show ?case by simp
next
  case (Cons r rs)
  have "make_lock f root sn True i r = make_lock f root sn True False r" for i
    by (simp add: make_lock_def)
  then have m: "make_lock f root sn True (ind \<or> l_resource_id (fst r) \<noteq> sn) r = make_lock f root sn True False r" .
  obtain ks ex where k: "read_locks f now root sn True (ind \<or> l_resource_id (fst r) \<noteq> sn) rs = (ks, ex)"
    by (cases "read_locks f now root sn True (ind \<or> l_resource_id (fst r) \<noteq> sn) rs")
  from Cons [of "ind \<or> l_resource_id (fst r) \<noteq> sn"] show ?case by (simp add: Let_def k m)
qed

lemma read_locks_res_id:
  "k \<in> set (fst (read_locks f now root sn False ind rs)) \<Longrightarrow> lk_res_id k = sn"
proof (induction rs arbitrary: ind)
  case Nil
  then show ?case by simp
next
  case (Cons r rs)
  obtain l rid n where r: "r = (l, rid, n)" by (cases r)
  obtain ks ex where ks: "read_locks f now root sn False (ind \<or> l_resource_id l \<noteq> sn) rs = (ks, ex)"
    by (cases "read_locks f now root sn False (ind \<or> l_resource_id l \<noteq> sn) rs")
  have "lk_res_id (make_lock f root sn False (ind \<or> l_resource_id l \<noteq> sn) r) = sn"
    by (simp add: make_lock_def r)
  moreover have "lk_res_id k = sn" if "k \<in> set ks"
    using Cons.IH [of "ind \<or> l_resource_id l \<noteq> sn"] that ks by simp
  ultimately show ?case
    using Cons.prems ks by (auto simp: r Let_def split: if_splits)
qed

lemma delete_resources_locks:
  assumes "delete_resources P s = Some s'"
  shows "set (locks s') \<subseteq> set (locks s)"
proof -
  have "locks (delete_principals P t) = filter (\<lambda>l. \<not> P (l_owner_id l)) (locks t)" for t
    by (simp add: delete_principals_def row_simps)
  with assms show ?thesis
    by (auto simp: delete_resources_def Let_def row_simps split: if_splits)
qed

lemma delete_exp_healthy:
  assumes "fault s = []"
  shows "\<exists>e s'. dbms_delete_exp_locks ex s = Some (e, s') \<and>
    set (locks s') \<subseteq> {l \<in> set (locks s). l_id l \<notin> set ex}"
proof -
  define s1 where "s1 = delete_locks (\<lambda>l. l_id l \<in> set ex) s"
  have s1: "fault s1 = []" "set (locks s1) = {l \<in> set (locks s). l_id l \<notin> set ex}"
    using assms by (auto simp: s1_def row_simps)
  define nulls where "nulls = map r_id (filter (\<lambda>r. r_id r \<in> set (map l_resource_id (filter (\<lambda>l. l_id l \<in> set ex) (locks s)))
      \<and> r_type r = type_name dav_repos_LOCKNULL) (resources s))"
  have run: "dbms_delete_exp_locks ex s =
     (if nulls = [] then Some (None, s1)
      else Some (exec_or_500 ''DBMS Error retrieving locks''
        (\<lambda>s. if length nulls = 1
             then delete_resources (\<lambda>i. i \<in> set nulls \<and> i \<notin> set (map l_resource_id (locks s))) s
             else None) s1))"
    using assms
    by (simp only: dbms_delete_exp_locks_def run_stmt_healthy exec_or_500_healthy option.case prod.case
        bool.case Let_def s1_def nulls_def)
  show ?thesis
  proof (cases "nulls = []")
    case True
    with run s1(2) show ?thesis by simp
  next
    case False
    with run s1 delete_resources_locks show ?thesis
      by (fastforce simp: exec_or_500_healthy split: option.splits if_splits)
  qed
qed

lemma get_locks_healthy:
  assumes "fault s = []"
  shows "\<exists>s'. dbms_get_locks_by_where_str f now root sn res wh s
       = Some (Inr (fst (read_locks f now root sn res False (filter (wh s) (lock_join s)))), s')
     \<and> (filter (row_expired f now) (filter (wh s) (lock_join s)) = [] \<longrightarrow> s' = s)
     \<and> set (locks s') \<subseteq> {l \<in> set (locks s). \<forall>r \<in> set (lock_join s). wh s r \<and> row_expired f now r \<longrightarrow> l_id l \<noteq> l_id (fst r)}"
proof -
  let ?rows = "filter (wh s) (lock_join s)"
  obtain ks ex where r: "read_locks f now root sn res False ?rows = (ks, ex)"
    by (cases "read_locks f now root sn res False ?rows")
  have ex: "ex = map (\<lambda>r. l_id (fst r)) (filter (row_expired f now) ?rows)"
    using read_locks_ids [of f now root sn res False ?rows] r by simp
  show ?thesis
  proof (cases "ex = []")
    case True
    then have none: "filter (row_expired f now) ?rows = []" using ex by simp
    with assms r True show ?thesis
      by (auto simp: dbms_get_locks_by_where_str_def run_stmt_healthy filter_empty_conv)
  next
    case False
    from delete_exp_healthy [OF assms, of ex] obtain e s' where d: "dbms_delete_exp_locks ex s = Some (e, s')"
      "set (locks s') \<subseteq> {l \<in> set (locks s). l_id l \<notin> set ex}" by blast
    with assms r False ex show ?thesis
      by (auto simp: dbms_get_locks_by_where_str_def run_stmt_healthy)
  qed
qed

section \<open>Taking a lock\<close>

definition lock_row_of :: "(int \<Rightarrow> datetime) \<Rightarrow> string \<Rightarrow> id \<Rightarrow> id \<Rightarrow> id \<Rightarrow> dav_lock \<Rightarrow> lock_row" where
  "lock_row_of of_ansi root sn i owner lk =
     \<lparr>l_id = i, l_uuid = lk_uuid lk, l_resource_id = sn, l_owner_id = owner,
      l_form = (if lk_scope lk = DAV_LOCKSCOPE_EXCLUSIVE then ''X'' else ''S''),
      l_depth = lk_depth lk, l_expires_at = of_ansi (lk_timeout lk), l_owner_info = lk_owner lk,
      l_lockroot = drop (length root) (lk_lockroot lk)\<rparr>"

lemma insert_lock_ok:
  assumes "fault s = []" and "dbms_insert_lock g root sn lk s = (None, lk', s')"
  obtains owner where "filter (\<lambda>(i, n). n = lk_auth_user lk) (principals s) = [(owner, lk_auth_user lk)]"
    "owner \<in> user_ids s" "sn \<in> resource_ids s"
    "s' = s\<lparr>locks := locks s @ [lock_row_of g root sn (next_lock s) owner lk], next_lock := next_lock s + 1\<rparr>"
    "lk' = lk\<lparr>lk_lock_id := next_lock s\<rparr>"
proof -
  from assms have row: "insert_lock_row g root sn lk s = Some s'"
    and lk': "lk' = lk\<lparr>lk_lock_id := next_lock s' - 1\<rparr>"
    by (simp_all add: dbms_insert_lock_def run_stmt_healthy split: option.splits)
  from row obtain owner n where f: "filter (\<lambda>(i, n). n = lk_auth_user lk) (principals s) = [(owner, n)]"
    by (simp add: insert_lock_row_def split: list.splits prod.splits)
  then have "(owner, n) \<in> set (filter (\<lambda>(i, n). n = lk_auth_user lk) (principals s))" by simp
  then have "n = lk_auth_user lk" by simp
  with f row have s': "owner \<in> user_ids s" "sn \<in> resource_ids s"
    "s' = s\<lparr>locks := locks s @ [lock_row_of g root sn (next_lock s) owner lk], next_lock := next_lock s + 1\<rparr>"
    by (simp_all add: insert_lock_row_def lock_row_of_def split: if_splits)
  then have "lk' = lk\<lparr>lk_lock_id := next_lock s\<rparr>" using lk' by simp
  with f s' \<open>n = lk_auth_user lk\<close> show ?thesis using that by blast
qed

lemma insert_binds_locks_ok:
  assumes "fault s = []" and "dbms_insert_binds_locks lk bl (length bl) s = (None, s')"
  shows "s' = s\<lparr>binds_locks := binds_locks s @ map (\<lambda>b. (lk_lock_id lk, bind_id b)) bl\<rparr>"
  using assms
  by (cases "bl = []")
    (auto simp: dbms_insert_binds_locks_def exec_or_500_healthy insert_binds_locks_rows_def
      split: if_splits option.splits)

lemma append_direct:
  assumes ok: "fault s = []" and inv: "locks_inv s"
    and run: "dav_repos_append_locks g root sn False lk [] s = (None, lk', s')"
  obtains owner and bl :: "dbms_bind_list list" where "filter (\<lambda>(i, n). n = lk_auth_user lk) (principals s) = [(owner, lk_auth_user lk)]"
    "owner \<in> user_ids s" "sn \<in> resource_ids s" "lk' = lk\<lparr>lk_lock_id := next_lock s\<rparr>"
    "s' = s\<lparr>locks := locks s @ [lock_row_of g root sn (next_lock s) owner lk], next_lock := next_lock s + 1,
            binds_locks := binds_locks s @ map (\<lambda>b. (next_lock s, bind_id b)) bl,
            locks_resources := locks_resources s @ [(next_lock s, sn)]\<rparr>"
proof -
  obtain e1 k1 s1 where i: "dbms_insert_lock g root sn lk s = (e1, k1, s1)"
    by (cases "dbms_insert_lock g root sn lk s")
  obtain bl lev s1' where pb: "dbms_get_path_binds (drop (length root) (lk_lockroot k1)) s1 = ((bl, lev), s1')"
    by (metis surj_pair)
  have e1: "e1 = None" using run i pb by (simp add: dav_repos_append_locks_def split: option.splits)
  from insert_lock_ok [OF ok i [unfolded e1]] obtain owner where o:
    "filter (\<lambda>(i, n). n = lk_auth_user lk) (principals s) = [(owner, lk_auth_user lk)]"
    "owner \<in> user_ids s" "sn \<in> resource_ids s"
    "s1 = s\<lparr>locks := locks s @ [lock_row_of g root sn (next_lock s) owner lk], next_lock := next_lock s + 1\<rparr>"
    "k1 = lk\<lparr>lk_lock_id := next_lock s\<rparr>" by blast
  have f1: "fault s1 = []" using ok by (simp add: o(4))
  have pb': "s1' = s1" "lev = length bl"
    using pb path_binds_healthy [OF f1, of ROOT_COLLECTION_ID "tokens CHR ''/'' (drop (length root) (lk_lockroot k1))"]
    by (auto simp: dbms_get_path_binds_def get_num_tokens_length split: prod.splits)
  obtain e2 s2 where b: "dbms_insert_binds_locks k1 bl (length bl) s1 = (e2, s2)"
    by (cases "dbms_insert_binds_locks k1 bl (length bl) s1")
  have e2: "e2 = None" using run i pb e1 pb' b by (simp add: dav_repos_append_locks_def split: option.splits)
  have s2: "s2 = s1\<lparr>binds_locks := binds_locks s1 @ map (\<lambda>b. (lk_lock_id k1, bind_id b)) bl\<rparr>"
    using insert_binds_locks_ok [OF f1 b [unfolded e2]] .
  have f2: "fault s2 = []" "locks_resources s2 = locks_resources s" using f1 by (simp_all add: s2 o(4))
  have "filter (\<lambda>(l, r). \<not> (l = next_lock s \<and> r = sn)) (locks_resources s) = locks_resources s"
    using inv by (force simp: locks_inv_def filter_id_conv list_all_iff)
  then have "s2\<lparr>locks_resources := filter (\<lambda>(l, r). \<not> (l = lk_lock_id k1 \<and> r = sn)) (locks_resources s2)\<rparr> = s2"
    using f2(2) o(5) by simp
  then have rem: "remove_indirects [k1] sn s2 = (None, s2)"
    using f2(1) by (simp add: dbms_remove_indirect_lock_def exec_or_500_healthy)
  have add: "dbms_add_indirect_locks sn [k1] s2 = (None, s')" and lk': "lk' = k1"
    using run i pb e1 pb' b e2 rem
    by (simp_all add: dav_repos_append_locks_def split: prod.splits)
  then have "s' = s2\<lparr>locks_resources := locks_resources s2 @ [(lk_lock_id k1, sn)]\<rparr>"
    using f2(1) by (simp add: dbms_add_indirect_locks_def exec_or_500_healthy insert_lock_resources_def split: if_splits)
  then have fin: "s' = s\<lparr>locks := locks s @ [lock_row_of g root sn (next_lock s) owner lk], next_lock := next_lock s + 1,
            binds_locks := binds_locks s @ map (\<lambda>b. (next_lock s, bind_id b)) bl,
            locks_resources := locks_resources s @ [(next_lock s, sn)]\<rparr>"
    by (simp add: s2 o(4,5))
  show ?thesis by (rule that [OF o(1-3) _ fin]) (simp add: lk' o(5))
qed

lemma lock_row_of_id [simp]: "l_id (lock_row_of g root sn i owner lk) = i" "l_owner_id (lock_row_of g root sn i owner lk) = owner"
  by (simp_all add: lock_row_of_def)

lemma find_append: "find P (xs @ ys) = (case find P xs of None \<Rightarrow> find P ys | Some x \<Rightarrow> Some x)"
  by (induction xs) auto

text \<open>The join gains one row, at the end.\<close>

lemma append_direct_join:
  assumes inv: "locks_inv s" and dp: "distinct (map fst (principals s))"
    and o: "filter (\<lambda>(i, n). n = u) (principals s) = [(owner, u)]"
    and row: "l_id row = next_lock s" "l_owner_id row = owner"
    and t: "locks t = locks s @ [row]" "locks_resources t = locks_resources s @ [(next_lock s, sn)]"
      "principals t = principals s"
  shows "lock_join t = lock_join s @ [(row, sn, u)]"
proof -
  have fresh: "find (\<lambda>l. l_id l = next_lock s) (locks s) = None"
    using inv by (force simp: locks_inv_def find_None_iff list_all_iff)
  have "(owner, u) \<in> set (filter (\<lambda>(i, n). n = u) (principals s))" by (simp add: o)
  then have mem: "(owner, u) \<in> set (principals s)" by simp
  have eta: "(\<lambda>(i, n). i = owner) = (\<lambda>x :: id \<times> string. fst x = owner)" by (simp add: fun_eq_iff)
  have "find (\<lambda>x. fst x = owner) (principals s) = Some (owner, u)"
    using find_unique [OF dp, of owner "(owner, u)"] mem by simp
  then have "find (\<lambda>(i, n). i = owner) (principals s) = Some (owner, u)" by (simp only: eta)
  then have new: "join_row t (next_lock s, sn) = [(row, sn, u)]"
    by (simp add: join_row_def t find_append fresh row)
  have old: "join_row t p = join_row s p" if "p \<in> set (locks_resources s)" for p
  proof -
    have "fst p \<in> l_id ` set (locks s)" using inv that by (force simp: locks_inv_def list_all_iff)
    then obtain l where "find (\<lambda>l. l_id l = fst p) (locks s) = Some l"
      by (cases "find (\<lambda>l. l_id l = fst p) (locks s)") (auto simp: find_None_iff)
    then show ?thesis by (cases p) (simp add: join_row_def t find_append)
  qed
  show ?thesis by (simp add: lock_join_rows t new old cong: map_cong)
qed

section \<open>Tokens\<close>

definition decode_token :: "string \<Rightarrow> string option" where
  "decode_token t = (case dav_repos_parse_locktoken t of Some (Inr u) \<Rightarrow> u | _ \<Rightarrow> None)"

interpretation token: codec "\<lambda>u. the (dav_repos_format_locktoken u)" decode_token plain_uuid
proof
  fix u
  assume "plain_uuid u"
  from hyphens_round_trip [OF this] obtain f where "add_hyphens_to_uuid u = Some f"
    "remove_hyphens_from_uuid f = Some u" by blast
  then show "decode_token (the (dav_repos_format_locktoken u)) = Some u"
    by (simp add: decode_token_def dav_repos_parse_locktoken_def dav_repos_format_locktoken_def)
qed

section \<open>Properties\<close>

text \<open>A user, a resource in a collection, and one lock on each of two resources.\<close>

definition sample_locks :: db where
  "sample_locks = sample_binds
     \<lparr>principals := [(1, ''limestone'')], users := [a_user 1],
      locks := [\<lparr>l_id = 1, l_uuid = ''u1'', l_resource_id = 7, l_owner_id = 1, l_form = ''X'', l_depth = 1,
                 l_expires_at = ''never'', l_owner_info = [], l_lockroot = ''/home''\<rparr>],
      locks_resources := [(1, 7), (1, 9)], binds_locks := [(1, 2)], next_lock := 2\<rparr>"

definition sample_lock :: dav_lock where
  "sample_lock = \<lparr>lk_uuid = ''u2'', lk_scope = DAV_LOCKSCOPE_SHARED, lk_rectype = DAV_LOCKREC_DIRECT, lk_res_id = 9,
     lk_depth = 0, lk_timeout = 0, lk_owner = ''me'', lk_auth_user = ''limestone'', lk_lock_id = 0,
     lk_lockroot = ''/dav/home/a'', lk_post_bind_uri = None\<rparr>"

lemma sample_locks_inv: "locks_inv sample_locks" "fault sample_locks = []"
  by code_simp+

text \<open>The lock token that the server hands out for an identifier is parsed back to that
  identifier, and different identifiers have different tokens.\<close>

theorem locktoken_round_trip:
  assumes "plain_uuid u" and "plain_uuid v"
  shows "\<exists>t. dav_repos_format_locktoken u = Some t \<and> dav_repos_parse_locktoken t = Some (Inr (Some u))
    \<and> (dav_repos_format_locktoken v = Some t \<longleftrightarrow> u = v)"
proof -
  from hyphens_round_trip [OF assms(1)] obtain f where f: "add_hyphens_to_uuid u = Some f"
    "remove_hyphens_from_uuid f = Some u" by blast
  from hyphens_round_trip [OF assms(2)] obtain g where g: "dav_repos_format_locktoken v = Some (''opaquelocktoken:'' @ g)"
    by (auto simp: dav_repos_format_locktoken_def)
  have "dav_repos_format_locktoken u = Some (''opaquelocktoken:'' @ f)"
    using f by (simp add: dav_repos_format_locktoken_def)
  moreover have "dav_repos_parse_locktoken (''opaquelocktoken:'' @ f) = Some (Inr (Some u))"
    using f by (simp add: dav_repos_parse_locktoken_def)
  ultimately show ?thesis using token.enc_inj [OF assms] g by auto
qed

theorem locktoken_round_trip_witness:
  "\<exists>t. dav_repos_format_locktoken (replicate 32 CHR ''a'') = Some t
    \<and> dav_repos_parse_locktoken t = Some (Inr (Some (replicate 32 CHR ''a'')))"
proof -
  have "plain_uuid (replicate 32 CHR ''a'')" by (simp add: plain_uuid_def)
  from locktoken_round_trip [OF this this] show ?thesis by blast
qed



text \<open>C29: Without outside failures \<open>dbms_get_locks\<close> returns, and it returns exactly the locks that cover
  the resource and have not expired, in order; the expired ones it met are gone from the
  table of locks, and if there was none the database is unchanged.\<close>

theorem get_locks_drops_expired:
  assumes "fault s = []"
  shows "\<exists>ks s'. dbms_get_locks to_ansi now root sn res s = Some (Inr ks, s')
    \<and> map lk_lock_id ks = map (\<lambda>r. l_id (fst r))
        (filter (\<lambda>r. \<not> row_expired to_ansi now r) (filter (\<lambda>(l, rid, n). rid = sn) (lock_join s)))
    \<and> (filter (row_expired to_ansi now) (filter (\<lambda>(l, rid, n). rid = sn) (lock_join s)) = [] \<longrightarrow> s' = s)
    \<and> set (locks s') \<subseteq> {l \<in> set (locks s). \<forall>(l', rid, n) \<in> set (lock_join s).
         rid = sn \<and> row_expired to_ansi now (l', rid, n) \<longrightarrow> l_id l \<noteq> l_id l'}"
proof -
  from get_locks_healthy [OF assms, of to_ansi now root sn res "\<lambda>s (l, rid, n). rid = sn"] obtain s' where
    g: "dbms_get_locks to_ansi now root sn res s = Some (Inr (fst (read_locks to_ansi now root sn res False
       (filter (\<lambda>(l, rid, n). rid = sn) (lock_join s)))), s')"
      "filter (row_expired to_ansi now) (filter (\<lambda>(l, rid, n). rid = sn) (lock_join s)) = [] \<longrightarrow> s' = s"
      "set (locks s') \<subseteq> {l \<in> set (locks s). \<forall>r \<in> set (lock_join s).
         (case r of (l, rid, n) \<Rightarrow> rid = sn) \<and> row_expired to_ansi now r \<longrightarrow> l_id l \<noteq> l_id (fst r)}"
    unfolding dbms_get_locks_def by blast
  have "set (locks s') \<subseteq> {l \<in> set (locks s). \<forall>(l', rid, n) \<in> set (lock_join s).
         rid = sn \<and> row_expired to_ansi now (l', rid, n) \<longrightarrow> l_id l \<noteq> l_id l'}"
    using g(3) by fastforce
  with g(1,2) read_locks_ids [of to_ansi now root sn res False "filter (\<lambda>(l, rid, n). rid = sn) (lock_join s)"]
  show ?thesis by blast
qed

definition expired_locks :: db where
  "expired_locks = sample_locks
     \<lparr>locks := locks sample_locks @ [\<lparr>l_id = 2, l_uuid = ''u2'', l_resource_id = 9, l_owner_id = 1, l_form = ''S'', l_depth = 0,
                 l_expires_at = ''past'', l_owner_info = [], l_lockroot = ''/home/a''\<rparr>],
      locks_resources := [(1, 7), (1, 9), (2, 9)], next_lock := 3\<rparr>"

theorem get_locks_drops_expired_witness:
  "\<exists>ks s'. dbms_get_locks (\<lambda>t. if t = ''past'' then 5 else 0) 100 ''/dav'' 9 True expired_locks = Some (Inr ks, s')
    \<and> map lk_lock_id ks = [1] \<and> (\<forall>l \<in> set (locks s'). l_id l \<noteq> 2)"
proof -
  let ?f = "\<lambda>t. if t = ''past'' then 5 else (0::int)"
  have h: "fault expired_locks = []" by code_simp
  have rows: "map (\<lambda>r. l_id (fst r)) (filter (\<lambda>r. \<not> row_expired ?f 100 r)
       (filter (\<lambda>(l, rid, n). rid = 9) (lock_join expired_locks))) = [1]"
    "list_ex (\<lambda>(l, rid, n). l_id l = 2 \<and> rid = 9 \<and> row_expired ?f 100 (l, rid, n)) (lock_join expired_locks)"
    by code_simp+
  from get_locks_drops_expired [OF h, of ?f 100 "''/dav''" 9 True] rows
  show ?thesis by (fastforce simp: list_ex_iff)
qed

text \<open>Removing a lock by its token removes it from every resource it covered and from every
  binding, keeps every other lock as it was, and keeps the lock tables consistent.\<close>

theorem remove_lock_exact:
  assumes inv: "locks_inv s" and run: "dbms_remove_lock u s = (None, s')"
  shows "locks_inv s' \<and> lock_join s' = filter (\<lambda>(l, rid, n). l_uuid l \<noteq> u) (lock_join s)
    \<and> locks s' = filter (\<lambda>l. l_uuid l \<noteq> u) (locks s)"
proof -
  from run obtain t where t: "tables_eq t s" and s': "delete_locks (\<lambda>l. l_uuid l = u) t = s'"
    unfolding dbms_remove_lock_def by (rule exec_or_500_ok) simp
  have inv': "locks_inv t" using inv locks_tables(1) [OF t] by simp
  then have d: "distinct (map l_id (locks t))" by (simp add: locks_inv_def)
  show ?thesis
    using delete_locks_inv [OF inv', of "\<lambda>l. l_uuid l = u"] delete_locks_join [OF d, of "\<lambda>l. l_uuid l = u"]
      locks_tables(2) [OF t] tables_eqD(7) [OF t]
    by (simp add: s' [symmetric] row_simps)
qed

theorem remove_lock_exact_witness:
  "locks_inv expired_locks \<and>
   (let s' = snd (dbms_remove_lock ''u1'' expired_locks)
    in map (\<lambda>(l, rid, n). (l_id l, rid)) (lock_join s') = [(2, 9)] \<and> locks_inv s')"
proof -
  let ?p = "dbms_remove_lock ''u1'' expired_locks"
  have inv: "locks_inv expired_locks" and "fst ?p = None" by code_simp+
  then have p: "?p = (None, snd ?p)" by (simp add: prod_eq_iff)
  have "map (\<lambda>(l, rid, n). (l_id l, rid)) (filter (\<lambda>(l, rid, n). l_uuid l \<noteq> ''u1'') (lock_join expired_locks)) = [(2, 9)]"
    by code_simp
  with remove_lock_exact [OF inv p] inv show ?thesis by (simp add: Let_def)
qed

text \<open>C35: \<open>sabridge_remove_all_indirect\<close> never removes a lock: it reads the locks without resolving
  indirect ones, so each has the resource itself as its root and is found reachable. What
  remains is the effect of reading the locks.\<close>

theorem remove_all_indirect_removes_nothing:
  "sabridge_remove_all_indirect to_ansi now root sn s =
     map_option (\<lambda>(r, s'). (False, s')) (dbms_get_locks to_ansi now root sn False s)"
proof -
  have rem: "remove_unreachable sn ks False t = (False, t)" if "\<And>k. k \<in> set ks \<Longrightarrow> lk_res_id k = sn" for ks t
    using that by (induction ks)
      (simp_all add: dbms_find_shortest_path_def dbms_find_shortest_path_excl_binds_def)
  have "lk_res_id k = sn" if "dbms_get_locks to_ansi now root sn False s = Some (Inr ks, t)" "k \<in> set ks" for ks t k
    using that read_locks_res_id
    by (auto simp: dbms_get_locks_def dbms_get_locks_by_where_str_def
        split: prod.splits bool.splits if_splits) (metis fst_conv)+
  then show ?thesis
    by (auto simp: sabridge_remove_all_indirect_def rem split: option.split sum.split)
qed

text \<open>C38: \<open>dbms_remove_direct_locks_w_prefix\<close> on a prefix without wildcard characters removes exactly
  the locks whose root starts with the prefix as a string.\<close>

theorem remove_prefix_is_string_prefix:
  assumes "like_plain p" and "fault s = []"
  shows "\<exists>s'. dbms_remove_direct_locks_w_prefix p s = (None, s')
    \<and> locks s' = filter (\<lambda>l. \<not> prefix p (l_lockroot l)) (locks s)"
  using assms
  by (simp add: dbms_remove_direct_locks_w_prefix_def exec_or_500_healthy sql_like_prefix row_simps)

theorem remove_prefix_is_string_prefix_witness:
  "\<exists>s'. dbms_remove_direct_locks_w_prefix ''/ho'' expired_locks = (None, s') \<and> locks s' = []"
proof -
  have h: "like_plain ''/ho''" "fault expired_locks = []" by code_simp+
  have "filter (\<lambda>l. \<not> prefix ''/ho'' (l_lockroot l)) (locks expired_locks) = []" by code_simp
  with remove_prefix_is_string_prefix [OF h] show ?thesis by simp
qed

text \<open>C34: Once a row of another lock root was read, \<open>dbms_get_locks\<close> reports every later lock as
  indirect: here the second lock was taken on the resource itself.\<close>

theorem direct_lock_reported_indirect:
  "case dbms_get_locks (\<lambda>_. 0) 100 [] 9 False expired_locks of
     Some (Inr ks, s) \<Rightarrow> map lk_rectype ks = [DAV_LOCKREC_INDIRECT, DAV_LOCKREC_INDIRECT]
       \<and> map l_resource_id (locks expired_locks) = [7, 9]
   | _ \<Rightarrow> False"
  by code_simp

text \<open>C36: When the first statement of \<open>dbms_delete_exp_locks\<close> fails the function does not return;
  otherwise it does.\<close>

theorem delete_exp_locks_returns:
  "(dbms_delete_exp_locks ids s = None) = (\<exists>bs. fault s = True # bs)"
proof (cases "fault s")
  case Nil
  from delete_exp_healthy [OF this, of ids] Nil show ?thesis by auto
next
  case (Cons b bs)
  show ?thesis
  proof (cases b)
    case True
    with Cons show ?thesis by (simp add: dbms_delete_exp_locks_def run_stmt_def next_fault_def)
  next
    case False
    with Cons show ?thesis
      by (simp add: dbms_delete_exp_locks_def run_stmt_def next_fault_def Let_def
          split: prod.split option.split)
  qed
qed

end
