(* ===== verification/Acl.thy ===== *)
theory Acl
  imports Membership Locks "HOL-Library.Product_Lexorder"
begin

text \<open>
  Access control: \<^verbatim>\<open>dbms_acl.c\<close>, the decision and update hooks of \<^verbatim>\<open>acl.c\<close>, and the
  precondition checks of \<^verbatim>\<open>bridge.c\<close>. An access control entry (ACE) of a resource applies
  to it and to everything below it in the table \<open>acl_inheritance\<close>, which stores for
  each resource the chain of its ancestors as a string of numbers and commas. Privileges form
  a tree coded as nested intervals (\<open>lft\<close>, \<open>rgt\<close>).

  The classes \<open>dav_ace\<close> and \<open>dav_principal\<close> belong to the HTTP server's module: an ACE is
  here the record of what its accessors return, an ACL the list its iterator yields. How that
  module makes a principal from a name, and a privilege from its number, are parameters.
\<close>

section \<open>Namespaces and the cache of a request\<close>

record dav_repos_cache =
  c_namespaces :: "string \<rightharpoonup> id"
  c_privileges :: "string \<rightharpoonup> id"

definition dbms_get_namespace_id :: "string \<Rightarrow> db \<Rightarrow> (dav_error option \<times> id) \<times> db" where
  "dbms_get_namespace_id name s =
     (case run_select s of
        (True, s) \<Rightarrow> ((Some (dav_new_error HTTP_INTERNAL_SERVER_ERROR ''dbms_execute error''), 0), s)
      | (False, s) \<Rightarrow> ((None, case find (\<lambda>(i, n). n = name) (namespaces s) of None \<Rightarrow> 0 | Some (i, n) \<Rightarrow> i), s))"

definition sabridge_get_namespace_id ::
  "string \<Rightarrow> dav_repos_cache \<Rightarrow> db \<Rightarrow> (dav_error option \<times> id) \<times> dav_repos_cache \<times> db" where
  "sabridge_get_namespace_id name c s =
     (case c_namespaces c name of
        Some i \<Rightarrow> ((None, i), c, s)
      | None \<Rightarrow>
          (case dbms_get_namespace_id name s of
             ((err, i), s) \<Rightarrow>
               if err \<noteq> None \<or> i = 0 then ((err, i), c, s)
               else ((None, i), c\<lparr>c_namespaces := (c_namespaces c)(name \<mapsto> i)\<rparr>, s)))"

definition dbms_insert_ns :: "string \<Rightarrow> db \<Rightarrow> id \<times> db" where
  "dbms_insert_ns name s =
     (case run_stmt (\<lambda>s. if length name \<le> 4096
              then Some (s\<lparr>namespaces := namespaces s @ [(next_ns s, name)], next_ns := next_ns s + 1\<rparr>) else None) s of
        (True, s) \<Rightarrow> (0, s)
      | (False, s) \<Rightarrow> (next_ns s - 1, s))"

text \<open>\<open>h\<close> is the hash table \<open>ns_id_hash\<close> of the resource.\<close>

definition dbms_get_ns_id ::
  "string \<Rightarrow> (string \<rightharpoonup> id) \<Rightarrow> dav_repos_cache \<Rightarrow> db
    \<Rightarrow> (dav_error option \<times> id) \<times> (string \<rightharpoonup> id) \<times> dav_repos_cache \<times> db" where
  "dbms_get_ns_id name h c s =
     (case h name of
        Some i \<Rightarrow> ((None, i), h, c, s)
      | None \<Rightarrow>
          (case sabridge_get_namespace_id name c s of
             ((Some e, i), c, s) \<Rightarrow> ((Some e, i), h, c, s)
           | ((None, i), c, s) \<Rightarrow>
               (case (if i = 0 then dbms_insert_ns name s else (i, s)) of
                  (i, s) \<Rightarrow>
                    if 0 < i then ((None, i), h(name \<mapsto> i), c, s)
                    else ((Some (dav_new_error HTTP_INTERNAL_SERVER_ERROR ''Could not insert namespace''), i), h, c, s))))"

definition dbms_get_privilege_id :: "string \<times> string \<Rightarrow> dav_repos_cache \<Rightarrow> db \<Rightarrow> id \<times> dav_repos_cache \<times> db" where
  "dbms_get_privilege_id priv c s =
     (case sabridge_get_namespace_id (fst priv) c s of
        ((err, ns), c, s) \<Rightarrow>
          (let ckey = show_long ns @ '':'' @ snd priv
           in case c_privileges c ckey of
                Some i \<Rightarrow> (i, c, s)
              | None \<Rightarrow>
                  (case run_select s of
                     (failed, s) \<Rightarrow>
                       (let i = (if failed then 0
                                 else case find (\<lambda>v. v_name v = snd priv \<and> v_ns v = ns) (acl_privileges s) of
                                        None \<Rightarrow> 0 | Some v \<Rightarrow> v_id v)
                        in (i, c\<lparr>c_privileges := (c_privileges c)(ckey \<mapsto> i)\<rparr>, s)))))"

section \<open>Principals\<close>

datatype dav_principal =
    PRINCIPAL_ALL
  | PRINCIPAL_AUTHENTICATED
  | PRINCIPAL_UNAUTHENTICATED
  | PRINCIPAL_HREF id
  | PRINCIPAL_OTHER

definition SUPER_USER_ID :: id where "SUPER_USER_ID = 1"

fun dav_repos_get_principal_id :: "dav_principal \<Rightarrow> id" where
  "dav_repos_get_principal_id PRINCIPAL_ALL = 3"
| "dav_repos_get_principal_id PRINCIPAL_AUTHENTICATED = 4"
| "dav_repos_get_principal_id PRINCIPAL_UNAUTHENTICATED = 5"
| "dav_repos_get_principal_id (PRINCIPAL_HREF i) = i"
| "dav_repos_get_principal_id PRINCIPAL_OTHER = 0"

text \<open>\<open>lookup_url\<close> resolves a principal URL to a resource (\<open>dav_principal_make_from_url\<close>);
  \<open>href_prefix\<close> is the scheme and host of the server, \<open>root_path\<close> the prefix that the build
  puts into \<^verbatim>\<open>root_path.h\<close>.\<close>

definition dav_repos_get_prin_by_name ::
  "(string \<Rightarrow> dav_principal) \<Rightarrow> string \<Rightarrow> string \<Rightarrow> (string \<Rightarrow> nat) \<Rightarrow> string option \<Rightarrow> dav_principal" where
  "dav_repos_get_prin_by_name lookup_url href_prefix root_path type_of_name name =
     (case name of
        None \<Rightarrow> PRINCIPAL_UNAUTHENTICATED
      | Some n \<Rightarrow>
          if n = ''all'' then PRINCIPAL_ALL
          else if n = ''authenticated'' then PRINCIPAL_AUTHENTICATED
          else if n = ''unauthenticated'' then PRINCIPAL_UNAUTHENTICATED
          else lookup_url (href_prefix @ root_path @ (if type_of_name n = dav_repos_GROUP then ''/groups/'' else ''/users/'') @ n))"

section \<open>Inheritance\<close>

text \<open>The query part \<open>inherited_res\<close>: the rows of the resources named in the path of \<open>r\<close>.\<close>

definition path_ids :: "string \<Rightarrow> id list" where
  "path_ids p = map atol (splitc CHR '','' p)"

definition acl_path :: "id \<Rightarrow> db \<Rightarrow> string option" where
  "acl_path r s = map_option snd (find (\<lambda>(i, p). i = r) (acl_inheritance s))"

definition inherited_res :: "id \<Rightarrow> db \<Rightarrow> (id \<times> string) list" where
  "inherited_res r s =
     (case acl_path r s of
        None \<Rightarrow> []
      | Some p \<Rightarrow> filter (\<lambda>(i, q). i \<in> set (path_ids p)) (acl_inheritance s))"

definition PATH_WIDTH :: nat where "PATH_WIDTH = 255"

definition insert_path :: "id \<Rightarrow> id \<Rightarrow> db \<Rightarrow> db option" where
  "insert_path r parent s =
     (case acl_path parent s of
        None \<Rightarrow> Some s
      | Some p \<Rightarrow>
          let q = p @ '','' @ show_long r
          in if r \<in> resource_ids s \<and> acl_path r s = None \<and> length q \<le> PATH_WIDTH
             then Some (s\<lparr>acl_inheritance := acl_inheritance s @ [(r, q)]\<rparr>) else None)"

definition dbms_inherit_parent_aces :: "id \<Rightarrow> id \<Rightarrow> db \<Rightarrow> dav_error option \<times> db" where
  "dbms_inherit_parent_aces serialno parent s =
     (case run_select s of
        (True, s) \<Rightarrow> (Some (dav_new_error HTTP_INTERNAL_SERVER_ERROR
            ''DBMS Error during select on acl_inheritance''), s)
      | (False, s) \<Rightarrow>
          if acl_path serialno s \<noteq> None then (None, s)
          else exec_or_500 ''DBMS Error during update on acl_inheritance'' (insert_path serialno parent) s)"

text \<open>
  Moving a subtree: \<open>replace\<close> rewrites every occurrence of the old path in the path of each
  descendant, also one that starts inside a number. A failed \<open>SELECT\<close> counts as no row.
\<close>

definition move_paths :: "string \<Rightarrow> string \<Rightarrow> db \<Rightarrow> db option" where
  "move_paths orig_path new_path s =
     (let f = (\<lambda>(i, p). if sql_like (orig_path @ '',%'') p \<or> p = orig_path
                        then (i, sql_replace p orig_path new_path) else (i, p));
          rows = map f (acl_inheritance s)
      in if list_all (\<lambda>(i, p). length p \<le> PATH_WIDTH) rows then Some (s\<lparr>acl_inheritance := rows\<rparr>) else None)"

definition dbms_change_acl_parent :: "id \<Rightarrow> id \<Rightarrow> db \<Rightarrow> dav_error option \<times> db" where
  "dbms_change_acl_parent serialno new_parent_id s =
     (case run_select s of (failed, s) \<Rightarrow>
      case (if failed then None else acl_path serialno s) of
        None \<Rightarrow> dbms_inherit_parent_aces serialno new_parent_id s
      | Some orig_path \<Rightarrow>
          (case run_select s of (failed, s) \<Rightarrow>
           case (if failed then None else acl_path new_parent_id s) of
             None \<Rightarrow> (Some (dav_new_error HTTP_INTERNAL_SERVER_ERROR
                 ''invalid parent specified in change_acl_parent''), s)
           | Some new_parent_path \<Rightarrow>
               exec_or_500 ''DBMS Error during update to acl_inheritance (moving subtree)''
                 (move_paths orig_path (new_parent_path @ '','' @ show_long serialno)) s))"

section \<open>The decision\<close>

record ace_cache_t =
  ac_principal_id :: id
  ac_priv_ns_id :: id
  ac_privilege :: string
  ac_is_allow :: bool

text \<open>The groups a principal acts as (\<open>make_member_query\<close>), and the privileges that contain one.\<close>

definition make_member_query :: "id \<Rightarrow> db \<Rightarrow> id list" where
  "make_member_query p s =
     map (\<lambda>(g, m, n). g) (filter (\<lambda>(g, m, n). m = p) (transitive_group_members s)) @ [p]"

definition contains_priv :: "privilege_row \<Rightarrow> privilege_row \<Rightarrow> bool" where
  "contains_priv par chi \<longleftrightarrow> v_lft par \<le> v_lft chi \<and> v_rgt chi \<le> v_rgt par"

definition containing_privs :: "(privilege_row \<Rightarrow> bool) \<Rightarrow> db \<Rightarrow> id list" where
  "containing_privs chi s =
     map v_id (filter (\<lambda>par. list_ex (\<lambda>c. chi c \<and> contains_priv par c) (acl_privileges s)) (acl_privileges s))"

text \<open>The join of both queries: the entries that bear on a principal, a privilege and a
  resource, each with the path of the resource it comes from.\<close>

definition relevant_aces :: "id \<Rightarrow> (privilege_row \<Rightarrow> bool) \<Rightarrow> id \<Rightarrow> db \<Rightarrow> (ace_row \<times> string) list" where
  "relevant_aces p chi r s =
     concat (map (\<lambda>a. if a_principal_id a \<in> set (make_member_query p s)
                        \<and> list_ex (\<lambda>(i, v). i = a_id a \<and> v \<in> set (containing_privs chi s)) (dav_aces_privileges s)
                     then map (\<lambda>(i, q). (a, q)) (filter (\<lambda>(i, q). i = a_resource_id a) (inherited_res r s))
                     else []) (aces s))"

text \<open>\<open>ORDER BY protected DESC, CHAR_LENGTH(par_res_path) DESC, id\<close>.\<close>

definition ace_rank :: "ace_row \<times> string \<Rightarrow> int \<times> int \<times> int" where
  "ace_rank = (\<lambda>(a, q). (if a_protected a then 0 else 1, - int (length q), a_id a))"

definition first_ace :: "id \<Rightarrow> (privilege_row \<Rightarrow> bool) \<Rightarrow> id \<Rightarrow> db \<Rightarrow> ace_row option" where
  "first_ace p chi r s =
     (case sort_key ace_rank (relevant_aces p chi r s) of [] \<Rightarrow> None | (a, q) # _ \<Rightarrow> Some a)"

fun allow_rows :: "(privilege_row \<Rightarrow> bool) \<Rightarrow> id \<Rightarrow> nat \<Rightarrow> id list \<Rightarrow> db \<Rightarrow> (bool \<times> nat) list" where
  "allow_rows chi r k [] s = []"
| "allow_rows chi r k (p # ps) s =
     (case first_ace p chi r s of
        None \<Rightarrow> allow_rows chi r (Suc k) ps s
      | Some a \<Rightarrow> (a_grantdeny a = ''G'', k) # allow_rows chi r (Suc k) ps s)"

text \<open>The loop that merges the rows with the list of principals and leaves the decision on the
  last one in the cache of the resource.\<close>

fun allow_loop :: "id \<Rightarrow> string \<Rightarrow> nat \<Rightarrow> nat \<Rightarrow> nat \<Rightarrow> bool \<Rightarrow> bool \<Rightarrow> ace_cache_t option \<Rightarrow> (bool \<times> nat) list \<Rightarrow> id list
    \<Rightarrow> bool \<times> ace_cache_t option" where
  "allow_loop ns privilege max_order order next_order next_is_allow retVal cache rows [] = (retVal, cache)"
| "allow_loop ns privilege max_order order next_order next_is_allow retVal cache rows (p # ps) =
     (let (next_order, next_is_allow, retVal, rows) =
        (if next_order < order then
           (case rows of
              (g, k) # rows \<Rightarrow> (k, g, if k = 1 then g else retVal, rows)
            | [] \<Rightarrow> (max_order + 1, next_is_allow, retVal, []))
         else (next_order, next_is_allow, retVal, rows));
          cache = Some \<lparr>ac_principal_id = p, ac_priv_ns_id = ns, ac_privilege = privilege,
                        ac_is_allow = (if next_order = order then next_is_allow else False)\<rparr>
      in allow_loop ns privilege max_order (Suc order) next_order next_is_allow retVal cache rows ps)"

text \<open>\<open>dbms_is_allow\<close>: 1, 0, or the status 500 of a failed statement.\<close>

definition dbms_is_allow ::
  "id \<Rightarrow> string \<Rightarrow> dav_principal \<Rightarrow> dav_principal list \<Rightarrow> id \<Rightarrow> ace_cache_t option \<Rightarrow> db
    \<Rightarrow> nat \<times> ace_cache_t option \<times> db" where
  "dbms_is_allow ns privilege prin others r cache s =
     (let ids = map dav_repos_get_principal_id (prin # others); p = hd ids
      in if p = SUPER_USER_ID then (1, cache, s)
         else if (case cache of None \<Rightarrow> False
                  | Some c \<Rightarrow> ac_principal_id c = p \<and> ac_priv_ns_id c = ns \<and> ac_privilege c = privilege)
         then (of_bool (ac_is_allow (the cache)), cache, s)
         else (case run_select s of
                 (True, s) \<Rightarrow> (HTTP_INTERNAL_SERVER_ERROR, cache, s)
               | (False, s) \<Rightarrow>
                   (case allow_loop ns privilege (length ids) 1 0 False False cache
                           (allow_rows (\<lambda>c. v_name c = privilege \<and> v_ns c = ns) r 1 ids s) ids of
                      (ret, cache) \<Rightarrow> (of_bool ret, cache, s))))"

text \<open>\<open>dav_repos_is_allow\<close> hands the number to the server, for which every value but 0 means
  allowed. An error of the namespace lookup is not looked at.\<close>

definition dav_repos_is_allow ::
  "string \<times> string \<Rightarrow> dav_principal \<Rightarrow> dav_principal list \<Rightarrow> id \<Rightarrow> ace_cache_t option \<Rightarrow> dav_repos_cache \<Rightarrow> db
    \<Rightarrow> nat \<times> ace_cache_t option \<times> dav_repos_cache \<times> db" where
  "dav_repos_is_allow priv prin others r cache c s =
     (case sabridge_get_namespace_id (fst priv) c s of
        ((err, ns), c, s) \<Rightarrow>
          (case dbms_is_allow ns (snd priv) prin others r cache s of
             (ret, cache, s) \<Rightarrow> (ret, cache, c, s)))"

text \<open>All privileges of a principal; a failed statement gives none.\<close>

definition dbms_get_privileges :: "id \<Rightarrow> id \<Rightarrow> db \<Rightarrow> (string \<times> string) list \<times> db" where
  "dbms_get_privileges p r s =
     (case run_select s of
        (True, s) \<Rightarrow> ([], s)
      | (False, s) \<Rightarrow>
          (concat (map (\<lambda>v.
             case find (\<lambda>(i, n). i = v_ns v) (namespaces s) of
               None \<Rightarrow> []
             | Some (i, n) \<Rightarrow>
                 (case first_ace p (\<lambda>c. v_id c = v_id v) r s of
                    Some a \<Rightarrow> if a_grantdeny a = ''G'' then [(n, v_name v)] else []
                  | None \<Rightarrow> [])) (acl_privileges s)), s))"

section \<open>Updates\<close>

record dav_ace =
  ace_principal :: dav_principal
  ace_property :: "(string option \<times> string) option"
  ace_privileges :: "(string \<times> string) list"
  is_deny :: bool
  is_protected :: bool
  ace_inherited :: "string option"

definition dbms_delete_own_aces :: "id \<Rightarrow> db \<Rightarrow> nat \<times> db" where
  "dbms_delete_own_aces serialno s =
     (case run_stmt (\<lambda>s. Some (delete_aces (\<lambda>a. a_resource_id a = serialno \<and> \<not> a_protected a) s)) s of
        (True, s) \<Rightarrow> (HTTP_INTERNAL_SERVER_ERROR, s)
      | (False, s) \<Rightarrow> (OK, s))"

text \<open>The entry's privileges; a failed insertion is not looked at.\<close>

definition dbms_add_ace_privilege :: "string \<times> string \<Rightarrow> id \<Rightarrow> dav_repos_cache \<Rightarrow> db \<Rightarrow> nat \<times> dav_repos_cache \<times> db" where
  "dbms_add_ace_privilege priv ace_id c s =
     (case dbms_get_privilege_id priv c s of
        (v, c, s) \<Rightarrow>
          if v < 1 then (HTTP_FORBIDDEN, c, s)
          else
            (OK, c, snd (run_stmt
               (\<lambda>s. if (ace_id, v) \<in> set (dav_aces_privileges s) \<or> ace_id \<notin> a_id ` set (aces s)
                       \<or> v \<notin> v_id ` set (acl_privileges s) then None
                    else Some (s\<lparr>dav_aces_privileges := dav_aces_privileges s @ [(ace_id, v)]\<rparr>)) s)))"

fun add_ace_privileges :: "(string \<times> string) list \<Rightarrow> id \<Rightarrow> dav_repos_cache \<Rightarrow> db
    \<Rightarrow> dav_error option \<times> dav_repos_cache \<times> db" where
  "add_ace_privileges [] ace_id c s = (None, c, s)"
| "add_ace_privileges (v # vs) ace_id c s =
     (case dbms_add_ace_privilege v ace_id c s of
        (ret, c, s) \<Rightarrow>
          if ret \<noteq> OK then (Some (dav_new_error_tag ret None ''not-supported-privilege''), c, s)
          else add_ace_privileges vs ace_id c s)"

definition insert_ace_row :: "id \<Rightarrow> dav_ace \<Rightarrow> id \<Rightarrow> db \<Rightarrow> db option" where
  "insert_ace_row serialno ace ns_id s =
     (if serialno \<in> resource_ids s
      then Some (s\<lparr>aces := aces s @ [\<lparr>a_id = next_ace s, a_grantdeny = (if is_deny ace then ''D'' else ''G''),
                    a_protected = is_protected ace, a_resource_id = serialno,
                    a_principal_id = dav_repos_get_principal_id (ace_principal ace),
                    a_property_namespace_id = Some ns_id, a_property_name = map_option snd (ace_property ace)\<rparr>],
                  next_ace := next_ace s + 1\<rparr>)
      else None)"

text \<open>\<open>dbms_add_ace\<close>: whether the row was inserted is seen from the id it returns.\<close>

definition dbms_add_ace :: "id \<Rightarrow> dav_ace \<Rightarrow> (string \<rightharpoonup> id) \<Rightarrow> dav_repos_cache \<Rightarrow> db
    \<Rightarrow> dav_error option \<times> (string \<rightharpoonup> id) \<times> dav_repos_cache \<times> db" where
  "dbms_add_ace serialno ace h c s =
     (let (ns_id, h, c, s) =
        (case ace_property ace of
           Some (Some ns, name) \<Rightarrow> (case dbms_get_ns_id ns h c s of ((err, i), h, c, s) \<Rightarrow> (i, h, c, s))
         | _ \<Rightarrow> (0, h, c, s))
      in case run_stmt (insert_ace_row serialno ace ns_id) s of
           (True, s) \<Rightarrow> (Some (dav_new_error HTTP_INTERNAL_SERVER_ERROR (''DBMS error while inserting into '' @ [CHR 0x27] @ ''aces'' @ [CHR 0x27])), h, c, s)
         | (False, s) \<Rightarrow>
             (case add_ace_privileges (ace_privileges ace) (next_ace s - 1) c s of
                (err, c, s) \<Rightarrow> (err, h, c, s)))"

text \<open>The protected entries of the resource itself, one for each privilege. \<open>prin_by_name\<close> and
  \<open>priv_by_type\<close> belong to the HTTP server's module.\<close>

definition dbms_get_protected_aces ::
  "(string \<Rightarrow> dav_principal) \<Rightarrow> (id \<Rightarrow> string \<times> string) \<Rightarrow> id \<Rightarrow> db \<Rightarrow> (nat + dav_ace list) \<times> db" where
  "dbms_get_protected_aces prin_by_name priv_by_type serialno s =
     (case run_select s of
        (True, s) \<Rightarrow> (Inl HTTP_INTERNAL_SERVER_ERROR, s)
      | (False, s) \<Rightarrow>
          (Inr (concat (map (\<lambda>a.
             if a_resource_id a = serialno \<and> a_protected a then
               (case find (\<lambda>(i, n). i = a_principal_id a) (principals s) of
                  None \<Rightarrow> []
                | Some (i, n) \<Rightarrow>
                    map (\<lambda>(j, v). \<lparr>ace_principal = prin_by_name n,
                      ace_property = (case a_property_name a of
                          None \<Rightarrow> None
                        | Some pn \<Rightarrow> if pn = [] then None
                            else Some (map_option snd (find (\<lambda>(i, n). Some i = a_property_namespace_id a) (namespaces s)), pn)),
                      ace_privileges = [priv_by_type v], is_deny = (a_grantdeny a \<noteq> ''G''),
                      is_protected = True, ace_inherited = None\<rparr>)
                    (filter (\<lambda>(j, v). j = a_id a) (dav_aces_privileges s)))
             else []) (aces s))), s))"

text \<open>\<open>sabridge_check_privileges_overlap\<close> and \<open>sabridge_acl_check_preconditions\<close> of \<^verbatim>\<open>bridge.c\<close>.
  Privileges are compared by name, principals by the last segment of their URL (\<open>prin_name\<close>).\<close>

fun overlaps_any :: "string \<times> string \<Rightarrow> (string \<times> string) list \<Rightarrow> bool" where
  "overlaps_any v [] = False"
| "overlaps_any v (w # ws) = (if snd v = snd w then True else overlaps_any v ws)"

fun sabridge_check_privileges_overlap :: "(string \<times> string) list \<Rightarrow> (string \<times> string) list \<Rightarrow> bool" where
  "sabridge_check_privileges_overlap [] q = False"
| "sabridge_check_privileges_overlap (v # p) q =
     (if overlaps_any v q then True else sabridge_check_privileges_overlap p q)"

fun check_against :: "(dav_principal \<Rightarrow> string) \<Rightarrow> dav_ace \<Rightarrow> dav_ace list \<Rightarrow> nat \<Rightarrow> nat" where
  "check_against prin_name i [] ret = ret"
| "check_against prin_name i (j # js) ret =
     check_against prin_name i js
       (if \<not> (is_deny i \<and> is_deny j) \<and> (is_deny i \<or> is_deny j)
           \<and> prin_name (ace_principal i) = prin_name (ace_principal j)
           \<and> sabridge_check_privileges_overlap (ace_privileges i) (ace_privileges j)
        then HTTP_CONFLICT else ret)"

fun check_loop :: "(dav_principal \<Rightarrow> string) \<Rightarrow> dav_ace list \<Rightarrow> dav_ace list \<Rightarrow> nat \<Rightarrow> nat" where
  "check_loop prin_name [] acldest ret = ret"
| "check_loop prin_name (i # is) acldest ret = check_loop prin_name is acldest (check_against prin_name i acldest ret)"

definition sabridge_acl_check_preconditions :: "(dav_principal \<Rightarrow> string) \<Rightarrow> dav_ace list \<Rightarrow> dav_ace list \<Rightarrow> nat" where
  "sabridge_acl_check_preconditions prin_name acl acldest = check_loop prin_name acl acldest OK"

fun add_aces :: "id \<Rightarrow> dav_ace list \<Rightarrow> (string \<rightharpoonup> id) \<Rightarrow> dav_repos_cache \<Rightarrow> db
    \<Rightarrow> dav_error option \<times> (string \<rightharpoonup> id) \<times> dav_repos_cache \<times> db" where
  "add_aces serialno [] h c s = (None, h, c, s)"
| "add_aces serialno (a # as) h c s =
     (case dbms_add_ace serialno a h c s of
        (Some e, h, c, s) \<Rightarrow> (Some e, h, c, s)
      | (None, h, c, s) \<Rightarrow> add_aces serialno as h c s)"

definition dav_repos_set_acl ::
  "(dav_principal \<Rightarrow> string) \<Rightarrow> (string \<Rightarrow> dav_principal) \<Rightarrow> (id \<Rightarrow> string \<times> string) \<Rightarrow> id \<Rightarrow> dav_ace list
    \<Rightarrow> (string \<rightharpoonup> id) \<Rightarrow> dav_repos_cache \<Rightarrow> db \<Rightarrow> dav_error option \<times> (string \<rightharpoonup> id) \<times> dav_repos_cache \<times> db" where
  "dav_repos_set_acl prin_name prin_by_name priv_by_type serialno acl h c s =
     (case dbms_delete_own_aces serialno s of
        (ret, s) \<Rightarrow>
          if ret \<noteq> OK then (Some (dav_new_error ret ''could not set ACL''), h, c, s)
          else (case dbms_get_protected_aces prin_by_name priv_by_type serialno s of
                  (Inl ret, s) \<Rightarrow> (Some (dav_new_error ret ''could not set ACL''), h, c, s)
                | (Inr protected_acl, s) \<Rightarrow>
                    if sabridge_acl_check_preconditions prin_name acl acl \<noteq> OK then
                      (Some (dav_new_error_tag (sabridge_acl_check_preconditions prin_name acl acl) None ''no-ace-conflict''), h, c, s)
                    else if sabridge_acl_check_preconditions prin_name acl protected_acl \<noteq> OK then
                      (Some (dav_new_error_tag HTTP_FORBIDDEN None ''no-protected-ace-conflict''), h, c, s)
                    else add_aces serialno acl h c s))"

text \<open>\<open>all_priv\<close> is the privilege that the HTTP server's module has for \<open>DAV_PERMISSION_ALL\<close>.\<close>

definition acl_create_initial_acl :: "string \<times> string \<Rightarrow> id \<Rightarrow> dav_principal \<Rightarrow> (string \<rightharpoonup> id) \<Rightarrow> dav_repos_cache \<Rightarrow> db
    \<Rightarrow> dav_error option \<times> (string \<rightharpoonup> id) \<times> dav_repos_cache \<times> db" where
  "acl_create_initial_acl all_priv serialno owner =
     dbms_add_ace serialno \<lparr>ace_principal = owner, ace_property = Some (Some ''DAV:'', ''owner''),
       ace_privileges = [all_priv], is_deny = False, is_protected = True, ace_inherited = None\<rparr>"

definition dbms_update_principal_property_aces :: "id \<Rightarrow> id \<Rightarrow> string \<Rightarrow> id \<Rightarrow> db \<Rightarrow> dav_error option \<times> db" where
  "dbms_update_principal_property_aces serialno prop_ns_id prop_name principal_id =
     exec_or_500 ''DBMS Error during update of property aces''
       (\<lambda>s. Some (s\<lparr>aces := map (\<lambda>a. if a_resource_id a = serialno \<and> a_property_namespace_id a = Some prop_ns_id
                                      \<and> a_property_name a = Some prop_name
                                    then a\<lparr>a_principal_id := principal_id\<rparr> else a) (aces s)\<rparr>))"

end
