(* ===== verification/AclFacts.thy ===== *)
theory AclFacts
  imports Acl
begin

text \<open>
  Properties of access control: the decision against its declarative description, the cache,
  the agreement of the decision with the list of privileges, the inheritance paths and their
  update, and the effect of setting an ACL.
\<close>

section \<open>The order of entries\<close>

lemma relevant_acesE:
  "(a, q) \<in> set (relevant_aces p chi r s) \<longleftrightarrow>
     a \<in> set (aces s) \<and> a_principal_id a \<in> set (make_member_query p s) \<and>
     list_ex (\<lambda>(i, v). i = a_id a \<and> v \<in> set (containing_privs chi s)) (dav_aces_privileges s) \<and>
     (a_resource_id a, q) \<in> set (inherited_res r s)"
  by (auto simp: relevant_aces_def split: if_splits)

lemma hd_sort_key:
  assumes "sort_key f xs = y # ys"
  shows "y \<in> set xs \<and> (\<forall>x \<in> set xs. f y \<le> f x)"
proof -
  have sorted: "sorted (map f (y # ys))" using sorted_sort_key [of f xs] assms by simp
  have "set (y # ys) = set xs" using set_sort [of f xs] assms by simp
  with sorted show ?thesis by auto
qed

definition best :: "(ace_row \<times> string) list \<Rightarrow> ace_row \<Rightarrow> bool" where
  "best rows a \<longleftrightarrow> list_ex (\<lambda>(b, q). b = a \<and> list_all (\<lambda>x. ace_rank (b, q) \<le> ace_rank x) rows) rows"

lemma best_iff: "best rows a \<longleftrightarrow> (\<exists>q. (a, q) \<in> set rows \<and> (\<forall>x \<in> set rows. ace_rank (a, q) \<le> ace_rank x))"
  by (auto simp: best_def list_ex_iff list_all_iff)

lemma first_ace_best:
  assumes "distinct (map a_id (aces s))"
  shows "first_ace p chi r s = Some a \<longleftrightarrow> best (relevant_aces p chi r s) a"
proof (cases "sort_key ace_rank (relevant_aces p chi r s)")
  case Nil
  then have "set (relevant_aces p chi r s) = {}" using set_sort [of ace_rank "relevant_aces p chi r s"] by simp
  with Nil show ?thesis by (simp add: first_ace_def best_iff)
next
  case (Cons y ys)
  obtain b q where y: "y = (b, q)" by (cases y)
  note h = hd_sort_key [OF Cons, unfolded y]
  have "a = b" if "(a, q') \<in> set (relevant_aces p chi r s)" "ace_rank (a, q') \<le> ace_rank (b, q)" for q'
  proof -
    have "ace_rank (b, q) \<le> ace_rank (a, q')" using h that(1) by blast
    with that(2) have "a_id a = a_id b" by (auto simp: ace_rank_def less_eq_prod_def split: if_splits)
    moreover have "a \<in> set (aces s)" "b \<in> set (aces s)" using h that(1) by (auto simp: relevant_acesE)
    ultimately show ?thesis using assms by (auto simp: distinct_map inj_on_def)
  qed
  with h Cons y show ?thesis by (fastforce simp: first_ace_def best_iff)
qed

lemma first_ace_None: "first_ace p chi r s = None \<longleftrightarrow> relevant_aces p chi r s = []"
proof -
  have "sort_key ace_rank (relevant_aces p chi r s) = [] \<longleftrightarrow> relevant_aces p chi r s = []"
    by (metis length_0_conv length_sort)
  then show ?thesis by (auto simp: first_ace_def split: list.split)
qed

section \<open>The merging loop\<close>

definition granted :: "(privilege_row \<Rightarrow> bool) \<Rightarrow> id \<Rightarrow> db \<Rightarrow> id \<Rightarrow> bool" where
  "granted chi r s p = (case first_ace p chi r s of None \<Rightarrow> False | Some a \<Rightarrow> a_grantdeny a = ''G'')"

lemma allow_rows_bounds: "(g, k') \<in> set (allow_rows chi r k ps s) \<Longrightarrow> k \<le> k' \<and> k' < k + length ps"
  by (induction chi r k ps s rule: allow_rows.induct) (fastforce split: option.splits)+

text \<open>What the loop still has to deal with, read off its variables.\<close>

definition pending :: "nat \<Rightarrow> nat \<Rightarrow> nat \<Rightarrow> bool \<Rightarrow> (bool \<times> nat) list \<Rightarrow> (bool \<times> nat) list" where
  "pending mx order no na rows = (if no < order then rows else if no = mx + 1 then [] else (na, no) # rows)"

lemma allow_loop_ret:
  "2 \<le> order \<Longrightarrow> list_all (\<lambda>(g, k). 2 \<le> k) rows \<Longrightarrow>
     fst (allow_loop ns pv mx order no na ret c rows ps) = ret"
proof (induction ps arbitrary: order no na c rows)
  case (Cons p ps)
  then show ?case
    by (cases rows) (auto simp: Let_def)
qed simp

lemma allow_loop_cache:
  assumes "ps \<noteq> []" and "pending mx order no na rows = allow_rows chi r order ps s" and "order + length ps \<le> mx + 1"
  shows "snd (allow_loop ns pv mx order no na ret c rows ps)
    = Some \<lparr>ac_principal_id = last ps, ac_priv_ns_id = ns, ac_privilege = pv, ac_is_allow = granted chi r s (last ps)\<rparr>"
  using assms
proof (induction ps arbitrary: order no na ret c rows)
  case Nil
  then show ?case by simp
next
  case (Cons p ps)
  obtain no' na' ret' rows' where step:
    "(if no < order then (case rows of (g, k) # rows \<Rightarrow> (k, g, if k = 1 then g else ret, rows)
        | [] \<Rightarrow> (mx + 1, na, ret, [])) else (no, na, ret, rows)) = (no', na', ret', rows')"
    by (rule prod_cases4)
  let ?c = "Some \<lparr>ac_principal_id = p, ac_priv_ns_id = ns, ac_privilege = pv,
      ac_is_allow = (if no' = order then na' else False)\<rparr>"
  have run: "allow_loop ns pv mx order no na ret c rows (p # ps)
      = allow_loop ns pv mx (Suc order) no' na' ret' ?c rows' ps"
    by (simp add: step del: split_paired_All split_paired_Ex)
  have bnd: "k < mx + 1 \<and> Suc order \<le> k" if "(g, k) \<in> set (allow_rows chi r (Suc order) ps s)" for g k
    using allow_rows_bounds [OF that] Cons.prems(3) by simp
  have here: "(if no' = order then na' else False) = granted chi r s p"
    and rest: "pending mx (Suc order) no' na' rows' = allow_rows chi r (Suc order) ps s"
  proof -
    have "(if no' = order then na' else False) = granted chi r s p
        \<and> pending mx (Suc order) no' na' rows' = allow_rows chi r (Suc order) ps s"
    proof (cases "first_ace p chi r s")
      case None
      then have pend: "pending mx order no na rows = allow_rows chi r (Suc order) ps s" using Cons.prems(2) by simp
      show ?thesis
      proof (cases "allow_rows chi r (Suc order) ps s")
        case Nil
        with pend step None Cons.prems(3) show ?thesis
          by (auto simp: pending_def granted_def split: if_splits)
      next
        case (Cons x xs)
        obtain g k where x: "x = (g, k)" by (cases x)
        with Cons bnd [of g k] have "k < mx + 1" "Suc order \<le> k" by simp_all
        with pend step None Cons x show ?thesis
          by (auto simp: pending_def granted_def split: if_splits)
      qed
    next
      case (Some a)
      with Cons.prems(2) step Cons.prems(3) show ?thesis
        by (auto simp: pending_def granted_def split: if_splits)
    qed
    then show "(if no' = order then na' else False) = granted chi r s p"
      "pending mx (Suc order) no' na' rows' = allow_rows chi r (Suc order) ps s" by simp_all
  qed
  show ?case
  proof (cases "ps = []")
    case True
    then show ?thesis using run here by simp
  next
    case False
    from Cons.IH [OF False rest] Cons.prems(3) run False show ?thesis by simp
  qed
qed

lemma allow_loop_first:
  "fst (allow_loop ns pv (length (p # ps)) 1 0 False False c (allow_rows chi r 1 (p # ps) s) (p # ps))
     = granted chi r s p"
proof (cases "first_ace p chi r s")
  case (Some a)
  have "2 \<le> k" if "(g, k) \<in> set (allow_rows chi r 2 ps s)" for g k using allow_rows_bounds [OF that] by simp
  then have "list_all (\<lambda>(g, k). 2 \<le> k) (allow_rows chi r 2 ps s)" by (auto simp: list_all_iff)
  with Some show ?thesis by (simp add: granted_def allow_loop_ret numeral_2_eq_2 [symmetric])
next
  case None
  have ge: "2 \<le> k" if "(g, k) \<in> set (allow_rows chi r 2 ps s)" for g k using allow_rows_bounds [OF that] by simp
  show ?thesis
  proof (cases "allow_rows chi r 2 ps s")
    case Nil
    with None show ?thesis by (simp add: granted_def allow_loop_ret numeral_2_eq_2 [symmetric])
  next
    case (Cons x xs)
    obtain g k where x: "x = (g, k)" by (cases x)
    have "2 \<le> k" "list_all (\<lambda>(g, k). 2 \<le> k) xs" using ge Cons x by (auto simp: list_all_iff)
    with None Cons x show ?thesis by (simp add: granted_def allow_loop_ret numeral_2_eq_2 [symmetric])
  qed
qed

definition named_priv :: "id \<Rightarrow> string \<Rightarrow> privilege_row \<Rightarrow> bool" where
  "named_priv ns pv c \<longleftrightarrow> v_name c = pv \<and> v_ns c = ns"

definition cache_hit :: "id \<Rightarrow> string \<Rightarrow> id \<Rightarrow> ace_cache_t option \<Rightarrow> bool" where
  "cache_hit ns pv p cache \<longleftrightarrow>
     (case cache of None \<Rightarrow> False | Some c \<Rightarrow> ac_principal_id c = p \<and> ac_priv_ns_id c = ns \<and> ac_privilege c = pv)"

text \<open>A cache is right when its answer is the decision for its principal and privilege.\<close>

definition cache_ok :: "id \<Rightarrow> db \<Rightarrow> ace_cache_t option \<Rightarrow> bool" where
  "cache_ok r s cache \<longleftrightarrow>
     (case cache of None \<Rightarrow> True
      | Some c \<Rightarrow> ac_is_allow c = granted (named_priv (ac_priv_ns_id c) (ac_privilege c)) r s (ac_principal_id c))"

lemma is_allow_healthy:
  assumes "fault s = []" and "dav_repos_get_principal_id prin \<noteq> SUPER_USER_ID"
    and "\<not> cache_hit ns pv (dav_repos_get_principal_id prin) cache"
  shows "\<exists>cache'. dbms_is_allow ns pv prin others r cache s
      = (of_bool (granted (named_priv ns pv) r s (dav_repos_get_principal_id prin)), cache', s) \<and> cache_ok r s cache'"
proof -
  let ?ids = "dav_repos_get_principal_id prin # map dav_repos_get_principal_id others"
  let ?rows = "allow_rows (named_priv ns pv) r 1 ?ids s"
  have np: "(\<lambda>c. v_name c = pv \<and> v_ns c = ns) = named_priv ns pv" by (simp add: fun_eq_iff named_priv_def)
  have ret: "fst (allow_loop ns pv (length ?ids) 1 0 False False cache ?rows ?ids)
      = granted (named_priv ns pv) r s (dav_repos_get_principal_id prin)" by (rule allow_loop_first)
  have "snd (allow_loop ns pv (length ?ids) 1 0 False False cache ?rows ?ids)
      = Some \<lparr>ac_principal_id = last ?ids, ac_priv_ns_id = ns, ac_privilege = pv,
              ac_is_allow = granted (named_priv ns pv) r s (last ?ids)\<rparr>"
    by (rule allow_loop_cache) (simp_all add: pending_def)
  then have ok: "cache_ok r s (snd (allow_loop ns pv (length ?ids) 1 0 False False cache ?rows ?ids))"
    by (simp add: cache_ok_def)
  have "dbms_is_allow ns pv prin others r cache s
      = (of_bool (fst (allow_loop ns pv (length ?ids) 1 0 False False cache ?rows ?ids)),
         snd (allow_loop ns pv (length ?ids) 1 0 False False cache ?rows ?ids), s)"
    using assms by (cases cache) (auto simp: dbms_is_allow_def cache_hit_def Let_def run_stmt_healthy np
        simp del: allow_loop.simps allow_rows.simps split: prod.split)
  with ret ok show ?thesis by (intro exI) auto
qed

section \<open>Paths\<close>

definition path_str :: "id list \<Rightarrow> string" where
  "path_str ids = joinc CHR '','' (map show_long ids)"

interpretation acl_path: codec path_str "\<lambda>p. Some (path_ids p)" "\<lambda>ids. ids \<noteq> []"
proof
  fix ids :: "id list"
  assume "ids \<noteq> []"
  then have "splitc CHR '','' (joinc CHR '','' (map show_long ids)) = map show_long ids"
    by (intro splitc_joinc) auto
  then show "Some (path_ids (path_str ids)) = Some ids"
    by (simp add: path_ids_def path_str_def o_def)
qed

lemma path_ids_str [simp]: "ids \<noteq> [] \<Longrightarrow> path_ids (path_str ids) = ids"
  using acl_path.dec_enc [of ids] by simp

lemma path_str_snoc: "ids \<noteq> [] \<Longrightarrow> path_str (ids @ [i]) = path_str ids @ '','' @ show_long i"
  by (simp add: path_str_def joinc_snoc)

lemma path_str_longer: "ids \<noteq> [] \<Longrightarrow> js \<noteq> [] \<Longrightarrow> length (path_str ids) < length (path_str (ids @ js))"
  by (simp add: path_str_def joinc_append)

text \<open>The table is a forest: each path ends with its resource, and what is in front of it is the
  path of the parent.\<close>

definition acl_inv :: "db \<Rightarrow> bool" where
  "acl_inv s \<longleftrightarrow>
     distinct (map fst (acl_inheritance s)) \<and>
     list_all (\<lambda>(i, p). path_str (path_ids p) = p \<and> last (path_ids p) = i \<and>
       (butlast (path_ids p) = [] \<or> (last (butlast (path_ids p)), path_str (butlast (path_ids p))) \<in> set (acl_inheritance s)))
       (acl_inheritance s)"

definition ancestors :: "db \<Rightarrow> id \<Rightarrow> id list" where
  "ancestors s r = (case acl_path r s of None \<Rightarrow> [] | Some p \<Rightarrow> path_ids p)"

lemma acl_path_Some:
  assumes "distinct (map fst (acl_inheritance s))"
  shows "acl_path r s = Some p \<longleftrightarrow> (r, p) \<in> set (acl_inheritance s)"
proof -
  have "(\<lambda>(i, p). i = r) = (\<lambda>x :: id \<times> string. fst x = r)" by (simp add: fun_eq_iff)
  then show ?thesis
    using find_unique [OF assms, of r] by (auto simp: acl_path_def)
qed

lemma path_ids_nonempty [simp]: "path_ids p \<noteq> []"
  by (simp add: path_ids_def)

text \<open>The path of an ancestor is the part of the path that ends with it.\<close>

lemma ancestor_path:
  assumes inv: "acl_inv s"
  shows "(r, path_str ids) \<in> set (acl_inheritance s) \<Longrightarrow> ids = xs @ j # ys \<Longrightarrow>
    (j, path_str (xs @ [j])) \<in> set (acl_inheritance s)"
proof (induction ys arbitrary: r ids rule: rev_induct)
  case Nil
  then have "last (path_ids (path_str ids)) = r" using inv by (auto simp: acl_inv_def list_all_iff)
  with Nil show ?case by simp
next
  case (snoc y ys)
  then have ids: "ids \<noteq> []" "butlast ids = xs @ j # ys" by (simp_all add: butlast_append)
  have "butlast (path_ids (path_str ids)) = [] \<or> (last (butlast (path_ids (path_str ids))),
      path_str (butlast (path_ids (path_str ids)))) \<in> set (acl_inheritance s)"
    using inv snoc.prems(1) by (auto simp: acl_inv_def list_all_iff)
  with ids have "(last (xs @ j # ys), path_str (xs @ j # ys)) \<in> set (acl_inheritance s)" by simp
  from snoc.IH [OF this refl] show ?case .
qed

lemma inherited_ancestors:
  assumes inv: "acl_inv s"
  shows "fst ` set (inherited_res r s) = set (ancestors s r)"
proof (cases "acl_path r s")
  case None
  then show ?thesis by (simp add: inherited_res_def ancestors_def)
next
  case (Some p)
  have d: "distinct (map fst (acl_inheritance s))" using inv by (simp add: acl_inv_def)
  with Some have mem: "(r, p) \<in> set (acl_inheritance s)" by (simp add: acl_path_Some)
  then have p: "path_str (path_ids p) = p" using inv by (auto simp: acl_inv_def list_all_iff)
  have "\<exists>q. (j, q) \<in> set (acl_inheritance s)" if "j \<in> set (path_ids p)" for j
  proof -
    from that obtain xs ys where "path_ids p = xs @ j # ys" by (meson split_list)
    with ancestor_path [OF inv, of r "path_ids p" xs j ys] mem p show ?thesis by auto
  qed
  with Some show ?thesis by (force simp: inherited_res_def ancestors_def)
qed

lemma insert_path_inv:
  assumes inv: "acl_inv s" and pp: "acl_path parent s = Some pp" and new: "acl_path r s = None"
    and ins: "insert_path r parent s = Some s'"
  shows "acl_inv s' \<and> acl_inheritance s' = acl_inheritance s @ [(r, path_str (path_ids pp @ [r]))]"
proof -
  have d: "distinct (map fst (acl_inheritance s))" using inv by (simp add: acl_inv_def)
  have mem: "(parent, pp) \<in> set (acl_inheritance s)" using pp d by (simp add: acl_path_Some)
  then have p: "path_str (path_ids pp) = pp" "last (path_ids pp) = parent"
    using inv by (auto simp: acl_inv_def list_all_iff)
  have q: "path_str (path_ids pp @ [r]) = pp @ '','' @ show_long r" using p by (simp add: path_str_snoc)
  have rows: "acl_inheritance s' = acl_inheritance s @ [(r, path_str (path_ids pp @ [r]))]"
    using ins pp by (auto simp: insert_path_def Let_def q split: if_splits)
  have "r \<notin> fst ` set (acl_inheritance s)"
    using new acl_path_Some [OF d, of r] by (force)
  then have "distinct (map fst (acl_inheritance s'))" using d by (simp add: rows)
  moreover have "list_all (\<lambda>(i, p). path_str (path_ids p) = p \<and> last (path_ids p) = i \<and>
       (butlast (path_ids p) = [] \<or> (last (butlast (path_ids p)), path_str (butlast (path_ids p))) \<in> set (acl_inheritance s')))
       (acl_inheritance s')"
    using inv mem p by (auto simp: acl_inv_def rows list_all_iff)
  ultimately show ?thesis using rows by (simp add: acl_inv_def)
qed

lemma ancestors_append:
  assumes d: "distinct (map fst (acl_inheritance s'))" and rows: "acl_inheritance s' = acl_inheritance s @ [(r, path_str ids)]"
    and ne: "ids \<noteq> []"
  shows "ancestors s' r = ids" and "k \<noteq> r \<Longrightarrow> ancestors s' k = ancestors s k"
proof -
  have d0: "distinct (map fst (acl_inheritance s))" using d by (simp add: rows)
  have "acl_path r s' = Some (path_str ids)" using acl_path_Some [OF d, of r] by (simp add: rows)
  then show "ancestors s' r = ids" using ne by (simp add: ancestors_def)
  assume "k \<noteq> r"
  then have "acl_path k s' = Some p \<longleftrightarrow> acl_path k s = Some p" for p
    using acl_path_Some [OF d, of k] acl_path_Some [OF d0, of k] by (simp add: rows)
  then have "acl_path k s' = acl_path k s" by (metis option.exhaust)
  then show "ancestors s' k = ancestors s k" by (simp add: ancestors_def)
qed

text \<open>Moving a subtree whose old path does not occur again further down.\<close>

definition occurs_once :: "string \<Rightarrow> db \<Rightarrow> bool" where
  "occurs_once orig s \<longleftrightarrow>
     list_all (\<lambda>(i, p). prefix orig p \<longrightarrow> \<not> sublist orig (drop (length orig) p)) (acl_inheritance s)"

lemma path_str_like_plain: "like_plain (path_str ids)"
proof -
  have "set (joinc CHR '','' xs) \<subseteq> insert (CHR '','') (\<Union> (set ` set xs))" for xs
    by (induction "CHR '',''" xs rule: joinc.induct) auto
  then have chars: "c \<in> set (path_str ids) \<Longrightarrow> c = CHR '','' \<or> is_digit c \<or> c = CHR ''-''" for c
    using show_long_chars unfolding path_str_def by fastforce
  show ?thesis
    using chars [of "CHR ''%''"] chars [of "CHR ''_''"] chars [of "CHR 0x5C"]
    by (auto simp: like_plain_def is_digit_def)
qed

lemma move_paths_once:
  assumes once: "occurs_once orig s" and ne: "orig \<noteq> []" and plain: "like_plain orig"
    and run: "move_paths orig new s = Some s'"
  shows "acl_inheritance s' = map (\<lambda>(i, p). if p = orig \<or> prefix (orig @ '','') p
      then (i, new @ drop (length orig) p) else (i, p)) (acl_inheritance s)"
proof -
  have like: "sql_like (orig @ '',%'') p \<longleftrightarrow> prefix (orig @ '','') p" for p
    using sql_like_prefix [of "orig @ '',''" p] plain by (simp add: like_plain_def)
  have rep: "sql_replace p orig new = new @ drop (length orig) p"
    if "(i, p) \<in> set (acl_inheritance s)" "p = orig \<or> prefix (orig @ '','') p" for i p
  proof -
    from that(2) have "prefix orig p" by (auto simp: prefix_def)
    then obtain q where q: "p = orig @ q" by (auto simp: prefix_def)
    then have "\<not> sublist orig q" using once that(1) by (auto simp: occurs_once_def list_all_iff)
    then show ?thesis using q ne by (simp add: sql_replace_prefix sql_replace_absent)
  qed
  show ?thesis
    using run rep by (auto simp: move_paths_def Let_def like split: if_splits)
qed

section \<open>Setting an ACL\<close>

lemma get_privilege_id_aces:
  "dbms_get_privilege_id priv c s = (v, c', s') \<Longrightarrow> tables_eq s' s \<and> (fault s = [] \<longrightarrow> fault s' = [])"
proof -
  have sel: "run_select t = (b, t') \<Longrightarrow> tables_eq t' t \<and> (fault t = [] \<longrightarrow> fault t' = [])" for t b t'
    using run_select_same by (auto simp: run_stmt_healthy)
  have ns: "sabridge_get_namespace_id n c s = (e, c', t) \<Longrightarrow> tables_eq t s \<and> (fault s = [] \<longrightarrow> fault t = [])" for n e c' t
    using sel by (auto simp: sabridge_get_namespace_id_def dbms_get_namespace_id_def
        split: option.splits prod.splits bool.splits if_splits)
  assume run: "dbms_get_privilege_id priv c s = (v, c', s')"
  obtain e i c1 t where t: "sabridge_get_namespace_id (fst priv) c s = ((e, i), c1, t)" by (metis surj_pair)
  from run t have "s' = t \<or> (\<exists>b. run_select t = (b, s'))"
    by (auto simp: dbms_get_privilege_id_def Let_def split: option.splits prod.splits)
  with ns [OF t] sel show ?thesis by (blast intro: tables_eq_trans)
qed

lemma add_ace_privilege_aces:
  assumes "dbms_add_ace_privilege v i c s = (ret, c', s')" and "fault s = []"
  shows "aces s' = aces s \<and> resource_ids s' = resource_ids s \<and> fault s' = []"
proof -
  obtain j c1 t where g: "dbms_get_privilege_id v c s = (j, c1, t)" by (cases "dbms_get_privilege_id v c s")
  from get_privilege_id_aces [OF g] assms(2) have t: "tables_eq t s" "fault t = []" by simp_all
  then have "aces t = aces s" "resource_ids t = resource_ids s" by (simp_all add: tables_eqD resource_ids_def)
  with assms(1) g t(2) show ?thesis
    by (auto simp: dbms_add_ace_privilege_def run_stmt_healthy resource_ids_def split: if_splits option.splits)
qed

lemma add_ace_privileges_aces:
  "add_ace_privileges vs i c s = (err, c', s') \<Longrightarrow> fault s = [] \<Longrightarrow>
     aces s' = aces s \<and> resource_ids s' = resource_ids s \<and> fault s' = []"
proof (induction vs arbitrary: c s)
  case (Cons v vs)
  obtain ret c1 t where v: "dbms_add_ace_privilege v i c s = (ret, c1, t)" by (cases "dbms_add_ace_privilege v i c s")
  note t = add_ace_privilege_aces [OF v Cons.prems(2)]
  show ?case
  proof (cases "ret = OK")
    case True
    then have "add_ace_privileges vs i c1 t = (err, c', s')" using Cons.prems(1) v by simp
    from Cons.IH [OF this] t show ?thesis by simp
  next
    case False
    then show ?thesis using Cons.prems(1) v t by simp
  qed
qed simp

definition row_data :: "ace_row \<Rightarrow> string \<times> bool \<times> id \<times> id" where
  "row_data a = (a_grantdeny a, a_protected a, a_resource_id a, a_principal_id a)"

definition ace_data :: "id \<Rightarrow> dav_ace \<Rightarrow> string \<times> bool \<times> id \<times> id" where
  "ace_data sn a = (if is_deny a then ''D'' else ''G'', is_protected a, sn, dav_repos_get_principal_id (ace_principal a))"

lemma get_ns_id_aces:
  "dbms_get_ns_id n h c s = (r, h', c', s') \<Longrightarrow> fault s = [] \<Longrightarrow>
     aces s' = aces s \<and> resource_ids s' = resource_ids s \<and> fault s' = []"
  by (auto simp: dbms_get_ns_id_def sabridge_get_namespace_id_def dbms_get_namespace_id_def dbms_insert_ns_def
      run_stmt_healthy resource_ids_def split: option.splits prod.splits if_splits)

lemma add_ace_ok:
  assumes "dbms_add_ace sn a h c s = (None, h', c', s')" and "fault s = []"
  shows "\<exists>row. aces s' = aces s @ [row] \<and> row_data row = ace_data sn a \<and> fault s' = []"
proof -
  obtain i h1 c1 t where n: "(case ace_property a of
           Some (Some ns, name) \<Rightarrow> (case dbms_get_ns_id ns h c s of ((err, i), h, c, s) \<Rightarrow> (i, h, c, s))
         | _ \<Rightarrow> (0, h, c, s)) = (i, h1, c1, t)" by (rule prod_cases4)
  have t: "aces t = aces s \<and> fault t = []"
    using n assms(2) get_ns_id_aces by (auto split: option.splits prod.splits)
  then obtain u where u: "insert_ace_row sn a i t = Some u"
    using assms(1) n by (auto simp: dbms_add_ace_def run_stmt_healthy split: option.splits)
  have v: "add_ace_privileges (ace_privileges a) (next_ace u - 1) c1 u = (None, c', s')"
    using assms(1) n u t by (auto simp: dbms_add_ace_def run_stmt_healthy split: prod.splits)
  from u have row: "\<exists>row. aces u = aces t @ [row] \<and> row_data row = ace_data sn a" and "fault u = fault t"
    by (auto simp: insert_ace_row_def row_data_def ace_data_def split: if_splits)
  with add_ace_privileges_aces [OF v] t show ?thesis by simp
qed

lemma add_aces_ok:
  "add_aces sn as h c s = (None, h', c', s') \<Longrightarrow> fault s = [] \<Longrightarrow>
     \<exists>rows. aces s' = aces s @ rows \<and> map row_data rows = map (ace_data sn) as"
proof (induction as arbitrary: h c s)
  case Nil
  then show ?case by simp
next
  case (Cons a as)
  obtain h1 c1 t where a: "dbms_add_ace sn a h c s = (None, h1, c1, t)"
    and rest: "add_aces sn as h1 c1 t = (None, h', c', s')"
    using Cons.prems(1) by (auto split: prod.splits option.splits)
  from add_ace_ok [OF a Cons.prems(2)] obtain row where row: "aces t = aces s @ [row]"
    "row_data row = ace_data sn a" "fault t = []" by blast
  from Cons.IH [OF rest row(3)] obtain rows where "aces s' = aces t @ rows" "map row_data rows = map (ace_data sn) as" by blast
  with row show ?case by (intro exI [of _ "row # rows"]) simp
qed

section \<open>Properties\<close>

definition sample_acl :: db where
  "sample_acl = empty_db
     \<lparr>resources := [a_resource 2 ''Collection'', a_resource 6 ''Collection'', a_resource 7 ''Collection'', a_resource 9 ''Resource''],
      principals := [(10, ''staff''), (12, ''ann'')], group_members := [(1, 10, 12)],
      transitive_group_members := [(10, 12, 1)],
      namespaces := [(1, ''DAV:'')], next_ns := 2,
      acl_privileges := [\<lparr>v_id = 1, v_name = ''all'', v_ns = 1, v_lft = 1, v_rgt = 22\<rparr>,
        \<lparr>v_id = 2, v_name = ''read'', v_ns = 1, v_lft = 2, v_rgt = 3\<rparr>,
        \<lparr>v_id = 7, v_name = ''write'', v_ns = 1, v_lft = 12, v_rgt = 21\<rparr>,
        \<lparr>v_id = 9, v_name = ''write-content'', v_ns = 1, v_lft = 15, v_rgt = 16\<rparr>],
      acl_inheritance := [(2, ''2''), (6, ''2,6''), (7, ''2,7''), (9, ''2,6,9'')],
      aces := [\<lparr>a_id = 1, a_grantdeny = ''G'', a_protected = False, a_resource_id = 2, a_principal_id = 10,
                a_property_namespace_id = None, a_property_name = None\<rparr>,
               \<lparr>a_id = 2, a_grantdeny = ''D'', a_protected = False, a_resource_id = 9, a_principal_id = 12,
                a_property_namespace_id = None, a_property_name = None\<rparr>],
      dav_aces_privileges := [(1, 1), (2, 7)], next_ace := 3\<rparr>"

lemma sample_acl_facts:
  "fault sample_acl = []" "distinct (map a_id (aces sample_acl))" "acl_inv sample_acl"
  by code_simp+



text \<open>C24: \<open>dbms_get_privileges\<close> lists exactly the privileges that \<open>dbms_is_allow\<close> allows the principal
  (who is not the superuser), when privileges and namespaces have unique names and ids.\<close>

theorem get_privileges_agree:
  assumes ok: "fault s = []" and p: "p \<noteq> SUPER_USER_ID"
    and priv: "distinct (map v_id (acl_privileges s))" "distinct (map (\<lambda>v. (v_ns v, v_name v)) (acl_privileges s))"
    and ns: "distinct (map fst (namespaces s))"
  shows "(n, pv) \<in> set (fst (dbms_get_privileges p r s)) \<longleftrightarrow>
    (\<exists>v \<in> set (acl_privileges s). v_name v = pv \<and> (v_ns v, n) \<in> set (namespaces s) \<and>
       fst (dbms_is_allow (v_ns v) pv (PRINCIPAL_HREF p) [] r None s) = 1)"
proof -
  have same: "relevant_aces p (\<lambda>c. v_id c = v_id v) r s = relevant_aces p (named_priv (v_ns v) (v_name v)) r s"
    if "v \<in> set (acl_privileges s)" for v
  proof -
    have eq: "(v_id c = v_id v) = named_priv (v_ns v) (v_name v) c" if "c \<in> set (acl_privileges s)" for c
      using that \<open>v \<in> set (acl_privileges s)\<close> priv
      by (auto simp: named_priv_def distinct_map inj_on_def)
    have "list_ex (\<lambda>c. v_id c = v_id v \<and> contains_priv par c) (acl_privileges s)
        = list_ex (\<lambda>c. named_priv (v_ns v) (v_name v) c \<and> contains_priv par c) (acl_privileges s)" for par
      using eq by (auto simp: list_ex_iff)
    then have "containing_privs (\<lambda>c. v_id c = v_id v) s = containing_privs (named_priv (v_ns v) (v_name v)) s"
      by (simp only: containing_privs_def)
    then show ?thesis by (simp add: relevant_aces_def)
  qed
  have allow: "fst (dbms_is_allow (v_ns v) (v_name v) (PRINCIPAL_HREF p) [] r None s) = 1
      \<longleftrightarrow> granted (named_priv (v_ns v) (v_name v)) r s p" for v
    using is_allow_healthy [OF ok, of "PRINCIPAL_HREF p" "v_ns v" "v_name v" None "[]" r] p
    by (auto simp: cache_hit_def of_bool_def split: if_splits)
  have find_ns: "find (\<lambda>(i, n). i = k) (namespaces s) = Some x \<longleftrightarrow> x \<in> set (namespaces s) \<and> fst x = k" for k x
  proof -
    have "(\<lambda>(i, n). i = k) = (\<lambda>x :: id \<times> string. fst x = k)" by (simp add: fun_eq_iff)
    then show ?thesis using find_unique [OF ns, of k x] by simp
  qed
  have row: "(n, pv) \<in> set (case find (\<lambda>(i, n). i = v_ns v) (namespaces s) of
       None \<Rightarrow> [] | Some (i, n) \<Rightarrow> (case first_ace p (\<lambda>c. v_id c = v_id v) r s of
          Some a \<Rightarrow> if a_grantdeny a = ''G'' then [(n, v_name v)] else [] | None \<Rightarrow> []))
     \<longleftrightarrow> v_name v = pv \<and> (v_ns v, n) \<in> set (namespaces s) \<and> granted (named_priv (v_ns v) (v_name v)) r s p"
    if "v \<in> set (acl_privileges s)" for v
  proof -
    have f: "first_ace p (\<lambda>c. v_id c = v_id v) r s = first_ace p (named_priv (v_ns v) (v_name v)) r s"
      using same [OF that] by (simp add: first_ace_def)
    show ?thesis
    proof (cases "find (\<lambda>(i, n). i = v_ns v) (namespaces s)")
      case None
      then have "(v_ns v, n) \<notin> set (namespaces s)" using find_ns [of "v_ns v" "(v_ns v, n)"] by simp
      with None show ?thesis by simp
    next
      case (Some x)
      then obtain m where x: "x = (v_ns v, m)" using find_ns [of "v_ns v" x] by (cases x) simp
      have "(v_ns v, n) \<in> set (namespaces s) \<longleftrightarrow> n = m"
        using find_ns [of "v_ns v" "(v_ns v, n)"] Some x by auto
      with Some x show ?thesis
        unfolding granted_def f by (cases "first_ace p (named_priv (v_ns v) (v_name v)) r s") auto
    qed
  qed
  have "(n, pv) \<in> set (fst (dbms_get_privileges p r s)) \<longleftrightarrow> (\<exists>v \<in> set (acl_privileges s).
      v_name v = pv \<and> (v_ns v, n) \<in> set (namespaces s) \<and> granted (named_priv (v_ns v) (v_name v)) r s p)"
    using row by (simp add: dbms_get_privileges_def run_stmt_healthy [OF ok])
  with allow show ?thesis by metis
qed

theorem get_privileges_agree_witness:
  "(''DAV:'', ''read'') \<in> set (fst (dbms_get_privileges 12 9 sample_acl)) \<and>
   fst (dbms_is_allow 1 ''read'' (PRINCIPAL_HREF 12) [] 9 None sample_acl) = 1"
proof -
  have h: "(12 :: id) \<noteq> SUPER_USER_ID" "distinct (map v_id (acl_privileges sample_acl))"
    "distinct (map (\<lambda>v. (v_ns v, v_name v)) (acl_privileges sample_acl))" "distinct (map fst (namespaces sample_acl))"
    by code_simp+
  have m: "(''DAV:'', ''read'') \<in> set (fst (dbms_get_privileges 12 9 sample_acl))" by code_simp
  then obtain v where "v \<in> set (acl_privileges sample_acl)" "v_name v = ''read''"
    "fst (dbms_is_allow (v_ns v) ''read'' (PRINCIPAL_HREF 12) [] 9 None sample_acl) = 1"
    using get_privileges_agree [OF sample_acl_facts(1) h, of "''DAV:''" "''read''" 9] by blast
  moreover from this(1) have "v_ns v = 1" by (auto simp: sample_acl_def)
  ultimately show ?thesis using m by simp
qed

text \<open>C28: When a resource is put below a parent (\<open>dbms_inherit_parent_aces\<close>) and its path fits the
  column, the resource inherits from itself and from exactly the resources its parent
  inherits from, every other resource inherits as before, and the table stays a forest.\<close>

theorem inherit_parent_aces_correct:
  assumes inv: "acl_inv s" and ok: "fault s = []" and pp: "acl_path parent s = Some pp"
    and new: "acl_path r s = None" and res: "r \<in> resource_ids s"
    and fits: "length (pp @ '','' @ show_long r) \<le> PATH_WIDTH"
  shows "\<exists>s'. dbms_inherit_parent_aces r parent s = (None, s') \<and> acl_inv s' \<and>
    fst ` set (inherited_res r s') = insert r (fst ` set (inherited_res parent s)) \<and>
    (\<forall>k. k \<noteq> r \<longrightarrow> fst ` set (inherited_res k s') = fst ` set (inherited_res k s))"
proof -
  obtain s' where ins: "insert_path r parent s = Some s'"
    using pp new res fits by (simp add: insert_path_def Let_def)
  from insert_path_inv [OF inv pp new ins] have inv': "acl_inv s'"
    and rows: "acl_inheritance s' = acl_inheritance s @ [(r, path_str (path_ids pp @ [r]))]" by simp_all
  have d: "distinct (map fst (acl_inheritance s'))" using inv' by (simp add: acl_inv_def)
  have an: "ancestors s' r = path_ids pp @ [r]" "\<And>k. k \<noteq> r \<Longrightarrow> ancestors s' k = ancestors s k"
    by (rule ancestors_append [OF d rows]; simp)+
  have "ancestors s parent = path_ids pp" using pp by (simp add: ancestors_def)
  then have "fst ` set (inherited_res r s') = insert r (fst ` set (inherited_res parent s))"
    "\<forall>k. k \<noteq> r \<longrightarrow> fst ` set (inherited_res k s') = fst ` set (inherited_res k s)"
    using an by (simp_all add: inherited_ancestors [OF inv'] inherited_ancestors [OF inv])
  moreover have "dbms_inherit_parent_aces r parent s = (None, s')"
    using ok new ins by (simp add: dbms_inherit_parent_aces_def run_stmt_healthy exec_or_500_healthy)
  ultimately show ?thesis using inv' by blast
qed

theorem inherit_parent_aces_correct_witness:
  "\<exists>s'. dbms_inherit_parent_aces 11 9 (sample_acl\<lparr>resources := a_resource 11 ''Resource'' # resources sample_acl\<rparr>) = (None, s')
     \<and> acl_inv s' \<and> 11 \<in> fst ` set (inherited_res 11 s')"
proof -
  let ?s = "sample_acl\<lparr>resources := a_resource 11 ''Resource'' # resources sample_acl\<rparr>"
  have h: "acl_inv ?s" "fault ?s = []" "acl_path 9 ?s = Some ''2,6,9''" "acl_path 11 ?s = None"
    "11 \<in> resource_ids ?s" "length (''2,6,9'' @ '','' @ show_long 11) \<le> PATH_WIDTH" by code_simp+
  from inherit_parent_aces_correct [OF h] show ?thesis by blast
qed

text \<open>A path that would be longer than the 255 characters of its column is refused with 500, and
  the resource then inherits nothing.\<close>

theorem inherit_parent_aces_too_deep:
  assumes "fault s = []" and "acl_path parent s = Some pp" and "acl_path r s = None"
    and "PATH_WIDTH < length (pp @ '','' @ show_long r)"
  shows "\<exists>e. dbms_inherit_parent_aces r parent s = (Some e, s) \<and> status e = HTTP_INTERNAL_SERVER_ERROR
    \<and> inherited_res r s = []"
  using assms
  by (simp add: dbms_inherit_parent_aces_def insert_path_def Let_def run_stmt_healthy exec_or_500_healthy inherited_res_def)

theorem inherit_parent_aces_too_deep_witness:
  "\<exists>e s. dbms_inherit_parent_aces 300 299 (sample_acl\<lparr>acl_inheritance := [(299, path_str [200..299])]\<rparr>) = (Some e, s)
     \<and> status e = HTTP_INTERNAL_SERVER_ERROR"
proof -
  let ?s = "sample_acl\<lparr>acl_inheritance := [(299, path_str [200..299])]\<rparr>"
  have h: "fault ?s = []" "acl_path 299 ?s = Some (path_str [200..299])" "acl_path 300 ?s = None"
    by (simp_all add: sample_acl_def empty_db_def acl_path_def)
  have "PATH_WIDTH < length (path_str [200..299] @ '','' @ show_long 300)" by code_simp
  from inherit_parent_aces_too_deep [OF h this] show ?thesis by blast
qed

text \<open>C30: \<open>dbms_change_acl_parent\<close> rewrites the paths of the moved resource and of everything below it,
  and no other path, when the old path does not occur a second time in a path it starts.\<close>

theorem change_acl_parent_moves_subtree:
  assumes ok: "fault s = []" and orig: "acl_path r s = Some orig" and np: "acl_path parent s = Some pp"
    and ids: "orig = path_str ids" "orig \<noteq> []" and once: "occurs_once orig s"
    and run: "dbms_change_acl_parent r parent s = (None, s')"
  shows "acl_inheritance s' = map (\<lambda>(i, p). if p = orig \<or> prefix (orig @ '','') p
      then (i, pp @ '','' @ show_long r @ drop (length orig) p) else (i, p)) (acl_inheritance s)"
proof -
  from run ok orig np have "move_paths orig (pp @ '','' @ show_long r) s = Some s'"
    by (simp add: dbms_change_acl_parent_def run_stmt_healthy exec_or_500_healthy split: option.splits)
  from move_paths_once [OF once ids(2) _ this] show ?thesis
    unfolding append_assoc by (simp only: ids(1) path_str_like_plain)
qed

theorem change_acl_parent_moves_subtree_witness:
  "acl_inheritance (snd (dbms_change_acl_parent 6 7 sample_acl)) = [(2, ''2''), (6, ''2,7,6''), (7, ''2,7''), (9, ''2,7,6,9'')]"
proof -
  let ?p = "dbms_change_acl_parent 6 7 sample_acl"
  have h: "acl_path 6 sample_acl = Some ''2,6''" "acl_path 7 sample_acl = Some ''2,7''"
    "''2,6'' = path_str [2, 6]" "occurs_once ''2,6'' sample_acl" "fst ?p = None" by code_simp+
  have ne: "''2,6'' \<noteq> ([] :: string)" by simp
  have p: "?p = (None, snd ?p)" using h(5) by (simp add: prod_eq_iff)
  have "map (\<lambda>(i, p). if p = ''2,6'' \<or> prefix (''2,6'' @ '','') p
      then (i, ''2,7'' @ '','' @ show_long 6 @ drop (length ''2,6'') p) else (i, p)) (acl_inheritance sample_acl)
     = [(2, ''2''), (6, ''2,7,6''), (7, ''2,7''), (9, ''2,7,6,9'')]" by code_simp
  with change_acl_parent_moves_subtree [OF sample_acl_facts(1) h(1-3) ne h(4) p] show ?thesis by simp
qed

text \<open>When the old path occurs again inside two later numbers, moving leaves a wrong path: after 6
  was moved below 7 and 12 then to the root, resource 60 below 12 still inherits from 7.\<close>

theorem change_acl_parent_keeps_old_ancestor:
  "(let s0 = sample_acl\<lparr>acl_inheritance := [(2, ''2''), (6, ''2,6''), (7, ''2,7''), (12, ''2,6,12''), (60, ''2,6,12,60'')]\<rparr>;
        (e1, s1) = dbms_change_acl_parent 6 7 s0;
        (e2, s2) = dbms_change_acl_parent 12 2 s1
    in acl_inv s0 \<and> e1 = None \<and> e2 = None \<and> acl_path 12 s2 = Some ''2,12'' \<and> acl_path 60 s2 = Some ''2,12,7,60''
       \<and> map fst (inherited_res 60 s2) = [2, 7, 12, 60])"
  by code_simp

text \<open>C39: A failed statement opens access: with the namespace known and no cached answer, any principal
  but the superuser gets the number 500 from \<open>dav_repos_is_allow\<close>, which is not 0 and so means
  allowed, whatever the entries say.\<close>

theorem is_allow_fails_open:
  assumes "fault s = True # bs" and "c_namespaces c (fst priv) = Some ns"
    and "dav_repos_get_principal_id prin \<noteq> SUPER_USER_ID"
  shows "fst (dav_repos_is_allow priv prin others r None c s) = HTTP_INTERNAL_SERVER_ERROR
    \<and> fst (dav_repos_is_allow priv prin others r None c s) \<noteq> 0"
  using assms
  by (simp add: dav_repos_is_allow_def sabridge_get_namespace_id_def dbms_is_allow_def Let_def
      run_stmt_def next_fault_def)

theorem is_allow_fails_open_witness:
  "fst (dav_repos_is_allow (''DAV:'', ''write'') (PRINCIPAL_HREF 12) [] 9 None
     \<lparr>c_namespaces = [''DAV:'' \<mapsto> 1], c_privileges = Map.empty\<rparr> (sample_acl\<lparr>fault := [True]\<rparr>)) \<noteq> 0
   \<and> fst (dav_repos_is_allow (''DAV:'', ''write'') (PRINCIPAL_HREF 12) [] 9 None
     \<lparr>c_namespaces = [''DAV:'' \<mapsto> 1], c_privileges = Map.empty\<rparr> sample_acl) = 0"
proof -
  let ?c = "\<lparr>c_namespaces = [''DAV:'' \<mapsto> 1], c_privileges = Map.empty\<rparr> :: dav_repos_cache"
  have f: "fault (sample_acl\<lparr>fault := [True]\<rparr>) = True # []" by simp
  have n: "c_namespaces ?c (fst (''DAV:'', ''write'')) = Some 1" by simp
  have p: "dav_repos_get_principal_id (PRINCIPAL_HREF 12) \<noteq> SUPER_USER_ID" by (simp add: SUPER_USER_ID_def)
  have "fst (dav_repos_is_allow (''DAV:'', ''write'') (PRINCIPAL_HREF 12) [] 9 None ?c sample_acl) = 0" by code_simp
  with is_allow_fails_open [OF f n p, of "[]" 9] show ?thesis by simp
qed

text \<open>C27: \<open>sabridge_acl_check_preconditions\<close> answers OK exactly when no entry of the one list and entry of
  the other are a grant and a deny for the same principal name with a privilege name in
  common; otherwise it answers 409.\<close>

theorem acl_preconditions_exact:
  "sabridge_acl_check_preconditions prin_name acl dest =
     (if \<exists>i \<in> set acl. \<exists>j \<in> set dest. is_deny i \<noteq> is_deny j \<and> prin_name (ace_principal i) = prin_name (ace_principal j)
          \<and> snd ` set (ace_privileges i) \<inter> snd ` set (ace_privileges j) \<noteq> {}
      then HTTP_CONFLICT else OK)"
proof -
  have ov: "overlaps_any v q \<longleftrightarrow> snd v \<in> snd ` set q" for v q by (induction q) auto
  have ol: "sabridge_check_privileges_overlap p q \<longleftrightarrow> snd ` set p \<inter> snd ` set q \<noteq> {}" for p q
    by (induction p) (auto simp: ov)
  define bad where "bad i j \<longleftrightarrow> is_deny i \<noteq> is_deny j \<and> prin_name (ace_principal i) = prin_name (ace_principal j)
      \<and> snd ` set (ace_privileges i) \<inter> snd ` set (ace_privileges j) \<noteq> {}" for i j :: dav_ace
  have cond: "(\<not> (is_deny i \<and> is_deny j) \<and> (is_deny i \<or> is_deny j)
      \<and> prin_name (ace_principal i) = prin_name (ace_principal j)
      \<and> sabridge_check_privileges_overlap (ace_privileges i) (ace_privileges j)) = bad i j" for i j
    unfolding bad_def ol by blast
  have one: "check_against prin_name i js ret = (if \<exists>j \<in> set js. bad i j then HTTP_CONFLICT else ret)" for i js ret
    by (induction js arbitrary: ret) (simp_all only: check_against.simps cond, auto)
  have "check_loop prin_name is dest ret = (if \<exists>i \<in> set is. \<exists>j \<in> set dest. bad i j then HTTP_CONFLICT else ret)" for "is" ret
    by (induction "is" arbitrary: ret) (auto simp: one)
  then show ?thesis by (simp add: sabridge_acl_check_preconditions_def bad_def)
qed


definition deny_read :: dav_ace where
  "deny_read = \<lparr>ace_principal = PRINCIPAL_HREF 12, ace_property = None, ace_privileges = [(''DAV:'', ''read'')],
     is_deny = True, is_protected = False, ace_inherited = None\<rparr>"


end
