(* ===== verification/Resources.thy ===== *)
theory Resources
  imports Binds Dbd
begin

text \<open>
  The rows that describe a resource: \<^verbatim>\<open>dbms.c\<close> (resources, media, collections, dead
  properties), \<^verbatim>\<open>dbms_quota.c\<close> with the check before a commit of \<^verbatim>\<open>dbms_transaction.c\<close>, and
  \<^verbatim>\<open>dbms_redirect.c\<close>. The database charges the owner of a resource for the bytes of its
  body and of the values of its dead properties by rules on the tables \<open>media\<close> and
  \<open>properties\<close> (\<^verbatim>\<open>create_postgres_full.sql\<close>, \<^verbatim>\<open>add_property_values_quota_rules.xml\<close>).

  The clock is a parameter: \<open>now\<close> is the string that \<open>time_apr_to_str\<close> makes of the current
  time.
\<close>

section \<open>The resource in memory\<close>

text \<open>\<open>struct dav_repos_property\<close> and the fields of \<open>struct dav_repos_resource\<close> that the
  modelled code reads or writes. A pointer that may be \<open>NULL\<close> is an option. \<open>dr_resource\<close> is the
  structure of the HTTP server's WebDAV module that points back to this one, if any, with the fields
  that the code sets; \<open>dr_bind\<close> is the pointer \<open>bind\<close> to an earlier element of a listing with the same
  resource, given by the URI of that element.\<close>

datatype dav_resource_type = DAV_RESOURCE_TYPE_UNKNOWN | DAV_RESOURCE_TYPE_REGULAR | DAV_RESOURCE_TYPE_VERSION
  | DAV_RESOURCE_TYPE_HISTORY | DAV_RESOURCE_TYPE_PRINCIPAL | DAV_RESOURCE_TYPE_REDIRECTREF

record dav_resource =
  rs_type :: dav_resource_type
  rs_exists :: bool
  rs_collection :: bool
  rs_versioned :: bool
  rs_working :: bool
  rs_uri :: "string option"
  rs_uuid :: "string option"
  rs_pathname :: "string option"

definition zero_resource :: dav_resource where
  "zero_resource = \<lparr>rs_type = DAV_RESOURCE_TYPE_UNKNOWN, rs_exists = False, rs_collection = False, rs_versioned = False,
     rs_working = False, rs_uri = None, rs_uuid = None, rs_pathname = None\<rparr>"

record dav_repos_property =
  pr_serialno :: id
  pr_ns_id :: id
  pr_name :: string
  pr_xmlinfo :: string
  pr_value :: string
  pr_namespace_name :: string

datatype checked_state = DAV_RESOURCE_NOT_VERSIONED | DAV_RESOURCE_CHECKED_OUT | DAV_RESOURCE_CHECKED_IN

datatype redirect_lifetime = DAV_REDIRECTREF_NULL | DAV_REDIRECTREF_TEMPORARY | DAV_REDIRECTREF_PERMANENT

record dav_repos_resource =
  dr_resource :: "dav_resource option"
  dr_serialno :: id
  dr_root_path :: string
  dr_uri :: "string option"
  dr_bind_id :: id
  dr_created_at :: "datetime option"
  dr_updated_at :: "datetime option"
  dr_displayname :: "string option"
  dr_getcontentlanguage :: "string option"
  dr_getcontenttype :: "string option"
  dr_getcontentlength :: int
  dr_resourcetype :: nat
  dr_creator_id :: id
  dr_owner_id :: id
  dr_uuid :: "string option"
  dr_pr :: "dav_repos_property list"
  dr_ns_id_hash :: "string \<rightharpoonup> id"
  dr_creator_displayname :: "string option"
  dr_comment :: "string option"
  dr_root_version_id :: id
  dr_autoversion_type :: int
  dr_lastversion :: bool
  dr_checked_id :: id
  dr_checked_state :: checked_state
  dr_vr_num :: int
  dr_version :: int
  dr_vcr_id :: id
  dr_vhr_id :: id
  dr_checkin_on_unlock :: bool
  dr_sha1str :: "string option"
  dr_parent_id :: id
  dr_redirect_lifetime :: redirect_lifetime
  dr_reftarget :: "string option"
  dr_av_new_children :: int
  dr_limebar_state :: "string option"
  dr_bind :: "string option"

text \<open>A structure fresh from \<open>apr_pcalloc\<close>.\<close>

definition zero_dbr :: dav_repos_resource where
  "zero_dbr = \<lparr>dr_resource = None, dr_serialno = 0, dr_root_path = [], dr_uri = None, dr_bind_id = 0, dr_created_at = None,
     dr_updated_at = None, dr_displayname = None, dr_getcontentlanguage = None, dr_getcontenttype = None,
     dr_getcontentlength = 0, dr_resourcetype = 0, dr_creator_id = 0, dr_owner_id = 0, dr_uuid = None,
     dr_pr = [], dr_ns_id_hash = Map.empty, dr_creator_displayname = None, dr_comment = None,
     dr_root_version_id = 0, dr_autoversion_type = 0, dr_lastversion = False, dr_checked_id = 0,
     dr_checked_state = DAV_RESOURCE_NOT_VERSIONED, dr_vr_num = 0, dr_version = 0, dr_vcr_id = 0,
     dr_vhr_id = 0, dr_checkin_on_unlock = False, dr_sha1str = None, dr_parent_id = 0,
     dr_redirect_lifetime = DAV_REDIRECTREF_NULL, dr_reftarget = None, dr_av_new_children = 0,
     dr_limebar_state = None, dr_bind = None\<rparr>"

abbreviation has_body :: "nat \<Rightarrow> bool" where
  "has_body t \<equiv> t = dav_repos_RESOURCE \<or> t = dav_repos_VERSIONED \<or> t = dav_repos_VERSION"

text \<open>An entry of the array of type names as a parameter of a statement: entry 0 is \<open>NULL\<close>,
  which a later reader sees as no string.\<close>

definition type_param :: "nat \<Rightarrow> string" where
  "type_param t = (if valid_type t then type_name t else [])"

text \<open>\<open>sabridge_new_dbr_from_dbr\<close> on an unset target: without a \<open>resource\<close> to take the request from,
  the target stays \<open>NULL\<close>, here \<open>None\<close>.\<close>

definition sabridge_new_dbr_from_dbr :: "dav_repos_resource \<Rightarrow> dav_repos_resource option" where
  "sabridge_new_dbr_from_dbr r =
     (if dr_resource r = None then None
      else Some (zero_dbr\<lparr>dr_resource := Some zero_resource, dr_root_path := dr_root_path r\<rparr>))"

text \<open>A column that may be \<open>NULL\<close>, as \<open>dbms_get_string\<close> returns it.\<close>

definition column :: "string option \<Rightarrow> string" where
  "column x = (case x of None \<Rightarrow> [] | Some v \<Rightarrow> v)"

definition quoted :: "string \<Rightarrow> string" where
  "quoted x = [CHR 0x27] @ x @ [CHR 0x27]"

section \<open>Quota rules\<close>

definition find_resource :: "id \<Rightarrow> db \<Rightarrow> resource_row option" where
  "find_resource i s = find (\<lambda>r. r_id r = i) (resources s)"

text \<open>
  \<open>UPDATE quota SET used_quota = used_quota + n WHERE principal_id = (the owner of res)\<close>; the
  column has the check \<open>used_quota >= 0\<close>.
\<close>

definition charge :: "id \<Rightarrow> int \<Rightarrow> db \<Rightarrow> db option" where
  "charge res n s =
     (case find_resource res s of
        None \<Rightarrow> Some s
      | Some r \<Rightarrow>
          if list_ex (\<lambda>(p, used, limit). p = r_owner_id r \<and> used + n < 0) (quota s) then None
          else Some (s\<lparr>quota := map (\<lambda>(p, used, limit).
                 if p = r_owner_id r then (p, used + n, limit) else (p, used, limit)) (quota s)\<rparr>))"

text \<open>
  A rule on a statement that touches several rows is one \<open>UPDATE\<close> joined with those rows,
  and a row of \<open>quota\<close> that joins with several of them is updated once, with one of them.
  The server does not say which; the model takes the first.
\<close>

definition charge_once :: "id \<Rightarrow> int list \<Rightarrow> db \<Rightarrow> db option" where
  "charge_once res ns s = (case ns of [] \<Rightarrow> Some s | n # _ \<Rightarrow> charge res n s)"

section \<open>Resources, collections and media\<close>

definition dbms_get_resource :: "dav_repos_resource \<Rightarrow> db \<Rightarrow> dav_error option \<times> dav_repos_resource \<times> db" where
  "dbms_get_resource r s =
     (case run_select s of
        (True, s) \<Rightarrow> (Some (dav_new_error HTTP_INTERNAL_SERVER_ERROR ''dbms_execute error''), r, s)
      | (False, s) \<Rightarrow>
          (None,
           (case find_resource (dr_serialno r) s of
              None \<Rightarrow> r
            | Some w \<Rightarrow> r\<lparr>dr_resourcetype := dav_repos_get_type_id (r_type w),
                          dr_created_at := Some (r_created_at w),
                          dr_displayname := Some (column (r_displayname w)),
                          dr_getcontentlanguage := Some (r_contentlanguage w),
                          dr_owner_id := r_owner_id w,
                          dr_comment := Some (column (r_comment w)),
                          dr_creator_id := r_creator_id w,
                          dr_uuid := Some (take 32 (r_uuid w)),
                          dr_limebar_state := Some (column (r_limebar_state w))\<rparr>), s))"

text \<open>
  \<open>dbms_notify_resource_updated\<close>: the recursive query follows the bindings upwards and stops
  at the collections the system comes with.
\<close>

definition HOME_COLLECTION_ID :: id where "HOME_COLLECTION_ID = 8"

definition new_ancestors :: "bind_row list \<Rightarrow> id list \<Rightarrow> id list" where
  "new_ancestors bs ids =
     remdups (filter (\<lambda>c. HOME_COLLECTION_ID < c \<and> c \<notin> set ids)
       (map b_collection_id (filter (\<lambda>b. b_resource_id b \<in> set ids) bs)))"

lemma new_ancestors_measure:
  assumes "new_ancestors bs ids \<noteq> []"
  shows "card (b_collection_id ` set bs - set (ids @ new_ancestors bs ids)) < card (b_collection_id ` set bs - set ids)"
proof -
  obtain c where "c \<in> set (new_ancestors bs ids)" using assms by (cases "new_ancestors bs ids") auto
  then have "c \<in> b_collection_id ` set bs" "c \<notin> set ids" by (auto simp: new_ancestors_def)
  with \<open>c \<in> set (new_ancestors bs ids)\<close> show ?thesis by (intro psubset_card_mono) auto
qed

function ancestors :: "bind_row list \<Rightarrow> id list \<Rightarrow> id list" where
  "ancestors bs ids =
     (if new_ancestors bs ids = [] then ids else ancestors bs (ids @ new_ancestors bs ids))"
  by pat_completeness auto

termination
  by (relation "measure (\<lambda>(bs, ids). card (b_collection_id ` set bs - set ids))")
    (auto intro: new_ancestors_measure [simplified])

declare ancestors.simps [simp del]

definition touch :: "id list \<Rightarrow> datetime \<Rightarrow> db \<Rightarrow> db" where
  "touch ids t s = s\<lparr>resources := map (\<lambda>r. if r_id r \<in> set ids then r\<lparr>r_lastmodified := t\<rparr> else r) (resources s)\<rparr>"

definition dbms_notify_resource_updated :: "dav_repos_resource \<Rightarrow> db \<Rightarrow> dav_error option \<times> db" where
  "dbms_notify_resource_updated r =
     exec_or_500 ''DBMS error while updating lastmodified''
       (\<lambda>s. Some (touch (ancestors (binds s) [dr_serialno r]) (case dr_updated_at r of None \<Rightarrow> [] | Some t \<Rightarrow> t) s))"

text \<open>One row for \<open>media\<close>: the column \<open>sha1\<close> takes no \<open>NULL\<close>. The rule then charges its size.\<close>

definition insert_media_row :: "media_row \<Rightarrow> db \<Rightarrow> db option" where
  "insert_media_row m s =
     (if m_resource_id m \<in> resource_ids s
      then charge (m_resource_id m) (m_size m) (s\<lparr>media := media s @ [m]\<rparr>) else None)"

definition dbms_insert_media ::
  "datetime \<Rightarrow> dav_repos_resource \<Rightarrow> db \<Rightarrow> dav_error option \<times> dav_repos_resource \<times> db" where
  "dbms_insert_media now r s =
     (let r' = r\<lparr>dr_updated_at := Some now\<rparr>
      in case exec_or_500 (''DBMS error while inserting into '' @ quoted ''media'')
                (\<lambda>s. case dr_sha1str r of None \<Rightarrow> None
                   | Some h \<Rightarrow> insert_media_row \<lparr>m_resource_id = dr_serialno r, m_size = dr_getcontentlength r,
                       m_mimetype = (case dr_getcontenttype r of None \<Rightarrow> [] | Some t \<Rightarrow> t), m_sha1 = h,
                       m_updated_at = now\<rparr> s) s of
           (Some e, s) \<Rightarrow> (Some e, r', s)
         | (None, s) \<Rightarrow> (case dbms_notify_resource_updated r' s of (e, s) \<Rightarrow> (e, r', s)))"

definition dbms_get_media_props :: "dav_repos_resource \<Rightarrow> db \<Rightarrow> dav_error option \<times> dav_repos_resource \<times> db" where
  "dbms_get_media_props r s =
     (if has_body (dr_resourcetype r) then
        (case run_select s of
           (True, s) \<Rightarrow> (Some (dav_new_error HTTP_INTERNAL_SERVER_ERROR ''dbms_execute error''), r, s)
         | (False, s) \<Rightarrow>
             (None,
              (case find (\<lambda>m. m_resource_id m = dr_serialno r) (media s) of
                 None \<Rightarrow> r
               | Some m \<Rightarrow> r\<lparr>dr_getcontentlength := m_size m, dr_getcontenttype := Some (m_mimetype m),
                             dr_sha1str := Some (m_sha1 m)\<rparr>), s))
      else (None, r, s))"

definition dbms_get_collection_props :: "dav_repos_resource \<Rightarrow> db \<Rightarrow> dav_error option \<times> dav_repos_resource \<times> db" where
  "dbms_get_collection_props r s =
     (case run_select s of
        (True, s) \<Rightarrow> (Some (dav_new_error HTTP_INTERNAL_SERVER_ERROR ''dbms_execute error''), r, s)
      | (False, s) \<Rightarrow>
          (None,
           (case find (\<lambda>(i, av). i = dr_serialno r) (collections s) of
              None \<Rightarrow> r
            | Some (i, av) \<Rightarrow> r\<lparr>dr_av_new_children := av\<rparr>), s))"

definition dbms_set_collection_new_children_av_type :: "dav_repos_resource \<Rightarrow> db \<Rightarrow> dav_error option \<times> db" where
  "dbms_set_collection_new_children_av_type r =
     exec_or_500 ''dbms_execute error''
       (\<lambda>s. Some (s\<lparr>collections := map (\<lambda>(i, av).
          if i = dr_serialno r then (i, dr_av_new_children r) else (i, av)) (collections s)\<rparr>))"

text \<open>
  \<open>dbms_insert_resource\<close>: the new row, whose owner and creator are principals and whose
  columns \<open>uuid\<close> and \<open>created_at\<close> take no \<open>NULL\<close>.
\<close>

definition new_resource_row :: "datetime \<Rightarrow> dav_repos_resource \<Rightarrow> id \<Rightarrow> resource_row option" where
  "new_resource_row now r i =
     (case (dr_uuid r, dr_created_at r) of
        (Some u, Some c) \<Rightarrow>
          Some \<lparr>r_id = i, r_uuid = u, r_created_at = c, r_displayname = dr_displayname r,
            r_contentlanguage = (case dr_getcontentlanguage r of None \<Rightarrow> ''en-US'' | Some l \<Rightarrow> l),
            r_comment = None, r_type = type_param (dr_resourcetype r), r_owner_id = dr_owner_id r,
            r_creator_id = dr_creator_id r, r_limebar_state = dr_limebar_state r, r_lastmodified = now\<rparr>
      | _ \<Rightarrow> None)"

definition insert_resource_row :: "datetime \<Rightarrow> dav_repos_resource \<Rightarrow> db \<Rightarrow> db option" where
  "insert_resource_row now r s =
     (case new_resource_row now r (next_resource s) of
        None \<Rightarrow> None
      | Some w \<Rightarrow>
          if r_owner_id w \<in> principal_ids s \<and> r_creator_id w \<in> principal_ids s
          then Some (s\<lparr>resources := resources s @ [w], next_resource := next_resource s + 1\<rparr>) else None)"

definition dbms_insert_resource ::
  "datetime \<Rightarrow> dav_repos_resource \<Rightarrow> db \<Rightarrow> dav_error option \<times> dav_repos_resource \<times> db" where
  "dbms_insert_resource now r s =
     (case exec_or_500 (''DBMS error during insert to '' @ quoted ''resources'') (insert_resource_row now r) s of
        (Some e, s') \<Rightarrow> (Some e, r, s')
      | (None, s') \<Rightarrow> (None, r\<lparr>dr_serialno := next_resource s\<rparr>, s'))"

definition dbms_insert_collection :: "dav_repos_resource \<Rightarrow> db \<Rightarrow> dav_error option \<times> db" where
  "dbms_insert_collection r =
     exec_or_500 (''DBMS error during insert to '' @ quoted ''collections'')
       (\<lambda>s. if dr_serialno r \<in> resource_ids s \<and> dr_serialno r \<notin> fst ` set (collections s)
            then Some (s\<lparr>collections := collections s @ [(dr_serialno r, dr_av_new_children r)]\<rparr>) else None)"

definition update_resource :: "id \<Rightarrow> (resource_row \<Rightarrow> resource_row) \<Rightarrow> db \<Rightarrow> db" where
  "update_resource i f s = s\<lparr>resources := map (\<lambda>r. if r_id r = i then f r else r) (resources s)\<rparr>"

definition dbms_update_displayname :: "dav_repos_resource \<Rightarrow> db \<Rightarrow> dav_error option \<times> db" where
  "dbms_update_displayname r =
     exec_or_500 ''Couldn't set live props''
       (\<lambda>s. Some (update_resource (dr_serialno r) (\<lambda>w. w\<lparr>r_displayname := dr_displayname r\<rparr>) s))"

definition dbms_set_property :: "dav_repos_resource \<Rightarrow> db \<Rightarrow> dav_error option \<times> db" where
  "dbms_set_property r =
     exec_or_500 ''Couldn't set live props''
       (\<lambda>s. if dr_serialno r \<notin> resource_ids s then Some s
            else case (dr_created_at r, dr_uuid r) of
              (Some c, Some u) \<Rightarrow>
                if dr_owner_id r \<in> principal_ids s \<and> dr_creator_id r \<in> principal_ids s
                then Some (update_resource (dr_serialno r) (\<lambda>w. w\<lparr>r_created_at := c,
                       r_displayname := dr_displayname r, r_uuid := u,
                       r_contentlanguage := (case dr_getcontentlanguage r of None \<Rightarrow> ''en-US'' | Some l \<Rightarrow> l),
                       r_type := type_param (dr_resourcetype r), r_creator_id := dr_creator_id r,
                       r_owner_id := dr_owner_id r\<rparr>) s)
                else None
            | _ \<Rightarrow> None)"

definition dbms_set_limebar_state :: "dav_repos_resource \<Rightarrow> db \<Rightarrow> dav_error option \<times> db" where
  "dbms_set_limebar_state r =
     exec_or_500 ''Couldn't set limebar_state props''
       (\<lambda>s. Some (update_resource (dr_serialno r) (\<lambda>w. w\<lparr>r_limebar_state := dr_limebar_state r\<rparr>) s))"

definition update_media_rows :: "datetime \<Rightarrow> dav_repos_resource \<Rightarrow> db \<Rightarrow> db option" where
  "update_media_rows now r s =
     (case filter (\<lambda>m. m_resource_id m = dr_serialno r) (media s) of
        [] \<Rightarrow> Some s
      | ms \<Rightarrow>
          (case dr_sha1str r of
             None \<Rightarrow> None
           | Some h \<Rightarrow>
               map_option (\<lambda>s. s\<lparr>media := map (\<lambda>m. if m_resource_id m = dr_serialno r
                   then m\<lparr>m_size := dr_getcontentlength r,
                          m_mimetype := (case dr_getcontenttype r of None \<Rightarrow> [] | Some t \<Rightarrow> t),
                          m_sha1 := h, m_updated_at := now\<rparr>
                   else m) (media s)\<rparr>)
                 (charge_once (dr_serialno r) (map (\<lambda>m. dr_getcontentlength r - m_size m) ms) s)))"

definition dbms_update_media_props ::
  "datetime \<Rightarrow> dav_repos_resource \<Rightarrow> db \<Rightarrow> dav_error option \<times> dav_repos_resource \<times> db" where
  "dbms_update_media_props now r s =
     (let r' = r\<lparr>dr_updated_at := Some now\<rparr>
      in case exec_or_500 ''Couldn't update media entry'' (update_media_rows now r) s of
           (Some e, s) \<Rightarrow> (Some e, r', s)
         | (None, s) \<Rightarrow> (case dbms_notify_resource_updated r' s of (e, s) \<Rightarrow> (e, r', s)))"

definition dbms_update_resource_type ::
  "dav_repos_resource \<Rightarrow> nat \<Rightarrow> db \<Rightarrow> dav_error option \<times> dav_repos_resource \<times> db" where
  "dbms_update_resource_type r t s =
     (case exec_or_500 ''DBMS Error''
             (\<lambda>s. Some (update_resource (dr_serialno r) (\<lambda>w. w\<lparr>r_type := type_param t\<rparr>) s)) s of
        (Some e, s) \<Rightarrow> (Some e, r, s)
      | (None, s) \<Rightarrow> (None, r\<lparr>dr_resourcetype := t\<rparr>, s))"

text \<open>
  \<open>dbms_delete_resource\<close>. The sub-select of the size yields \<open>NULL\<close> without a media row,
  which the column refuses when there is a row of \<open>quota\<close> to update, and is an error with
  several media rows.
\<close>

definition release_quota :: "id \<Rightarrow> db \<Rightarrow> db option" where
  "release_quota i s =
     (case filter (\<lambda>m. m_resource_id m = i) (media s) of
        [m] \<Rightarrow> charge i (- m_size m) s
      | [] \<Rightarrow> (case find_resource i s of
                None \<Rightarrow> Some s
              | Some r \<Rightarrow> if r_owner_id r \<in> fst ` set (quota s) then None else Some s)
      | _ \<Rightarrow> None)"

definition dbms_delete_resource :: "dav_repos_resource \<Rightarrow> db \<Rightarrow> dav_error option \<times> db" where
  "dbms_delete_resource r s =
     (case (if has_body (dr_resourcetype r)
            then exec_or_500 ''DBMS error in deleting resource'' (release_quota (dr_serialno r)) s
            else (None, s)) of
        (Some e, s) \<Rightarrow> (Some e, s)
      | (None, s) \<Rightarrow> exec_or_500 ''DBMS error in deleting resource'' (delete_resources (\<lambda>i. i = dr_serialno r)) s)"

definition dbms_copy_media_props ::
  "datetime \<Rightarrow> dav_repos_resource \<Rightarrow> dav_repos_resource \<Rightarrow> db \<Rightarrow> dav_error option \<times> dav_repos_resource \<times> db" where
  "dbms_copy_media_props now src dest s =
     (let d = dr_serialno dest;
          s = snd (run_stmt (\<lambda>s. map_option (\<lambda>s. s\<lparr>media := filter (\<lambda>m. m_resource_id m \<noteq> d) (media s)\<rparr>)
                (charge_once d (map (\<lambda>m. - m_size m) (filter (\<lambda>m. m_resource_id m = d) (media s))) s)) s);
          dest = dest\<lparr>dr_updated_at := Some now\<rparr>
      in case exec_or_500 (''DBMS Error in copying '' @ quoted ''media'')
                (\<lambda>s. let ms = filter (\<lambda>m. m_resource_id m = dr_serialno src) (media s)
                   in if ms = [] then Some s
                      else if d \<notin> resource_ids s then None
                      else charge_once d (map m_size ms)
                        (s\<lparr>media := media s @ map (\<lambda>m. m\<lparr>m_resource_id := d, m_updated_at := now\<rparr>) ms\<rparr>)) s of
           (Some e, s) \<Rightarrow> (Some e, dest, s)
         | (None, s) \<Rightarrow>
             (let dest = dest\<lparr>dr_getcontentlength := dr_getcontentlength src,
                              dr_getcontenttype := dr_getcontenttype src, dr_sha1str := dr_sha1str src\<rparr>
              in case dbms_notify_resource_updated dest s of (e, s) \<Rightarrow> (e, dest, s)))"

text \<open>The result -1 of \<open>dbms_num_sha1_resources\<close> is a failed query.\<close>

definition dbms_num_sha1_resources :: "string \<Rightarrow> db \<Rightarrow> int \<times> db" where
  "dbms_num_sha1_resources sha1str s =
     (case run_select s of
        (True, s) \<Rightarrow> (- 1, s)
      | (False, s) \<Rightarrow> (int (length (filter (\<lambda>m. m_sha1 m = sha1str) (media s))), s))"

definition dbms_get_ns_name :: "id \<Rightarrow> db \<Rightarrow> string option \<times> db" where
  "dbms_get_ns_name ns_id s =
     (if ns_id < 1 then (None, s)
      else case run_select s of
        (True, s) \<Rightarrow> (None, s)
      | (False, s) \<Rightarrow> (map_option snd (find (\<lambda>(i, n). i = ns_id) (namespaces s)), s))"

section \<open>Dead properties\<close>

definition prop_key :: "property_row \<Rightarrow> id \<times> id \<times> string" where
  "prop_key p = (p_resource_id p, p_namespace_id p, p_name p)"

text \<open>One row for \<open>properties\<close>: the unique key, the foreign keys, the width of the name; the
  rule charges the length of the value.\<close>

definition insert_property_row :: "id \<Rightarrow> dav_repos_property \<Rightarrow> db \<Rightarrow> db option" where
  "insert_property_row i pr s =
     (if i \<in> resource_ids s \<and> pr_ns_id pr \<in> fst ` set (namespaces s) \<and> length (pr_name pr) \<le> 4096
         \<and> list_all (\<lambda>p. prop_key p \<noteq> (i, pr_ns_id pr, pr_name pr)) (properties s)
      then charge i (int (length (pr_value pr)))
        (s\<lparr>properties := properties s @ [\<lparr>p_id = next_property s, p_namespace_id = pr_ns_id pr, p_name = pr_name pr,
             p_resource_id = i, p_xmlinfo = pr_xmlinfo pr, p_value = pr_value pr\<rparr>],
           next_property := next_property s + 1\<rparr>)
      else None)"

definition db_insert_property :: "dav_repos_resource \<Rightarrow> dav_repos_property \<Rightarrow> db \<Rightarrow> dav_error option \<times> db" where
  "db_insert_property r pr =
     exec_or_500 ''Could not insert dead prop'' (insert_property_row (dr_serialno r) pr)"

definition update_property_rows :: "id \<Rightarrow> dav_repos_property \<Rightarrow> db \<Rightarrow> db option" where
  "update_property_rows i pr s =
     (let hit = (\<lambda>p. prop_key p = (i, pr_ns_id pr, pr_name pr))
      in map_option (\<lambda>s. s\<lparr>properties := map (\<lambda>p. if hit p
             then p\<lparr>p_xmlinfo := pr_xmlinfo pr, p_value := pr_value pr\<rparr> else p) (properties s)\<rparr>)
           (charge_once i (map (\<lambda>p. int (length (pr_value pr)) - int (length (p_value p))) (filter hit (properties s))) s))"

definition dbms_set_dead_property :: "dav_repos_resource \<Rightarrow> dav_repos_property \<Rightarrow> db \<Rightarrow> dav_error option \<times> db" where
  "dbms_set_dead_property r pr s =
     (case run_select s of
        (True, s) \<Rightarrow> (Some (dav_new_error HTTP_INTERNAL_SERVER_ERROR ''dbms_execute error''), s)
      | (False, s) \<Rightarrow>
          if list_all (\<lambda>p. prop_key p \<noteq> (dr_serialno r, pr_ns_id pr, pr_name pr)) (properties s)
          then db_insert_property r pr s
          else exec_or_500 ''dbms_execute error'' (update_property_rows (dr_serialno r) pr) s)"

text \<open>
  \<open>dbms_fill_dead_property\<close>: the join with the namespaces, ordered by the name. Nothing is
  read when the list is already there.
\<close>

definition property_of :: "db \<Rightarrow> property_row \<Rightarrow> dav_repos_property list" where
  "property_of s p =
     map (\<lambda>(i, n). \<lparr>pr_serialno = p_resource_id p, pr_ns_id = p_namespace_id p, pr_name = p_name p,
            pr_xmlinfo = p_xmlinfo p, pr_value = p_value p, pr_namespace_name = n\<rparr>)
       (filter (\<lambda>(i, n). i = p_namespace_id p) (namespaces s))"

definition by_name :: "property_row list \<Rightarrow> property_row list" where
  "by_name ps = sort_key (\<lambda>p. map (of_char :: char \<Rightarrow> nat) (p_name p)) ps"

definition dbms_fill_dead_property :: "dav_repos_resource \<Rightarrow> db \<Rightarrow> dav_error option \<times> dav_repos_resource \<times> db" where
  "dbms_fill_dead_property r s =
     (if dr_pr r \<noteq> [] then (None, r, s)
      else case run_select s of
        (True, s) \<Rightarrow> (Some (dav_new_error HTTP_INTERNAL_SERVER_ERROR ''dbms_execute error''), r, s)
      | (False, s) \<Rightarrow>
          (let ps = concat (map (property_of s)
                 (by_name (filter (\<lambda>p. p_resource_id p = dr_serialno r) (properties s))))
           in (None, r\<lparr>dr_pr := ps,
                 dr_ns_id_hash := dr_ns_id_hash r ++ map_of (rev (map (\<lambda>p. (pr_namespace_name p, pr_ns_id p)) ps))\<rparr>, s)))"

definition delete_properties :: "id \<Rightarrow> (property_row \<Rightarrow> bool) \<Rightarrow> db \<Rightarrow> db option" where
  "delete_properties i P s =
     map_option (\<lambda>s. s\<lparr>properties := filter (\<lambda>p. \<not> P p) (properties s)\<rparr>)
       (charge_once i (map (\<lambda>p. - int (length (p_value p))) (filter P (properties s))) s)"

definition dbms_delete_dead_props :: "id \<Rightarrow> db \<Rightarrow> dav_error option \<times> db" where
  "dbms_delete_dead_props res_id =
     exec_or_500 ''DBMS Error in deleting dead properties'' (delete_properties res_id (\<lambda>p. p_resource_id p = res_id))"

fun number_properties :: "id \<Rightarrow> id \<Rightarrow> property_row list \<Rightarrow> property_row list" where
  "number_properties i d [] = []"
| "number_properties i d (p # ps) = p\<lparr>p_id := i, p_resource_id := d\<rparr> # number_properties (i + 1) d ps"

definition copy_property_rows :: "id \<Rightarrow> id \<Rightarrow> db \<Rightarrow> db option" where
  "copy_property_rows src dest s =
     (let ps = filter (\<lambda>p. p_resource_id p = src) (properties s);
          new = number_properties (next_property s) dest ps
      in if ps = [] then Some s
         else if dest \<notin> resource_ids s \<or> list_ex (\<lambda>p. prop_key p \<in> prop_key ` set (properties s)) new then None
         else charge_once dest (map (\<lambda>p. int (length (p_value p))) ps)
           (s\<lparr>properties := properties s @ new, next_property := next_property s + int (length ps)\<rparr>))"

definition dbms_copy_dead_props :: "id \<Rightarrow> id \<Rightarrow> db \<Rightarrow> dav_error option \<times> db" where
  "dbms_copy_dead_props src_id dest_id =
     exec_or_500 ''DBMS Error in copying dead properties'' (copy_property_rows src_id dest_id)"

definition sabridge_copy_dead_props :: "id \<Rightarrow> id \<Rightarrow> db \<Rightarrow> dav_error option \<times> db" where
  "sabridge_copy_dead_props src_id dest_id s =
     (case dbms_delete_dead_props dest_id s of
        (Some e, s) \<Rightarrow> (Some e, s)
      | (None, s) \<Rightarrow> dbms_copy_dead_props src_id dest_id s)"

definition dbms_del_dead_property :: "dav_repos_resource \<Rightarrow> dav_repos_property \<Rightarrow> db \<Rightarrow> dav_error option \<times> db" where
  "dbms_del_dead_property r pr =
     exec_or_500 ''Error in the deleting dead prop''
       (delete_properties (dr_serialno r) (\<lambda>p. prop_key p = (dr_serialno r, pr_ns_id pr, pr_name pr)))"

section \<open>Quota\<close>

definition dbms_insert_quota :: "id \<Rightarrow> int \<Rightarrow> db \<Rightarrow> dav_error option \<times> db" where
  "dbms_insert_quota principal_id q =
     exec_or_500 (''DBMS error during insert to '' @ quoted ''quota'')
       (\<lambda>s. if principal_id \<in> principal_ids s \<and> principal_id \<notin> fst ` set (quota s)
            then Some (s\<lparr>quota := quota s @ [(principal_id, 0, q)]\<rparr>) else None)"

definition dbms_get_available_bytes :: "id \<Rightarrow> db \<Rightarrow> (dav_error option \<times> int) \<times> db" where
  "dbms_get_available_bytes owner_id s =
     (let err = Some (dav_new_error HTTP_INTERNAL_SERVER_ERROR ''DBMS error while fetching available bytes'')
      in case run_select s of
        (True, s) \<Rightarrow> ((err, 0), s)
      | (False, s) \<Rightarrow>
          (case find (\<lambda>(p, used, limit). p = owner_id) (quota s) of
             None \<Rightarrow> ((err, 0), s)
           | Some (p, used, limit) \<Rightarrow> ((None, limit - used), s)))"

definition dbms_quota_pre_commit_checks :: "db \<Rightarrow> dav_error option \<times> db" where
  "dbms_quota_pre_commit_checks s =
     (case run_select s of
        (True, s) \<Rightarrow> (Some (dav_new_error HTTP_INTERNAL_SERVER_ERROR ''dbms_execute error''), s)
      | (False, s) \<Rightarrow>
          (if list_ex (\<lambda>(p, used, limit). limit < used \<and> 0 < limit) (quota s)
           then Some (dav_new_error_tag HTTP_INSUFFICIENT_STORAGE
                  (Some ''Quota restrictions prevent this request from being completed.'') ''quota-not-exceeded'')
           else None, s))"

section \<open>Redirect references\<close>

definition lifetime_to_s :: "redirect_lifetime \<Rightarrow> string option" where
  "lifetime_to_s t =
     (case t of DAV_REDIRECTREF_TEMPORARY \<Rightarrow> Some ''t'' | DAV_REDIRECTREF_PERMANENT \<Rightarrow> Some ''p'' | _ \<Rightarrow> None)"

text \<open>The columns: \<open>reftarget\<close> takes no \<open>NULL\<close> and 255 characters; \<open>lifetime\<close> may be \<open>NULL\<close>.\<close>

definition dbms_insert_redirectref ::
  "datetime \<Rightarrow> dav_repos_resource \<Rightarrow> string option \<Rightarrow> redirect_lifetime \<Rightarrow> db \<Rightarrow> dav_error option \<times> db" where
  "dbms_insert_redirectref now r reftarget t =
     exec_or_500 (''DBMS error while inserting into '' @ quoted ''redirectrefs'')
       (\<lambda>s. case reftarget of None \<Rightarrow> None
          | Some rt \<Rightarrow>
              if dr_serialno r \<in> resource_ids s \<and> dr_serialno r \<notin> fst ` set (redirectrefs s) \<and> length rt \<le> 255
              then Some (s\<lparr>redirectrefs := redirectrefs s @
                     [(dr_serialno r, rt, case lifetime_to_s t of None \<Rightarrow> [] | Some l \<Rightarrow> l, now)]\<rparr>)
              else None)"

text \<open>
  \<open>dbms_update_redirectref\<close> writes the new target into the text of the statement, so that a
  question mark in it counts as a parameter: \<open>update_query\<close> builds the statement with the
  operations of theory \<open>Dbd\<close>. Without a target and a lifetime the statement has a
  \<open>NULL\<close> in the middle of the arguments of \<open>apr_pstrcat\<close>, which ends there: \<open>lifetime = '\<close>
  is no statement.
\<close>

definition redirect_template :: "(string \<Rightarrow> string) \<Rightarrow> string option \<Rightarrow> redirect_lifetime \<Rightarrow> string" where
  "redirect_template esc reftarget t =
     ''UPDATE redirectrefs SET '' @
     (case reftarget of
        Some rt \<Rightarrow> ''reftarget = '' @ quoted (esc rt) @
          (case lifetime_to_s t of None \<Rightarrow> [] | Some l \<Rightarrow> '', lifetime = '' @ quoted l)
      | None \<Rightarrow> (case lifetime_to_s t of None \<Rightarrow> ''lifetime = '' @ [CHR 0x27] | Some l \<Rightarrow> ''lifetime = '' @ quoted l)) @
     '', updated_at = ? WHERE resource_id = ?''"

definition update_query ::
  "(string \<Rightarrow> string) \<Rightarrow> datetime \<Rightarrow> dav_repos_resource \<Rightarrow> string option \<Rightarrow> redirect_lifetime \<Rightarrow> dav_repos_query" where
  "update_query esc now r reftarget t =
     snd (dbms_set_int (snd (dbms_set_string esc (dbms_prepare (redirect_template esc reftarget t)) 1 (Some now)))
       2 (dr_serialno r))"

definition update_redirect_rows ::
  "datetime \<Rightarrow> id \<Rightarrow> string option \<Rightarrow> redirect_lifetime \<Rightarrow> db \<Rightarrow> db option" where
  "update_redirect_rows now i reftarget t s =
     (if reftarget = None \<and> lifetime_to_s t = None \<or>
         (i \<in> fst ` set (redirectrefs s) \<and> (case reftarget of None \<Rightarrow> False | Some rt \<Rightarrow> 255 < length rt)) then None
      else Some (s\<lparr>redirectrefs := map (\<lambda>(j, rt, l, u).
             if j = i then (j, case reftarget of None \<Rightarrow> rt | Some x \<Rightarrow> x,
                            case lifetime_to_s t of None \<Rightarrow> l | Some x \<Rightarrow> x, now)
             else (j, rt, l, u)) (redirectrefs s)\<rparr>))"

definition dbms_update_redirectref ::
  "(string \<Rightarrow> string) \<Rightarrow> datetime \<Rightarrow> dav_repos_resource \<Rightarrow> string option \<Rightarrow> redirect_lifetime \<Rightarrow> db
    \<Rightarrow> dav_error option \<times> db" where
  "dbms_update_redirectref esc now r reftarget t s =
     (case assemble (update_query esc now r reftarget t) of
        Statement q \<Rightarrow>
          exec_or_500 (''DBMS error in while updating '' @ quoted ''redirectrefs'')
            (update_redirect_rows now (dr_serialno r) reftarget t) s
      | _ \<Rightarrow> (None, s))"

definition dbms_get_redirect_props :: "dav_repos_resource \<Rightarrow> db \<Rightarrow> dav_error option \<times> dav_repos_resource \<times> db" where
  "dbms_get_redirect_props r s =
     (let err = Some (dav_new_error HTTP_INTERNAL_SERVER_ERROR ''DBMS error in reftargets lookup.'')
      in if dr_redirect_lifetime r \<noteq> DAV_REDIRECTREF_NULL \<and> dr_reftarget r \<noteq> None then (None, r, s)
         else case run_select s of
           (True, s) \<Rightarrow> (err, r, s)
         | (False, s) \<Rightarrow>
             (case find (\<lambda>(i, d). i = dr_serialno r) (redirectrefs s) of
                None \<Rightarrow> (err, r, s)
              | Some (i, rt, l, u) \<Rightarrow>
                  (None, r\<lparr>dr_redirect_lifetime := (if l = ''p'' then DAV_REDIRECTREF_PERMANENT
                                                     else DAV_REDIRECTREF_TEMPORARY),
                           dr_reftarget := Some rt\<rparr>, s)))"

end
