(* ===== verification/ResourceFacts.thy ===== *)
theory ResourceFacts
  imports Resources
begin

text \<open>
  Lemmas and properties of theory \<open>Resources\<close>: which resources a change of a body touches,
  that the rules keep the quota of every owner exact, the table of dead properties as a map,
  and the redirect references.
\<close>

section \<open>Ancestors\<close>

definition up :: "bind_row list \<Rightarrow> (id \<times> id) set" where
  "up bs = {(b_resource_id b, b_collection_id b) | b. b \<in> set bs \<and> HOME_COLLECTION_ID < b_collection_id b}"

lemma new_ancestors_set: "set (new_ancestors bs ids) = up bs `` set ids - set ids"
  by (auto simp: new_ancestors_def up_def)

lemma ancestors_set: "set (ancestors bs ids) = (up bs)\<^sup>* `` set ids"
proof (induction bs ids rule: ancestors.induct)
  case (1 bs ids)
  show ?case
  proof (cases "new_ancestors bs ids = []")
    case True
    then have "up bs `` set ids \<subseteq> set ids" using new_ancestors_set [of bs ids] by auto
    then have "(up bs)\<^sup>* `` set ids = set ids" by (rule Image_closed_trancl)
    with True show ?thesis by (simp add: ancestors.simps [of bs ids])
  next
    case False
    have "(up bs)\<^sup>* `` set (ids @ new_ancestors bs ids) = (up bs)\<^sup>* `` set ids"
      using new_ancestors_set [of bs ids] by (auto intro: converse_rtrancl_into_rtrancl)
    with False 1 show ?thesis by (simp add: ancestors.simps [of bs ids])
  qed
qed

section \<open>Bytes per owner\<close>

definition media_bytes :: "db \<Rightarrow> id \<Rightarrow> int" where
  "media_bytes s i = sum_list (map (\<lambda>m. if m_resource_id m = i then m_size m else 0) (media s))"

definition prop_bytes :: "db \<Rightarrow> id \<Rightarrow> int" where
  "prop_bytes s i = sum_list (map (\<lambda>p. if p_resource_id p = i then int (length (p_value p)) else 0) (properties s))"

definition bytes_of :: "db \<Rightarrow> id \<Rightarrow> int" where
  "bytes_of s i = media_bytes s i + prop_bytes s i"

definition owners :: "db \<Rightarrow> (id \<times> id) list" where
  "owners s = map (\<lambda>r. (r_id r, r_owner_id r)) (resources s)"

definition used_by :: "db \<Rightarrow> id \<Rightarrow> int" where
  "used_by s p = sum_list (map (\<lambda>(i, ow). if ow = p then bytes_of s i else 0) (owners s))"

text \<open>The quota is exact: what is charged to a principal are the bytes of the resources it owns.\<close>

definition quota_exact :: "db \<Rightarrow> bool" where
  "quota_exact s \<longleftrightarrow> list_all (\<lambda>(p, used, limit). used = used_by s p) (quota s)"

definition resources_inv :: "db \<Rightarrow> bool" where
  "resources_inv s \<longleftrightarrow> distinct (map r_id (resources s)) \<and> distinct (map m_resource_id (media s))
     \<and> distinct (map prop_key (properties s))"

lemma sum_list_filter_split:
  "sum_list (map f xs) = sum_list (map f (filter P xs)) + (sum_list (map f (filter (\<lambda>x. \<not> P x) xs)) :: int)"
  by (induction xs) auto

lemma sum_list_shift:
  "distinct (map fst xs) \<Longrightarrow>
   sum_list (map (\<lambda>(i, ow). if ow = p then f i + (if i = j then n else 0) else 0) xs)
   = sum_list (map (\<lambda>(i, ow). if ow = p then f i else 0) xs) + (if map_of xs j = Some p then n else (0::int))"
proof (induction xs)
  case (Cons x xs)
  obtain i ow where x: "x = (i, ow)" by (cases x)
  from Cons.prems x have "map_of xs i = None" by (auto simp: map_of_eq_None_iff)
  with Cons x show ?case by auto
qed simp

lemma find_resource_owner: "map_option r_owner_id (find_resource i s) = map_of (owners s) i"
proof -
  have "map_option r_owner_id (find (\<lambda>r. r_id r = i) rs) = map_of (map (\<lambda>r. (r_id r, r_owner_id r)) rs) i" for rs
    by (induction rs) auto
  then show ?thesis by (simp add: find_resource_def owners_def)
qed

lemma charge_cases:
  assumes "charge i n s = Some s'"
  obtains q where "s' = s\<lparr>quota := q\<rparr>"
    "q = map (\<lambda>(p, u, l). (p, if map_of (owners s) i = Some p then u + n else u, l)) (quota s)"
proof (cases "find_resource i s")
  case None
  then have "map_of (owners s) i = None" using find_resource_owner [of i s] by simp
  then show ?thesis using that [of "quota s"] None assms by (simp add: charge_def)
next
  case (Some r)
  then have o: "map_of (owners s) i = Some (r_owner_id r)" using find_resource_owner [of i s] by simp
  show ?thesis
    using that assms Some
    by (auto simp: charge_def o split: if_splits intro!: that)
qed

lemma charge_select:
  assumes "charge i n s = Some s'"
  shows "media s' = media s" "properties s' = properties s" "resources s' = resources s" "binds s' = binds s"
    "fault s' = fault s" "namespaces s' = namespaces s" "principals s' = principals s"
    "map fst (quota s') = map fst (quota s)"
proof -
  from assms obtain q where s': "s' = s\<lparr>quota := q\<rparr>"
    and q: "q = map (\<lambda>(p, u, l). (p, if map_of (owners s) i = Some p then u + n else u, l)) (quota s)"
    by (rule charge_cases)
  show "media s' = media s" "properties s' = properties s" "resources s' = resources s" "binds s' = binds s"
    "fault s' = fault s" "namespaces s' = namespaces s" "principals s' = principals s"
    by (simp_all add: s')
  have "map fst q = map fst (quota s)" by (simp add: q split_def)
  then show "map fst (quota s') = map fst (quota s)" by (simp add: s')
qed

lemma charge_frame:
  assumes "charge i n s = Some s1"
  shows "charge i n (s\<lparr>media := m\<rparr>) = Some (s1\<lparr>media := m\<rparr>)"
    and "charge i n (s\<lparr>properties := ps\<rparr>) = Some (s1\<lparr>properties := ps\<rparr>)"
proof -
  have 1: "s\<lparr>quota := q, media := m\<rparr> = s\<lparr>media := m, quota := q\<rparr>" for q by (rule db.equality) simp_all
  have 2: "s\<lparr>quota := q, properties := ps\<rparr> = s\<lparr>properties := ps, quota := q\<rparr>" for q by (rule db.equality) simp_all
  show "charge i n (s\<lparr>media := m\<rparr>) = Some (s1\<lparr>media := m\<rparr>)"
    using assms by (auto simp: charge_def find_resource_def 1 split: option.splits if_splits)
  show "charge i n (s\<lparr>properties := ps\<rparr>) = Some (s1\<lparr>properties := ps\<rparr>)"
    using assms by (auto simp: charge_def find_resource_def 2 split: option.splits if_splits)
qed

text \<open>The rules keep the quota exact when the charge is the change in the bytes of the resource.\<close>

lemma quota_exact_charge:
  assumes ch: "charge i n t = Some s'" and ex: "quota_exact s" and inv: "distinct (map fst (owners s))"
    and same: "owners t = owners s" "quota t = quota s"
    and bytes: "\<And>j. bytes_of t j = bytes_of s j + (if j = i then n else 0)"
  shows "quota_exact s'"
proof -
  obtain q where q: "s' = t\<lparr>quota := q\<rparr>"
    "q = map (\<lambda>(p, u, l). (p, if map_of (owners t) i = Some p then u + n else u, l)) (quota t)"
    using charge_cases [OF ch] by blast
  have b: "bytes_of s' j = bytes_of s j + (if j = i then n else 0)" for j
    using bytes [of j] by (simp add: q(1) bytes_of_def media_bytes_def prop_bytes_def)
  have o: "owners s' = owners s" using same(1) by (simp add: q(1) owners_def)
  have "used_by s' p = used_by s p + (if map_of (owners s) i = Some p then n else 0)" for p
    unfolding used_by_def o b by (rule sum_list_shift [OF inv])
  then show ?thesis
    using ex same by (auto simp: quota_exact_def q list_all_iff)
qed

lemma quota_exact_cong:
  assumes "owners s' = owners s" "quota s' = quota s" "media s' = media s" "properties s' = properties s"
  shows "quota_exact s' = quota_exact s"
proof -
  have "bytes_of s' = bytes_of s" using assms by (intro ext) (simp add: bytes_of_def media_bytes_def prop_bytes_def)
  then show ?thesis using assms by (simp add: quota_exact_def used_by_def cong: if_cong)
qed

lemma quota_exact_tables: "tables_eq t s \<Longrightarrow> quota_exact t = quota_exact s"
  by (rule quota_exact_cong) (simp_all add: owners_def tables_eqD)

lemma resources_inv_tables: "tables_eq t s \<Longrightarrow> resources_inv t = resources_inv s"
  by (simp add: resources_inv_def tables_eqD)

lemma owners_distinct: "resources_inv s \<Longrightarrow> distinct (map fst (owners s))"
  by (simp add: resources_inv_def owners_def comp_def)

text \<open>Each statement with a rule, on its own.\<close>

lemma insert_media_exact:
  assumes "insert_media_row m s = Some s'" "quota_exact s" "resources_inv s"
  shows "quota_exact s'"
proof -
  have ch: "charge (m_resource_id m) (m_size m) (s\<lparr>media := media s @ [m]\<rparr>) = Some s'"
    using assms(1) by (simp add: insert_media_row_def split: if_splits)
  show ?thesis
    by (rule quota_exact_charge [OF ch assms(2) owners_distinct [OF assms(3)]])
      (simp_all add: owners_def bytes_of_def media_bytes_def prop_bytes_def)
qed

lemma filter_unique:
  "distinct (map f xs) \<Longrightarrow> filter (\<lambda>x. f x = k) xs = [] \<or> (\<exists>x. filter (\<lambda>x. f x = k) xs = [x] \<and> x \<in> set xs \<and> f x = k)"
  by (induction xs) (auto simp: filter_empty_conv)

lemma sum_list_map_update:
  assumes "filter P xs = [x]"
  shows "sum_list (map f (map (\<lambda>y. if P y then g y else y) xs)) = sum_list (map f xs) + (f (g x) - f x :: int)"
  using assms
proof (induction xs)
  case (Cons y xs)
  show ?case
  proof (cases "P y")
    case True
    with Cons.prems have "y = x" "filter P xs = []" by auto
    then have "map (\<lambda>y. if P y then g y else y) xs = xs" by (intro map_idI) (auto simp: filter_empty_conv)
    with True \<open>y = x\<close> show ?thesis by simp
  next
    case False
    with Cons show ?thesis by simp
  qed
qed simp

lemma update_media_exact:
  assumes "update_media_rows now r s = Some s'" "quota_exact s" "resources_inv s"
  shows "quota_exact s'"
proof -
  let ?i = "dr_serialno r" and ?n = "dr_getcontentlength r"
  have "distinct (map m_resource_id (media s))" using assms(3) by (simp add: resources_inv_def)
  from filter_unique [OF this, of ?i] show ?thesis
  proof
    assume "filter (\<lambda>m. m_resource_id m = ?i) (media s) = []"
    with assms(1,2) show ?thesis by (simp add: update_media_rows_def)
  next
    assume "\<exists>m. filter (\<lambda>m. m_resource_id m = ?i) (media s) = [m] \<and> m \<in> set (media s) \<and> m_resource_id m = ?i"
    then obtain m where m: "filter (\<lambda>m. m_resource_id m = ?i) (media s) = [m]" "m_resource_id m = ?i" by blast
    define g where "g h = (\<lambda>m :: media_row. m\<lparr>m_size := ?n, m_mimetype := (case dr_getcontenttype r of None \<Rightarrow> [] | Some t \<Rightarrow> t),
                          m_sha1 := h, m_updated_at := now\<rparr>)" for h :: string
    from assms(1) m obtain h where sha: "dr_sha1str r = Some h"
      by (cases "dr_sha1str r") (simp_all add: update_media_rows_def)
    with assms(1) m obtain s1 where h: "charge ?i (?n - m_size m) s = Some s1"
      "s' = s1\<lparr>media := map (\<lambda>m. if m_resource_id m = ?i then g h m else m) (media s1)\<rparr>"
      by (auto simp: update_media_rows_def charge_once_def g_def)
    note same = charge_select(1) [OF h(1)]
    define t where "t = s\<lparr>media := map (\<lambda>m. if m_resource_id m = ?i then g h m else m) (media s)\<rparr>"
    have ch: "charge ?i (?n - m_size m) t = Some s'"
      using charge_frame(1) [OF h(1)] h(2) same by (simp add: t_def)
    show ?thesis
    proof (rule quota_exact_charge [OF ch assms(2) owners_distinct [OF assms(3)]])
      fix j
      have "media_bytes t j = media_bytes s j + ((if m_resource_id (g h m) = j then m_size (g h m) else 0)
          - (if m_resource_id m = j then m_size m else 0))"
        unfolding t_def media_bytes_def by (simp add: sum_list_map_update [OF m(1)] del: map_map)
      then show "bytes_of t j = bytes_of s j + (if j = ?i then ?n - m_size m else 0)"
        using m(2) by (simp add: bytes_of_def prop_bytes_def t_def g_def)
    qed (simp_all add: t_def owners_def)
  qed
qed

lemma insert_property_exact:
  assumes "insert_property_row i pr s = Some s'" "quota_exact s" "resources_inv s"
  shows "quota_exact s'"
proof -
  define row where "row = \<lparr>p_id = next_property s, p_namespace_id = pr_ns_id pr, p_name = pr_name pr,
             p_resource_id = i, p_xmlinfo = pr_xmlinfo pr, p_value = pr_value pr\<rparr>"
  define t where "t = s\<lparr>properties := properties s @ [row], next_property := next_property s + 1\<rparr>"
  have ch: "charge i (int (length (pr_value pr))) t = Some s'"
    using assms(1) by (simp add: insert_property_row_def t_def row_def split: if_splits)
  show ?thesis
    by (rule quota_exact_charge [OF ch assms(2) owners_distinct [OF assms(3)]])
      (simp_all add: t_def row_def owners_def bytes_of_def media_bytes_def prop_bytes_def)
qed

lemma update_property_exact:
  assumes "update_property_rows i pr s = Some s'" "quota_exact s" "resources_inv s"
  shows "quota_exact s'"
proof -
  let ?k = "(i, pr_ns_id pr, pr_name pr)" and ?g = "\<lambda>p :: property_row. p\<lparr>p_xmlinfo := pr_xmlinfo pr, p_value := pr_value pr\<rparr>"
  let ?ps = "map (\<lambda>p. if prop_key p = ?k then ?g p else p) (properties s)"
  have "distinct (map prop_key (properties s))" using assms(3) by (simp add: resources_inv_def)
  from filter_unique [OF this, of ?k] show ?thesis
  proof
    assume no: "filter (\<lambda>p. prop_key p = ?k) (properties s) = []"
    then have "?ps = properties s" by (intro map_idI) (auto simp: filter_empty_conv)
    then have "s' = s" using assms(1) no by (simp add: update_property_rows_def charge_once_def Let_def)
    with assms(2) show ?thesis by simp
  next
    assume "\<exists>p. filter (\<lambda>p. prop_key p = ?k) (properties s) = [p] \<and> p \<in> set (properties s) \<and> prop_key p = ?k"
    then obtain p where p: "filter (\<lambda>p. prop_key p = ?k) (properties s) = [p]" "prop_key p = ?k" by blast
    let ?d = "int (length (pr_value pr)) - int (length (p_value p))"
    from assms(1) p(1) obtain s1 where h: "charge i ?d s = Some s1"
      "s' = s1\<lparr>properties := map (\<lambda>p. if prop_key p = ?k then ?g p else p) (properties s1)\<rparr>"
      by (auto simp: update_property_rows_def charge_once_def Let_def)
    have ch: "charge i ?d (s\<lparr>properties := ?ps\<rparr>) = Some s'"
      using charge_frame(2) [OF h(1)] h(2) charge_select(2) [OF h(1)] by simp
    show ?thesis
    proof (rule quota_exact_charge [OF ch assms(2) owners_distinct [OF assms(3)]])
      fix j
      have "prop_bytes (s\<lparr>properties := ?ps\<rparr>) j = prop_bytes s j + ((if p_resource_id (?g p) = j then int (length (p_value (?g p))) else 0)
          - (if p_resource_id p = j then int (length (p_value p)) else 0))"
        unfolding prop_bytes_def by (simp add: sum_list_map_update [OF p(1)] del: map_map)
      then show "bytes_of (s\<lparr>properties := ?ps\<rparr>) j = bytes_of s j + (if j = i then ?d else 0)"
        using p(2) by (simp add: bytes_of_def media_bytes_def prop_key_def)
    qed (simp_all add: owners_def)
  qed
qed

lemma delete_property_exact:
  assumes "delete_properties i (\<lambda>p. prop_key p = (i, ns, n)) s = Some s'" "quota_exact s" "resources_inv s"
  shows "quota_exact s'"
proof -
  let ?k = "(i, ns, n)" and ?ps = "filter (\<lambda>p. prop_key p \<noteq> (i, ns, n)) (properties s)"
  have "distinct (map prop_key (properties s))" using assms(3) by (simp add: resources_inv_def)
  from filter_unique [OF this, of ?k] show ?thesis
  proof
    assume no: "filter (\<lambda>p. prop_key p = ?k) (properties s) = []"
    then have "?ps = properties s" by (auto simp: filter_empty_conv intro: filter_True)
    then have "s' = s" using assms(1) no by (simp add: delete_properties_def charge_once_def)
    with assms(2) show ?thesis by simp
  next
    assume "\<exists>p. filter (\<lambda>p. prop_key p = ?k) (properties s) = [p] \<and> p \<in> set (properties s) \<and> prop_key p = ?k"
    then obtain p where p: "filter (\<lambda>p. prop_key p = ?k) (properties s) = [p]" "prop_key p = ?k" by blast
    from assms(1) p(1) obtain s1 where h: "charge i (- int (length (p_value p))) s = Some s1"
      "s' = s1\<lparr>properties := filter (\<lambda>p. prop_key p \<noteq> ?k) (properties s1)\<rparr>"
      by (auto simp: delete_properties_def charge_once_def)
    have ch: "charge i (- int (length (p_value p))) (s\<lparr>properties := ?ps\<rparr>) = Some s'"
      using charge_frame(2) [OF h(1)] h(2) charge_select(2) [OF h(1)] by simp
    show ?thesis
    proof (rule quota_exact_charge [OF ch assms(2) owners_distinct [OF assms(3)]])
      fix j
      show "bytes_of (s\<lparr>properties := ?ps\<rparr>) j = bytes_of s j + (if j = i then - int (length (p_value p)) else 0)"
        using p sum_list_filter_split [of "\<lambda>p. if p_resource_id p = j then int (length (p_value p)) else 0"
            "properties s" "\<lambda>p. prop_key p = ?k"]
        by (simp add: bytes_of_def media_bytes_def prop_bytes_def prop_key_def)
    qed (simp_all add: owners_def)
  qed
qed

section \<open>The invariant of the accounts\<close>

definition account_inv :: "db \<Rightarrow> bool" where
  "account_inv s \<longleftrightarrow> quota_exact s \<and> resources_inv s"

lemma account_inv_tables: "tables_eq t s \<Longrightarrow> account_inv s \<Longrightarrow> account_inv t"
  by (simp add: account_inv_def quota_exact_tables resources_inv_tables)

lemma account_inv_touch: "account_inv s \<Longrightarrow> account_inv (touch ids t s)"
proof -
  have "map r_id (resources (touch ids t s)) = map r_id (resources s)"
    "map (\<lambda>r. (r_id r, r_owner_id r)) (resources (touch ids t s)) = map (\<lambda>r. (r_id r, r_owner_id r)) (resources s)"
    by (simp_all add: touch_def)
  moreover from this(2) have "quota_exact (touch ids t s) = quota_exact s"
    by (intro quota_exact_cong) (simp_all add: owners_def, simp_all add: touch_def)
  ultimately show "account_inv s \<Longrightarrow> account_inv (touch ids t s)"
    by (simp add: account_inv_def resources_inv_def) (simp add: touch_def)
qed

lemma account_inv_notify:
  "dbms_notify_resource_updated r s = (e, s') \<Longrightarrow> account_inv s \<Longrightarrow> account_inv s'"
  unfolding dbms_notify_resource_updated_def
  by (erule exec_or_500_inv [where I = account_inv]) (auto intro: account_inv_tables account_inv_touch)

lemma charge_resources_inv: "charge i n s = Some s' \<Longrightarrow> resources_inv s' = resources_inv s"
  by (simp add: resources_inv_def charge_select)

lemma insert_property_inv:
  assumes "account_inv s" "insert_property_row i pr s = Some s'"
  shows "account_inv s'"
proof -
  define row where "row = \<lparr>p_id = next_property s, p_namespace_id = pr_ns_id pr, p_name = pr_name pr,
             p_resource_id = i, p_xmlinfo = pr_xmlinfo pr, p_value = pr_value pr\<rparr>"
  define t where "t = s\<lparr>properties := properties s @ [row], next_property := next_property s + 1\<rparr>"
  have ch: "charge i (int (length (pr_value pr))) t = Some s'"
    and fresh: "prop_key row \<notin> prop_key ` set (properties s)"
    using assms(2) by (auto simp: insert_property_row_def t_def row_def prop_key_def list_all_iff split: if_splits)
  have "resources_inv t" using assms(1) fresh by (simp add: account_inv_def resources_inv_def t_def)
  then have "resources_inv s'" using charge_resources_inv [OF ch] by simp
  with assms show ?thesis by (simp add: account_inv_def insert_property_exact)
qed

lemma update_property_inv:
  assumes "account_inv s" "update_property_rows i pr s = Some s'"
  shows "account_inv s'"
proof -
  let ?g = "\<lambda>p. if prop_key p = (i, pr_ns_id pr, pr_name pr) then p\<lparr>p_xmlinfo := pr_xmlinfo pr, p_value := pr_value pr\<rparr> else p"
  have "map prop_key (map ?g ps) = map prop_key ps" for ps by (simp add: prop_key_def)
  then have "resources_inv s'"
    using assms
    by (auto simp: update_property_rows_def charge_once_def account_inv_def resources_inv_def charge_select Let_def
        simp del: map_map split: list.splits)
  with assms show ?thesis by (simp add: account_inv_def update_property_exact)
qed

lemma delete_property_inv:
  assumes "account_inv s" "delete_properties i (\<lambda>p. prop_key p = (i, ns, n)) s = Some s'"
  shows "account_inv s'"
proof -
  have "resources_inv s'"
    using assms
    by (auto simp: delete_properties_def charge_once_def account_inv_def resources_inv_def charge_select
        distinct_map_filter split: list.splits)
  with assms show ?thesis by (simp add: account_inv_def delete_property_exact)
qed

lemma insert_media_inv:
  assumes "account_inv s" "m_resource_id m \<notin> m_resource_id ` set (media s)" "insert_media_row m s = Some s'"
  shows "account_inv s'"
proof -
  have ch: "charge (m_resource_id m) (m_size m) (s\<lparr>media := media s @ [m]\<rparr>) = Some s'"
    using assms(3) by (simp add: insert_media_row_def split: if_splits)
  have "resources_inv (s\<lparr>media := media s @ [m]\<rparr>)"
    using assms(1,2) by (simp add: account_inv_def resources_inv_def)
  then have "resources_inv s'" using charge_resources_inv [OF ch] by simp
  with assms show ?thesis by (simp add: account_inv_def insert_media_exact)
qed

lemma update_media_inv:
  assumes "account_inv s" "update_media_rows now r s = Some s'"
  shows "account_inv s'"
proof -
  let ?i = "dr_serialno r"
  have ids: "map m_resource_id (map (\<lambda>m. if m_resource_id m = ?i then m\<lparr>m_size := a, m_mimetype := b, m_sha1 := c,
      m_updated_at := d\<rparr> else m) ms) = map m_resource_id ms" for a b c d and ms :: "media_row list" by simp
  have "resources_inv s'"
  proof (cases "filter (\<lambda>m. m_resource_id m = ?i) (media s)")
    case Nil
    with assms show ?thesis by (simp add: update_media_rows_def account_inv_def)
  next
    case (Cons m ms)
    with assms(2) obtain h where "dr_sha1str r = Some h"
      by (cases "dr_sha1str r") (simp_all add: update_media_rows_def)
    with assms Cons ids show ?thesis
      by (auto simp: update_media_rows_def charge_once_def account_inv_def resources_inv_def charge_select simp del: map_map)
  qed
  with assms show ?thesis by (simp add: account_inv_def update_media_exact)
qed

text \<open>The operations on bodies and single properties, with any outcome. A resource gets a body
  once: \<open>dbms_insert_media\<close> is called for a new resource only.\<close>

inductive accounted :: "db \<Rightarrow> db \<Rightarrow> bool" where
  start: "accounted s s"
| insert_media: "accounted s t \<Longrightarrow> dr_serialno r \<notin> m_resource_id ` set (media t) \<Longrightarrow>
    dbms_insert_media now r t = (e, r', u) \<Longrightarrow> accounted s u"
| update_media: "accounted s t \<Longrightarrow> dbms_update_media_props now r t = (e, r', u) \<Longrightarrow> accounted s u"
| set_property: "accounted s t \<Longrightarrow> dbms_set_dead_property r pr t = (e, u) \<Longrightarrow> accounted s u"
| del_property: "accounted s t \<Longrightarrow> dbms_del_dead_property r pr t = (e, u) \<Longrightarrow> accounted s u"

lemma account_inv_insert_media:
  assumes "dbms_insert_media now r t = (e, r', u)" "account_inv t" "dr_serialno r \<notin> m_resource_id ` set (media t)"
  shows "account_inv u"
proof -
  define f where "f = (\<lambda>s. case dr_sha1str r of None \<Rightarrow> None
                   | Some h \<Rightarrow> insert_media_row \<lparr>m_resource_id = dr_serialno r, m_size = dr_getcontentlength r,
                       m_mimetype = (case dr_getcontenttype r of None \<Rightarrow> [] | Some t \<Rightarrow> t), m_sha1 = h,
                       m_updated_at = now\<rparr> s)"
  obtain x v where x: "exec_or_500 (''DBMS error while inserting into '' @ quoted ''media'') f t = (x, v)" by fastforce
  have v: "account_inv v"
  proof (cases x)
    case None
    with x obtain w where w: "tables_eq w t" "f w = Some v" by (auto elim: exec_or_500_ok)
    then obtain h where "insert_media_row \<lparr>m_resource_id = dr_serialno r, m_size = dr_getcontentlength r,
        m_mimetype = (case dr_getcontenttype r of None \<Rightarrow> [] | Some t \<Rightarrow> t), m_sha1 = h, m_updated_at = now\<rparr> w = Some v"
      by (cases "dr_sha1str r") (simp_all add: f_def)
    from insert_media_inv [OF account_inv_tables [OF w(1) assms(2)] _ this] assms(3) w(1)
    show ?thesis by (simp add: tables_eqD)
  next
    case (Some y)
    with x have "tables_eq v t" by (auto dest: exec_or_500_error)
    then show ?thesis using assms(2) by (rule account_inv_tables)
  qed
  show ?thesis
  proof (cases x)
    case None
    then obtain z where "dbms_notify_resource_updated (r\<lparr>dr_updated_at := Some now\<rparr>) v = (z, u)"
      using assms(1) x by (auto simp: dbms_insert_media_def f_def [symmetric] Let_def split: prod.splits)
    then show ?thesis using v by (rule account_inv_notify)
  next
    case (Some y)
    then have "u = v" using assms(1) x by (simp add: dbms_insert_media_def f_def [symmetric] Let_def)
    with v show ?thesis by simp
  qed
qed

lemma account_inv_update_media:
  assumes "dbms_update_media_props now r t = (e, r', u)" "account_inv t"
  shows "account_inv u"
proof -
  obtain x v where x: "exec_or_500 ''Couldn't update media entry'' (update_media_rows now r) t = (x, v)" by fastforce
  have v: "account_inv v"
    by (rule exec_or_500_inv [OF x]) (auto intro: account_inv_tables assms(2) update_media_inv)
  show ?thesis
  proof (cases x)
    case None
    then obtain z where "dbms_notify_resource_updated (r\<lparr>dr_updated_at := Some now\<rparr>) v = (z, u)"
      using assms(1) x by (auto simp: dbms_update_media_props_def Let_def split: prod.splits)
    then show ?thesis using v by (rule account_inv_notify)
  next
    case (Some y)
    then have "u = v" using assms(1) x by (simp add: dbms_update_media_props_def Let_def)
    with v show ?thesis by simp
  qed
qed

lemma account_inv_set_property:
  assumes "dbms_set_dead_property r pr t = (e, u)" "account_inv t"
  shows "account_inv u"
proof -
  obtain b v where b: "run_select t = (b, v)" by fastforce
  have v: "account_inv v" using run_select_same [OF b] assms(2) by (rule account_inv_tables)
  show ?thesis
  proof (cases b)
    case True
    then show ?thesis using assms(1) b v by (simp add: dbms_set_dead_property_def)
  next
    case False
    then have "db_insert_property r pr v = (e, u) \<or>
        exec_or_500 ''dbms_execute error'' (update_property_rows (dr_serialno r) pr) v = (e, u)"
      using assms(1) b by (simp add: dbms_set_dead_property_def split: if_splits)
    then show ?thesis
      by (auto simp: db_insert_property_def elim!: exec_or_500_inv [where I = account_inv]
          intro: account_inv_tables v insert_property_inv update_property_inv)
  qed
qed

lemma account_inv_del_property:
  "dbms_del_dead_property r pr t = (e, u) \<Longrightarrow> account_inv t \<Longrightarrow> account_inv u"
  unfolding dbms_del_dead_property_def
  by (erule exec_or_500_inv [where I = account_inv]) (auto intro: account_inv_tables delete_property_inv)

section \<open>Deleting a resource\<close>

lemma sum_list_remove_key:
  assumes "distinct (map fst xs)" "map_of xs i = Some ow"
  shows "sum_list (map f (filter (\<lambda>x. fst x \<noteq> i) xs)) = sum_list (map f xs) - (f (i, ow) :: int)"
  using assms
proof (induction xs)
  case (Cons x xs)
  show ?case
  proof (cases "fst x = i")
    case True
    with Cons.prems have "filter (\<lambda>x. fst x \<noteq> i) xs = xs" "x = (i, ow)"
      by (cases x; force simp: filter_id_conv)+
    with True show ?thesis by simp
  next
    case False
    with Cons show ?thesis by (cases x) auto
  qed
qed simp

lemma media_bytes_filter: "media_bytes s i = sum_list (map m_size (filter (\<lambda>m. m_resource_id m = i) (media s)))"
proof -
  have "sum_list (map (\<lambda>m. if m_resource_id m = i then m_size m else 0) ms)
      = sum_list (map m_size (filter (\<lambda>m. m_resource_id m = i) ms))" for ms by (induction ms) auto
  then show ?thesis by (simp add: media_bytes_def)
qed

lemma release_quota_rows:
  assumes "release_quota i s = Some s1" "distinct (map m_resource_id (media s))" "map_of (owners s) i = Some ow"
  shows "quota s1 = map (\<lambda>(p, u, l). (p, if p = ow then u - media_bytes s i else u, l)) (quota s)
    \<and> owners s1 = owners s \<and> media s1 = media s \<and> properties s1 = properties s"
  using filter_unique [OF assms(2), of i]
proof
  assume no: "filter (\<lambda>m. m_resource_id m = i) (media s) = []"
  then have "media_bytes s i = 0" by (simp add: media_bytes_filter)
  moreover have "s1 = s" using assms(1) no by (simp add: release_quota_def split: option.splits if_splits)
  ultimately show ?thesis by (simp add: split_def cong: if_cong)
next
  assume "\<exists>m. filter (\<lambda>m. m_resource_id m = i) (media s) = [m] \<and> m \<in> set (media s) \<and> m_resource_id m = i"
  then obtain m where m: "filter (\<lambda>m. m_resource_id m = i) (media s) = [m]" by blast
  then have b: "media_bytes s i = m_size m" by (simp add: media_bytes_filter)
  have ch: "charge i (- m_size m) s = Some s1" using assms(1) m by (simp add: release_quota_def)
  then obtain q where "s1 = s\<lparr>quota := q\<rparr>"
    "q = map (\<lambda>(p, u, l). (p, if map_of (owners s) i = Some p then u + - m_size m else u, l)) (quota s)"
    by (rule charge_cases)
  with b assms(3) show ?thesis by (auto simp: owners_def)
qed

lemma delete_used_by:
  assumes "delete_resources (\<lambda>j. j = i) s = Some s'" "distinct (map fst (owners s))" "map_of (owners s) i = Some ow"
  shows "used_by s' p = used_by s p - (if p = ow then bytes_of s i else 0)"
proof -
  note sel = delete_resources_select [OF assms(1)]
  have ow: "owners s' = filter (\<lambda>x. fst x \<noteq> i) (owners s)"
    by (simp add: owners_def sel filter_map comp_def)
  have b: "bytes_of s' j = bytes_of s j" if "j \<noteq> i" for j
  proof -
    have "sum_list (map (\<lambda>m. if m_resource_id m = j then m_size m else 0) (filter (\<lambda>m. m_resource_id m \<noteq> i) ms))
        = sum_list (map (\<lambda>m. if m_resource_id m = j then m_size m else 0) ms)" for ms :: "media_row list"
      using that by (induction ms) auto
    moreover have "sum_list (map (\<lambda>p. if p_resource_id p = j then int (length (p_value p)) else 0)
          (filter (\<lambda>p. p_resource_id p \<noteq> i) ps))
        = sum_list (map (\<lambda>p. if p_resource_id p = j then int (length (p_value p)) else 0) ps)" for ps :: "property_row list"
      using that by (induction ps) auto
    ultimately show ?thesis by (simp add: bytes_of_def media_bytes_def prop_bytes_def sel)
  qed
  have "used_by s' p = sum_list (map (\<lambda>(j, o'). if o' = p then bytes_of s j else 0) (filter (\<lambda>x. fst x \<noteq> i) (owners s)))"
    unfolding used_by_def ow by (intro arg_cong [of _ _ sum_list] map_cong refl) (auto simp: b)
  with sum_list_remove_key [OF assms(2,3), of "\<lambda>(j, o'). if o' = p then bytes_of s j else 0"]
  show ?thesis by (auto simp: used_by_def)
qed

section \<open>Dead properties as a map\<close>

definition prop_map :: "db \<Rightarrow> id \<times> id \<times> string \<rightharpoonup> string \<times> string" where
  "prop_map s = map_of (map (\<lambda>p. (prop_key p, p_xmlinfo p, p_value p)) (properties s))"

lemma prop_map_tables: "tables_eq t s \<Longrightarrow> prop_map t = prop_map s"
  by (simp add: prop_map_def tables_eqD)

lemma map_of_snoc: "k \<notin> fst ` set xs \<Longrightarrow> map_of (xs @ [(k, v)]) = (map_of xs)(k \<mapsto> v)"
  by (induction xs) (auto simp: fun_upd_twist)

lemma insert_property_map:
  assumes "insert_property_row i pr s = Some s'"
  shows "prop_map s' = (prop_map s)((i, pr_ns_id pr, pr_name pr) \<mapsto> (pr_xmlinfo pr, pr_value pr))"
proof -
  let ?k = "(i, pr_ns_id pr, pr_name pr)"
  from assms have fresh: "?k \<notin> fst ` set (map (\<lambda>p. (prop_key p, p_xmlinfo p, p_value p)) (properties s))"
    by (auto simp: insert_property_row_def list_all_iff split: if_splits)
  from assms obtain row where "properties s' = properties s @ [row]" "prop_key row = ?k"
    "p_xmlinfo row = pr_xmlinfo pr" "p_value row = pr_value pr"
    by (auto simp: insert_property_row_def prop_key_def split: if_splits dest!: charge_select(2))
  then show ?thesis using map_of_snoc [OF fresh] by (simp add: prop_map_def)
qed

lemma charge_once_select:
  "charge_once i ns s = Some s' \<Longrightarrow> properties s' = properties s \<and> resources s' = resources s \<and> namespaces s' = namespaces s"
  by (auto simp: charge_once_def charge_select split: list.splits)

lemma update_property_map:
  assumes "update_property_rows i pr s = Some s'" "(i, pr_ns_id pr, pr_name pr) \<in> prop_key ` set (properties s)"
  shows "prop_map s' = (prop_map s)((i, pr_ns_id pr, pr_name pr) \<mapsto> (pr_xmlinfo pr, pr_value pr))"
proof -
  let ?k = "(i, pr_ns_id pr, pr_name pr)"
  let ?g = "\<lambda>p. if prop_key p = ?k then p\<lparr>p_xmlinfo := pr_xmlinfo pr, p_value := pr_value pr\<rparr> else p"
  have key: "prop_key (p\<lparr>p_xmlinfo := x, p_value := v\<rparr>) = prop_key p" for p :: property_row and x v
    by (simp add: prop_key_def)
  have upd: "map_of (map (\<lambda>p. (prop_key p, p_xmlinfo p, p_value p)) (map ?g ps))
      = (if ?k \<in> prop_key ` set ps then (map_of (map (\<lambda>p. (prop_key p, p_xmlinfo p, p_value p)) ps))(?k \<mapsto> (pr_xmlinfo pr, pr_value pr))
         else map_of (map (\<lambda>p. (prop_key p, p_xmlinfo p, p_value p)) ps))" for ps :: "property_row list"
  proof (induction ps)
    case (Cons p ps)
    show ?case
    proof (cases "prop_key p = ?k")
      case True
      then show ?thesis using Cons by (simp add: key fun_eq_iff del: map_map)
    next
      case False
      then have "?k \<noteq> prop_key p" by metis
      with False show ?thesis using Cons by (simp add: key fun_eq_iff del: map_map)
    qed
  qed simp
  have "properties s' = map ?g (properties s)"
  proof -
    from assms(1) obtain u where u: "charge_once i (map (\<lambda>p. int (length (pr_value pr)) - int (length (p_value p)))
        (filter (\<lambda>p. prop_key p = ?k) (properties s))) s = Some u" "s' = u\<lparr>properties := map ?g (properties u)\<rparr>"
      by (auto simp: update_property_rows_def Let_def)
    then show ?thesis using charge_once_select [OF u(1)] by simp
  qed
  then show ?thesis using upd [of "properties s"] assms(2) by (simp add: prop_map_def del: map_map)
qed

lemma delete_property_map:
  assumes "delete_properties i (\<lambda>p. prop_key p = k) s = Some s'"
  shows "prop_map s' = (prop_map s)(k := None)"
proof -
  have "map_of (map (\<lambda>p. (prop_key p, p_xmlinfo p, p_value p)) (filter (\<lambda>p. prop_key p \<noteq> k) ps)) x
      = (if x = k then None else map_of (map (\<lambda>p. (prop_key p, p_xmlinfo p, p_value p)) ps) x)"
    for x and ps :: "property_row list" by (induction ps) auto
  moreover have "properties s' = filter (\<lambda>p. prop_key p \<noteq> k) (properties s)"
    using assms by (auto simp: delete_properties_def dest!: charge_once_select)
  ultimately show ?thesis by (simp add: prop_map_def fun_eq_iff)
qed

section \<open>Properties\<close>

text \<open>C27: When the body of a resource changes, \<open>dbms_notify_resource_updated\<close> sets the time of last
  modification of that resource and of every collection from which it can be reached through
  collections that users own, however deep and however cyclic the bindings are, and of no
  other resource.\<close>

theorem notify_touches_ancestors:
  assumes "fault s = []" and "dr_updated_at r = Some now"
  shows "dbms_notify_resource_updated r s = (None, s\<lparr>resources := map (\<lambda>w.
     if (dr_serialno r, r_id w) \<in> (up (binds s))\<^sup>* then w\<lparr>r_lastmodified := now\<rparr> else w) (resources s)\<rparr>)"
  using assms by (simp add: dbms_notify_resource_updated_def exec_or_500_healthy touch_def ancestors_set)

definition sample_files :: db where
  "sample_files = empty_db\<lparr>resources := map (\<lambda>i. a_resource i ''Collection'') [1, 2, 8, 9, 10]
       @ [a_resource 11 ''Resource'', a_resource 12 ''Resource''],
     binds := [\<lparr>b_id = 1, b_name = ''home'', b_collection_id = 2, b_resource_id = 8, b_updated_at = []\<rparr>,
       \<lparr>b_id = 2, b_name = ''ann'', b_collection_id = 8, b_resource_id = 9, b_updated_at = []\<rparr>,
       \<lparr>b_id = 3, b_name = ''back'', b_collection_id = 11, b_resource_id = 9, b_updated_at = []\<rparr>,
       \<lparr>b_id = 4, b_name = ''f'', b_collection_id = 9, b_resource_id = 11, b_updated_at = []\<rparr>],
     principals := [(1, ''ann'')], quota := [(1, 105, 1000)],
     media := [\<lparr>m_resource_id = 11, m_size = 100, m_mimetype = [], m_sha1 = ''aa'', m_updated_at = []\<rparr>],
     namespaces := [(1, ''DAV:'')],
     properties := [\<lparr>p_id = 1, p_namespace_id = 1, p_name = ''k'', p_resource_id = 11, p_xmlinfo = [], p_value = ''hello''\<rparr>],
     next_property := 2\<rparr>"

definition sample_file :: dav_repos_resource where
  "sample_file = zero_dbr\<lparr>dr_serialno := 11, dr_resourcetype := dav_repos_RESOURCE, dr_updated_at := Some ''t'',
     dr_getcontentlength := 120, dr_sha1str := Some ''bb''\<rparr>"

theorem notify_touches_ancestors_witness:
  "fst (dbms_notify_resource_updated sample_file sample_files) = None \<and> (11, 9) \<in> (up (binds sample_files))\<^sup>*
   \<and> map r_lastmodified (filter (\<lambda>w. r_id w = 9) (resources (snd (dbms_notify_resource_updated sample_file sample_files)))) = [''t'']"
proof -
  have up: "(11, 9) \<in> (up (binds sample_files))\<^sup>*"
    by (rule r_into_rtrancl)
      (auto simp: up_def sample_files_def HOME_COLLECTION_ID_def
        intro!: exI [of _ "\<lparr>b_id = 4, b_name = ''f'', b_collection_id = 9, b_resource_id = 11, b_updated_at = []\<rparr>"])
  have "fault sample_files = []" "dr_updated_at sample_file = Some ''t''" "dr_serialno sample_file = 11"
    by (simp_all add: sample_files_def sample_file_def empty_db_def)
  with notify_touches_ancestors [of sample_files sample_file "''t''"] up show ?thesis
    by (simp add: sample_files_def [THEN arg_cong, of resources] a_resource_def)
qed

lemma account_inv_accounted: "accounted s t \<Longrightarrow> account_inv s \<Longrightarrow> account_inv t"
  by (induction rule: accounted.induct)
    (auto intro: account_inv_insert_media account_inv_update_media account_inv_set_property account_inv_del_property)

text \<open>C26: After any sequence of insertions and updates of bodies and of settings and removals of
  single dead properties, with or without failures of statements, what is charged to each
  principal is the number of bytes of the bodies and of the property values of the resources
  it owns. So the check before a commit refuses with 507 exactly when some principal with a
  limit really uses more than it.\<close>

theorem quota_check_exact:
  assumes "accounted s t" and "account_inv s" and "fault t = []"
  shows "quota_exact t \<and>
    (case fst (dbms_quota_pre_commit_checks t) of
       None \<Rightarrow> list_all (\<lambda>(p, used, limit). 0 < limit \<longrightarrow> used_by t p \<le> limit) (quota t)
     | Some e \<Rightarrow> status e = HTTP_INSUFFICIENT_STORAGE \<and>
         list_ex (\<lambda>(p, used, limit). 0 < limit \<and> limit < used_by t p) (quota t))"
proof -
  have "account_inv t" using assms(1,2) by (rule account_inv_accounted)
  then have ex: "quota_exact t" by (simp add: account_inv_def)
  then have over: "list_ex (\<lambda>(p, used, limit). limit < used \<and> 0 < limit) (quota t)
      = list_ex (\<lambda>(p, used, limit). 0 < limit \<and> limit < used_by t p) (quota t)"
    unfolding quota_exact_def list_all_iff list_ex_iff by fast
  have "\<not> list_ex (\<lambda>(p, used, limit). 0 < limit \<and> limit < used_by t p) (quota t) \<Longrightarrow>
      list_all (\<lambda>(p, used, limit). 0 < limit \<longrightarrow> used_by t p \<le> limit) (quota t)"
    unfolding list_all_iff list_ex_iff by (auto simp: not_less)
  with ex assms(3) over show ?thesis
    by (simp add: dbms_quota_pre_commit_checks_def run_stmt_healthy)
qed

lemma sample_account: "account_inv sample_files"
  unfolding account_inv_def by code_simp

theorem quota_check_exact_witness:
  "quota_exact (snd (dbms_set_dead_property sample_file \<lparr>pr_serialno = 0, pr_ns_id = 1, pr_name = ''k'', pr_xmlinfo = [],
     pr_value = ''hello world'', pr_namespace_name = []\<rparr> sample_files))"
proof -
  let ?pr = "\<lparr>pr_serialno = 0, pr_ns_id = 1, pr_name = ''k'', pr_xmlinfo = [], pr_value = ''hello world'', pr_namespace_name = []\<rparr>"
  let ?t = "snd (dbms_set_dead_property sample_file ?pr sample_files)"
  have "accounted sample_files ?t"
    by (rule accounted.set_property [OF accounted.start]) (rule prod.collapse [symmetric])
  moreover have "fault ?t = []" by code_simp
  ultimately show ?thesis using quota_check_exact [OF _ sample_account] by blast
qed

text \<open>Deleting a resource with a body releases the bytes of the body and nothing else: its
  dead properties, which the database deletes along with it, stay charged to the owner.\<close>

theorem delete_resource_keeps_property_charge:
  assumes inv: "account_inv s" and body: "has_body (dr_resourcetype r)"
    and owner: "map_of (owners s) (dr_serialno r) = Some ow"
    and run: "dbms_delete_resource r s = (None, s')"
  shows "list_all (\<lambda>(p, used, limit). used = used_by s' p + (if p = ow then prop_bytes s (dr_serialno r) else 0)) (quota s')"
proof -
  let ?i = "dr_serialno r"
  from run body obtain v where v: "exec_or_500 ''DBMS error in deleting resource'' (release_quota ?i) s = (None, v)"
    "exec_or_500 ''DBMS error in deleting resource'' (delete_resources (\<lambda>i. i = ?i)) v = (None, s')"
    by (auto simp: dbms_delete_resource_def split: prod.splits option.splits)
  obtain t where t: "tables_eq t s" "release_quota ?i t = Some v" using v(1) by (rule exec_or_500_ok)
  obtain w where w: "tables_eq w v" "delete_resources (\<lambda>i. i = ?i) w = Some s'" using v(2) by (rule exec_or_500_ok)
  have inv': "account_inv t" using t(1) inv by (rule account_inv_tables)
  have same: "owners t = owners s" "prop_bytes t ?i = prop_bytes s ?i"
    using t(1) by (simp_all add: owners_def prop_bytes_def tables_eqD)
  have "quota v = map (\<lambda>(p, u, l). (p, if p = ow then u - media_bytes t ?i else u, l)) (quota t)
    \<and> owners v = owners t \<and> media v = media t \<and> properties v = properties t"
    using release_quota_rows [OF t(2)] inv' owner same by (simp add: account_inv_def resources_inv_def)
  then have q: "quota w = map (\<lambda>(p, u, l). (p, if p = ow then u - media_bytes t ?i else u, l)) (quota t)"
    and frame: "owners w = owners t" "media w = media t" "properties w = properties t"
    using w(1) by (simp_all add: owners_def tables_eqD)
  have "bytes_of w = bytes_of t" using frame by (intro ext) (simp add: bytes_of_def media_bytes_def prop_bytes_def)
  then have u: "used_by w = used_by t" using frame by (intro ext) (simp add: used_by_def cong: if_cong)
  have "used_by s' p = used_by t p - (if p = ow then bytes_of t ?i else 0)" for p
    using delete_used_by [OF w(2), of ow p] frame(1) same(1) owner owners_distinct [of t] inv' u \<open>bytes_of w = bytes_of t\<close>
    by (simp add: account_inv_def)
  moreover have "quota s' = filter (\<lambda>(i, q). i \<noteq> ?i) (quota w)" by (rule delete_resources_select(4) [OF w(2)])
  ultimately show ?thesis using inv' same(2)
    by (auto simp: q account_inv_def quota_exact_def list_all_iff bytes_of_def)
qed

theorem delete_resource_keeps_property_charge_witness:
  "quota (snd (dbms_delete_resource sample_file sample_files)) = [(1, 5, 1000)] \<and>
   list_all (\<lambda>(p, used, limit). used = used_by (snd (dbms_delete_resource sample_file sample_files)) p + (if p = 1 then 5 else 0))
     (quota (snd (dbms_delete_resource sample_file sample_files)))"
proof -
  let ?s' = "snd (dbms_delete_resource sample_file sample_files)"
  have "has_body (dr_resourcetype sample_file)" "map_of (owners sample_files) (dr_serialno sample_file) = Some 1"
    "fst (dbms_delete_resource sample_file sample_files) = None" "prop_bytes sample_files (dr_serialno sample_file) = 5"
    "quota ?s' = [(1, 5, 1000)]" by code_simp+
  with delete_resource_keeps_property_charge [OF sample_account, of sample_file 1 ?s'] show ?thesis
    by (simp add: prod_eq_iff)
qed

text \<open>C27: The table of dead properties is a map from resource, namespace and name to the markup and
  the value. \<open>dbms_set_dead_property\<close> stores the new entry whether or not there was one and
  touches no other; \<open>dbms_del_dead_property\<close> removes exactly its entry.\<close>

theorem dead_property_map:
  "(\<forall>s'. dbms_set_dead_property r pr s = (None, s') \<longrightarrow>
      prop_map s' = (prop_map s)((dr_serialno r, pr_ns_id pr, pr_name pr) \<mapsto> (pr_xmlinfo pr, pr_value pr))) \<and>
    (\<forall>s'. dbms_del_dead_property r pr s = (None, s') \<longrightarrow>
      prop_map s' = (prop_map s)((dr_serialno r, pr_ns_id pr, pr_name pr) := None))"
proof (intro conjI allI impI)
  let ?k = "(dr_serialno r, pr_ns_id pr, pr_name pr)"
  fix s'
  assume run: "dbms_set_dead_property r pr s = (None, s')"
  obtain b v where b: "run_select s = (b, v)" by fastforce
  have v: "tables_eq v s" using b by (rule run_select_same)
  have nb: "\<not> b" using run b by (cases b) (simp_all add: dbms_set_dead_property_def)
  show "prop_map s' = (prop_map s)(?k \<mapsto> (pr_xmlinfo pr, pr_value pr))"
  proof (cases "list_all (\<lambda>p. prop_key p \<noteq> ?k) (properties v)")
    case True
    with run b nb have "exec_or_500 ''Could not insert dead prop'' (insert_property_row (dr_serialno r) pr) v = (None, s')"
      by (simp add: dbms_set_dead_property_def db_insert_property_def)
    then obtain t where "tables_eq t v" "insert_property_row (dr_serialno r) pr t = Some s'" by (rule exec_or_500_ok)
    with insert_property_map [OF this(2)] v show ?thesis by (simp add: prop_map_tables)
  next
    case False
    with run b nb have "exec_or_500 ''dbms_execute error'' (update_property_rows (dr_serialno r) pr) v = (None, s')"
      by (simp add: dbms_set_dead_property_def)
    then obtain t where t: "tables_eq t v" "update_property_rows (dr_serialno r) pr t = Some s'" by (rule exec_or_500_ok)
    have "?k \<in> prop_key ` set (properties t)"
      using False tables_eqD [OF t(1)] by (force simp: list_all_iff)
    from update_property_map [OF t(2) this] v t(1) show ?thesis by (simp add: prop_map_tables)
  qed
next
  fix s'
  assume "dbms_del_dead_property r pr s = (None, s')"
  then obtain t where "tables_eq t s"
    "delete_properties (dr_serialno r) (\<lambda>p. prop_key p = (dr_serialno r, pr_ns_id pr, pr_name pr)) t = Some s'"
    unfolding dbms_del_dead_property_def by (rule exec_or_500_ok)
  with delete_property_map [OF this(2)] show "prop_map s' = (prop_map s)((dr_serialno r, pr_ns_id pr, pr_name pr) := None)"
    by (simp add: prop_map_tables)
qed

definition sample_property :: dav_repos_property where
  "sample_property = \<lparr>pr_serialno = 0, pr_ns_id = 1, pr_name = ''k'', pr_xmlinfo = [], pr_value = ''bye'', pr_namespace_name = []\<rparr>"

theorem dead_property_map_witness:
  "prop_map (snd (dbms_set_dead_property sample_file sample_property sample_files)) (11, 1, ''k'') = Some ([], ''bye'') \<and>
   prop_map (snd (dbms_del_dead_property sample_file sample_property sample_files)) (11, 1, ''k'') = None"
proof -
  have "fst (dbms_set_dead_property sample_file sample_property sample_files) = None"
    "fst (dbms_del_dead_property sample_file sample_property sample_files) = None" by code_simp+
  then have "dbms_set_dead_property sample_file sample_property sample_files
      = (None, snd (dbms_set_dead_property sample_file sample_property sample_files))"
    "dbms_del_dead_property sample_file sample_property sample_files
      = (None, snd (dbms_del_dead_property sample_file sample_property sample_files))"
    by (simp_all add: prod_eq_iff)
  with dead_property_map [of sample_file sample_property sample_files] show ?thesis
    by (simp add: sample_file_def sample_property_def)
qed

lemma number_properties_map:
  "map (\<lambda>p. (prop_key p, p_xmlinfo p, p_value p)) (number_properties i d ps)
   = map (\<lambda>p. ((d, p_namespace_id p, p_name p), p_xmlinfo p, p_value p)) ps"
  by (induction ps arbitrary: i) (simp_all add: prop_key_def)

lemma map_of_by_resource:
  "map_of (map (\<lambda>p. ((d, p_namespace_id p, p_name p), p_xmlinfo p, p_value p)) (filter (\<lambda>p. p_resource_id p = c) ps)) (d, ns, n)
   = map_of (map (\<lambda>p. (prop_key p, p_xmlinfo p, p_value p)) ps) (c, ns, n)"
  "i \<noteq> d \<Longrightarrow> map_of (map (\<lambda>p. ((d, p_namespace_id p, p_name p), p_xmlinfo p, p_value p)) ps) (i, ns, n) = None"
  "map_of (map (\<lambda>p. (prop_key p, p_xmlinfo p, p_value p)) (filter (\<lambda>p. p_resource_id p \<noteq> d) ps)) (i, ns, n)
   = (if i = d then None else map_of (map (\<lambda>p. (prop_key p, p_xmlinfo p, p_value p)) ps) (i, ns, n))"
  by (induction ps) (auto simp: prop_key_def)

lemma copy_property_map:
  assumes "copy_property_rows src dest s = Some s'"
  shows "prop_map s' (i, ns, n) =
    (case prop_map s (i, ns, n) of Some v \<Rightarrow> Some v
     | None \<Rightarrow> if i = dest then prop_map s (src, ns, n) else None)"
proof (cases "filter (\<lambda>p. p_resource_id p = src) (properties s) = []")
  case True
  then have "s' = s" using assms by (simp add: copy_property_rows_def Let_def)
  moreover have "prop_map s (src, ns, n) = None"
    using True map_of_by_resource(1) [of src src "properties s" ns n] by (simp add: prop_map_def)
  ultimately show ?thesis by (simp split: option.split)
next
  case False
  let ?ps = "filter (\<lambda>p. p_resource_id p = src) (properties s)"
  let ?new = "number_properties (next_property s) dest ?ps"
  from assms False have p: "properties s' = properties s @ ?new"
    by (auto simp: copy_property_rows_def Let_def split: if_splits dest!: charge_once_select)
  have new: "map_of (map (\<lambda>p. (prop_key p, p_xmlinfo p, p_value p)) ?new) (i, ns, n)
      = (if i = dest then prop_map s (src, ns, n) else None)"
    by (auto simp: number_properties_map map_of_by_resource prop_map_def)
  have "prop_map s' (i, ns, n) = (case prop_map s (i, ns, n) of Some v \<Rightarrow> Some v
      | None \<Rightarrow> map_of (map (\<lambda>p. (prop_key p, p_xmlinfo p, p_value p)) ?new) (i, ns, n))"
    by (simp add: prop_map_def p map_add_def)
  then show ?thesis unfolding new .
qed

text \<open>Copying the dead properties of one resource to another one: afterwards the destination has
  exactly the properties of the source, and every other resource has what it had.\<close>

theorem copy_dead_props_map:
  assumes "src \<noteq> dest" and "sabridge_copy_dead_props src dest s = (None, s')"
  shows "prop_map s' (i, ns, n) = prop_map s (if i = dest then src else i, ns, n)"
proof -
  from assms(2) obtain v where "dbms_delete_dead_props dest s = (None, v)" "dbms_copy_dead_props src dest v = (None, s')"
    by (auto simp: sabridge_copy_dead_props_def split: prod.splits option.splits)
  then obtain t w where t: "tables_eq t s" "delete_properties dest (\<lambda>p. p_resource_id p = dest) t = Some v"
    and w: "tables_eq w v" "copy_property_rows src dest w = Some s'"
    unfolding dbms_delete_dead_props_def dbms_copy_dead_props_def by (auto elim!: exec_or_500_ok)
  have "properties v = filter (\<lambda>p. p_resource_id p \<noteq> dest) (properties t)"
    using t(2) by (auto simp: delete_properties_def dest!: charge_once_select)
  then have v: "prop_map v (j, ns, n) = (if j = dest then None else prop_map s (j, ns, n))" for j
    using prop_map_tables [OF t(1)] by (simp add: prop_map_def map_of_by_resource)
  from copy_property_map [OF w(2), of i ns n] prop_map_tables [OF w(1)] v assms(1) show ?thesis
    by (auto split: option.splits)
qed

theorem copy_dead_props_map_witness:
  "prop_map (snd (sabridge_copy_dead_props 11 12 sample_files)) (12, 1, ''k'') = Some ([], ''hello'')"
proof -
  have "fst (sabridge_copy_dead_props 11 12 sample_files) = None" "prop_map sample_files (11, 1, ''k'') = Some ([], ''hello'')"
    by code_simp+
  with copy_dead_props_map [of 11 12 sample_files "snd (sabridge_copy_dead_props 11 12 sample_files)" 12 1 "''k''"]
  show ?thesis by (simp add: prod_eq_iff)
qed

section \<open>Redirect references\<close>

lemma full_length_unset: "full_length n ps = None \<longleftrightarrow> None \<in> set ps"
  by (induction n ps rule: full_length.induct) auto

lemma qmarks_append: "qmarks (a @ b) = qmarks a + qmarks b"
  by (simp add: qmarks_def)

lemma qmarks_0: "qmarks s = 0 \<longleftrightarrow> CHR ''?'' \<notin> set s"
  by (auto simp: qmarks_def filter_empty_conv)

lemma redirect_qmarks: "qmarks (redirect_template esc (Some rt) t) = qmarks (esc rt) + 2"
  by (cases t) (simp_all add: redirect_template_def quoted_def lifetime_to_s_def qmarks_append)

lemma update_query_parameters:
  "parameters (update_query esc now r (Some rt) t)
   = Some (quoted (esc now)) # Some (show_long (dr_serialno r)) # replicate (qmarks (esc rt)) None"
  using redirect_qmarks [of esc rt t]
  by (simp add: update_query_def dbms_set_int_def dbms_set_string_def dbms_set_param_def dbms_prepare_def Let_def
      qmarks_def quoted_def numeral_2_eq_2)

lemma update_query_built: "built esc (redirect_template esc reftarget t) (update_query esc now r reftarget t)"
  unfolding update_query_def by (intro built.intros)

lemma update_query_assemble:
  "assemble (update_query esc now r (Some rt) t)
   = (if CHR ''?'' \<in> set (esc rt) then Param_unset
      else Statement (expand (redirect_template esc (Some rt) t) (map the (parameters (update_query esc now r (Some rt) t)))))"
proof -
  have "None \<in> set (parameters (update_query esc now r (Some rt) t)) \<longleftrightarrow> CHR ''?'' \<in> set (esc rt)"
    using qmarks_0 [of "esc rt"] by (auto simp: update_query_parameters)
  then show ?thesis
    using built_inv [OF update_query_built [of esc "Some rt" t now r]] assemble_eq [of "update_query esc now r (Some rt) t"]
    by simp
qed

text \<open>C23: \<open>dbms_update_redirectref\<close> stores the new target of a redirect reference and leaves the other
  references alone - unless the target has a question mark in it, as a URL with a query
  has. Then it reports success and changes nothing.\<close>

theorem update_redirectref_target:
  assumes esc: "\<And>x. CHR ''?'' \<in> set (esc x) \<longleftrightarrow> CHR ''?'' \<in> set x"
    and "fault s = []" and "length rt \<le> 255"
  shows "dbms_update_redirectref esc now r (Some rt) t s =
     (if CHR ''?'' \<in> set rt then (None, s)
      else (None, s\<lparr>redirectrefs := map (\<lambda>(j, rt', l, u).
         if j = dr_serialno r then (j, rt, case lifetime_to_s t of None \<Rightarrow> l | Some x \<Rightarrow> x, now) else (j, rt', l, u))
         (redirectrefs s)\<rparr>))"
  using assms
  by (simp add: dbms_update_redirectref_def update_query_assemble esc exec_or_500_healthy update_redirect_rows_def
      cong: if_cong)

theorem update_redirectref_target_witness:
  "dbms_update_redirectref (\<lambda>x. x) ''now'' sample_file (Some ''http://example.org/?id=7'') DAV_REDIRECTREF_TEMPORARY sample_files
   = (None, sample_files)"
  using update_redirectref_target [of "\<lambda>x. x" sample_files "''http://example.org/?id=7''" "''now''" sample_file
      DAV_REDIRECTREF_TEMPORARY]
  by (simp add: sample_files_def empty_db_def)

end
