(* ===== verification/Deltav.thy ===== *)
theory Deltav
  imports Resources
begin

text \<open>
  Versioning: \<^verbatim>\<open>dbms_deltav.c\<close> and \<^verbatim>\<open>deltav_util.c\<close>. A version-controlled resource (VCR) has a row
  in \<open>vcrs\<close> with its state, its checked version and its version history (VHR); a version has a
  row in \<open>versions\<close>, a history one in \<open>vhrs\<close>. A structure in memory is passed and returned; an
  outer \<open>None\<close> is a read or write through a null or uninitialised pointer.
\<close>

definition dav_repos_VERSIONHISTORY :: nat where "dav_repos_VERSIONHISTORY = 9"
definition dav_repos_COLLECTION_VERSION :: nat where "dav_repos_COLLECTION_VERSION = 11"

abbreviation err500 :: "string \<Rightarrow> dav_error option" where
  "err500 d \<equiv> Some (dav_new_error HTTP_INTERNAL_SERVER_ERROR d)"

section \<open>URIs of versions\<close>

definition sabridge_mk_version_uri :: "dav_repos_resource \<Rightarrow> int \<Rightarrow> string" where
  "sabridge_mk_version_uri vhr vnum =
     dr_root_path vhr @ ''/history/'' @ show_long (dr_serialno vhr) @ ''/'' @ show_long vnum"

definition sabridge_mk_vhr_uri :: "dav_repos_resource \<Rightarrow> string" where
  "sabridge_mk_vhr_uri vhr = dr_root_path vhr @ ''/history/'' @ show_long (dr_serialno vhr) @ ''/vhr''"

section \<open>Reading\<close>

text \<open>\<open>dbms_get_creator_displayname\<close> reads the destroyed query when there is no such principal;
  the model takes the result for \<open>NULL\<close>.\<close>

definition dbms_get_creator_displayname :: "dav_repos_resource \<Rightarrow> db \<Rightarrow> dav_error option \<times> dav_repos_resource \<times> db" where
  "dbms_get_creator_displayname r s =
     (case run_select s of
        (True, s) \<Rightarrow> (err500 ''dbms_execute error'', r, s)
      | (False, s) \<Rightarrow>
          (None, r\<lparr>dr_creator_displayname := map_option snd (find (\<lambda>(i, n). i = dr_creator_id r) (principals s))\<rparr>, s))"

definition find_version :: "id \<Rightarrow> db \<Rightarrow> version_row option" where
  "find_version i s = find (\<lambda>v. n_resource_id v = i) (versions s)"

definition find_vcr :: "id \<Rightarrow> db \<Rightarrow> vcr_row option" where
  "find_vcr i s = find (\<lambda>c. c_resource_id c = i) (vcrs s)"

definition state_of :: "string \<Rightarrow> checked_state" where
  "state_of c = (case c of CHR ''I'' # _ \<Rightarrow> DAV_RESOURCE_CHECKED_IN | _ \<Rightarrow> DAV_RESOURCE_CHECKED_OUT)"

definition dbms_get_version_number :: "dav_repos_resource \<Rightarrow> db \<Rightarrow> dav_error option \<times> dav_repos_resource \<times> db" where
  "dbms_get_version_number r s =
     (case run_select s of
        (True, s) \<Rightarrow> (err500 ''DBMS Error'', r, s)
      | (False, s) \<Rightarrow>
          (case find_version (dr_checked_id r) s of
             None \<Rightarrow> (err500 ''Could not lookup version number'', r, s)
           | Some v \<Rightarrow> (None, r\<lparr>dr_vr_num := n_number v\<rparr>, s)))"

definition dbms_get_vcr_props :: "dav_repos_resource \<Rightarrow> db \<Rightarrow> dav_error option \<times> dav_repos_resource \<times> db" where
  "dbms_get_vcr_props r s =
     (case run_select s of
        (True, s) \<Rightarrow> (err500 ''dbms_execute error'', r, s)
      | (False, s) \<Rightarrow>
          (case find_vcr (dr_serialno r) s of
             None \<Rightarrow> (None, r\<lparr>dr_checked_state := DAV_RESOURCE_NOT_VERSIONED\<rparr>, s)
           | Some c \<Rightarrow>
               dbms_get_version_number
                 (r\<lparr>dr_checked_state := state_of (c_checked_state c), dr_checked_id := c_checked_id c,
                    dr_vhr_id := c_vhr_id c, dr_autoversion_type := c_version_type c\<rparr>) s))"

text \<open>The column \<open>vcr_id\<close> may be \<open>NULL\<close>, which \<open>dbms_get_int\<close> reads as the number of the empty string.\<close>

definition id_of :: "id option \<Rightarrow> id" where
  "id_of x = (case x of None \<Rightarrow> 0 | Some i \<Rightarrow> i)"

definition dbms_get_version_id :: "id \<Rightarrow> int \<Rightarrow> db \<Rightarrow> (dav_error + id) \<times> db" where
  "dbms_get_version_id serialno version_num s =
     (case run_select s of
        (True, s) \<Rightarrow> (Inl (dav_new_error HTTP_INTERNAL_SERVER_ERROR ''DBMS Error''), s)
      | (False, s) \<Rightarrow>
          (case find (\<lambda>v. n_number v = version_num \<and> n_vcr_id v = Some serialno) (versions s) of
             None \<Rightarrow> (Inl (dav_new_error HTTP_INTERNAL_SERVER_ERROR ''DBMS Error''), s)
           | Some v \<Rightarrow> (Inr (n_resource_id v), s)))"

definition dbms_get_version_resource_props ::
  "dav_repos_resource \<Rightarrow> db \<Rightarrow> (dav_error option \<times> dav_repos_resource \<times> db) option" where
  "dbms_get_version_resource_props vr s =
     (case run_select s of
        (True, s) \<Rightarrow> Some (err500 ''dbms_execute error'', vr, s)
      | (False, s) \<Rightarrow>
          (case find_version (dr_serialno vr) s of
             None \<Rightarrow> Some (None, vr, s)
           | Some v \<Rightarrow>
               (let vr = vr\<lparr>dr_version := n_number v, dr_vcr_id := id_of (n_vcr_id v)\<rparr>
                in case sabridge_new_dbr_from_dbr vr of
                     None \<Rightarrow> None
                   | Some vcr \<Rightarrow>
                       (case dbms_get_vcr_props (vcr\<lparr>dr_serialno := dr_vcr_id vr\<rparr>) s of
                          (e, vcr, s) \<Rightarrow>
                            Some (e, if dr_checked_id vcr = dr_serialno vr then vr\<lparr>dr_lastversion := True\<rparr> else vr, s)))))"

definition dbms_get_vhr_root_version_id :: "dav_repos_resource \<Rightarrow> db \<Rightarrow> dav_error option \<times> dav_repos_resource \<times> db" where
  "dbms_get_vhr_root_version_id vhr s =
     (case run_select s of
        (True, s) \<Rightarrow> (err500 ''dbms_execute error'', vhr, s)
      | (False, s) \<Rightarrow>
          (None,
           (case find (\<lambda>(h, root). h = dr_serialno vhr) (vhrs s) of
              None \<Rightarrow> vhr
            | Some (h, root) \<Rightarrow> vhr\<lparr>dr_root_version_id := root\<rparr>), s))"

definition dbms_get_vhr_props :: "dav_repos_resource \<Rightarrow> db \<Rightarrow> dav_error option \<times> dav_repos_resource \<times> db" where
  "dbms_get_vhr_props vhr s =
     (case run_select s of
        (True, s) \<Rightarrow> (err500 ''dbms_execute error'', vhr, s)
      | (False, s) \<Rightarrow>
          (case find (\<lambda>c. c_vhr_id c = dr_serialno vhr) (vcrs s) of
             None \<Rightarrow> (None, vhr, s)
           | Some c \<Rightarrow>
               dbms_get_vhr_root_version_id
                 (vhr\<lparr>dr_vcr_id := c_resource_id c, dr_checked_state := state_of (c_checked_state c),
                      dr_checked_id := c_checked_id c\<rparr>) s))"

text \<open>\<open>dbms_get_deltav_props\<close> by type; for a version the error of the first call is overwritten by
  the result of the second.\<close>

definition dbms_get_deltav_props ::
  "dav_repos_resource \<Rightarrow> db \<Rightarrow> (dav_error option \<times> dav_repos_resource \<times> db) option" where
  "dbms_get_deltav_props r s =
     (if dr_resourcetype r = dav_repos_VERSIONED \<or> dr_resourcetype r = dav_repos_VERSIONED_COLLECTION
      then Some (dbms_get_vcr_props r s)
      else if dr_resourcetype r = dav_repos_VERSION \<or> dr_resourcetype r = dav_repos_COLLECTION_VERSION
      then (case dbms_get_version_resource_props r s of
              None \<Rightarrow> None
            | Some (e, r, s) \<Rightarrow> Some (dbms_get_creator_displayname r s))
      else if dr_resourcetype r = dav_repos_VERSIONHISTORY then Some (dbms_get_vhr_props r s)
      else Some (None, r, s))"

section \<open>Writing\<close>

definition set_vcr :: "id \<Rightarrow> (vcr_row \<Rightarrow> vcr_row) \<Rightarrow> db \<Rightarrow> db" where
  "set_vcr i f s = s\<lparr>vcrs := map (\<lambda>c. if c_resource_id c = i then f c else c) (vcrs s)\<rparr>"

definition dbms_set_checkin_out ::
  "dav_repos_resource \<Rightarrow> checked_state \<Rightarrow> int \<Rightarrow> db \<Rightarrow> dav_error option \<times> dav_repos_resource \<times> db" where
  "dbms_set_checkin_out r st version_num s =
     (case (if dr_vr_num r = version_num \<and> dr_checked_id r \<noteq> 0 then (Inr (dr_checked_id r), s)
            else dbms_get_version_id (dr_serialno r) version_num s) of
        (Inl e, s) \<Rightarrow> (Some e, r, s)
      | (Inr checked_id, s) \<Rightarrow>
          (case exec_or_500 ''DBMS Error''
                  (\<lambda>s. Some (set_vcr (dr_serialno r) (\<lambda>c. c\<lparr>c_checked_state :=
                       (if st = DAV_RESOURCE_CHECKED_IN then ''I'' else ''O''), c_checked_id := checked_id\<rparr>) s)) s of
             (Some e, s) \<Rightarrow> (Some e, r, s)
           | (None, s) \<Rightarrow> (None, r\<lparr>dr_checked_id := checked_id, dr_checked_state := st, dr_vr_num := version_num\<rparr>, s)))"

text \<open>The three insertions: the tables have one row per resource. Their foreign keys are deferred
  to the end of the transaction, and the callers rely on that (a history is inserted before
  its root version).\<close>

definition dbms_insert_version :: "dav_repos_resource \<Rightarrow> db \<Rightarrow> dav_error option \<times> db" where
  "dbms_insert_version v =
     exec_or_500 ''DBMS Error''
       (\<lambda>s. if find_version (dr_serialno v) s \<noteq> None then None
            else Some (s\<lparr>versions := versions s @ [\<lparr>n_resource_id = dr_serialno v, n_number = dr_version v,
                   n_vcr_id = Some (dr_vcr_id v), n_vhr_id = dr_vhr_id v\<rparr>]\<rparr>))"

definition dbms_insert_vhr :: "dav_repos_resource \<Rightarrow> db \<Rightarrow> dav_error option \<times> db" where
  "dbms_insert_vhr vhr =
     exec_or_500 ''DBMS Error''
       (\<lambda>s. if dr_serialno vhr \<in> fst ` set (vhrs s) then None
            else Some (s\<lparr>vhrs := vhrs s @ [(dr_serialno vhr, dr_root_version_id vhr)]\<rparr>))"

definition dbms_update_vhr :: "dav_repos_resource \<Rightarrow> db \<Rightarrow> dav_error option \<times> db" where
  "dbms_update_vhr vhr =
     exec_or_500 ''DBMS Error''
       (\<lambda>s. Some (s\<lparr>vhrs := map (\<lambda>(h, root). (h, if h = dr_serialno vhr then dr_root_version_id vhr else root)) (vhrs s)\<rparr>))"

definition dbms_insert_vcr :: "dav_repos_resource \<Rightarrow> db \<Rightarrow> dav_error option \<times> dav_repos_resource \<times> db" where
  "dbms_insert_vcr r s =
     (case exec_or_500 ''DBMS Error''
             (\<lambda>s. if find_vcr (dr_serialno r) s \<noteq> None then None
                  else Some (s\<lparr>vcrs := vcrs s @ [\<lparr>c_resource_id = dr_serialno r, c_checked_id = dr_checked_id r,
                         c_vhr_id = dr_vhr_id r, c_checked_state = ''I'', c_version_type = dr_autoversion_type r,
                         c_checkin_on_unlock = 0\<rparr>]\<rparr>)) s of
        (e, s) \<Rightarrow> (e, r\<lparr>dr_checked_state := DAV_RESOURCE_CHECKED_IN, dr_checkin_on_unlock := True\<rparr>, s))"

definition dbms_set_autoversion_type ::
  "dav_repos_resource \<Rightarrow> int \<Rightarrow> db \<Rightarrow> dav_error option \<times> dav_repos_resource \<times> db" where
  "dbms_set_autoversion_type r av s =
     (case exec_or_500 ''DBMS Error'' (\<lambda>s. Some (set_vcr (dr_serialno r) (\<lambda>c. c\<lparr>c_version_type := av\<rparr>) s)) s of
        (Some e, s) \<Rightarrow> (Some e, r, s)
      | (None, s) \<Rightarrow> (None, r\<lparr>dr_autoversion_type := av\<rparr>, s))"

definition dbms_set_checkin_on_unlock :: "dav_repos_resource \<Rightarrow> db \<Rightarrow> dav_error option \<times> dav_repos_resource \<times> db" where
  "dbms_set_checkin_on_unlock r s =
     (case exec_or_500 ''Couldn't unversion the vhr's vcrs''
             (\<lambda>s. Some (set_vcr (dr_serialno r) (\<lambda>c. c\<lparr>c_checkin_on_unlock := 1\<rparr>) s)) s of
        (Some e, s) \<Rightarrow> (Some e, r, s)
      | (None, s) \<Rightarrow> (None, r\<lparr>dr_checkin_on_unlock := True\<rparr>, s))"

text \<open>The bindings of a collection version are those of the collection whose resource is version
  controlled, each to the history of that resource.\<close>

fun insert_all :: "(string \<times> id \<times> datetime) list \<Rightarrow> id \<Rightarrow> db \<Rightarrow> db option" where
  "insert_all [] coll s = Some s"
| "insert_all ((n, r, t) # bs) coll s =
     (case insert_bind_row t r coll n s of None \<Rightarrow> None | Some s \<Rightarrow> insert_all bs coll s)"

definition versioned_binds :: "id \<Rightarrow> db \<Rightarrow> (string \<times> id \<times> datetime) list" where
  "versioned_binds coll s =
     concat (map (\<lambda>b. map (\<lambda>c. (b_name b, c_vhr_id c, b_updated_at b))
         (filter (\<lambda>c. c_resource_id c = b_resource_id b) (vcrs s)))
       (filter (\<lambda>b. b_collection_id b = coll) (binds s)))"

definition dbms_copy_resource_collection_version ::
  "dav_repos_resource \<Rightarrow> dav_repos_resource \<Rightarrow> db \<Rightarrow> dav_error option \<times> db" where
  "dbms_copy_resource_collection_version src dst s =
     (if (dr_resourcetype src = dav_repos_COLLECTION \<or> dr_resourcetype src = dav_repos_VERSIONED_COLLECTION)
         \<and> dr_resourcetype dst = dav_repos_COLLECTION_VERSION
      then exec_or_500 (''DBMS Error while intersting into '' @ quoted ''binds'')
             (\<lambda>s. insert_all (versioned_binds (dr_serialno src) s) (dr_serialno dst) s) s
      else (None, s))"

text \<open>
  The first statement of \<open>dbms_restore_vcc\<close> has \<open>USING resource_id\<close> where the language wants
  parentheses around the column (and the second one leaves a parenthesis open): the server
  refuses it, whatever the tables hold.
\<close>

definition dbms_restore_vcc :: "dav_repos_resource \<Rightarrow> dav_repos_resource \<Rightarrow> db \<Rightarrow> dav_error option \<times> db" where
  "dbms_restore_vcc vcc cvr = exec_or_500 ''DBMS Error'' (\<lambda>s. None)"

section \<open>The versions of a history\<close>

definition version_item :: "dav_repos_resource \<Rightarrow> dav_repos_resource \<Rightarrow> version_row \<Rightarrow> resource_row \<Rightarrow> media_row option
    \<Rightarrow> string option \<Rightarrow> dav_repos_resource" where
  "version_item vhr item v w m name =
     (let item = item\<lparr>dr_serialno := r_id w, dr_resourcetype := dav_repos_get_type_id (r_type w),
            dr_uuid := Some (r_uuid w), dr_created_at := Some (r_created_at w),
            dr_updated_at := Some (case m of None \<Rightarrow> [] | Some m \<Rightarrow> m_updated_at m),
            dr_getcontentlanguage := Some (r_contentlanguage w), dr_version := n_number v,
            dr_uri := Some (sabridge_mk_version_uri vhr (n_number v)), dr_vcr_id := id_of (n_vcr_id v),
            dr_creator_displayname := Some (column name)\<rparr>
      in if dr_resourcetype item = dav_repos_VERSION
         then item\<lparr>dr_getcontentlength := (case m of None \<Rightarrow> 0 | Some m \<Rightarrow> m_size m),
                   dr_getcontenttype := Some (case m of None \<Rightarrow> [] | Some m \<Rightarrow> m_mimetype m),
                   dr_sha1str := Some (case m of None \<Rightarrow> [] | Some m \<Rightarrow> m_sha1 m)\<rparr>
         else item)"

text \<open>The rows in the order of the version numbers: the versions joined with their resources, the
  first body and the creator's name, if any (the tables have at most one).\<close>

definition version_rows :: "id \<Rightarrow> db \<Rightarrow> (version_row \<times> resource_row \<times> media_row option \<times> string option) list" where
  "version_rows h s =
     concat (map (\<lambda>v. case find_resource (n_resource_id v) s of
         None \<Rightarrow> []
       | Some w \<Rightarrow> [(v, w, find (\<lambda>m. m_resource_id m = n_resource_id v) (media s),
                    map_option snd (find (\<lambda>(i, n). i = r_creator_id w) (principals s)))])
       (sort_key n_number (filter (\<lambda>v. n_vhr_id v = h) (versions s))))"

definition dbms_get_vhr_versions ::
  "dav_repos_resource \<Rightarrow> db \<Rightarrow> ((dav_error + dav_repos_resource list) \<times> db) option" where
  "dbms_get_vhr_versions vhr s =
     (case run_select s of
        (True, s) \<Rightarrow> Some (Inl (dav_new_error HTTP_INTERNAL_SERVER_ERROR ''DBMS Error couldn't get versions of vhr''), s)
      | (False, s) \<Rightarrow>
          (case version_rows (dr_serialno vhr) s of
             [] \<Rightarrow> None
           | rows \<Rightarrow>
               (case sabridge_new_dbr_from_dbr vhr of
                  None \<Rightarrow> None
                | Some item \<Rightarrow>
                    (let vs = map (\<lambda>(v, w, m, n). version_item vhr item v w m n) rows
                     in Some (Inr (butlast vs @ [(last vs)\<lparr>dr_lastversion := True\<rparr>]), s)))))"

definition unversion :: "nat \<Rightarrow> nat \<Rightarrow> id \<Rightarrow> db \<Rightarrow> db" where
  "unversion plain versioned h s =
     s\<lparr>resources := map (\<lambda>w. if r_id w \<in> c_resource_id ` set (filter (\<lambda>c. c_vhr_id c = h) (vcrs s))
                             \<and> r_type w = type_name versioned
                           then w\<lparr>r_type := type_name plain\<rparr> else w) (resources s)\<rparr>"

definition dbms_unversion_vhr_vcrs :: "dav_repos_resource \<Rightarrow> db \<Rightarrow> dav_error option \<times> db" where
  "dbms_unversion_vhr_vcrs vhr s =
     (case exec_or_500 ''Couldn't unversion the vhr's vcrs''
             (\<lambda>s. Some (unversion dav_repos_RESOURCE dav_repos_VERSIONED (dr_serialno vhr) s)) s of
        (Some e, s) \<Rightarrow> (Some e, s)
      | (None, s) \<Rightarrow> exec_or_500 ''Couldn't unversion the vhr's vcrs''
             (\<lambda>s. Some (unversion dav_repos_COLLECTION dav_repos_VERSIONED_COLLECTION (dr_serialno vhr) s)) s)"

end
