(* ===== verification/Children.thy ===== *)
theory Children
  imports Deltav Paths AclFacts "HOL-Library.Multiset"
begin

text \<open>
  The members of collections: \<open>dbms_get_collection_resource\<close> of \<^verbatim>\<open>dbms.c\<close> reads the members of a
  list of collections in one query, \<open>sabridge_get_collection_children\<close> of \<^verbatim>\<open>bridge.c\<close> repeats it
  level by level. Bindings may form cycles: an element whose resource was met before gets a
  pointer \<open>bind\<close> to the earlier element and is not expanded.
\<close>

section \<open>One level\<close>

definition is_collection :: "nat \<Rightarrow> bool" where
  "is_collection t \<longleftrightarrow> t = dav_repos_COLLECTION \<or> t = dav_repos_VERSIONED_COLLECTION"

text \<open>The elements of the list whose members are asked for; the others are skipped.\<close>

definition expanded :: "dav_repos_resource list \<Rightarrow> dav_repos_resource list" where
  "expanded cs = filter (\<lambda>c. dr_bind c = None \<and> is_collection (dr_resourcetype c)) cs"

definition id_uri_hash :: "dav_repos_resource list \<Rightarrow> id \<rightharpoonup> string" where
  "id_uri_hash cs = map_of (rev (concat (map (\<lambda>c. case dr_uri c of None \<Rightarrow> [] | Some u \<Rightarrow> [(dr_serialno c, u)]) (expanded cs))))"

text \<open>
  The access control of the query: the best entry by
  \<open>ORDER BY CHAR_LENGTH(par_res_path) DESC, protected DESC, id\<close>, for a privilege of that name in
  any namespace.
\<close>

definition list_rank :: "ace_row \<times> string \<Rightarrow> int \<times> int \<times> int" where
  "list_rank = (\<lambda>(a, q). (- int (length q), if a_protected a then 0 else 1, a_id a))"

definition listed_ace :: "id \<Rightarrow> string \<Rightarrow> id \<Rightarrow> db \<Rightarrow> ace_row option" where
  "listed_ace p priv r s =
     (case sort_key list_rank (relevant_aces p (\<lambda>c. v_name c = priv) r s) of [] \<Rightarrow> None | (a, q) # _ \<Rightarrow> Some a)"

definition may_list :: "(id \<times> string) option \<Rightarrow> id \<Rightarrow> db \<Rightarrow> bool" where
  "may_list acl r s =
     (case acl of None \<Rightarrow> True
      | Some (p, priv) \<Rightarrow> (case listed_ace p priv r s of None \<Rightarrow> False | Some a \<Rightarrow> a_grantdeny a = ''G''))"

definition DIR_MAGIC_TYPE :: string where "DIR_MAGIC_TYPE = ''httpd/unix-directory''"

definition child_uri :: "string option \<Rightarrow> string \<Rightarrow> string" where
  "child_uri parent_uri name =
     (case parent_uri of
        Some u \<Rightarrow> if u \<noteq> ''/'' then u @ ''/'' @ name else ''/'' @ name
      | None \<Rightarrow> ''/'' @ name)"

text \<open>The columns of the tables of versions for an element, by its type.\<close>

definition child_deltav :: "db \<Rightarrow> dav_repos_resource \<Rightarrow> dav_repos_resource" where
  "child_deltav s c =
     (if dr_resourcetype c = dav_repos_VERSIONED \<or> dr_resourcetype c = dav_repos_VERSIONED_COLLECTION then
        (case find_vcr (dr_serialno c) s of
           None \<Rightarrow> c\<lparr>dr_vhr_id := 0, dr_autoversion_type := 0, dr_checkin_on_unlock := False\<rparr>
         | Some v \<Rightarrow>
             (let num = (case find_version (c_checked_id v) s of None \<Rightarrow> 0 | Some n \<Rightarrow> n_number n);
                  c = (case c_checked_state v of
                         CHR ''I'' # _ \<Rightarrow> c\<lparr>dr_checked_state := DAV_RESOURCE_CHECKED_IN, dr_vr_num := num\<rparr>
                       | CHR ''O'' # _ \<Rightarrow> c\<lparr>dr_checked_state := DAV_RESOURCE_CHECKED_OUT, dr_vr_num := num\<rparr>
                       | _ \<Rightarrow> c)
              in c\<lparr>dr_vhr_id := c_vhr_id v, dr_autoversion_type := c_version_type v,
                   dr_checkin_on_unlock := (c_checkin_on_unlock v \<noteq> 0)\<rparr>))
      else if dr_resourcetype c = dav_repos_VERSION \<or> dr_resourcetype c = dav_repos_COLLECTION_VERSION then
        (case find_version (dr_serialno c) s of
           None \<Rightarrow> c\<lparr>dr_vcr_id := 0, dr_version := 0\<rparr>
         | Some v \<Rightarrow> c\<lparr>dr_vcr_id := id_of (n_vcr_id v), dr_version := n_number v,
                       dr_lastversion := (dr_lastversion c \<or> list_ex (\<lambda>k. c_checked_id k = dr_serialno c) (vcrs s))\<rparr>)
      else c)"

definition child_item :: "dav_repos_resource \<Rightarrow> datetime option \<Rightarrow> (id \<rightharpoonup> string) \<Rightarrow> bind_row \<Rightarrow> resource_row \<Rightarrow> db \<Rightarrow> dav_repos_resource" where
  "child_item item upd uris b w s =
     (let t = dav_repos_get_type_id (r_type w);
          m = find (\<lambda>m. m_resource_id m = r_id w) (media s);
          c = item\<lparr>dr_serialno := r_id w, dr_parent_id := b_collection_id b,
                dr_uri := Some (child_uri (uris (b_collection_id b)) (b_name b)), dr_bind_id := b_id b,
                dr_created_at := Some (r_created_at w), dr_displayname := Some (column (r_displayname w)),
                dr_updated_at := greatest [Some (r_lastmodified w), upd, Some (b_updated_at b)],
                dr_getcontentlanguage := Some (r_contentlanguage w), dr_owner_id := r_owner_id w,
                dr_comment := Some (column (r_comment w)), dr_creator_id := r_creator_id w, dr_resourcetype := t,
                dr_uuid := Some (r_uuid w), dr_limebar_state := Some (column (r_limebar_state w)),
                dr_creator_displayname :=
                  Some (column (map_option snd (find (\<lambda>(i, n). i = r_creator_id w) (principals s))))\<rparr>;
          c = (if is_collection t then c\<lparr>dr_getcontenttype := Some DIR_MAGIC_TYPE\<rparr> else c);
          c = (if has_body t
               then c\<lparr>dr_getcontentlength := (case m of None \<Rightarrow> 0 | Some m \<Rightarrow> m_size m),
                      dr_getcontenttype := Some (case m of None \<Rightarrow> [] | Some m \<Rightarrow> m_mimetype m),
                      dr_sha1str := Some (case m of None \<Rightarrow> [] | Some m \<Rightarrow> m_sha1 m)\<rparr>
               else c)
      in child_deltav s c)"

text \<open>The rows of the query: a binding whose collection is asked for, with its resource.\<close>

definition child_binds :: "dav_repos_resource list \<Rightarrow> db \<Rightarrow> (bind_row \<times> resource_row) list" where
  "child_binds cs s =
     concat (map (\<lambda>b. case find_resource (b_resource_id b) s of None \<Rightarrow> [] | Some w \<Rightarrow> [(b, w)])
       (filter (\<lambda>b. b_collection_id b \<in> dr_serialno ` set (expanded cs)) (binds s)))"

text \<open>
  \<open>dbms_get_collection_resource\<close>: the elements and the number of rows, which counts the ones
  that access control hides. The request is taken from the first element, and so are the
  structures of the result.
\<close>

definition dbms_get_collection_resource ::
  "(id \<times> string) option \<Rightarrow> dav_repos_resource list \<Rightarrow> db
    \<Rightarrow> ((dav_error + dav_repos_resource list \<times> nat) \<times> db) option" where
  "dbms_get_collection_resource acl cs s =
     (case cs of
        [] \<Rightarrow> None
      | r # _ \<Rightarrow>
          (case sabridge_new_dbr_from_dbr r of
             None \<Rightarrow> None
           | Some item \<Rightarrow>
               Some (case run_select s of
                  (True, s) \<Rightarrow> (Inl (dav_new_error HTTP_INTERNAL_SERVER_ERROR ''Can't get collection resource''), s)
                | (False, s) \<Rightarrow>
                    (let rows = child_binds cs s
                     in (Inr (map (\<lambda>(b, w). child_item item (dr_updated_at r) (id_uri_hash cs) b w s)
                                (filter (\<lambda>(b, w). may_list acl (r_id w) s) rows),
                              length rows), s)))))"

section \<open>All levels\<close>

text \<open>The table of the resources met so far; each element gets its pointer to an earlier one.\<close>

fun mark_level :: "dav_repos_resource list \<Rightarrow> (id \<rightharpoonup> string) \<Rightarrow> dav_repos_resource list \<times> (id \<rightharpoonup> string)" where
  "mark_level [] h = ([], h)"
| "mark_level (c # cs) h =
     (case mark_level cs (h(dr_serialno c \<mapsto> column (dr_uri c))) of
        (cs', h') \<Rightarrow> (c\<lparr>dr_bind := h (dr_serialno c)\<rparr> # cs', h'))"

lemma mark_level_dom: "mark_level cs h = (cs', h') \<Longrightarrow> dom h' = dom h \<union> dr_serialno ` set cs"
  by (induction cs arbitrary: h cs' h') (auto split: prod.splits simp: insert_commute)

lemma mark_level_item:
  "mark_level cs h = (cs', h') \<Longrightarrow> c \<in> set cs' \<Longrightarrow> dr_bind c = None \<Longrightarrow> dr_serialno c \<notin> dom h \<and> dr_serialno c \<in> dom h'"
proof (induction cs arbitrary: h cs' h')
  case (Cons a cs)
  obtain ds g where m: "mark_level cs (h(dr_serialno a \<mapsto> column (dr_uri a))) = (ds, g)" by fastforce
  with Cons.prems(1) have e: "cs' = a\<lparr>dr_bind := h (dr_serialno a)\<rparr> # ds" "h' = g" by simp_all
  note d = mark_level_dom [OF m]
  from Cons.prems(2) e consider "c = a\<lparr>dr_bind := h (dr_serialno a)\<rparr>" | "c \<in> set ds" by auto
  then show ?case
  proof cases
    case 1
    with Cons.prems(3) d e show ?thesis by auto
  next
    case 2
    from Cons.IH [OF m this Cons.prems(3)] e show ?thesis by (auto split: if_splits)
  qed
qed simp

lemma children_measure:
  assumes "mark_level cs h = (cs', h')" "run_select s = (False, s')" "child_binds cs' s' \<noteq> []"
  shows "card (b_collection_id ` set (binds s') - dom h') < card (b_collection_id ` set (binds s) - dom h)"
proof -
  have eq: "binds s' = binds s" using run_select_same [OF assms(2)] by (simp add: tables_eqD)
  from assms(3) obtain b where b: "b \<in> set (binds s')" "b_collection_id b \<in> dr_serialno ` set (expanded cs')"
    by (auto simp: child_binds_def)
  then obtain c where c: "c \<in> set cs'" "dr_bind c = None" "b_collection_id b = dr_serialno c"
    by (auto simp: expanded_def)
  with mark_level_item [OF assms(1)] have "b_collection_id b \<notin> dom h" "b_collection_id b \<in> dom h'" by metis+
  then show ?thesis
    using b(1) mark_level_dom [OF assms(1)] eq by (intro psubset_card_mono) auto
qed

lemma get_collection_step:
  assumes "dbms_get_collection_resource acl cs s = Some (Inr (ds, k), s')" "ds \<noteq> []"
  shows "run_select s = (False, s') \<and> child_binds cs s' \<noteq> []"
  using assms
  by (auto simp: dbms_get_collection_resource_def Let_def split: list.splits option.splits prod.splits bool.splits)

text \<open>
  The loop. The pointer that the first round passes as the end of the list is not initialised;
  the walk over the list then ends at its end. \<open>acc\<close> is the list built so far.
\<close>

function levels_loop ::
  "(id \<times> string) option \<Rightarrow> bool \<Rightarrow> dav_repos_resource list \<Rightarrow> (id \<rightharpoonup> string) \<Rightarrow> dav_repos_resource list \<Rightarrow> nat \<Rightarrow> db
    \<Rightarrow> ((dav_error + dav_repos_resource list \<times> nat) \<times> db) option" where
  "levels_loop acl deep cs h acc n s =
     (if cs = [] then Some (Inr (acc, n), s)
      else case mark_level cs h of (cs', h') \<Rightarrow>
        if \<not> deep then Some (Inr (acc @ cs', n), s)
        else case dbms_get_collection_resource acl cs' s of
          None \<Rightarrow> None
        | Some (Inl e, s') \<Rightarrow> Some (Inl e, s')
        | Some (Inr (ds, k), s') \<Rightarrow>
            if ds = [] then Some (Inr (acc @ cs', n), s')
            else levels_loop acl deep ds h' (acc @ cs') (n + k) s')"
  by pat_completeness auto

termination
  by (relation "measure (\<lambda>(acl, deep, cs, h, acc, n, s). card (b_collection_id ` set (binds s) - dom h))")
    (auto intro!: children_measure dest: get_collection_step)

declare levels_loop.simps [simp del]

definition sabridge_get_collection_children ::
  "(id \<times> string) option \<Rightarrow> dav_repos_resource \<Rightarrow> int \<Rightarrow> db
    \<Rightarrow> ((dav_error + dav_repos_resource list \<times> nat) \<times> db) option" where
  "sabridge_get_collection_children acl r d s =
     (if d = 0 then Some (Inr ([], 0), s)
      else case dbms_get_collection_resource acl [r] s of
        None \<Rightarrow> None
      | Some (Inl e, s) \<Rightarrow> Some (Inl e, s)
      | Some (Inr (cs, n), s) \<Rightarrow>
          levels_loop acl (d = DAV_INFINITY) cs [dr_serialno r \<mapsto> column (dr_uri r)] [] n s)"

section \<open>What the walk finds\<close>

definition has_resource :: "db \<Rightarrow> id \<Rightarrow> bool" where
  "has_resource s i \<longleftrightarrow> find_resource i s \<noteq> None"

definition collection_row :: "db \<Rightarrow> id \<Rightarrow> bool" where
  "collection_row s i \<longleftrightarrow> (\<exists>w. find_resource i s = Some w \<and> is_collection (dav_repos_get_type_id (r_type w)))"

text \<open>The bindings of a set of collections, and the descent from a collection to a member that is one.\<close>

definition binds_of :: "db \<Rightarrow> id set \<Rightarrow> bind_row list" where
  "binds_of s V = filter (\<lambda>b. b_collection_id b \<in> V \<and> has_resource s (b_resource_id b)) (binds s)"

definition descend :: "db \<Rightarrow> (id \<times> id) set" where
  "descend s = {(b_collection_id b, b_resource_id b) | b. b \<in> set (binds s) \<and> collection_row s (b_resource_id b)}"

lemma collection_has: "collection_row s i \<Longrightarrow> has_resource s i"
  by (auto simp: collection_row_def has_resource_def)

lemma child_deltav_select [simp]:
  "dr_serialno (child_deltav s c) = dr_serialno c" "dr_bind_id (child_deltav s c) = dr_bind_id c"
  "dr_resourcetype (child_deltav s c) = dr_resourcetype c" "dr_bind (child_deltav s c) = dr_bind c"
  "dr_resource (child_deltav s c) = dr_resource c"
  by (auto simp: child_deltav_def Let_def split: option.splits list.splits char.splits bool.splits)

text \<open>An element of a level: its row exists, its type is that of the row, and it is attached and unmarked.\<close>

definition fresh_item :: "db \<Rightarrow> dav_repos_resource \<Rightarrow> bool" where
  "fresh_item s c \<longleftrightarrow> dr_bind c = None \<and> dr_resource c \<noteq> None \<and> has_resource s (dr_serialno c) \<and>
     is_collection (dr_resourcetype c) = collection_row s (dr_serialno c)"

lemma child_item_select:
  assumes "find_resource i s = Some w" "dr_resource item \<noteq> None" "dr_bind item = None"
  shows "dr_serialno (child_item item upd uris b w s) = i" "dr_bind_id (child_item item upd uris b w s) = b_id b"
    "fresh_item s (child_item item upd uris b w s)"
proof -
  have w: "r_id w = i" using assms(1) by (auto simp: find_resource_def find_Some_iff)
  show "dr_serialno (child_item item upd uris b w s) = i" "dr_bind_id (child_item item upd uris b w s) = b_id b"
    by (simp_all add: child_item_def Let_def w)
  show "fresh_item s (child_item item upd uris b w s)"
    using assms w by (simp add: child_item_def Let_def fresh_item_def has_resource_def collection_row_def)
qed

lemma get_children_healthy:
  assumes "fault s = []" "cs \<noteq> []" "dr_resource (hd cs) \<noteq> None"
  obtains ds k where "dbms_get_collection_resource None cs s = Some (Inr (ds, k), s)"
    "map dr_bind_id ds = map b_id (binds_of s (dr_serialno ` set (expanded cs)))"
    "map dr_serialno ds = map b_resource_id (binds_of s (dr_serialno ` set (expanded cs)))"
    "list_all (fresh_item s) ds"
proof -
  let ?W = "dr_serialno ` set (expanded cs)"
  obtain r rest where cs: "cs = r # rest" using assms(2) by (cases cs) auto
  define item where "item = zero_dbr\<lparr>dr_resource := Some zero_resource, dr_root_path := dr_root_path r\<rparr>"
  define f where "f = (\<lambda>(b, w). child_item item (dr_updated_at r) (id_uri_hash cs) b w s)"
  have item: "sabridge_new_dbr_from_dbr r = Some item" "dr_resource item \<noteq> None" "dr_bind item = None"
    using assms(3) cs by (simp_all add: sabridge_new_dbr_from_dbr_def item_def zero_dbr_def)
  have run: "dbms_get_collection_resource None cs s = Some (Inr (map f (child_binds cs s), length (child_binds cs s)), s)"
    using item(1) assms(1)
    by (simp add: dbms_get_collection_resource_def cs run_stmt_healthy may_list_def Let_def f_def)
  have rows: "map (dr_bind_id \<circ> f) (concat (map (\<lambda>b. case find_resource (b_resource_id b) s of None \<Rightarrow> [] | Some w \<Rightarrow> [(b, w)]) bs))
        = map b_id (filter (\<lambda>b. has_resource s (b_resource_id b)) bs)"
      "map (dr_serialno \<circ> f) (concat (map (\<lambda>b. case find_resource (b_resource_id b) s of None \<Rightarrow> [] | Some w \<Rightarrow> [(b, w)]) bs))
        = map b_resource_id (filter (\<lambda>b. has_resource s (b_resource_id b)) bs)"
      "list_all (fresh_item s) (map f (concat (map (\<lambda>b. case find_resource (b_resource_id b) s of None \<Rightarrow> [] | Some w \<Rightarrow> [(b, w)]) bs)))"
    for bs
    by (induction bs) (auto simp: f_def child_item_select [OF _ item(2,3)] has_resource_def split: option.splits)
  have "map dr_bind_id (map f (child_binds cs s)) = map b_id (binds_of s ?W)"
    "map dr_serialno (map f (child_binds cs s)) = map b_resource_id (binds_of s ?W)"
    using rows by (simp_all add: child_binds_def binds_of_def conj_commute)
  moreover have "list_all (fresh_item s) (map f (child_binds cs s))"
    unfolding child_binds_def by (rule rows(3))
  ultimately show ?thesis using that [OF run] by blast
qed

lemma mark_level_select:
  "mark_level cs h = (cs', h') \<Longrightarrow>
     map dr_bind_id cs' = map dr_bind_id cs \<and> map dr_serialno cs' = map dr_serialno cs \<and>
     map dr_resource cs' = map dr_resource cs \<and> map dr_resourcetype cs' = map dr_resourcetype cs"
  by (induction cs arbitrary: h cs' h') (auto split: prod.splits)

text \<open>What a marked level expands: the collections that had not been met.\<close>

lemma mark_level_expanded:
  "mark_level cs h = (cs', h') \<Longrightarrow> list_all (fresh_item s) cs \<Longrightarrow>
     dr_serialno ` set (expanded cs') = {i \<in> dr_serialno ` set cs. i \<notin> dom h \<and> collection_row s i}"
proof (induction cs arbitrary: h cs' h')
  case (Cons c cs)
  obtain ds g where m: "mark_level cs (h(dr_serialno c \<mapsto> column (dr_uri c))) = (ds, g)" by fastforce
  with Cons.prems(1) have e: "cs' = c\<lparr>dr_bind := h (dr_serialno c)\<rparr> # ds" by simp
  have IH: "dr_serialno ` set (expanded ds)
      = {i \<in> dr_serialno ` set cs. i \<notin> dom (h(dr_serialno c \<mapsto> column (dr_uri c))) \<and> collection_row s i}"
    using Cons.IH [OF m] Cons.prems(2) by (simp del: fun_upd_apply)
  have c: "is_collection (dr_resourcetype c) = collection_row s (dr_serialno c)"
    using Cons.prems(2) by (simp add: fresh_item_def)
  have "expanded cs' = (if h (dr_serialno c) = None \<and> collection_row s (dr_serialno c)
      then c\<lparr>dr_bind := h (dr_serialno c)\<rparr> # expanded ds else expanded ds)"
    using e c by (simp add: expanded_def)
  with IH show ?case by (auto simp: dom_def)
qed (simp add: expanded_def)

definition levels_inv :: "db \<Rightarrow> id \<Rightarrow> id set \<Rightarrow> dav_repos_resource list \<Rightarrow> (id \<rightharpoonup> string) \<Rightarrow> dav_repos_resource list \<Rightarrow> bool" where
  "levels_inv s root V cs h acc \<longleftrightarrow>
     list_all (fresh_item s) cs \<and> root \<in> V \<and> V \<subseteq> (descend s)\<^sup>* `` {root} \<and>
     V = {i \<in> dom h. i = root \<or> collection_row s i} \<and>
     dom h \<union> dr_serialno ` set cs = insert root (b_resource_id ` set (binds_of s V)) \<and>
     mset (map dr_bind_id (acc @ cs)) = mset (map b_id (binds_of s V))"

lemma binds_of_Un:
  assumes "V \<inter> W = {}"
  shows "mset (map b_id (binds_of s (V \<union> W))) = mset (map b_id (binds_of s V)) + mset (map b_id (binds_of s W))"
    and "set (binds_of s (V \<union> W)) = set (binds_of s V) \<union> set (binds_of s W)"
proof -
  have "mset (map b_id (filter (\<lambda>b. b_collection_id b \<in> V \<union> W \<and> P b) bs))
    = mset (map b_id (filter (\<lambda>b. b_collection_id b \<in> V \<and> P b) bs)) + mset (map b_id (filter (\<lambda>b. b_collection_id b \<in> W \<and> P b) bs))"
    for P bs using assms by (induction bs) auto
  then show "mset (map b_id (binds_of s (V \<union> W))) = mset (map b_id (binds_of s V)) + mset (map b_id (binds_of s W))"
    by (simp add: binds_of_def)
  show "set (binds_of s (V \<union> W)) = set (binds_of s V) \<union> set (binds_of s W)" by (auto simp: binds_of_def)
qed

lemma levels_step:
  assumes inv: "levels_inv s root V cs h acc" and m: "mark_level cs h = (cs', h')"
    and W: "W = dr_serialno ` set (expanded cs')"
    and ds: "map dr_bind_id ds = map b_id (binds_of s W)" "map dr_serialno ds = map b_resource_id (binds_of s W)"
      "list_all (fresh_item s) ds"
  shows "levels_inv s root (V \<union> W) ds h' (acc @ cs')"
proof -
  have fresh: "list_all (fresh_item s) cs" and V: "V = {i \<in> dom h. i = root \<or> collection_row s i}" "root \<in> V"
    and R: "V \<subseteq> (descend s)\<^sup>* `` {root}"
    and d: "dom h \<union> dr_serialno ` set cs = insert root (b_resource_id ` set (binds_of s V))"
    and ms: "mset (map dr_bind_id (acc @ cs)) = mset (map b_id (binds_of s V))"
    using inv unfolding levels_inv_def by - (elim conjE, assumption)+
  have Weq: "W = {i \<in> dr_serialno ` set cs. i \<notin> dom h \<and> collection_row s i}"
    using mark_level_expanded [OF m fresh] W by simp
  have dom: "dom h' = dom h \<union> dr_serialno ` set cs" by (rule mark_level_dom [OF m])
  have disj: "V \<inter> W = {}" unfolding Weq by (subst V(1)) blast
  have "W \<subseteq> (descend s)\<^sup>* `` {root}"
  proof
    fix i
    assume "i \<in> W"
    then have i: "i \<in> dr_serialno ` set cs" "i \<notin> dom h" "collection_row s i" using Weq by auto
    have "root \<in> dom h" using V(2) by (subst (asm) V(1)) simp
    with i(2) have "i \<noteq> root" by metis
    moreover have "i \<in> insert root (b_resource_id ` set (binds_of s V))" using i(1) by (subst d [symmetric]) simp
    ultimately obtain b where "b \<in> set (binds_of s V)" "b_resource_id b = i" by auto
    then have "(b_collection_id b, i) \<in> descend s" "b_collection_id b \<in> V"
      using i(3) by (auto simp: binds_of_def descend_def)
    with R show "i \<in> (descend s)\<^sup>* `` {root}" by (auto intro: rtrancl_into_rtrancl)
  qed
  moreover have "V \<union> W = {i \<in> dom h'. i = root \<or> collection_row s i}"
  proof -
    have "root \<in> dom h" using V(2) by (subst (asm) V(1)) simp
    then show ?thesis unfolding dom Weq by (subst V(1)) blast
  qed
  moreover have "dom h' \<union> dr_serialno ` set ds = insert root (b_resource_id ` set (binds_of s (V \<union> W)))"
    using dom d binds_of_Un(2) [OF disj, of s] ds(2) by (metis (no_types, lifting) image_Un image_set Un_insert_left)
  moreover have "mset (map dr_bind_id ((acc @ cs') @ ds)) = mset (map b_id (binds_of s (V \<union> W)))"
    using ms ds(1) binds_of_Un(1) [OF disj, of s] mark_level_select [OF m] by simp
  moreover have "root \<in> V \<union> W" using V(2) by blast
  ultimately show ?thesis unfolding levels_inv_def using ds(3) R by (intro conjI) (assumption | blast)+
qed

text \<open>When nothing is left to expand, every reachable collection has been expanded.\<close>

lemma levels_done:
  assumes "levels_inv s root V [] h acc"
  shows "V = (descend s)\<^sup>* `` {root} \<and> mset (map dr_bind_id acc) = mset (map b_id (binds_of s ((descend s)\<^sup>* `` {root})))"
proof -
  have V: "V = {i \<in> dom h. i = root \<or> collection_row s i}" "root \<in> V" "V \<subseteq> (descend s)\<^sup>* `` {root}"
    and d: "dom h \<union> dr_serialno ` set ([] :: dav_repos_resource list) = insert root (b_resource_id ` set (binds_of s V))"
    and ms: "mset (map dr_bind_id (acc @ ([] :: dav_repos_resource list))) = mset (map b_id (binds_of s V))"
    using assms unfolding levels_inv_def by - (elim conjE, assumption)+
  have "descend s `` V \<subseteq> V"
  proof
    fix r
    assume "r \<in> descend s `` V"
    then obtain b where b: "b \<in> set (binds s)" "b_collection_id b \<in> V" "r = b_resource_id b" "collection_row s r"
      by (auto simp: descend_def)
    then have "r \<in> b_resource_id ` set (binds_of s V)" by (auto simp: binds_of_def collection_has)
    then have "r \<in> dom h" using d by simp
    with b(4) show "r \<in> V" by (subst V(1)) simp
  qed
  then have "(descend s)\<^sup>* `` V = V" by (rule Image_closed_trancl)
  moreover have "(descend s)\<^sup>* `` {root} \<subseteq> (descend s)\<^sup>* `` V" using V(2) by auto
  ultimately have "V = (descend s)\<^sup>* `` {root}" using V(3) by simp
  with ms show ?thesis by simp
qed

text \<open>The loop ends with every level done, and keeps any property of the table and the list that marking a level keeps.\<close>

lemma levels_loop_ends:
  assumes "fault s = []" "levels_inv s root V cs h acc" "J h acc"
    and J: "\<And>cs h cs' h' acc. J h acc \<Longrightarrow> mark_level cs h = (cs', h') \<Longrightarrow> list_all (fresh_item s) cs \<Longrightarrow> J h' (acc @ cs')"
  shows "\<exists>xs k V' h'. levels_loop None True cs h acc n s = Some (Inr (xs, k), s) \<and> levels_inv s root V' [] h' xs \<and> J h' xs"
  using assms(2,3)
proof (induction "card (b_collection_id ` set (binds s) - dom h)" arbitrary: V cs h acc n rule: less_induct)
  case less
  show ?case
  proof (cases "cs = []")
    case True
    with less.prems have "levels_inv s root V [] h acc" by simp
    with True less.prems(2) show ?thesis by (auto simp: levels_loop.simps [of None True "[]"])
  next
    case False
    obtain cs' h' where m: "mark_level cs h = (cs', h')" by fastforce
    note sel = mark_level_select [OF m]
    have fresh: "list_all (fresh_item s) cs" using less.prems(1) by (simp add: levels_inv_def)
    then have "dr_resource (hd cs) \<noteq> None" using False by (cases cs) (simp_all add: fresh_item_def)
    then have "cs' \<noteq> []" "dr_resource (hd cs') \<noteq> None" using sel False by (cases cs; cases cs'; simp)+
    from get_children_healthy [OF assms(1) this] obtain ds k where ds:
      "dbms_get_collection_resource None cs' s = Some (Inr (ds, k), s)"
      "map dr_bind_id ds = map b_id (binds_of s (dr_serialno ` set (expanded cs')))"
      "map dr_serialno ds = map b_resource_id (binds_of s (dr_serialno ` set (expanded cs')))"
      "list_all (fresh_item s) ds" by blast
    have inv: "levels_inv s root (V \<union> dr_serialno ` set (expanded cs')) ds h' (acc @ cs')"
      by (rule levels_step [OF less.prems(1) m refl ds(2-4)])
    have J': "J h' (acc @ cs')" by (rule J [OF less.prems(2) m fresh])
    show ?thesis
    proof (cases "ds = []")
      case True
      with False m ds(1) inv J' show ?thesis by (auto simp: levels_loop.simps [of None True cs])
    next
      case ne: False
      have "run_select s = (False, s)" "child_binds cs' s \<noteq> []" using get_collection_step [OF ds(1) ne] by auto
      then have "card (b_collection_id ` set (binds s) - dom h') < card (b_collection_id ` set (binds s) - dom h)"
        using children_measure [OF m] by blast
      from less.hyps [OF this inv J'] ne False m ds(1) show ?thesis
        by (simp add: levels_loop.simps [of None True cs])
    qed
  qed
qed

lemma levels_loop_correct:
  assumes "fault s = []" "levels_inv s root V cs h acc"
  shows "\<exists>xs k. levels_loop None True cs h acc n s = Some (Inr (xs, k), s) \<and>
     mset (map dr_bind_id xs) = mset (map b_id (binds_of s ((descend s)\<^sup>* `` {root})))"
  using levels_loop_ends [OF assms, of "\<lambda>h xs. True"] levels_done by blast

text \<open>The first level of a listing of all levels.\<close>

lemma first_level:
  assumes "fault s = []" and "dr_resource r \<noteq> None" and "dr_bind r = None" and "is_collection (dr_resourcetype r)"
  obtains ds k where
    "sabridge_get_collection_children None r DAV_INFINITY s = levels_loop None True ds [dr_serialno r \<mapsto> column (dr_uri r)] [] k s"
    "levels_inv s (dr_serialno r) {dr_serialno r} ds [dr_serialno r \<mapsto> column (dr_uri r)] []"
proof -
  let ?h = "[dr_serialno r \<mapsto> column (dr_uri r)]"
  have e: "expanded [r] = [r]" using assms(3,4) by (simp add: expanded_def)
  from get_children_healthy [OF assms(1), of "[r]"] assms(2) e obtain ds k where ds:
    "dbms_get_collection_resource None [r] s = Some (Inr (ds, k), s)"
    "map dr_bind_id ds = map b_id (binds_of s {dr_serialno r})"
    "map dr_serialno ds = map b_resource_id (binds_of s {dr_serialno r})" "list_all (fresh_item s) ds" by auto
  have "dr_serialno ` set ds = b_resource_id ` set (binds_of s {dr_serialno r})"
    using ds(3) by (metis image_set)
  then have "levels_inv s (dr_serialno r) {dr_serialno r} ds ?h []"
    using ds by (auto simp: levels_inv_def)
  then show ?thesis by (rule that [rotated]) (use ds(1) in \<open>simp add: sabridge_get_collection_children_def DAV_INFINITY_def\<close>)
qed

section \<open>Properties\<close>

text \<open>C19: Listing a collection to infinite depth returns, on any graph of bindings, cyclic ones included:
  it finds every binding of the collection and of every collection below it, each exactly
  once, and no other.\<close>

theorem get_collection_children_complete:
  assumes "fault s = []" and "dr_resource r \<noteq> None" and "dr_bind r = None" and "is_collection (dr_resourcetype r)"
  shows "\<exists>xs k. sabridge_get_collection_children None r DAV_INFINITY s = Some (Inr (xs, k), s) \<and>
     mset (map dr_bind_id xs) = mset (map b_id (binds_of s ((descend s)\<^sup>* `` {dr_serialno r})))"
  using first_level [OF assms] levels_loop_correct [OF assms(1)] by metis

definition cyclic_tree :: db where
  "cyclic_tree = empty_db\<lparr>resources := [a_resource 20 ''Collection'', a_resource 21 ''Collection'', a_resource 22 ''Resource''],
     binds := [\<lparr>b_id = 1, b_name = ''sub'', b_collection_id = 20, b_resource_id = 21, b_updated_at = []\<rparr>,
       \<lparr>b_id = 2, b_name = ''up'', b_collection_id = 21, b_resource_id = 20, b_updated_at = []\<rparr>,
       \<lparr>b_id = 3, b_name = ''f'', b_collection_id = 21, b_resource_id = 22, b_updated_at = []\<rparr>]\<rparr>"

definition tree_root :: dav_repos_resource where
  "tree_root = zero_dbr\<lparr>dr_resource := Some zero_resource, dr_serialno := 20, dr_uri := Some ''/t'', dr_resourcetype := dav_repos_COLLECTION\<rparr>"

theorem get_collection_children_complete_witness:
  "\<exists>xs k. sabridge_get_collection_children None tree_root DAV_INFINITY cyclic_tree = Some (Inr (xs, k), cyclic_tree) \<and>
     mset (map dr_bind_id xs) = mset (map b_id (binds_of cyclic_tree ((descend cyclic_tree)\<^sup>* `` {20})))"
  using get_collection_children_complete [of cyclic_tree tree_root]
  by (simp add: cyclic_tree_def tree_root_def empty_db_def zero_dbr_def is_collection_def)

lemma sort_key_order_cong:
  "(\<And>x y. x \<in> set xs \<Longrightarrow> y \<in> set xs \<Longrightarrow> (f x \<le> f y) = (g x \<le> g y)) \<Longrightarrow> sort_key f xs = sort_key g xs"
proof (induction xs)
  case (Cons x xs)
  have ins: "set ys \<subseteq> set xs \<Longrightarrow> insort_key f x ys = insort_key g x ys" for ys
    using Cons.prems by (induction ys) auto
  show ?case using Cons.IH Cons.prems ins [of "sort_key g xs"] by simp
qed simp

lemma relevant_aces_cong:
  assumes "\<And>c. c \<in> set (acl_privileges s) \<Longrightarrow> chi c = chi' c"
  shows "relevant_aces p chi r s = relevant_aces p chi' r s"
proof -
  have "list_ex (\<lambda>c. chi c \<and> contains_priv par c) (acl_privileges s)
      = list_ex (\<lambda>c. chi' c \<and> contains_priv par c) (acl_privileges s)" for par
    using assms by (auto simp: list_ex_iff)
  then have "containing_privs chi s = containing_privs chi' s" by (simp only: containing_privs_def)
  then show ?thesis by (simp add: relevant_aces_def)
qed

text \<open>C20: The query that lists a collection decides access on its own. It agrees with \<open>dbms_is_allow\<close> on
  a member when the name of the privilege is used in one namespace only and no entry that bears on
  the decision is protected.\<close>

theorem listing_agrees_with_decision:
  assumes ok: "fault s = []" and sup: "dav_repos_get_principal_id prin \<noteq> SUPER_USER_ID"
    and names: "\<And>c. c \<in> set (acl_privileges s) \<Longrightarrow> v_name c = pv \<Longrightarrow> v_ns c = ns"
    and unprot: "\<And>a q. (a, q) \<in> set (relevant_aces (dav_repos_get_principal_id prin) (named_priv ns pv) r s) \<Longrightarrow> \<not> a_protected a"
  shows "may_list (Some (dav_repos_get_principal_id prin, pv)) r s \<longleftrightarrow> fst (dbms_is_allow ns pv prin [] r None s) = 1"
proof -
  let ?p = "dav_repos_get_principal_id prin"
  let ?xs = "relevant_aces ?p (named_priv ns pv) r s"
  have same: "relevant_aces ?p (\<lambda>c. v_name c = pv) r s = ?xs"
    by (rule relevant_aces_cong) (auto simp: named_priv_def dest: names)
  have "sort_key list_rank ?xs = sort_key ace_rank ?xs"
  proof (rule sort_key_order_cong)
    fix x y
    assume "x \<in> set ?xs" "y \<in> set ?xs"
    then have "\<not> a_protected (fst x)" "\<not> a_protected (fst y)" by (metis unprot prod.collapse)+
    then show "(list_rank x \<le> list_rank y) = (ace_rank x \<le> ace_rank y)"
      by (auto simp: list_rank_def ace_rank_def split_def)
  qed
  then have "listed_ace ?p pv r s = first_ace ?p (named_priv ns pv) r s"
    by (simp add: listed_ace_def first_ace_def same)
  moreover have "\<not> cache_hit ns pv ?p None" by (simp add: cache_hit_def)
  ultimately show ?thesis
    using is_allow_healthy [OF ok sup, of ns pv None "[]" r]
    by (auto simp: may_list_def granted_def of_bool_def split: option.splits if_splits)
qed

theorem listing_agrees_with_decision_witness:
  "may_list (Some (12, ''read'')) 9 sample_acl \<longleftrightarrow> fst (dbms_is_allow 1 ''read'' (PRINCIPAL_HREF 12) [] 9 None sample_acl) = 1"
proof -
  have p: "list_all (\<lambda>c. v_name c = ''read'' \<longrightarrow> v_ns c = 1) (acl_privileges sample_acl)"
    "list_all (\<lambda>(a, q). \<not> a_protected a) (relevant_aces 12 (named_priv 1 ''read'') 9 sample_acl)" by code_simp+
  have "dav_repos_get_principal_id (PRINCIPAL_HREF 12) \<noteq> SUPER_USER_ID" by (simp add: SUPER_USER_ID_def)
  from listing_agrees_with_decision [OF sample_acl_facts(1) this, of "''read''" 1 9] p show ?thesis
    by (auto simp: list_all_iff)
qed

definition protected_acl :: db where
  "protected_acl = sample_acl\<lparr>aces := [\<lparr>a_id = 1, a_grantdeny = ''G'', a_protected = True, a_resource_id = 2, a_principal_id = 12,
                a_property_namespace_id = None, a_property_name = None\<rparr>,
               \<lparr>a_id = 2, a_grantdeny = ''D'', a_protected = False, a_resource_id = 9, a_principal_id = 10,
                a_property_namespace_id = None, a_property_name = None\<rparr>], dav_aces_privileges := [(1, 1), (2, 2)]\<rparr>"

text \<open>With a protected entry the two orders differ: the decision puts protected entries first, the
  listing those of the longest path. So a resource that its owner may read is missing from the
  listing of its collection.\<close>

theorem listing_hides_readable:
  "fst (dbms_is_allow 1 ''read'' (PRINCIPAL_HREF 12) [] 9 None protected_acl) = 1 \<and>
   \<not> may_list (Some (12, ''read'')) 9 protected_acl"
  by code_simp

end
