(* ===== verification/Lifecycle.thy ===== *)
theory Lifecycle
  imports Children ResourceFacts
begin

text \<open>
  The life of a resource in \<^verbatim>\<open>bridge.c\<close>, \<^verbatim>\<open>deltav_bridge.c\<close> and \<^verbatim>\<open>gc.c\<close>: reading it
  (\<open>sabridge_get_property\<close>), finding its parent, unbinding it, deleting it when it can no longer be
  reached from the root, and the collector thread that does so in the background. Bodies are
  files named by their SHA-1; the directory of bodies is the list of these names beside the
  database. An outer \<open>None\<close> is a read through a null or uninitialised pointer.
\<close>

section \<open>Reading a resource\<close>

definition dav_repos_REDIRECT :: nat where "dav_repos_REDIRECT = 6"
definition dav_repos_PRINCIPAL :: nat where "dav_repos_PRINCIPAL = 3"

text \<open>The part of \<open>dav_repos_update_dbr_resource\<close> that depends on the type.\<close>

definition set_type :: "dav_repos_resource \<Rightarrow> dav_resource \<Rightarrow> dav_resource" where
  "set_type r rs =
     (let t = dr_resourcetype r; out = (dr_checked_state r = DAV_RESOURCE_CHECKED_OUT)
      in if t = dav_repos_RESOURCE then rs\<lparr>rs_type := DAV_RESOURCE_TYPE_REGULAR\<rparr>
         else if t = dav_repos_COLLECTION then rs\<lparr>rs_type := DAV_RESOURCE_TYPE_REGULAR, rs_collection := True\<rparr>
         else if t = dav_repos_VERSIONED_COLLECTION
         then rs\<lparr>rs_type := DAV_RESOURCE_TYPE_REGULAR, rs_collection := True, rs_working := out, rs_versioned := True\<rparr>
         else if t = dav_repos_COLLECTION_VERSION then rs\<lparr>rs_type := DAV_RESOURCE_TYPE_VERSION, rs_collection := True\<rparr>
         else if t = dav_repos_VERSIONED
         then rs\<lparr>rs_type := DAV_RESOURCE_TYPE_REGULAR, rs_working := out, rs_versioned := True\<rparr>
         else if t = dav_repos_VERSION then rs\<lparr>rs_type := DAV_RESOURCE_TYPE_VERSION\<rparr>
         else if t = dav_repos_VERSIONHISTORY then rs\<lparr>rs_type := DAV_RESOURCE_TYPE_HISTORY\<rparr>
         else if t = dav_repos_USER \<or> t = dav_repos_GROUP \<or> t = dav_repos_PRINCIPAL
         then rs\<lparr>rs_type := DAV_RESOURCE_TYPE_PRINCIPAL\<rparr>
         else if t = dav_repos_LOCKNULL then rs\<lparr>rs_type := DAV_RESOURCE_TYPE_REGULAR, rs_exists := False\<rparr>
         else if t = dav_repos_REDIRECT then rs\<lparr>rs_type := DAV_RESOURCE_TYPE_REDIRECTREF\<rparr>
         else rs)"

definition dav_repos_update_dbr_resource :: "dav_repos_resource \<Rightarrow> dav_repos_resource option" where
  "dav_repos_update_dbr_resource r =
     (case dr_resource r of
        None \<Rightarrow> None
      | Some rs \<Rightarrow>
          (let rs = rs\<lparr>rs_uri := dr_uri r, rs_pathname := dr_uri r, rs_uuid := dr_uuid r,
                 rs_exists := (rs_exists rs \<or> dr_resourcetype r \<noteq> dav_repos_LOCKNULL)\<rparr>
           in Some (r\<lparr>dr_resource := Some (set_type r rs)\<rparr>)))"

definition strstr :: "string \<Rightarrow> string \<Rightarrow> bool" where
  "strstr u p = list_ex (\<lambda>i. take (length p) (drop i u) = p) [0..<Suc (length u)]"

text \<open>What is left of the structure when only a prefix of the URI was found.\<close>

definition forget_resource :: "dav_repos_resource \<Rightarrow> dav_repos_resource" where
  "forget_resource r = r\<lparr>dr_serialno := 0, dr_resourcetype := 0, dr_owner_id := 0, dr_creator_id := 0, dr_created_at := None,
     dr_displayname := None, dr_getcontentlanguage := None, dr_comment := None, dr_uuid := None\<rparr>"

text \<open>A redirect: the part of the URI after the redirect is appended to the target
  (\<open>apr_pstrcat\<close> of a missing target is the empty string). The path of the binding is relative to the
  root, the URI is not.\<close>

definition redirect_columns :: "dbms_bind_list option \<Rightarrow> dav_repos_resource \<Rightarrow> db \<Rightarrow> dav_repos_resource \<times> db" where
  "redirect_columns b r s =
     (if dr_resourcetype r \<noteq> dav_repos_REDIRECT then (r, s)
      else case dbms_get_redirect_props r s of (e, r, s) \<Rightarrow>
        (case b of
           None \<Rightarrow> (r, s)
         | Some b \<Rightarrow>
             (let absent_uri = (case uri b of None \<Rightarrow> [] | Some u \<Rightarrow> drop (length u) (column (dr_uri r)))
              in (r\<lparr>dr_reftarget := Some (case dr_reftarget r of None \<Rightarrow> [] | Some t \<Rightarrow> t @ absent_uri)\<rparr>, s))))"

definition collection_columns :: "dav_repos_resource \<Rightarrow> db \<Rightarrow> dav_error option \<times> dav_repos_resource \<times> db" where
  "collection_columns r s =
     (if \<not> is_collection (dr_resourcetype r) then (None, r, s)
      else case dbms_get_collection_props r s of
        (Some e, r, s) \<Rightarrow> (Some e, r, s)
      | (None, r, s) \<Rightarrow> (None, r\<lparr>dr_getcontenttype := Some DIR_MAGIC_TYPE\<rparr>, s))"

definition load_resource ::
  "dbms_bind_list option \<Rightarrow> bool \<Rightarrow> id \<Rightarrow> dav_repos_resource \<Rightarrow> db \<Rightarrow> (dav_error option \<times> dav_repos_resource \<times> db) option" where
  "load_resource b uri_not_found serialno r s =
     (if serialno = 0 then Some (None, r, s)
      else case dbms_get_resource (r\<lparr>dr_serialno := serialno\<rparr>) s of (e, r, s) \<Rightarrow>
        if uri_not_found \<and> dr_resourcetype r \<noteq> dav_repos_REDIRECT then Some (None, forget_resource r, s)
        else let r = (case b of None \<Rightarrow> r | Some b \<Rightarrow> r\<lparr>dr_bind_id := bind_id b, dr_updated_at := updated_at b\<rparr>)
          in case redirect_columns b r s of (r, s) \<Rightarrow>
             case collection_columns r s of
               (Some e, r, s) \<Rightarrow> Some (Some e, r, s)
             | (None, r, s) \<Rightarrow>
                 (case dbms_get_media_props r s of
                    (Some e, r, s) \<Rightarrow> Some (Some e, r, s)
                  | (None, r, s) \<Rightarrow> dbms_get_deltav_props r s))"

definition sabridge_get_property ::
  "dav_repos_resource \<Rightarrow> db \<Rightarrow> (dav_error option \<times> dav_repos_resource \<times> db) option" where
  "sabridge_get_property r s =
     (if dr_serialno r \<noteq> 0 then load_resource None False (dr_serialno r) r s
      else case dr_uri r of
        None \<Rightarrow> Some (None, r, s)
      | Some u \<Rightarrow>
          if \<not> strstr u (dr_root_path r) then Some (None, r, s)
          else case dbms_lookup_uri (drop (length (dr_root_path r)) u) s of
            None \<Rightarrow> None
          | Some (Inl e, s) \<Rightarrow> Some (Some e, r, s)
          | Some (Inr None, s) \<Rightarrow> Some (None, r, s)
          | Some (Inr (Some b), s) \<Rightarrow>
              load_resource (Some b) (resource_id b = - 1) (if resource_id b = - 1 then parent_id b else resource_id b) r s)"

section \<open>The parent\<close>

text \<open>
  \<open>dav_repos_get_parent_resource\<close> of \<^verbatim>\<open>repos.c\<close>; \<open>ap_make_dirstr_parent\<close> of the HTTP server is the
  parameter \<open>dirstr\<close>. Finding the parent notes its id in the resource.
\<close>

definition parent_dbr :: "(string \<Rightarrow> string) \<Rightarrow> string \<Rightarrow> dav_resource \<Rightarrow> dav_repos_resource \<Rightarrow> dav_repos_resource" where
  "parent_dbr dirstr resource_uri rs r =
     (let u = dav_repos_chomp_trailing_slash (dirstr resource_uri)
      in zero_dbr\<lparr>dr_uri := Some u, dr_root_path := dr_root_path r,
           dr_resource := Some (zero_resource\<lparr>rs_uri := Some u,
             rs_pathname := map_option (\<lambda>p. dav_repos_chomp_slash (dirstr p)) (rs_pathname rs)\<rparr>)\<rparr>)"

definition dav_repos_get_parent_resource ::
  "(string \<Rightarrow> string) \<Rightarrow> dav_repos_resource \<Rightarrow> db
    \<Rightarrow> ((dav_error + dav_repos_resource option) \<times> dav_repos_resource \<times> db) option" where
  "dav_repos_get_parent_resource dirstr r s =
     (case dr_resource r of
        None \<Rightarrow> None
      | Some rs \<Rightarrow>
          (case (if dr_uri r \<noteq> None then dr_uri r else rs_uri rs) of
             None \<Rightarrow> Some (Inl (dav_new_error HTTP_INTERNAL_SERVER_ERROR
                        ''URI not set for dav_repos_get_parent_resource.''), r, s)
           | Some resource_uri \<Rightarrow>
               if resource_uri = ''/'' \<or> rs_pathname rs = Some ''/'' then Some (Inr None, r, s)
               else (case sabridge_get_property (parent_dbr dirstr resource_uri rs r) s of
                       None \<Rightarrow> None
                     | Some (Some e, p, s) \<Rightarrow> Some (Inl e, r, s)
                     | Some (None, p, s) \<Rightarrow>
                         if dr_serialno p \<noteq> 0
                         then map_option (\<lambda>p. (Inr (Some p), r\<lparr>dr_parent_id := dr_serialno p\<rparr>, s))
                                (dav_repos_update_dbr_resource p)
                         else Some (Inr (Some p), r, s))))"

text \<open>\<open>sabridge_retrieve_parent\<close> follows the pointer it was given before it looks at the error: an
  error and the missing parent of the root are both a read through \<open>NULL\<close>.\<close>

definition sabridge_retrieve_parent ::
  "(string \<Rightarrow> string) \<Rightarrow> dav_repos_resource \<Rightarrow> db \<Rightarrow> (dav_repos_resource \<times> dav_repos_resource \<times> db) option" where
  "sabridge_retrieve_parent dirstr r s =
     (case dav_repos_get_parent_resource dirstr r s of
        Some (Inr (Some p), r, s) \<Rightarrow> Some (p, r, s)
      | _ \<Rightarrow> None)"

definition sabridge_get_parent_id ::
  "(string \<Rightarrow> string) \<Rightarrow> dav_repos_resource \<Rightarrow> db \<Rightarrow> (id \<times> dav_repos_resource \<times> db) option" where
  "sabridge_get_parent_id dirstr r s =
     (if dr_parent_id r \<noteq> 0 then Some (dr_parent_id r, r, s)
      else case dr_resource r of
        None \<Rightarrow> if dr_uri r = None then None
                else map_option (\<lambda>(p, r, s). (dr_serialno p, r, s)) (sabridge_retrieve_parent dirstr r s)
      | Some rs \<Rightarrow> if dr_uri r \<noteq> None \<or> rs_uri rs \<noteq> None
                    then map_option (\<lambda>(p, r, s). (dr_serialno p, r, s)) (sabridge_retrieve_parent dirstr r s)
                    else Some (0, r, s))"

text \<open>\<open>basename\<close> of the C library, in the version that leaves its argument alone.\<close>

definition basename :: "string \<Rightarrow> string" where
  "basename u = rev (takeWhile (\<lambda>c. c \<noteq> CHR ''/'') (rev u))"

text \<open>\<open>sabridge_reverse_lookup\<close> compares the path with the empty string also when there is none.\<close>

definition sabridge_reverse_lookup :: "dav_repos_resource \<Rightarrow> db \<Rightarrow> (dav_error option \<times> dav_repos_resource \<times> db) option" where
  "sabridge_reverse_lookup r s =
     (case dbms_find_shortest_path ROOT_COLLECTION_ID (dr_serialno r) s of
        (Inl e, s) \<Rightarrow> Some (Some e, r, s)
      | (Inr None, s) \<Rightarrow> None
      | (Inr (Some p), s) \<Rightarrow>
          Some (None, r\<lparr>dr_uri := Some (dr_root_path r @ (if p = [] then ''/'' else p))\<rparr>, s))"

section \<open>Deleting\<close>

text \<open>The fields of \<open>dav_repos_db\<close> that this code reads, and the database with the directory of bodies.\<close>

record dav_repos_db =
  use_gc :: bool
  keep_files :: bool
  user_quota :: int

record world =
  w_db :: db
  w_disk :: "string list"

definition sabridge_remove_body_from_disk :: "dav_repos_db \<Rightarrow> dav_repos_resource \<Rightarrow> world \<Rightarrow> world" where
  "sabridge_remove_body_from_disk cf r w =
     (if keep_files cf then w
      else case dr_sha1str r of
        None \<Rightarrow> w\<lparr>w_db := snd (run_select (w_db w))\<rparr>
      | Some h \<Rightarrow>
          (case dbms_num_sha1_resources h (w_db w) of
             (n, s) \<Rightarrow> w\<lparr>w_db := s, w_disk := (if n = 1 then removeAll h (w_disk w) else w_disk w)\<rparr>))"

text \<open>
  \<open>sabridge_coll_clear_children\<close> on a version of a collection, the only use it has. The listing
  does not expand this type and is empty (\<open>collection_version_lists_nothing\<close>), so that no member is
  ever removed; after a failed listing the list is not initialised.
\<close>

definition clear_coll_version :: "dav_repos_resource \<Rightarrow> db \<Rightarrow> db option" where
  "clear_coll_version v s =
     (case sabridge_get_collection_children None v 1 s of
        Some (Inr (_, _), s) \<Rightarrow> Some s
      | _ \<Rightarrow> None)"

fun remove_versions :: "dav_repos_db \<Rightarrow> dav_repos_resource list \<Rightarrow> world \<Rightarrow> (dav_error option \<times> world) option" where
  "remove_versions cf [] w = Some (None, w)"
| "remove_versions cf (v # vs) w =
     (case (if dr_resourcetype v = dav_repos_VERSION then Some (sabridge_remove_body_from_disk cf v w)
            else if dr_resourcetype v = dav_repos_COLLECTION_VERSION
            then map_option (\<lambda>s. w\<lparr>w_db := s\<rparr>) (clear_coll_version v (w_db w))
            else Some w) of
        None \<Rightarrow> None
      | Some w \<Rightarrow>
          (case dbms_delete_resource v (w_db w) of
             (Some e, s) \<Rightarrow> Some (Some e, w\<lparr>w_db := s\<rparr>)
           | (None, s) \<Rightarrow> remove_versions cf vs (w\<lparr>w_db := s\<rparr>)))"

definition sabridge_remove_vhr_vrs :: "dav_repos_db \<Rightarrow> dav_repos_resource \<Rightarrow> world \<Rightarrow> (dav_error option \<times> world) option" where
  "sabridge_remove_vhr_vrs cf vhr w =
     (case dbms_get_vhr_versions vhr (w_db w) of
        Some (Inr vs, s) \<Rightarrow> remove_versions cf vs (w\<lparr>w_db := s\<rparr>)
      | _ \<Rightarrow> None)"

definition sabridge_remove_vhr :: "dav_repos_db \<Rightarrow> dav_repos_resource \<Rightarrow> world \<Rightarrow> (dav_error option \<times> world) option" where
  "sabridge_remove_vhr cf vhr w =
     (case dbms_unversion_vhr_vcrs vhr (w_db w) of
        (Some e, s) \<Rightarrow> Some (Some e, w\<lparr>w_db := s\<rparr>)
      | (None, s) \<Rightarrow> sabridge_remove_vhr_vrs cf vhr (w\<lparr>w_db := s\<rparr>))"

definition sabridge_delete_resource :: "dav_repos_db \<Rightarrow> dav_repos_resource \<Rightarrow> world \<Rightarrow> (dav_error option \<times> world) option" where
  "sabridge_delete_resource cf r w =
     (case (if dr_resourcetype r = dav_repos_VERSIONHISTORY then sabridge_remove_vhr cf r w
            else if has_body (dr_resourcetype r) then Some (None, sabridge_remove_body_from_disk cf r w)
            else Some (None, w)) of
        None \<Rightarrow> None
      | Some (Some e, w) \<Rightarrow> Some (Some e, w)
      | Some (None, w) \<Rightarrow> (case dbms_delete_resource r (w_db w) of (e, s) \<Rightarrow> Some (e, w\<lparr>w_db := s\<rparr>)))"

definition sabridge_delete_if_orphaned ::
  "dav_repos_db \<Rightarrow> dav_repos_resource \<Rightarrow> world \<Rightarrow> ((dav_error + bool) \<times> world) option" where
  "sabridge_delete_if_orphaned cf r w =
     (case dbms_find_shortest_path ROOT_COLLECTION_ID (dr_serialno r) (w_db w) of
        (Inl e, s) \<Rightarrow> Some (Inl e, w\<lparr>w_db := s\<rparr>)
      | (Inr (Some p), s) \<Rightarrow> Some (Inr False, w\<lparr>w_db := s\<rparr>)
      | (Inr None, s) \<Rightarrow>
          (case sabridge_delete_resource cf r (w\<lparr>w_db := s\<rparr>) of
             None \<Rightarrow> None
           | Some (Some e, w) \<Rightarrow> Some (Inl e, w)
           | Some (None, w) \<Rightarrow> Some (Inr True, w)))"

section \<open>What a deletion does to the tables\<close>

lemma release_quota_select:
  assumes "release_quota i s = Some s'"
  shows "resources s' = resources s" "binds s' = binds s" "cleanup s' = cleanup s" "media s' = media s"
    "principals s' = principals s" "fault s' = fault s" "properties s' = properties s"
proof -
  from assms obtain q where "s' = s\<lparr>quota := q\<rparr>"
    by (auto simp: release_quota_def charge_def split: list.splits option.splits if_splits intro: that [of "quota s"])
  then show "resources s' = resources s" "binds s' = binds s" "cleanup s' = cleanup s" "media s' = media s"
    "principals s' = principals s" "fault s' = fault s" "properties s' = properties s" by simp_all
qed

text \<open>The tables that the collector reads, together.\<close>

definition graph_eq :: "db \<Rightarrow> db \<Rightarrow> bool" where
  "graph_eq t s \<longleftrightarrow> resources t = resources s \<and> binds t = binds s \<and> cleanup t = cleanup s \<and> media t = media s"

lemma graph_eq_tables: "tables_eq t s \<Longrightarrow> graph_eq t s"
  by (simp add: graph_eq_def tables_eqD)

lemma graph_eq_trans [trans]: "graph_eq t s \<Longrightarrow> graph_eq u t \<Longrightarrow> graph_eq u s"
  by (simp add: graph_eq_def)

text \<open>The two statements of \<open>dbms_delete_resource\<close>; the first leaves these tables alone.\<close>

lemma delete_resource_split:
  obtains e t where "graph_eq t s" "dbms_delete_resource r s =
    (case e of Some e \<Rightarrow> (Some e, t)
     | None \<Rightarrow> exec_or_500 ''DBMS error in deleting resource'' (delete_resources (\<lambda>i. i = dr_serialno r)) t)"
proof -
  obtain e t where t: "(if has_body (dr_resourcetype r)
      then exec_or_500 ''DBMS error in deleting resource'' (release_quota (dr_serialno r)) s else (None, s)) = (e, t)" by fastforce
  have "graph_eq t s"
  proof (cases "has_body (dr_resourcetype r)")
    case True
    with t have run: "exec_or_500 ''DBMS error in deleting resource'' (release_quota (dr_serialno r)) s = (e, t)" by simp
    show ?thesis
      by (rule exec_or_500_inv [OF run, where I = "\<lambda>u. graph_eq u s"])
        (simp_all add: graph_eq_tables graph_eq_def release_quota_select tables_eqD)
  qed (use t in \<open>simp add: graph_eq_def\<close>)
  then show thesis using that [of t e] t by (simp add: dbms_delete_resource_def)
qed

lemma delete_resource_error:
  assumes "dbms_delete_resource r s = (Some e, s')"
  shows "graph_eq s' s"
proof (rule delete_resource_split [of s r])
  fix e1 t
  assume t: "graph_eq t s" "dbms_delete_resource r s =
    (case e1 of Some e \<Rightarrow> (Some e, t)
     | None \<Rightarrow> exec_or_500 ''DBMS error in deleting resource'' (delete_resources (\<lambda>i. i = dr_serialno r)) t)"
  have "graph_eq s' t"
  proof (cases e1)
    case None
    with assms t(2) have "exec_or_500 ''DBMS error in deleting resource'' (delete_resources (\<lambda>i. i = dr_serialno r)) t = (Some e, s')"
      by simp
    then show ?thesis by (auto dest!: exec_or_500_error graph_eq_tables)
  qed (use assms t(2) in \<open>simp add: graph_eq_def\<close>)
  with t(1) show ?thesis by (rule graph_eq_trans)
qed

definition without :: "id \<Rightarrow> db \<Rightarrow> db \<Rightarrow> bool" where
  "without i s s' \<longleftrightarrow> resources s' = filter (\<lambda>w. r_id w \<noteq> i) (resources s) \<and>
     binds s' = filter (\<lambda>b. b_collection_id b \<noteq> i \<and> b_resource_id b \<noteq> i) (binds s) \<and>
     cleanup s' = filter (\<lambda>(j, q). q \<noteq> i) (cleanup s) \<and> media s' = filter (\<lambda>m. m_resource_id m \<noteq> i) (media s)"

lemma delete_resource_ok:
  assumes "dbms_delete_resource r s = (None, s')"
  shows "without (dr_serialno r) s s'"
proof (rule delete_resource_split [of s r])
  fix e1 t
  assume t: "graph_eq t s" "dbms_delete_resource r s =
    (case e1 of Some e \<Rightarrow> (Some e, t)
     | None \<Rightarrow> exec_or_500 ''DBMS error in deleting resource'' (delete_resources (\<lambda>i. i = dr_serialno r)) t)"
  with assms have "exec_or_500 ''DBMS error in deleting resource'' (delete_resources (\<lambda>i. i = dr_serialno r)) t = (None, s')"
    by (simp split: option.splits)
  then obtain u where u: "tables_eq u t" "delete_resources (\<lambda>i. i = dr_serialno r) u = Some s'" by (rule exec_or_500_ok)
  note sel = delete_resources_select [OF u(2)]
  show ?thesis using t(1) u(1) by (simp add: without_def sel graph_eq_def tables_eqD)
qed


section \<open>Unbinding\<close>

text \<open>No function below adds a binding.\<close>

definition fewer_binds :: "db \<Rightarrow> db \<Rightarrow> bool" where
  "fewer_binds s s' \<longleftrightarrow> (\<exists>P. binds s' = filter P (binds s))"

lemma fewer_binds_same: "binds s' = binds s \<Longrightarrow> fewer_binds s s'"
  by (auto simp: fewer_binds_def intro: exI [of _ "\<lambda>b. True"])

lemma fewer_binds_trans [trans]: "fewer_binds s t \<Longrightarrow> fewer_binds t u \<Longrightarrow> fewer_binds s u"
  by (auto simp: fewer_binds_def)

lemma fewer_binds_length: "fewer_binds s s' \<Longrightarrow> length (binds s') \<le> length (binds s)"
  by (auto simp: fewer_binds_def)

lemma fewer_binds_graph: "graph_eq s' s \<Longrightarrow> fewer_binds s s'"
  by (simp add: graph_eq_def fewer_binds_same)

lemma fewer_binds_tables: "tables_eq s' s \<Longrightarrow> fewer_binds s s'"
  by (simp add: fewer_binds_same tables_eqD)

lemma delete_resource_fewer: "dbms_delete_resource r s = (e, s') \<Longrightarrow> fewer_binds s s'"
  by (cases e) (auto dest!: delete_resource_ok delete_resource_error fewer_binds_graph simp: without_def fewer_binds_def)

lemma run_select_snd: "tables_eq (snd (run_select s)) s"
  by (rule run_select_same [of s "fst (run_select s)"]) simp

lemma remove_body_select:
  "tables_eq (w_db (sabridge_remove_body_from_disk cf r w)) (w_db w)"
proof (cases "dr_sha1str r")
  case None
  then show ?thesis by (simp add: sabridge_remove_body_from_disk_def run_select_snd)
next
  case (Some h)
  obtain b s where s: "run_select (w_db w) = (b, s)" by fastforce
  with run_select_same [OF s] Some show ?thesis
    by (cases b) (simp_all add: sabridge_remove_body_from_disk_def dbms_num_sha1_resources_def)
qed

lemma get_collection_select:
  "dbms_get_collection_resource acl cs s = Some (x, s') \<Longrightarrow> tables_eq s' s"
  by (auto simp: dbms_get_collection_resource_def Let_def split: list.splits option.splits prod.splits bool.splits
      dest: run_select_same)

lemma get_children_depth1:
  assumes "sabridge_get_collection_children acl r 1 s = Some (x, s')"
  obtains y where "dbms_get_collection_resource acl [r] s = Some (y, s')"
    "case y of Inl e \<Rightarrow> x = Inl e
     | Inr (cs, n) \<Rightarrow> x = Inr (fst (mark_level cs [dr_serialno r \<mapsto> column (dr_uri r)]), n)"
proof -
  have one: "(1 :: int) = DAV_INFINITY \<longleftrightarrow> False" by (simp add: DAV_INFINITY_def)
  show thesis
    using assms that
    by (auto simp: sabridge_get_collection_children_def levels_loop.simps one split: option.splits sum.splits prod.splits if_splits)
qed

lemma clear_coll_version_select: "clear_coll_version v s = Some s' \<Longrightarrow> tables_eq s' s"
  by (auto simp: clear_coll_version_def split: option.splits sum.splits prod.splits
      elim!: get_children_depth1 dest: get_collection_select)

lemma remove_versions_fewer: "remove_versions cf vs w = Some (e, w') \<Longrightarrow> fewer_binds (w_db w) (w_db w')"
proof (induction vs arbitrary: w)
  case (Cons v vs)
  obtain u where u: "(if dr_resourcetype v = dav_repos_VERSION then Some (sabridge_remove_body_from_disk cf v w)
            else if dr_resourcetype v = dav_repos_COLLECTION_VERSION
            then map_option (\<lambda>s. w\<lparr>w_db := s\<rparr>) (clear_coll_version v (w_db w)) else Some w) = Some u"
    using Cons.prems by (auto simp: split: option.splits)
  have 1: "fewer_binds (w_db w) (w_db u)"
    using u remove_body_select [of cf v w]
    by (auto split: if_splits dest!: clear_coll_version_select intro: fewer_binds_tables)
  obtain e1 t where t: "dbms_delete_resource v (w_db u) = (e1, t)" by fastforce
  note 2 = fewer_binds_trans [OF 1 delete_resource_fewer [OF t]]
  show ?case
  proof (cases e1)
    case None
    with Cons.prems u t have "remove_versions cf vs (u\<lparr>w_db := t\<rparr>) = Some (e, w')" by simp
    from fewer_binds_trans [OF 2] Cons.IH [OF this] show ?thesis by simp
  next
    case (Some x)
    with Cons.prems u t 2 show ?thesis by auto
  qed
qed (simp add: fewer_binds_same)


lemma unversion_fewer: "dbms_unversion_vhr_vcrs vhr s = (e, s') \<Longrightarrow> fewer_binds s s'"
proof -
  have I: "fewer_binds s u" if "exec_or_500 msg (\<lambda>s. Some (unversion a b i s)) t = (x, u)" "fewer_binds s t" for msg a b i t x u
    by (rule exec_or_500_inv [OF that(1), where I = "fewer_binds s"])
      (use that(2) in \<open>auto simp: unversion_def fewer_binds_def tables_eqD\<close>)
  assume "dbms_unversion_vhr_vcrs vhr s = (e, s')"
  then show ?thesis
    by (auto simp: dbms_unversion_vhr_vcrs_def split: prod.splits option.splits elim!: I intro: fewer_binds_same)
qed

lemma vhr_versions_select: "dbms_get_vhr_versions vhr s = Some (x, s') \<Longrightarrow> tables_eq s' s"
  by (auto simp: dbms_get_vhr_versions_def Let_def split: prod.splits bool.splits list.splits option.splits dest: run_select_same)

lemma remove_vhr_fewer: "sabridge_remove_vhr cf vhr w = Some (e, w') \<Longrightarrow> fewer_binds (w_db w) (w_db w')"
proof -
  assume run: "sabridge_remove_vhr cf vhr w = Some (e, w')"
  obtain e1 t where t: "dbms_unversion_vhr_vcrs vhr (w_db w) = (e1, t)" by fastforce
  note 1 = unversion_fewer [OF t]
  show ?thesis
  proof (cases e1)
    case None
    with run t obtain vs u where u: "dbms_get_vhr_versions vhr t = Some (Inr vs, u)"
      "remove_versions cf vs (w\<lparr>w_db := u\<rparr>) = Some (e, w')"
      by (auto simp: sabridge_remove_vhr_def sabridge_remove_vhr_vrs_def split: option.splits sum.splits)
    have "fewer_binds t u" using vhr_versions_select [OF u(1)] by (rule fewer_binds_tables)
    from fewer_binds_trans [OF fewer_binds_trans [OF 1 this]] remove_versions_fewer [OF u(2)] show ?thesis by simp
  qed (use run t 1 in \<open>auto simp: sabridge_remove_vhr_def\<close>)
qed

text \<open>\<open>sabridge_delete_resource\<close>: what comes before the row is deleted, and the deletion.\<close>

lemma bridge_delete_split:
  assumes "sabridge_delete_resource cf r w = Some (e, w')"
  obtains e1 u where "fewer_binds (w_db w) (w_db u)" "dr_resourcetype r \<noteq> dav_repos_VERSIONHISTORY \<Longrightarrow> tables_eq (w_db u) (w_db w)"
    "dr_resourcetype r \<noteq> dav_repos_VERSIONHISTORY \<Longrightarrow> e1 = None"
    "(case e1 of Some x \<Rightarrow> e = Some x \<and> w' = u
      | None \<Rightarrow> (case dbms_delete_resource r (w_db u) of (e', s) \<Rightarrow> e = e' \<and> w' = u\<lparr>w_db := s\<rparr>))"
proof -
  obtain e1 u where u: "(if dr_resourcetype r = dav_repos_VERSIONHISTORY then sabridge_remove_vhr cf r w
            else if has_body (dr_resourcetype r) then Some (None, sabridge_remove_body_from_disk cf r w)
            else Some (None, w)) = Some (e1, u)"
    using assms by (fastforce simp: sabridge_delete_resource_def split: option.splits)
  have "fewer_binds (w_db w) (w_db u)" "dr_resourcetype r \<noteq> dav_repos_VERSIONHISTORY \<Longrightarrow> tables_eq (w_db u) (w_db w)"
    "dr_resourcetype r \<noteq> dav_repos_VERSIONHISTORY \<Longrightarrow> e1 = None"
    using u remove_body_select [of cf r w]
    by (auto split: if_splits dest: remove_vhr_fewer intro: fewer_binds_tables fewer_binds_same)
  moreover have "case e1 of Some x \<Rightarrow> e = Some x \<and> w' = u
      | None \<Rightarrow> (case dbms_delete_resource r (w_db u) of (e', s) \<Rightarrow> e = e' \<and> w' = u\<lparr>w_db := s\<rparr>)"
    using assms u by (auto simp: sabridge_delete_resource_def split: option.splits prod.splits)
  ultimately show thesis using that by blast
qed

lemma bridge_delete_fewer:
  assumes "sabridge_delete_resource cf r w = Some (e, w')"
  shows "fewer_binds (w_db w) (w_db w')"
    and "e = None \<Longrightarrow> \<forall>b \<in> set (binds (w_db w')). b_collection_id b \<noteq> dr_serialno r \<and> b_resource_id b \<noteq> dr_serialno r"
proof -
  from assms obtain e1 u where u: "fewer_binds (w_db w) (w_db u)"
    "(case e1 of Some x \<Rightarrow> e = Some x \<and> w' = u
      | None \<Rightarrow> (case dbms_delete_resource r (w_db u) of (e', s) \<Rightarrow> e = e' \<and> w' = u\<lparr>w_db := s\<rparr>))"
    by (rule bridge_delete_split)
  then show "fewer_binds (w_db w) (w_db w')"
    by (auto split: option.splits prod.splits dest: delete_resource_fewer intro: fewer_binds_trans)
  show "\<forall>b \<in> set (binds (w_db w')). b_collection_id b \<noteq> dr_serialno r \<and> b_resource_id b \<noteq> dr_serialno r" if "e = None"
    using u(2) that by (auto split: option.splits prod.splits dest!: delete_resource_ok simp: without_def)
qed

lemma shortest_path_select: "dbms_find_shortest_path a b s = (x, s') \<Longrightarrow> tables_eq s' s"
  using shortest_path_spec [where src = a and tgt = b and s = s] by simp


lemma orphaned_deleted:
  assumes "sabridge_delete_if_orphaned cf r w = Some (x, w')"
  shows "fewer_binds (w_db w) (w_db w')"
    and "x = Inr True \<Longrightarrow> \<forall>b \<in> set (binds (w_db w')). b_collection_id b \<noteq> dr_serialno r"
proof -
  obtain p s where p: "dbms_find_shortest_path ROOT_COLLECTION_ID (dr_serialno r) (w_db w) = (p, s)" by fastforce
  have 1: "fewer_binds (w_db w) s" using shortest_path_select [OF p] by (rule fewer_binds_tables)
  have "fewer_binds (w_db w) (w_db w') \<and> (x = Inr True \<longrightarrow> (\<forall>b \<in> set (binds (w_db w')). b_collection_id b \<noteq> dr_serialno r))"
  proof (cases "p = Inr None")
    case True
    with assms p obtain e where e: "sabridge_delete_resource cf r (w\<lparr>w_db := s\<rparr>) = Some (e, w')" "x = Inr True \<Longrightarrow> e = None"
      by (auto simp: sabridge_delete_if_orphaned_def split: option.splits)
    with fewer_binds_trans [OF 1] bridge_delete_fewer [OF e(1)] show ?thesis by auto
  next
    case False
    with assms p 1 show ?thesis by (auto simp: sabridge_delete_if_orphaned_def split: sum.splits option.splits)
  qed
  then show "fewer_binds (w_db w) (w_db w')"
    and "x = Inr True \<Longrightarrow> \<forall>b \<in> set (binds (w_db w')). b_collection_id b \<noteq> dr_serialno r" by blast+
qed

lemma mark_level_length: "length (fst (mark_level cs h)) = length cs"
  by (induction cs arbitrary: h) (auto split: prod.split simp: prod_eq_iff)

lemma length_filter_mono: "(\<And>x. x \<in> set xs \<Longrightarrow> P x \<Longrightarrow> Q x) \<Longrightarrow> length (filter P xs) \<le> length (filter Q xs)"
  by (induction xs) (auto simp: le_SucI)

lemma length_concat_le: "(\<And>x. length (f x) \<le> 1) \<Longrightarrow> length (concat (map f xs)) \<le> length xs"
  by (induction xs) (auto simp: add_le_mono [of _ 1, simplified])

text \<open>The members of an element, as the loop lists them.\<close>

definition loop_children :: "dav_repos_resource \<Rightarrow> db \<Rightarrow> ((dav_error + dav_repos_resource list \<times> nat) \<times> db) option" where
  "loop_children r s =
     (if is_collection (dr_resourcetype r) then sabridge_get_collection_children None r 1 s else Some (Inr ([], 0), s))"

definition unbind_element :: "dav_repos_resource \<Rightarrow> db \<Rightarrow> dav_error option \<times> db" where
  "unbind_element r s =
     (case dr_uri r of None \<Rightarrow> (None, s) | Some u \<Rightarrow> dbms_delete_bind (dr_parent_id r) (dr_serialno r) (basename u) s)"

lemma unbind_element_fewer: "unbind_element r s = (e, s') \<Longrightarrow> fewer_binds s s'"
proof (cases "dr_uri r")
  case (Some u)
  assume "unbind_element r s = (e, s')"
  with Some have run: "dbms_delete_bind (dr_parent_id r) (dr_serialno r) (basename u) s = (e, s')" by (simp add: unbind_element_def)
  show ?thesis
    by (rule exec_or_500_inv [OF run [unfolded dbms_delete_bind_def], where I = "fewer_binds s"])
      (auto simp: fewer_binds_def row_simps tables_eqD intro: exI [of _ "\<lambda>b. True"])
qed (simp add: unbind_element_def fewer_binds_same)

lemma loop_children_length:
  assumes "loop_children r s = Some (Inr (cs, n), s')"
  shows "tables_eq s' s \<and> length cs \<le> length (filter (\<lambda>b. b_collection_id b = dr_serialno r) (binds s))"
proof (cases "is_collection (dr_resourcetype r)")
  case True
  with assms have "sabridge_get_collection_children None r 1 s = Some (Inr (cs, n), s')" by (simp add: loop_children_def)
  then obtain y where y: "dbms_get_collection_resource None [r] s = Some (y, s')"
    "case y of Inl e \<Rightarrow> Inr (cs, n) = Inl e
     | Inr (ds, k) \<Rightarrow> Inr (cs, n) = (Inr (fst (mark_level ds [dr_serialno r \<mapsto> column (dr_uri r)]), k) :: dav_error + _)"
    by (rule get_children_depth1)
  then obtain ds k where ds: "y = Inr (ds, k)" "length cs = length ds"
    by (auto split: sum.splits simp: mark_level_length)
  have same: "tables_eq s' s" using y(1) by (rule get_collection_select)
  have "length ds \<le> length (child_binds [r] s')"
    using y(1) ds(1) by (auto simp: dbms_get_collection_resource_def Let_def split: option.splits prod.splits bool.splits)
  also have "\<dots> \<le> length (filter (\<lambda>b. b_collection_id b \<in> dr_serialno ` set (expanded [r])) (binds s'))"
    unfolding child_binds_def by (rule length_concat_le) (auto split: option.split)
  also have "\<dots> \<le> length (filter (\<lambda>b. b_collection_id b = dr_serialno r) (binds s'))"
    by (simp add: expanded_def)
  finally show ?thesis using same ds(2) by (simp add: tables_eqD)
qed (use assms in \<open>simp add: loop_children_def\<close>)

lemma unbind_measure:
  assumes "loop_children r (w_db w) = Some (Inr (cs, n), s)" "unbind_element r s = (e, s')"
    "sabridge_delete_if_orphaned cf r (w\<lparr>w_db := s'\<rparr>) = Some (Inr deleted, w')"
  shows "length (if deleted then rest @ cs else rest) + length (binds (w_db w')) < Suc (length rest) + length (binds (w_db w))"
proof -
  have c: "tables_eq s (w_db w)" "length cs \<le> length (filter (\<lambda>b. b_collection_id b = dr_serialno r) (binds (w_db w)))"
    using loop_children_length [OF assms(1)] by simp_all
  have f: "fewer_binds (w_db w) (w_db w')"
    using fewer_binds_trans [OF fewer_binds_trans [OF fewer_binds_tables [OF c(1)] unbind_element_fewer [OF assms(2)]]]
      orphaned_deleted(1) [OF assms(3)] by simp
  show ?thesis
  proof (cases deleted)
    case True
    obtain P where P: "binds (w_db w') = filter P (binds (w_db w))" using f by (auto simp: fewer_binds_def)
    have none: "\<forall>b \<in> set (binds (w_db w')). b_collection_id b \<noteq> dr_serialno r"
      using orphaned_deleted(2) [OF assms(3)] True by simp
    then have "length (binds (w_db w')) \<le> length (filter (\<lambda>b. b_collection_id b \<noteq> dr_serialno r) (binds (w_db w)))"
      unfolding P by (intro length_filter_mono) auto
    with c(2) sum_length_filter_compl [of "\<lambda>b. b_collection_id b = dr_serialno r" "binds (w_db w)"] True show ?thesis by simp
  qed (use fewer_binds_length [OF f] in simp)
qed


lemma unbind_smaller:
  assumes "loop_children r (w_db w) = Some (Inr (cs, n), s)" "(None, s') = unbind_element r s"
    "sabridge_delete_if_orphaned cf r (w\<lparr>w_db := s'\<rparr>) = Some (Inr deleted, w')"
  shows "deleted \<Longrightarrow> length cs + length (binds (w_db w')) < Suc (length (binds (w_db w)))"
    and "length (binds (w_db w')) < Suc (length (binds (w_db w)))"
  using unbind_measure [OF assms(1) assms(2) [symmetric] assms(3), of "[]"] by (auto split: if_splits)

text \<open>The loop of \<open>sabridge_unbind_resource\<close>; it ends because every round takes an element from the
  list, and adds elements only for bindings that it has removed.\<close>

function unbind_loop :: "dav_repos_db \<Rightarrow> dav_repos_resource list \<Rightarrow> world \<Rightarrow> (dav_error option \<times> world) option" where
  "unbind_loop cf [] w = Some (None, w)"
| "unbind_loop cf (r # rest) w =
     (if dr_bind r \<noteq> None then unbind_loop cf rest w
      else case loop_children r (w_db w) of
        None \<Rightarrow> None
      | Some (Inl e, s) \<Rightarrow> Some (Some e, w\<lparr>w_db := s\<rparr>)
      | Some (Inr (cs, n), s) \<Rightarrow>
          (case unbind_element r s of
             (Some e, s') \<Rightarrow> Some (Some e, w\<lparr>w_db := s'\<rparr>)
           | (None, s') \<Rightarrow>
               (case sabridge_delete_if_orphaned cf r (w\<lparr>w_db := s'\<rparr>) of
                  None \<Rightarrow> None
                | Some (Inl e, w') \<Rightarrow> Some (Some e, w')
                | Some (Inr deleted, w') \<Rightarrow> unbind_loop cf (if deleted then rest @ cs else rest) w')))"
  by pat_completeness auto

termination
  by (relation "measure (\<lambda>(cf, rs, w). length rs + length (binds (w_db w)))") (auto dest: unbind_smaller)

definition sabridge_unbind_resource ::
  "dav_repos_db \<Rightarrow> (string \<Rightarrow> string) \<Rightarrow> dav_repos_resource \<Rightarrow> world \<Rightarrow> (dav_error option \<times> dav_repos_resource \<times> world) option" where
  "sabridge_unbind_resource cf dirstr r w =
     (if use_gc cf then
        (case (case dr_uri r of
                 None \<Rightarrow> Some (None, r, w_db w)
               | Some u \<Rightarrow>
                   (case sabridge_retrieve_parent dirstr r (w_db w) of
                      None \<Rightarrow> None
                    | Some (p, r, s) \<Rightarrow>
                        (case dbms_delete_bind (dr_serialno p) (dr_serialno r) (basename u) s of (e, s) \<Rightarrow> Some (e, r, s)))) of
           None \<Rightarrow> None
         | Some (Some e, r, s) \<Rightarrow> Some (Some e, r, w\<lparr>w_db := s\<rparr>)
         | Some (None, r, s) \<Rightarrow>
             (case dbms_insert_cleanup_reqs [zero_bind\<lparr>resource_id := dr_serialno r\<rparr>] s of
                (e, s) \<Rightarrow> Some (e, r, w\<lparr>w_db := s\<rparr>)))
      else
        (case (if dr_uri r \<noteq> None \<and> dr_parent_id r = 0
               then map_option (\<lambda>(p, r, s). (r\<lparr>dr_parent_id := dr_serialno p\<rparr>, s)) (sabridge_retrieve_parent dirstr r (w_db w))
               else Some (r, w_db w)) of
           None \<Rightarrow> None
         | Some (r, s) \<Rightarrow> map_option (\<lambda>(e, w). (e, r, w)) (unbind_loop cf [r] (w\<lparr>w_db := s\<rparr>))))"

text \<open>\<open>sabridge_coll_clear_children\<close> in general; a failed listing leaves the list uninitialised.\<close>

fun clear_members :: "dav_repos_db \<Rightarrow> (string \<Rightarrow> string) \<Rightarrow> id \<Rightarrow> dav_repos_resource list \<Rightarrow> world \<Rightarrow> (dav_error option \<times> world) option" where
  "clear_members cf dirstr coll [] w = Some (None, w)"
| "clear_members cf dirstr coll (r # rs) w =
     (if dr_bind r \<noteq> None
      then clear_members cf dirstr coll rs
             (w\<lparr>w_db := snd (dbms_delete_bind coll (dr_serialno r) (basename (column (dr_uri r))) (w_db w))\<rparr>)
      else case sabridge_unbind_resource cf dirstr r w of
        None \<Rightarrow> None
      | Some (Some e, r, w) \<Rightarrow> Some (Some e, w)
      | Some (None, r, w) \<Rightarrow> clear_members cf dirstr coll rs w)"

definition sabridge_coll_clear_children ::
  "dav_repos_db \<Rightarrow> (string \<Rightarrow> string) \<Rightarrow> dav_repos_resource \<Rightarrow> world \<Rightarrow> (dav_error option \<times> world) option" where
  "sabridge_coll_clear_children cf dirstr coll w =
     (case sabridge_get_collection_children None coll 1 (w_db w) of
        Some (Inr (rs, n), s) \<Rightarrow> clear_members cf dirstr (dr_serialno coll) rs (w\<lparr>w_db := s\<rparr>)
      | _ \<Rightarrow> None)"

lemma coll_clear_version:
  assumes "dr_resourcetype v = dav_repos_COLLECTION_VERSION"
  shows "sabridge_coll_clear_children cf dirstr v w = map_option (\<lambda>s. (None, w\<lparr>w_db := s\<rparr>)) (clear_coll_version v (w_db w))"
proof -
  have "expanded [v] = []"
    using assms by (simp add: expanded_def is_collection_def dav_repos_COLLECTION_VERSION_def dav_repos_COLLECTION_def
        dav_repos_VERSIONED_COLLECTION_def)
  then have "child_binds [v] s = []" for s by (simp add: child_binds_def)
  then have nothing [dest!]: "rs = []" if "sabridge_get_collection_children None v 1 s = Some (Inr (rs, n), s')" for rs n s s'
    using that by (auto elim!: get_children_depth1 simp: dbms_get_collection_resource_def Let_def
        split: option.splits prod.splits bool.splits sum.splits)
  show ?thesis
    by (auto simp: sabridge_coll_clear_children_def clear_coll_version_def split: option.splits sum.splits prod.splits)
qed

section \<open>The collector\<close>

text \<open>The body of the loop of \<open>gc_main\<close> for one request; errors are only logged. The structure it
  makes has no \<open>resource\<close>.\<close>

definition gc_collect :: "dav_repos_db \<Rightarrow> id \<Rightarrow> world \<Rightarrow> world option" where
  "gc_collect cf res w =
     (case sabridge_get_property (zero_dbr\<lparr>dr_serialno := res\<rparr>) (w_db w) of
        None \<Rightarrow> None
      | Some (e, r, s) \<Rightarrow>
          (case dbms_get_child_binds (dr_serialno r) True s of
             (x, s) \<Rightarrow>
               (case sabridge_delete_if_orphaned cf r (w\<lparr>w_db := s\<rparr>) of
                  None \<Rightarrow> None
                | Some (Inr True, w) \<Rightarrow>
                    Some (w\<lparr>w_db := snd (dbms_insert_cleanup_reqs (case x of Inl e \<Rightarrow> [] | Inr bs \<Rightarrow> bs) (w_db w))\<rparr>)
                | Some (_, w) \<Rightarrow> Some w)))"

definition gc_iteration :: "dav_repos_db \<Rightarrow> world \<Rightarrow> world option" where
  "gc_iteration cf w =
     (case dbms_next_cleanup_req (w_db w) of
        (e, res, s) \<Rightarrow> if res = 0 then Some (w\<lparr>w_db := s\<rparr>) else gc_collect cf res (w\<lparr>w_db := s\<rparr>))"

fun gc_run :: "nat \<Rightarrow> dav_repos_db \<Rightarrow> world \<Rightarrow> world option" where
  "gc_run 0 cf w = Some w"
| "gc_run (Suc n) cf w = (case gc_iteration cf w of None \<Rightarrow> None | Some w \<Rightarrow> gc_run n cf w)"

end
