(* ===== verification/Collector.thy ===== *)
theory Collector
  imports Lifecycle
begin

text \<open>
  The collector of \<^verbatim>\<open>gc.c\<close> and \<open>sabridge_unbind_resource\<close> are correct: what can be reached from the
  root collection is never deleted, whatever statements fail, and when none fails everything
  else goes in the end.
\<close>

section \<open>Reachability\<close>

definition edges :: "bind_row list \<Rightarrow> (id \<times> id) set" where
  "edges bs = {(b_collection_id b, b_resource_id b) | b. b \<in> set bs}"

definition reachable :: "db \<Rightarrow> id \<Rightarrow> bool" where
  "reachable s i \<longleftrightarrow> (ROOT_COLLECTION_ID, i) \<in> (edges (binds s))\<^sup>*"

lemma edges_image: "edges bs = (\<lambda>b. (b_collection_id b, b_resource_id b)) ` set bs"
  by (auto simp: edges_def)

lemma walk_rtrancl: "(\<exists>ns. walk bs a ns c) \<longleftrightarrow> (a, c) \<in> (edges bs)\<^sup>*"
proof
  show "\<exists>ns. walk bs a ns c \<Longrightarrow> (a, c) \<in> (edges bs)\<^sup>*"
  proof (elim exE)
    fix ns
    show "walk bs a ns c \<Longrightarrow> (a, c) \<in> (edges bs)\<^sup>*"
    proof (induction ns arbitrary: a)
      case (Cons n ns)
      then obtain b where b: "b \<in> set bs" "b_collection_id b = a" "walk bs (b_resource_id b) ns c" by auto
      then have "(a, b_resource_id b) \<in> edges bs" by (auto simp: edges_def)
      then show ?case using Cons.IH [OF b(3)] by (rule converse_rtrancl_into_rtrancl)
    qed simp
  qed
  show "(a, c) \<in> (edges bs)\<^sup>* \<Longrightarrow> \<exists>ns. walk bs a ns c"
  proof (induction rule: converse_rtrancl_induct)
    case base
    show ?case by (rule exI [of _ "[]"]) simp
  next
    case (step y z)
    then obtain b ns where "b \<in> set bs" "y = b_collection_id b" "z = b_resource_id b" "walk bs z ns c"
      by (auto simp: edges_def)
    then show ?case by (intro exI [of _ "b_name b # ns"]) auto
  qed
qed

lemma path_reachable:
  assumes "dbms_find_shortest_path ROOT_COLLECTION_ID i s = (Inr p, s')"
  shows "p = None \<longleftrightarrow> \<not> reachable s i"
  using shortest_path_spec [where src = ROOT_COLLECTION_ID and tgt = i and s = s] assms walk_rtrancl [of "binds s" ROOT_COLLECTION_ID i]
  by (auto simp: reachable_def shortest_def split: option.splits)

text \<open>A path either avoids a node or can be cut at its last visit there.\<close>

definition avoid :: "id \<Rightarrow> (id \<times> id) set \<Rightarrow> (id \<times> id) set" where
  "avoid q E = {(x, y) \<in> E. x \<noteq> q \<and> y \<noteq> q}"

lemma rtrancl_avoid:
  assumes "(a, i) \<in> E\<^sup>*" "i \<noteq> q"
  shows "a \<noteq> q \<and> (a, i) \<in> (avoid q E)\<^sup>* \<or> (\<exists>c. (q, c) \<in> E \<and> c \<noteq> q \<and> (c, i) \<in> (avoid q E)\<^sup>*) \<and> (a, q) \<in> E\<^sup>*"
  using assms
proof (induction rule: rtrancl_induct)
  case (step y z)
  show ?case
  proof (cases "y = q")
    case True
    with step.hyps step.prems show ?thesis by blast
  next
    case False
    then have "(y, z) \<in> avoid q E" using step.hyps(2) step.prems by (simp add: avoid_def)
    with step.IH [OF False] show ?thesis by (meson rtrancl.rtrancl_into_rtrancl)
  qed
qed simp

lemma without_edges: "without q s s' \<Longrightarrow> edges (binds s') = avoid q (edges (binds s))"
  by (auto simp: without_def edges_def avoid_def)

lemma avoid_mono: "(avoid q E)\<^sup>* \<subseteq> E\<^sup>*"
  by (rule rtrancl_mono) (auto simp: avoid_def)

text \<open>Deleting an unreachable resource changes nothing for the others.\<close>

lemma without_reachable:
  assumes "without q s s'" "\<not> reachable s q"
  shows "reachable s' i \<longleftrightarrow> reachable s i"
proof
  assume "reachable s' i"
  then show "reachable s i" using without_edges [OF assms(1)] avoid_mono by (auto simp: reachable_def)
next
  assume r: "reachable s i"
  with assms(2) have "i \<noteq> q" by auto
  with rtrancl_avoid [of ROOT_COLLECTION_ID i "edges (binds s)" q] r assms(2) without_edges [OF assms(1)]
  show "reachable s' i" by (auto simp: reachable_def)
qed

lemma reachable_cong: "binds t = binds s \<Longrightarrow> reachable t = reachable s"
  by (simp add: reachable_def fun_eq_iff)

section \<open>Reading never changes the tables\<close>

lemma get_resource_select:
  "dbms_get_resource r s = (e, r', s') \<Longrightarrow> tables_eq s' s \<and> dr_serialno r' = dr_serialno r \<and> dr_resource r' = dr_resource r
     \<and> dr_sha1str r' = dr_sha1str r"
  by (auto simp: dbms_get_resource_def split: prod.splits bool.splits option.splits dest: run_select_same)

lemma redirect_columns_select:
  "redirect_columns b r s = (r', s') \<Longrightarrow> tables_eq s' s \<and> dr_serialno r' = dr_serialno r \<and> dr_resource r' = dr_resource r
     \<and> dr_sha1str r' = dr_sha1str r \<and> dr_resourcetype r' = dr_resourcetype r"
  by (auto simp: redirect_columns_def dbms_get_redirect_props_def Let_def split: if_splits prod.splits bool.splits option.splits
      dest: run_select_same)

lemma collection_columns_select:
  "collection_columns r s = (e, r', s') \<Longrightarrow> tables_eq s' s \<and> dr_serialno r' = dr_serialno r \<and> dr_resource r' = dr_resource r
     \<and> dr_sha1str r' = dr_sha1str r \<and> dr_resourcetype r' = dr_resourcetype r"
  by (auto simp: collection_columns_def dbms_get_collection_props_def split: if_splits prod.splits bool.splits option.splits
      dest: run_select_same)

lemma media_props_select:
  "dbms_get_media_props r s = (e, r', s') \<Longrightarrow> tables_eq s' s \<and> dr_serialno r' = dr_serialno r \<and> dr_resource r' = dr_resource r
     \<and> dr_resourcetype r' = dr_resourcetype r
     \<and> (dr_sha1str r' = dr_sha1str r \<or> (\<exists>m \<in> set (media s). m_resource_id m = dr_serialno r \<and> dr_sha1str r' = Some (m_sha1 m)))"
  by (auto simp: dbms_get_media_props_def find_Some_iff tables_eqD dest!: run_select_same
      split: if_splits prod.splits bool.splits option.splits)

lemma vcr_props_select:
  "dbms_get_vcr_props r s = (e, r', s') \<Longrightarrow> tables_eq s' s \<and> dr_serialno r' = dr_serialno r \<and> dr_resource r' = dr_resource r
     \<and> dr_resourcetype r' = dr_resourcetype r \<and> dr_sha1str r' = dr_sha1str r"
  by (auto simp: dbms_get_vcr_props_def dbms_get_version_number_def split: prod.splits bool.splits option.splits
      dest!: run_select_same intro: tables_eq_trans)

lemma version_props_select:
  "dbms_get_version_resource_props r s = Some (e, r', s') \<Longrightarrow> tables_eq s' s \<and> dr_serialno r' = dr_serialno r
     \<and> dr_resource r' = dr_resource r \<and> dr_resourcetype r' = dr_resourcetype r \<and> dr_sha1str r' = dr_sha1str r"
  by (auto simp: dbms_get_version_resource_props_def Let_def split: prod.splits bool.splits option.splits if_splits
      dest!: run_select_same vcr_props_select intro: tables_eq_trans)

lemma creator_select:
  "dbms_get_creator_displayname r s = (e, r', s') \<Longrightarrow> tables_eq s' s \<and> dr_serialno r' = dr_serialno r
     \<and> dr_resource r' = dr_resource r \<and> dr_resourcetype r' = dr_resourcetype r \<and> dr_sha1str r' = dr_sha1str r"
  by (auto simp: dbms_get_creator_displayname_def split: prod.splits bool.splits dest!: run_select_same)

lemma vhr_props_select:
  "dbms_get_vhr_props r s = (e, r', s') \<Longrightarrow> tables_eq s' s \<and> dr_serialno r' = dr_serialno r
     \<and> dr_resource r' = dr_resource r \<and> dr_resourcetype r' = dr_resourcetype r \<and> dr_sha1str r' = dr_sha1str r"
  by (auto simp: dbms_get_vhr_props_def dbms_get_vhr_root_version_id_def split: prod.splits bool.splits option.splits
      dest!: run_select_same intro: tables_eq_trans)

lemma deltav_props_select:
  assumes "dbms_get_deltav_props r s = Some (e, r', s')"
  shows "tables_eq s' s \<and> dr_serialno r' = dr_serialno r
     \<and> dr_resource r' = dr_resource r \<and> dr_resourcetype r' = dr_resourcetype r \<and> dr_sha1str r' = dr_sha1str r"
proof -
  consider "Some (dbms_get_vcr_props r s) = Some (e, r', s')" | "Some (dbms_get_vhr_props r s) = Some (e, r', s')"
    | x r1 s1 where "dbms_get_version_resource_props r s = Some (x, r1, s1)" "dbms_get_creator_displayname r1 s1 = (e, r', s')"
    | "(e, r', s') = (None, r, s)"
    using assms by (auto simp: dbms_get_deltav_props_def split: if_splits option.splits)
  then show ?thesis
  proof cases
    case 3
    with version_props_select [OF 3(1)] creator_select [OF 3(2)] show ?thesis by (auto intro: tables_eq_trans)
  qed (simp_all add: vcr_props_select vhr_props_select)
qed

lemma get_property_select:
  assumes run: "sabridge_get_property r s = Some (e, r', s')" and "dr_serialno r \<noteq> 0" "dr_sha1str r = None"
  shows "tables_eq s' s" "dr_serialno r' = dr_serialno r" "dr_resource r' = dr_resource r"
    "dr_sha1str r' = Some h \<Longrightarrow> \<exists>m \<in> set (media s). m_resource_id m = dr_serialno r \<and> m_sha1 m = h"
proof -
  obtain e1 r1 s1 where 1: "dbms_get_resource (r\<lparr>dr_serialno := dr_serialno r\<rparr>) s = (e1, r1, s1)" by (metis prod_cases3)
  obtain r2 s2 where 2: "redirect_columns None r1 s1 = (r2, s2)" by fastforce
  obtain e3 r3 s3 where 3: "collection_columns r2 s2 = (e3, r3, s3)" by (metis prod_cases3)
  obtain e4 r4 s4 where 4: "dbms_get_media_props r3 s3 = (e4, r4, s4)" by (metis prod_cases3)
  note sel = get_resource_select [OF 1] redirect_columns_select [OF 2] collection_columns_select [OF 3] media_props_select [OF 4]
  have t3: "tables_eq s3 s" using sel by (metis tables_eq_trans)
  have run': "(case e3 of Some e \<Rightarrow> Some (Some e, r3, s3)
       | None \<Rightarrow> (case e4 of Some e \<Rightarrow> Some (Some e, r4, s4) | None \<Rightarrow> dbms_get_deltav_props r4 s4)) = Some (e, r', s')"
    using run 1 2 3 4 assms(2) by (auto simp: sabridge_get_property_def load_resource_def split: option.splits)
  consider "e3 \<noteq> None" "r' = r3" "s' = s3" | "e3 = None" "r' = r4" "s' = s4" | "dbms_get_deltav_props r4 s4 = Some (e, r', s')"
    using run' by (auto split: option.splits)
  then have all: "tables_eq s' s \<and> dr_serialno r' = dr_serialno r \<and> dr_resource r' = dr_resource r
    \<and> (dr_sha1str r' = None \<or> (\<exists>m \<in> set (media s). m_resource_id m = dr_serialno r \<and> dr_sha1str r' = Some (m_sha1 m)))"
  proof cases
    case 1
    with sel t3 assms(3) show ?thesis by simp
  next
    case 2
    with sel t3 assms(3) tables_eq_trans [of s4 s3 s] show ?thesis by (auto simp: tables_eqD)
  next
    case 3
    with sel t3 assms(3) tables_eq_trans [of s4 s3 s] deltav_props_select [OF 3] tables_eq_trans [of s' s4 s]
    show ?thesis by (auto simp: tables_eqD)
  qed
  then show "tables_eq s' s" "dr_serialno r' = dr_serialno r" "dr_resource r' = dr_resource r" by simp_all
  show "dr_sha1str r' = Some h \<Longrightarrow> \<exists>m \<in> set (media s). m_resource_id m = dr_serialno r \<and> m_sha1 m = h" using all by auto
qed


lemma load_resource_tables:
  assumes "load_resource b nf i r s = Some (e, r', s')"
  shows "tables_eq s' s"
proof (cases "i = 0")
  case False
  obtain e1 r1 s1 where 1: "dbms_get_resource (r\<lparr>dr_serialno := i\<rparr>) s = (e1, r1, s1)" by (metis prod_cases3)
  obtain r2 s2 where 2: "redirect_columns b (case b of None \<Rightarrow> r1 | Some b \<Rightarrow> r1\<lparr>dr_bind_id := bind_id b, dr_updated_at := updated_at b\<rparr>) s1 = (r2, s2)"
    by fastforce
  obtain e3 r3 s3 where 3: "collection_columns r2 s2 = (e3, r3, s3)" by (metis prod_cases3)
  obtain e4 r4 s4 where 4: "dbms_get_media_props r3 s3 = (e4, r4, s4)" by (metis prod_cases3)
  have t1: "tables_eq s1 s" using get_resource_select [OF 1] by simp
  have t3: "tables_eq s3 s"
    using t1 redirect_columns_select [OF 2] collection_columns_select [OF 3] by (metis tables_eq_trans)
  have t4: "tables_eq s4 s" using t3 media_props_select [OF 4] by (metis tables_eq_trans)
  have "s' \<in> {s1, s3, s4} \<or> dbms_get_deltav_props r4 s4 = Some (e, r', s')"
    using assms False 1 2 3 4 by (auto simp: load_resource_def split: if_splits option.splits)
  with t1 t3 t4 deltav_props_select [of r4 s4 e r' s'] tables_eq_trans [of s' s4 s] show ?thesis by blast
qed (use assms in \<open>simp add: load_resource_def\<close>)

lemma lookup_uri_tables: "dbms_lookup_uri u s = Some (x, s') \<Longrightarrow> tables_eq s' s"
  by (auto simp: dbms_lookup_uri_def Let_def split: if_splits prod.splits bool.splits dest: run_select_same)

lemma get_property_tables: "sabridge_get_property r s = Some (e, r', s') \<Longrightarrow> tables_eq s' s"
  by (auto simp: sabridge_get_property_def split: if_splits option.splits sum.splits prod.splits
      dest!: lookup_uri_tables load_resource_tables intro: tables_eq_trans)

lemma retrieve_parent_select:
  "sabridge_retrieve_parent dirstr r s = Some (p, r', s') \<Longrightarrow> tables_eq s' s \<and> dr_serialno r' = dr_serialno r"
  by (auto simp: sabridge_retrieve_parent_def dav_repos_get_parent_resource_def
      split: option.splits if_splits sum.splits prod.splits dest!: get_property_tables)

section \<open>What a deletion spares\<close>

text \<open>
  Two databases show the same to a client: the same resources can be reached, and their rows,
  their bindings and their bodies' rows are there in both. \<open>spares P\<close> says so of the resources in
  \<open>P\<close>, and of the directory of bodies that it keeps the bodies of these.
\<close>

definition spares :: "(id \<Rightarrow> bool) \<Rightarrow> world \<Rightarrow> world \<Rightarrow> bool" where
  "spares P w w' \<longleftrightarrow>
     filter P (map r_id (resources (w_db w'))) = filter P (map r_id (resources (w_db w))) \<and>
     filter (\<lambda>b. P (b_collection_id b)) (binds (w_db w')) = filter (\<lambda>b. P (b_collection_id b)) (binds (w_db w)) \<and>
     filter (\<lambda>m. P (m_resource_id m)) (media (w_db w')) = filter (\<lambda>m. P (m_resource_id m)) (media (w_db w)) \<and>
     (\<forall>m \<in> set (media (w_db w)). P (m_resource_id m) \<longrightarrow> m_sha1 m \<in> set (w_disk w) \<longrightarrow> m_sha1 m \<in> set (w_disk w'))"

lemma spares_trans:
  assumes "spares P w u" "spares P u v"
  shows "spares P w v"
proof -
  have "m \<in> set (media (w_db u))" if "m \<in> set (media (w_db w))" "P (m_resource_id m)" for m
  proof -
    have "m \<in> set (filter (\<lambda>m. P (m_resource_id m)) (media (w_db w)))" using that by simp
    also have "\<dots> = set (filter (\<lambda>m. P (m_resource_id m)) (media (w_db u)))" using assms(1) by (simp add: spares_def)
    finally show ?thesis by simp
  qed
  with assms show ?thesis by (simp add: spares_def)
qed

lemma spares_same:
  "map r_id (resources (w_db w')) = map r_id (resources (w_db w)) \<Longrightarrow> binds (w_db w') = binds (w_db w)
     \<Longrightarrow> media (w_db w') = media (w_db w) \<Longrightarrow> w_disk w' = w_disk w \<Longrightarrow> spares P w w'"
  by (simp add: spares_def)

lemma spares_tables: "tables_eq (w_db w') (w_db w) \<Longrightarrow> w_disk w' = w_disk w \<Longrightarrow> spares P w w'"
  by (simp add: spares_same tables_eqD)

text \<open>A file is removed only if no other body has its name.\<close>

lemma remove_body_spares:
  assumes sha: "\<And>h. dr_sha1str r = Some h \<Longrightarrow> \<exists>m \<in> set (media (w_db w)). m_resource_id m = dr_serialno r \<and> m_sha1 m = h"
    and "\<not> P (dr_serialno r)"
  shows "spares P w (sabridge_remove_body_from_disk cf r w)"
proof -
  let ?w' = "sabridge_remove_body_from_disk cf r w"
  have tab: "tables_eq (w_db ?w') (w_db w)" by (rule remove_body_select)
  have "m_sha1 m \<in> set (w_disk ?w')"
    if m: "m \<in> set (media (w_db w))" "P (m_resource_id m)" "m_sha1 m \<in> set (w_disk w)" for m
  proof (cases "w_disk ?w' = w_disk w")
    case False
    then obtain h where h: "dr_sha1str r = Some h" "w_disk ?w' = removeAll h (w_disk w)"
      and one: "fst (dbms_num_sha1_resources h (w_db w)) = 1"
      by (auto simp: sabridge_remove_body_from_disk_def split: if_splits option.splits prod.splits)
    obtain b s where b: "run_select (w_db w) = (b, s)" by fastforce
    with one have "length (filter (\<lambda>m. m_sha1 m = h) (media s)) = 1"
      by (cases b) (simp_all add: dbms_num_sha1_resources_def)
    then have len: "length (filter (\<lambda>m. m_sha1 m = h) (media (w_db w))) = 1"
      using run_select_same [OF b] by (simp add: tables_eqD)
    obtain m' where m': "m' \<in> set (media (w_db w))" "m_resource_id m' = dr_serialno r" "m_sha1 m' = h" using sha [OF h(1)] by blast
    have "m_sha1 m \<noteq> h"
    proof
      assume "m_sha1 m = h"
      with m m' have "m \<in> set (filter (\<lambda>m. m_sha1 m = h) (media (w_db w)))" "m' \<in> set (filter (\<lambda>m. m_sha1 m = h) (media (w_db w)))"
        by simp_all
      moreover obtain x where "filter (\<lambda>m. m_sha1 m = h) (media (w_db w)) = [x]" using len by (auto simp: length_Suc_conv)
      ultimately have "m = m'" by simp
      with m(2) m'(2) assms(2) show False by simp
    qed
    with h(2) m(3) show ?thesis by simp
  qed (use m(3) in simp)
  with tab show ?thesis by (simp add: spares_def tables_eqD)
qed

lemma without_spares:
  assumes "without q (w_db w) (w_db w')" "w_disk w' = w_disk w" "\<not> P q"
    "\<And>c. P c \<Longrightarrow> (c, q) \<notin> edges (binds (w_db w))"
  shows "spares P w w'"
proof -
  have "filter P (map r_id (resources (w_db w'))) = filter P (map r_id (resources (w_db w)))"
    using assms(1,3) by (auto simp: without_def filter_map comp_def conj_commute intro!: arg_cong [of _ _ "map r_id"] filter_cong)
  moreover have "filter (\<lambda>b. P (b_collection_id b)) (binds (w_db w')) = filter (\<lambda>b. P (b_collection_id b)) (binds (w_db w))"
    using assms(1,3,4) by (auto simp: without_def edges_def intro!: filter_cong)
  moreover have "filter (\<lambda>m. P (m_resource_id m)) (media (w_db w')) = filter (\<lambda>m. P (m_resource_id m)) (media (w_db w))"
    using assms(1,3) by (auto simp: without_def intro!: filter_cong)
  ultimately show ?thesis using assms(2) by (simp add: spares_def)
qed


definition same_ids :: "db \<Rightarrow> db \<Rightarrow> bool" where
  "same_ids s s' \<longleftrightarrow> map r_id (resources s') = map r_id (resources s) \<and> binds s' = binds s \<and> media s' = media s"

lemma unversion_same_ids: "dbms_unversion_vhr_vcrs vhr s = (e, s') \<Longrightarrow> same_ids s s'"
proof -
  have I: "same_ids s u" if "exec_or_500 msg (\<lambda>s. Some (unversion a b i s)) t = (x, u)" "same_ids s t" for msg a b i t x u
    by (rule exec_or_500_inv [OF that(1), where I = "same_ids s"])
      (use that(2) in \<open>auto simp: unversion_def same_ids_def tables_eqD comp_def if_distrib cong: if_cong map_cong\<close>)
  assume "dbms_unversion_vhr_vcrs vhr s = (e, s')"
  then show ?thesis
    by (auto simp: dbms_unversion_vhr_vcrs_def split: prod.splits option.splits elim!: I) (simp_all add: same_ids_def)
qed

text \<open>Without a \<open>resource\<close> a version history cannot be removed.\<close>

lemma remove_vhr_detached:
  assumes "sabridge_remove_vhr cf r w = Some (e, w')" "dr_resource r = None"
  shows "e \<noteq> None \<and> same_ids (w_db w) (w_db w') \<and> w_disk w' = w_disk w"
proof -
  have no: "sabridge_remove_vhr_vrs cf r u = None" for u
    using assms(2) by (auto simp: sabridge_remove_vhr_vrs_def dbms_get_vhr_versions_def sabridge_new_dbr_from_dbr_def
        split: option.splits sum.splits prod.splits bool.splits list.splits)
  obtain e1 t where t: "dbms_unversion_vhr_vcrs r (w_db w) = (e1, t)" by fastforce
  with assms(1) no have "e1 \<noteq> None" "e = e1" "w' = w\<lparr>w_db := t\<rparr>"
    by (auto simp: sabridge_remove_vhr_def split: option.splits)
  with unversion_same_ids [OF t] show ?thesis by simp
qed

lemma detached_delete:
  assumes run: "sabridge_delete_resource cf r w = Some (e, w')" and "dr_resource r = None"
    and sha: "\<And>h. dr_sha1str r = Some h \<Longrightarrow> \<exists>m \<in> set (media (w_db w)). m_resource_id m = dr_serialno r \<and> m_sha1 m = h"
    and un: "\<not> reachable (w_db w) (dr_serialno r)"
  shows "spares (reachable (w_db w)) w w'" "reachable (w_db w') = reachable (w_db w)"
    "e = None \<Longrightarrow> without (dr_serialno r) (w_db w) (w_db w')"
proof -
  let ?R = "reachable (w_db w)"
  have "spares ?R w w' \<and> reachable (w_db w') = ?R \<and> (e = None \<longrightarrow> without (dr_serialno r) (w_db w) (w_db w'))"
  proof (cases "dr_resourcetype r = dav_repos_VERSIONHISTORY")
    case True
    obtain e1 u where u: "sabridge_remove_vhr cf r w = Some (e1, u)"
      using run True by (auto simp: sabridge_delete_resource_def split: option.splits)
    note d = remove_vhr_detached [OF u assms(2)]
    then have "e = e1" "w' = u" using run True u by (auto simp: sabridge_delete_resource_def)
    with d show ?thesis by (auto simp: same_ids_def intro!: spares_same reachable_cong)
  next
    case False
    define u where "u = (if has_body (dr_resourcetype r) then sabridge_remove_body_from_disk cf r w else w)"
    have u: "spares ?R w u" "tables_eq (w_db u) (w_db w)"
      using remove_body_spares [of r w ?R, OF sha] un remove_body_select by (simp_all add: u_def spares_same)
    obtain s where s: "dbms_delete_resource r (w_db u) = (e, s)" "w' = u\<lparr>w_db := s\<rparr>"
      using run False by (auto simp: sabridge_delete_resource_def u_def split: prod.splits if_splits)
    have Ru: "reachable (w_db u) = ?R" using u(2) by (intro reachable_cong) (simp add: tables_eqD)
    show ?thesis
    proof (cases e)
      case None
      with s have wo: "without (dr_serialno r) (w_db u) (w_db w')" using delete_resource_ok by auto
      have "spares ?R u w'"
      proof (rule without_spares [OF wo])
        show "(c, dr_serialno r) \<notin> edges (binds (w_db u))" if "?R c" for c
          using that un u(2) by (auto simp: reachable_def tables_eqD intro: rtrancl_into_rtrancl)
      qed (use s un in auto)
      moreover have ww: "without (dr_serialno r) (w_db w) (w_db w')" using wo u(2) by (simp add: without_def tables_eqD)
      moreover have "reachable (w_db w') = ?R" using without_reachable [OF ww un] by blast
      ultimately show ?thesis using spares_trans [OF u(1)] by blast
    next
      case (Some x)
      with s have g: "graph_eq (w_db w') (w_db u)" using delete_resource_error by auto
      then have "spares ?R u w'" using s by (auto simp: graph_eq_def intro: spares_same)
      moreover have "reachable (w_db w') = ?R" using g Ru reachable_cong by (metis graph_eq_def)
      ultimately show ?thesis using spares_trans [OF u(1)] Some by blast
    qed
  qed
  then show "spares ?R w w'" "reachable (w_db w') = ?R" "e = None \<Longrightarrow> without (dr_serialno r) (w_db w) (w_db w')" by blast+
qed

lemma detached_orphaned:
  assumes run: "sabridge_delete_if_orphaned cf r w = Some (x, w')" and "dr_resource r = None"
    and sha: "\<And>h. dr_sha1str r = Some h \<Longrightarrow> \<exists>m \<in> set (media (w_db w)). m_resource_id m = dr_serialno r \<and> m_sha1 m = h"
  shows "spares (reachable (w_db w)) w w'" "reachable (w_db w') = reachable (w_db w)"
proof -
  let ?R = "reachable (w_db w)"
  obtain p s where p: "dbms_find_shortest_path ROOT_COLLECTION_ID (dr_serialno r) (w_db w) = (p, s)" by fastforce
  have tab: "tables_eq s (w_db w)" using p by (rule shortest_path_select)
  have Rs: "reachable s = ?R" using tab by (intro reachable_cong) (simp add: tables_eqD)
  have "spares ?R w w' \<and> reachable (w_db w') = ?R"
  proof (cases "p = Inr None")
    case True
    obtain e where e: "sabridge_delete_resource cf r (w\<lparr>w_db := s\<rparr>) = Some (e, w')"
      using run p True by (auto simp: sabridge_delete_if_orphaned_def split: option.splits)
    have un: "\<not> ?R (dr_serialno r)" using path_reachable p True by blast
    have "spares ?R w (w\<lparr>w_db := s\<rparr>)" using tab by (intro spares_tables) simp_all
    with detached_delete(1,2) [OF e assms(2)] sha un tab Rs show ?thesis
      by (auto simp: tables_eqD intro: spares_trans)
  next
    case False
    with run p have "w' = w\<lparr>w_db := s\<rparr>" by (auto simp: sabridge_delete_if_orphaned_def split: sum.splits option.splits)
    with tab Rs show ?thesis by (auto intro: spares_tables)
  qed
  then show "spares ?R w w'" "reachable (w_db w') = ?R" by blast+
qed

lemma insert_cleanup_select: "dbms_insert_cleanup_reqs bs s = (e, s') \<Longrightarrow> same_ids s s'"
proof (cases "bs = []")
  case False
  assume "dbms_insert_cleanup_reqs bs s = (e, s')"
  with False have run: "exec_or_500 ''INSERT INTO cleanup(resource_id)'' (enqueue_rows (remdups (map resource_id bs))) s = (e, s')"
    by (simp add: dbms_insert_cleanup_reqs_def)
  show ?thesis
    by (rule exec_or_500_inv [OF run, where I = "same_ids s"])
      (auto simp: same_ids_def tables_eqD enqueue_rows_def split: if_splits)
qed (simp add: dbms_insert_cleanup_reqs_def same_ids_def)

lemma next_cleanup_select: "dbms_next_cleanup_req s = (e, q, s') \<Longrightarrow> same_ids s s'"
proof -
  have del: "same_ids t (snd (run_stmt (\<lambda>s. Some (s\<lparr>cleanup := filter (\<lambda>(i, r). i \<noteq> c) (cleanup s)\<rparr>)) t))" for c t
  proof -
    obtain b u where u: "run_stmt (\<lambda>s. Some (s\<lparr>cleanup := filter (\<lambda>(i, r). i \<noteq> c) (cleanup s)\<rparr>)) t = (b, u)" by fastforce
    then show ?thesis by (cases b) (auto dest!: run_stmt_error elim!: run_stmt_ok simp: same_ids_def tables_eqD)
  qed
  obtain b t where t: "run_select s = (b, t)" by fastforce
  then have "same_ids s t" by (auto dest!: run_select_same simp: same_ids_def tables_eqD)
  moreover assume "dbms_next_cleanup_req s = (e, q, s')"
  ultimately show ?thesis using t del [of t] by (cases b)
    (auto simp: dbms_next_cleanup_req_def Let_def same_ids_def split: prod.splits if_splits option.splits)
qed

definition collected :: "(dav_error + dbms_bind_list list) \<Rightarrow> (dav_error + bool) \<Rightarrow> world \<Rightarrow> world" where
  "collected x y u =
     (if y = Inr True then u\<lparr>w_db := snd (dbms_insert_cleanup_reqs (case x of Inl e \<Rightarrow> [] | Inr bs \<Rightarrow> bs) (w_db u))\<rparr> else u)"

lemma collected_same_ids: "same_ids (w_db u) (w_db (collected x y u)) \<and> w_disk (collected x y u) = w_disk u"
proof -
  have "same_ids (w_db u) (snd (dbms_insert_cleanup_reqs bs (w_db u)))" for bs
    by (rule insert_cleanup_select [of _ _ "fst (dbms_insert_cleanup_reqs bs (w_db u))"]) simp
  then show ?thesis by (simp add: collected_def same_ids_def)
qed

lemma gc_collect_cases:
  assumes "gc_collect cf q w = Some w'"
  obtains e r t x t' y u where "sabridge_get_property (zero_dbr\<lparr>dr_serialno := q\<rparr>) (w_db w) = Some (e, r, t)"
    "dbms_get_child_binds (dr_serialno r) True t = (x, t')"
    "sabridge_delete_if_orphaned cf r (w\<lparr>w_db := t'\<rparr>) = Some (y, u)" "w' = collected x y u"
proof -
  obtain e r t where 1: "sabridge_get_property (zero_dbr\<lparr>dr_serialno := q\<rparr>) (w_db w) = Some (e, r, t)"
    using assms by (auto simp: gc_collect_def split: option.splits)
  obtain x t' where 2: "dbms_get_child_binds (dr_serialno r) True t = (x, t')" by fastforce
  obtain y u where 3: "sabridge_delete_if_orphaned cf r (w\<lparr>w_db := t'\<rparr>) = Some (y, u)"
    using assms 1 2 by (auto simp: gc_collect_def split: option.splits)
  show thesis
    by (rule that [OF 1 2 3]) (use assms 1 2 3 in \<open>auto simp: gc_collect_def collected_def split: sum.splits bool.splits\<close>)
qed

lemma gc_round_spares:
  assumes "gc_iteration cf w = Some w'"
  shows "reachable (w_db w') = reachable (w_db w) \<and> spares (reachable (w_db w)) w w'"
proof -
  let ?R = "reachable (w_db w)"
  obtain e q s where q: "dbms_next_cleanup_req (w_db w) = (e, q, s)" by (metis prod_cases3)
  have s: "same_ids (w_db w) s" using q by (rule next_cleanup_select)
  then have ws: "spares ?R w (w\<lparr>w_db := s\<rparr>)" "reachable s = ?R"
    by (auto simp: same_ids_def intro: spares_same reachable_cong)
  show ?thesis
  proof (cases "q = 0")
    case True
    with assms q ws show ?thesis by (auto simp: gc_iteration_def)
  next
    case False
    with assms q have "gc_collect cf q (w\<lparr>w_db := s\<rparr>) = Some w'" by (simp add: gc_iteration_def)
    then obtain e1 r t x t' y u where
      r: "sabridge_get_property (zero_dbr\<lparr>dr_serialno := q\<rparr>) s = Some (e1, r, t)"
      and c: "dbms_get_child_binds (dr_serialno r) True t = (x, t')"
      and d: "sabridge_delete_if_orphaned cf r (w\<lparr>w_db := t'\<rparr>) = Some (y, u)"
      and w': "w' = collected x y u"
      by (rule gc_collect_cases) simp
    have z: "dr_serialno (zero_dbr\<lparr>dr_serialno := q\<rparr>) \<noteq> 0" "dr_sha1str (zero_dbr\<lparr>dr_serialno := q\<rparr>) = None"
      using False by (simp_all add: zero_dbr_def)
    note sel = get_property_select [OF r z]
    have "tables_eq t' t" using c by (auto simp: dbms_get_child_binds_def split: prod.splits bool.splits dest: run_select_same)
    then have tab: "tables_eq t' s" using sel(1) by (rule tables_eq_trans)
    then have t': "spares ?R (w\<lparr>w_db := s\<rparr>) (w\<lparr>w_db := t'\<rparr>)" "reachable t' = ?R"
      using ws(2) by (auto simp: tables_eqD intro: spares_tables reachable_cong [THEN trans])
    have "dr_resource r = None" using sel(3) by (simp add: zero_dbr_def)
    from detached_orphaned [OF d this] sel(2,4) tab t'(2)
    have "spares ?R (w\<lparr>w_db := t'\<rparr>) u" "reachable (w_db u) = ?R" by (simp_all add: tables_eqD)
    moreover have "same_ids (w_db u) (w_db w') \<and> w_disk w' = w_disk u" by (simp add: w' collected_same_ids)
    then have "spares ?R u w'" "reachable (w_db w') = reachable (w_db u)"
      by (auto simp: same_ids_def intro: spares_same reachable_cong)
    ultimately show ?thesis using ws(1) t'(1) by (metis spares_trans)
  qed
qed


section \<open>What the collector needs to finish\<close>

text \<open>
  A repository without versions whose tables are consistent: keys are unique and references point
  to rows, every principal can be reached, every body has its row, and no principal owns more bytes
  than it is charged for. No statement fails from outside.
\<close>

definition unversioned :: "db \<Rightarrow> resource_row \<Rightarrow> bool" where
  "unversioned s w \<longleftrightarrow>
     (let t = dav_repos_get_type_id (r_type w)
      in t \<noteq> dav_repos_VERSION \<and> t \<noteq> dav_repos_COLLECTION_VERSION \<and> t \<noteq> dav_repos_VERSIONHISTORY \<and>
         (has_body t \<longrightarrow> list_ex (\<lambda>m. m_resource_id m = r_id w) (media s)))"

definition covers :: "db \<Rightarrow> bool" where
  "covers s \<longleftrightarrow> list_all (\<lambda>(p, used, limit). used_by s p \<le> used) (quota s) \<and> list_all (\<lambda>m. 0 \<le> m_size m) (media s)"

definition refs_inv :: "db \<Rightarrow> bool" where
  "refs_inv s \<longleftrightarrow> list_all (\<lambda>b. b_collection_id b \<in> resource_ids s \<and> b_resource_id b \<in> resource_ids s) (binds s) \<and>
     list_all (\<lambda>(i, q). q \<in> resource_ids s) (cleanup s)"

definition gc_inv :: "db \<Rightarrow> bool" where
  "gc_inv s \<longleftrightarrow> queue_inv s \<and> resources_inv s \<and> refs_inv s \<and> covers s \<and> list_all (unversioned s) (resources s) \<and>
     (\<forall>p \<in> principal_ids s. reachable s p)"

text \<open>Every resource can be reached, from the root or from a request of the queue.\<close>

definition garbage_queued :: "db \<Rightarrow> bool" where
  "garbage_queued s \<longleftrightarrow>
     (\<forall>i \<in> resource_ids s. reachable s i \<or> (\<exists>q \<in> snd ` set (cleanup s). (q, i) \<in> (edges (binds s))\<^sup>*))"

lemma sum_list_ge:
  fixes f :: "'a \<Rightarrow> int"
  shows "x \<in> set xs \<Longrightarrow> (\<And>y. y \<in> set xs \<Longrightarrow> 0 \<le> f y) \<Longrightarrow> f x \<le> sum_list (map f xs)"
proof (induction xs)
  case (Cons a xs)
  have "0 \<le> sum_list (map f xs)" using Cons.prems by (intro sum_list_nonneg) auto
  with Cons show ?case by (cases "x = a") (auto intro: order_trans)
qed simp

lemma bytes_nonneg: "covers s \<Longrightarrow> 0 \<le> media_bytes s i \<and> 0 \<le> prop_bytes s i"
  by (auto simp: covers_def media_bytes_def prop_bytes_def list_all_iff intro!: sum_list_nonneg)

lemma used_by_ge:
  assumes "covers s" "map_of (owners s) i = Some ow"
  shows "bytes_of s i \<le> used_by s ow"
proof -
  have "(i, ow) \<in> set (owners s)" using assms(2) by (rule map_of_SomeD)
  then have "(\<lambda>(i, o'). if o' = ow then bytes_of s i else 0) (i, ow) \<le> used_by s ow"
    unfolding used_by_def by (rule sum_list_ge) (use bytes_nonneg [OF assms(1)] in \<open>auto simp: bytes_of_def\<close>)
  then show ?thesis by simp
qed

lemma owner_of: "i \<in> resource_ids s \<Longrightarrow> \<exists>ow. map_of (owners s) i = Some ow"
  by (force simp: resource_ids_def owners_def map_of_eq_None_iff simp flip: not_None_eq)

lemma release_ok:
  assumes "covers s" "resources_inv s" "i \<in> resource_ids s" "list_ex (\<lambda>m. m_resource_id m = i) (media s)"
  shows "\<exists>t. release_quota i s = Some t"
proof -
  obtain ow where ow: "map_of (owners s) i = Some ow" using owner_of [OF assms(3)] by blast
  obtain m where m: "filter (\<lambda>m. m_resource_id m = i) (media s) = [m]"
    using filter_unique [of m_resource_id "media s" i] assms(2,4) by (auto simp: resources_inv_def list_ex_iff filter_empty_conv)
  then have mb: "media_bytes s i = m_size m" by (simp add: media_bytes_filter)
  have "0 \<le> u - m_size m" if "(p, u, l) \<in> set (quota s)" "p = ow" for p u l
    using used_by_ge [OF assms(1) ow] bytes_nonneg [OF assms(1), of i] that assms(1) mb
    by (fastforce simp: covers_def list_all_iff bytes_of_def)
  moreover obtain r where "find_resource i s = Some r" "r_owner_id r = ow"
    using ow find_resource_owner [of i s] by auto
  ultimately show ?thesis using m by (force simp: release_quota_def charge_def list_ex_iff)
qed


lemma used_by_cong: "owners t = owners s \<Longrightarrow> media t = media s \<Longrightarrow> properties t = properties s \<Longrightarrow> used_by t = used_by s \<and> bytes_of t = bytes_of s"
proof -
  assume a: "owners t = owners s" "media t = media s" "properties t = properties s"
  then have "bytes_of t = bytes_of s" by (simp add: bytes_of_def media_bytes_def prop_bytes_def fun_eq_iff)
  with a show ?thesis by (simp add: used_by_def fun_eq_iff cong: if_cong)
qed

lemma covers_delete:
  assumes "covers s" "resources_inv s" "map_of (owners s) q = Some ow"
    and t: "quota t = map (\<lambda>(p, u, l). (p, if p = ow then u - d else u, l)) (quota s)" "d \<le> bytes_of s q"
      "owners t = owners s" "media t = media s" "properties t = properties s"
    and del: "delete_resources (\<lambda>j. j = q) t = Some s'"
  shows "covers s'"
proof -
  note sel = delete_resources_select [OF del]
  note eq = used_by_cong [OF t(3-5)]
  have dist: "distinct (map fst (owners t))" "map_of (owners t) q = Some ow"
    using owners_distinct [OF assms(2)] t(3) assms(3) by simp_all
  have used: "used_by s' p = used_by s p - (if p = ow then bytes_of s q else 0)" for p
    using delete_used_by [OF del dist, of p] eq by simp
  have "used_by s' p \<le> u" if "(p, u, l) \<in> set (quota s')" for p u l
  proof -
    from that obtain u0 where u0: "(p, u0, l) \<in> set (quota s)" "u = (if p = ow then u0 - d else u0)"
      by (auto simp: sel t(1))
    then have "used_by s p \<le> u0" using assms(1) by (auto simp: covers_def list_all_iff)
    with u0(2) used [of p] t(2) show ?thesis by auto
  qed
  moreover have "list_all (\<lambda>m. 0 \<le> m_size m) (media s')"
    using assms(1) by (auto simp: covers_def sel t(4) list_all_iff)
  ultimately show ?thesis by (auto simp: covers_def list_all_iff)
qed

lemma release_step:
  assumes "covers s" "resources_inv s" "fault s = []" "i \<in> resource_ids s" "map_of (owners s) i = Some ow"
    "has_body y \<Longrightarrow> list_ex (\<lambda>m. m_resource_id m = i) (media s)"
  obtains t d where "(if has_body y then exec_or_500 msg (release_quota i) s else (None, s)) = (None, t)"
    "quota t = map (\<lambda>(p, u, l). (p, if p = ow then u - d else u, l)) (quota s)" "d \<le> bytes_of s i"
    "owners t = owners s" "media t = media s" "properties t = properties s" "resources t = resources s" "binds t = binds s"
    "cleanup t = cleanup s" "principals t = principals s" "fault t = []" "next_cleanup t = next_cleanup s"
proof (cases "has_body y")
  case True
  then obtain t where t: "release_quota i s = Some t" using release_ok [OF assms(1,2,4)] assms(6) by blast
  then obtain q where q: "t = s\<lparr>quota := q\<rparr>"
    by (auto simp: release_quota_def charge_def split: list.splits option.splits if_splits intro: that [of "quota s"])
  have "quota t = map (\<lambda>(p, u, l). (p, if p = ow then u - media_bytes s i else u, l)) (quota s)"
    using release_quota_rows [OF t _ assms(5)] assms(2) by (simp add: resources_inv_def)
  with True t q assms(3) bytes_nonneg [OF assms(1), of i] show ?thesis
    by (intro that [of t "media_bytes s i"]) (simp_all add: exec_or_500_healthy owners_def bytes_of_def)
next
  case False
  have "quota s = map (\<lambda>(p, u, l). (p, if p = ow then u - 0 else u, l)) (quota s)" by (simp add: split_def cong: if_cong)
  with False assms(3) bytes_nonneg [OF assms(1), of i] show ?thesis
    by (intro that [of s 0]) (simp_all add: bytes_of_def)
qed

lemma filter_sorted: "sorted_wrt P (map f xs) \<Longrightarrow> sorted_wrt P (map f (filter Q xs))"
  by (induction xs) auto

lemma gc_inv_delete:
  assumes inv: "gc_inv s" and q: "q \<in> resource_ids s" "\<not> reachable s q" "find_resource q s = Some w"
    and r: "dr_serialno r = q" "dr_resourcetype r = dav_repos_get_type_id (r_type w)"
  shows "\<exists>s'. dbms_delete_resource r s = (None, s') \<and> gc_inv s'"
proof -
  have f: "fault s = []" using inv by (simp add: gc_inv_def queue_inv_def)
  obtain ow where ow: "map_of (owners s) q = Some ow" using owner_of [OF q(1)] by blast
  have w: "w \<in> set (resources s)" "r_id w = q" using q(3) by (auto simp: find_resource_def find_Some_iff)
  have body: "has_body (dr_resourcetype r) \<Longrightarrow> list_ex (\<lambda>m. m_resource_id m = q) (media s)"
    using inv w r by (auto simp: gc_inv_def unversioned_def Let_def list_all_iff)
  obtain t d where t: "(if has_body (dr_resourcetype r) then exec_or_500 ''DBMS error in deleting resource'' (release_quota q) s else (None, s)) = (None, t)"
    "quota t = map (\<lambda>(p, u, l). (p, if p = ow then u - d else u, l)) (quota s)" "d \<le> bytes_of s q"
    "owners t = owners s" "media t = media s" "properties t = properties s" "resources t = resources s" "binds t = binds s"
    "cleanup t = cleanup s" "principals t = principals s" "fault t = []" "next_cleanup t = next_cleanup s"
    by (rule release_step [OF _ _ f q(1) ow body, where msg = "''DBMS error in deleting resource''"])
      (use inv in \<open>simp_all add: gc_inv_def\<close>)
  have "q \<notin> principal_ids t" using inv q(2) t(10) by (auto simp: gc_inv_def principal_ids_def)
  then obtain s' where del: "delete_resources (\<lambda>j. j = q) t = Some s'" by (auto simp: delete_resources_def Let_def list_ex_iff)
  have run: "dbms_delete_resource r s = (None, s')" 
    unfolding dbms_delete_resource_def r(1) t(1) using t(11) del by (simp add: exec_or_500_healthy)
  note sel = delete_resources_select [OF del]
  note [simp] = t(5-12)
  have reach: "reachable s' i \<longleftrightarrow> reachable s i" for i
    using without_reachable [OF delete_resource_ok [OF run]] q(2) r(1) by simp
  have ids: "resource_ids s' = resource_ids s - {q}" by (auto simp: resource_ids_def sel)
  have "covers s'" using covers_delete [OF _ _ ow t(2-6) del] inv by (simp add: gc_inv_def)
  moreover have "queue_inv s'"
    using inv filter_sorted [of "(<)" fst "cleanup s"] by (auto simp: gc_inv_def queue_inv_def sel list_all_iff ids)
  moreover have "resources_inv s'"
    using inv by (auto simp: gc_inv_def resources_inv_def sel intro: distinct_map_filter)
  moreover have "refs_inv s'"
    using inv by (auto simp: gc_inv_def refs_inv_def sel list_all_iff ids)
  moreover have "list_ex (\<lambda>m. m_resource_id m = r_id x) (media s') = list_ex (\<lambda>m. m_resource_id m = r_id x) (media s)"
    if "r_id x \<noteq> q" for x using that by (auto simp: sel list_ex_iff)
  then have "list_all (unversioned s') (resources s')"
    using inv by (auto simp: gc_inv_def unversioned_def Let_def sel list_all_iff)
  moreover have "\<forall>p \<in> principal_ids s'. reachable s' p"
    using inv by (auto simp: gc_inv_def principal_ids_def sel reach)
  ultimately show ?thesis using run by (auto simp: gc_inv_def)
qed


lemma gc_inv_queue:
  assumes "gc_inv s" "queue_inv s'" "list_all (\<lambda>(i, q). q \<in> resource_ids s) (cleanup s')"
    and same: "resources s' = resources s" "binds s' = binds s" "media s' = media s" "quota s' = quota s"
      "properties s' = properties s" "principals s' = principals s"
  shows "gc_inv s'"
proof -
  have ids: "resource_ids s' = resource_ids s" by (simp add: resource_ids_def same)
  have "used_by s' = used_by s" using used_by_cong [of s' s] by (simp add: owners_def same)
  moreover have "reachable s' = reachable s" by (rule reachable_cong) (rule same)
  moreover have "unversioned s' = unversioned s" by (simp add: unversioned_def same fun_eq_iff)
  ultimately show ?thesis using assms
    by (auto simp: gc_inv_def refs_inv_def covers_def resources_inv_def ids principal_ids_def)
qed

section \<open>Every statement succeeds\<close>

lemma get_property_healthy:
  assumes f: "fault s = []" and w: "find_resource q s = Some w" "unversioned s w" "q \<noteq> 0"
  obtains e r where "sabridge_get_property (zero_dbr\<lparr>dr_serialno := q\<rparr>) s = Some (e, r, s)" "dr_serialno r = q"
    "dr_resourcetype r = dav_repos_get_type_id (r_type w)" "dr_resource r = None"
proof -
  obtain e1 r1 where 1: "dbms_get_resource (zero_dbr\<lparr>dr_serialno := q\<rparr>) s = (e1, r1, s)"
    "dr_resourcetype r1 = dav_repos_get_type_id (r_type w)"
    using w(1) f by (simp add: dbms_get_resource_def run_stmt_healthy)
  have "snd (redirect_columns None r1 s) = s"
    using f by (auto simp: redirect_columns_def dbms_get_redirect_props_def run_stmt_healthy Let_def split: option.split prod.split)
  then obtain r2 where 2: "redirect_columns None r1 s = (r2, s)" by (metis prod.collapse)
  have "fst (collection_columns r2 s) = None \<and> snd (snd (collection_columns r2 s)) = s"
    using f by (auto simp: collection_columns_def dbms_get_collection_props_def run_stmt_healthy split: option.split)
  then obtain e3 r3 where 3: "collection_columns r2 s = (e3, r3, s)" "e3 = None" by (metis prod.collapse)
  have "fst (dbms_get_media_props r3 s) = None \<and> snd (snd (dbms_get_media_props r3 s)) = s"
    using f by (auto simp: dbms_get_media_props_def run_stmt_healthy split: option.split)
  then obtain e4 r4 where 4: "dbms_get_media_props r3 s = (e4, r4, s)" "e4 = None" by (metis prod.collapse)
  note sel = get_resource_select [OF 1(1)] redirect_columns_select [OF 2] collection_columns_select [OF 3(1)]
    media_props_select [OF 4(1)]
  have ty: "dr_resourcetype r4 = dav_repos_get_type_id (r_type w)" using sel 1(2) by simp
  have vcr: "snd (snd (dbms_get_vcr_props r4 s)) = s"
    using f by (simp add: dbms_get_vcr_props_def dbms_get_version_number_def run_stmt_healthy split: option.split)
  have "dbms_get_deltav_props r4 s = Some (dbms_get_vcr_props r4 s) \<or> dbms_get_deltav_props r4 s = Some (None, r4, s)"
    using ty w(2) by (auto simp: dbms_get_deltav_props_def unversioned_def Let_def)
  with vcr obtain e5 r5 where 5: "dbms_get_deltav_props r4 s = Some (e5, r5, s)" by (metis prod.collapse)
  have "sabridge_get_property (zero_dbr\<lparr>dr_serialno := q\<rparr>) s = Some (e5, r5, s)"
    using 1 2 3 4 5 w(3) by (simp add: sabridge_get_property_def load_resource_def)
  moreover have "dr_serialno r5 = q" "dr_resourcetype r5 = dav_repos_get_type_id (r_type w)" "dr_resource r5 = None"
    using deltav_props_select [OF 5] sel ty by (simp_all add: zero_dbr_def)
  ultimately show thesis by (rule that)
qed

lemma search_healthy: "fault s = [] \<Longrightarrow> snd (search src xs ff h s) = s"
proof (induction src xs ff h s rule: search.induct)
  case (1 src xs ff h s)
  then show ?case
    by (subst search.simps) (auto simp: run_stmt_healthy split: prod.split option.split)
qed

lemma shortest_path_healthy:
  assumes "fault s = []"
  shows "dbms_find_shortest_path ROOT_COLLECTION_ID i s = (Inr p, s') \<Longrightarrow> s' = s"
    and "\<exists>p. dbms_find_shortest_path ROOT_COLLECTION_ID i s = (Inr p, s) \<and> (p = None \<longleftrightarrow> \<not> reachable s i)"
proof -
  have s: "snd (dbms_find_shortest_path ROOT_COLLECTION_ID i s) = s"
    using search_healthy [OF assms] by (simp add: dbms_find_shortest_path_def dbms_find_shortest_path_excl_binds_def)
  then show "dbms_find_shortest_path ROOT_COLLECTION_ID i s = (Inr p, s') \<Longrightarrow> s' = s" by simp
  obtain x where x: "dbms_find_shortest_path ROOT_COLLECTION_ID i s = (x, s)" using s by (metis prod.collapse)
  with shortest_path_spec [where src = ROOT_COLLECTION_ID and tgt = i and s = s] assms obtain p where "x = Inr p"
    by (cases x) auto
  with x path_reachable [of i s p s] show "\<exists>p. dbms_find_shortest_path ROOT_COLLECTION_ID i s = (Inr p, s) \<and> (p = None \<longleftrightarrow> \<not> reachable s i)"
    by auto
qed


lemma child_binds_healthy:
  "fault s = [] \<Longrightarrow> dbms_get_child_binds q True s =
     (Inr (rev (map child_bind (filter (\<lambda>b. b_collection_id b = q \<and> b_resource_id b \<noteq> q) (binds s)))), s)"
proof -
  have "filter (\<lambda>b. b_collection_id b = q \<and> b_resource_id b \<noteq> b_collection_id b) (binds s)
      = filter (\<lambda>b. b_collection_id b = q \<and> b_resource_id b \<noteq> q) (binds s)" by (rule filter_cong) auto
  then show "fault s = [] \<Longrightarrow> ?thesis" by (simp add: dbms_get_child_binds_def run_stmt_healthy)
qed

lemma remove_body_healthy:
  "fault (w_db w) = [] \<Longrightarrow> w_db (sabridge_remove_body_from_disk cf r w) = w_db w"
  by (auto simp: sabridge_remove_body_from_disk_def dbms_num_sha1_resources_def run_stmt_healthy split: option.split)

text \<open>The children of a deleted collection take its place in the queue.\<close>

lemma garbage_queued_delete:
  assumes g: "garbage_queued s" "\<not> reachable s q" and wo: "without q (s\<lparr>cleanup := xs\<rparr>) t" "snd ` set (cleanup s) \<subseteq> insert q (snd ` set xs)"
    and u: "resources u = resources t" "binds u = binds t"
      "snd ` set (cleanup u) = snd ` set (cleanup t) \<union> {c. (q, c) \<in> edges (binds s) \<and> c \<noteq> q}"
  shows "garbage_queued u"
proof -
  let ?E = "edges (binds s)"
  have E: "edges (binds u) = avoid q ?E" using without_edges [OF wo(1)] by (simp add: u)
  have cl: "snd ` set (cleanup t) = snd ` set xs - {q}" using wo(1) by (auto simp: without_def image_iff)
  have "reachable u i \<or> (\<exists>p \<in> snd ` set (cleanup u). (p, i) \<in> (edges (binds u))\<^sup>*)" if "i \<in> resource_ids u" for i
  proof -
    have i: "i \<in> resource_ids s" "i \<noteq> q" using that wo(1) by (auto simp: resource_ids_def u without_def)
    have cut: ?thesis if "(a, i) \<in> ?E\<^sup>*" "a = ROOT_COLLECTION_ID \<or> a \<in> snd ` set (cleanup s)" for a
      using rtrancl_avoid [OF that(1) i(2)]
    proof
      assume "a \<noteq> q \<and> (a, i) \<in> (avoid q ?E)\<^sup>*"
      with that(2) wo(2) cl show ?thesis by (auto simp: reachable_def E u(3))
    next
      assume "(\<exists>c. (q, c) \<in> ?E \<and> c \<noteq> q \<and> (c, i) \<in> (avoid q ?E)\<^sup>*) \<and> (a, q) \<in> ?E\<^sup>*"
      then show ?thesis by (auto simp: E u(3))
    qed
    then show ?thesis using g(1) i(1) by (fastforce simp: garbage_queued_def reachable_def)
  qed
  then show ?thesis by (simp add: garbage_queued_def)
qed

lemma garbage_queued_keep:
  assumes "garbage_queued s" "reachable s q" "snd ` set (cleanup s) \<subseteq> insert q (snd ` set xs)"
  shows "garbage_queued (s\<lparr>cleanup := xs\<rparr>)"
proof -
  have "reachable s i \<or> (\<exists>p \<in> snd ` set xs. (p, i) \<in> (edges (binds s))\<^sup>*)" if "i \<in> resource_ids s" for i
  proof (cases "reachable s i")
    case False
    then obtain p where p: "p \<in> snd ` set (cleanup s)" "(p, i) \<in> (edges (binds s))\<^sup>*"
      using assms(1) \<open>i \<in> resource_ids s\<close> unfolding garbage_queued_def by blast
    have "p \<noteq> q" using p(2) assms(2) False by (auto simp: reachable_def intro: rtrancl_trans)
    with p assms(3) show ?thesis by blast
  qed simp
  then show ?thesis by (simp add: garbage_queued_def reachable_def resource_ids_def)
qed


section \<open>The collector finishes\<close>

definition gc_order :: "db rel" where
  "gc_order = inv_image (less_than <*lex*> less_than) (\<lambda>s. (length (resources s), length (cleanup s)))"

lemma wf_gc_order: "wf gc_order"
  by (simp add: gc_order_def wf_lex_prod)

lemma edges_children:
  "resource_id ` set (rev (map child_bind (filter (\<lambda>b. b_collection_id b = q \<and> b_resource_id b \<noteq> q) bs)))
     = {c. (q, c) \<in> edges bs \<and> c \<noteq> q}"
  by (force simp: edges_def child_bind_def zero_bind_def image_iff)

lemma enqueue_children:
  assumes inv: "gc_inv s" and ids: "resource_id ` set bs \<subseteq> resource_ids s"
  shows "gc_inv (snd (dbms_insert_cleanup_reqs bs s)) \<and> resources (snd (dbms_insert_cleanup_reqs bs s)) = resources s \<and>
    binds (snd (dbms_insert_cleanup_reqs bs s)) = binds s \<and>
    snd ` set (cleanup (snd (dbms_insert_cleanup_reqs bs s))) = snd ` set (cleanup s) \<union> resource_id ` set bs"
proof (cases "bs = []")
  case False
  have q: "queue_inv s" "fault s = []" using inv by (simp_all add: gc_inv_def queue_inv_def)
  let ?rs = "remdups (map resource_id bs)"
  have "enqueue_rows ?rs s \<noteq> None" using ids by (auto simp: enqueue_rows_def list_all_iff)
  then obtain s' where s': "enqueue_rows ?rs s = Some s'" by blast
  then have run: "snd (dbms_insert_cleanup_reqs bs s) = s'" using False q(2) by (simp add: dbms_insert_cleanup_reqs_def exec_or_500_healthy)
  note ok = enqueue_rows_ok [OF q(1) s']
  have "set (map snd (cleanup s')) = set (map snd (cleanup s)) \<union> set ?rs" by (simp only: ok(1) set_append)
  then have cl: "snd ` set (cleanup s') = snd ` set (cleanup s) \<union> resource_id ` set bs" by simp
  have same: "resources s' = resources s" "binds s' = binds s" "media s' = media s" "quota s' = quota s"
      "properties s' = properties s" "principals s' = principals s"
    using s' by (auto simp: enqueue_rows_def split: if_splits)
  have "list_all (\<lambda>(i, q). q \<in> resource_ids s) (cleanup s')"
  proof (unfold list_all_iff, intro ballI, clarify)
    fix i r
    assume "(i, r) \<in> set (cleanup s')"
    then have "r \<in> snd ` set (cleanup s')" by force
    with cl ids inv show "r \<in> resource_ids s" by (auto simp: gc_inv_def refs_inv_def list_all_iff)
  qed
  from gc_inv_queue [OF inv ok(2) this same] same cl show ?thesis by (simp add: run)
qed (use inv in \<open>simp add: dbms_insert_cleanup_reqs_def\<close>)

lemma find_resource_ids:
  assumes "i \<in> resource_ids s"
  obtains z where "find_resource i s = Some z" "z \<in> set (resources s)" "r_id z = i"
proof -
  have "find_resource i s \<noteq> None" using assms by (auto simp: find_resource_def find_None_iff resource_ids_def)
  then obtain z where z: "find_resource i s = Some z" by blast
  then have "z \<in> set (resources s)" "r_id z = i" by (auto simp: find_resource_def find_Some_iff)
  with z show thesis by (rule that)
qed

lemma gc_step:
  assumes inv: "gc_inv (w_db w)" and g: "garbage_queued (w_db w)" and c: "cleanup (w_db w) = (j, q) # xs"
  shows "\<exists>w'. gc_iteration cf w = Some w' \<and> gc_inv (w_db w') \<and> garbage_queued (w_db w') \<and> (w_db w', w_db w) \<in> gc_order"
proof -
  let ?s = "w_db w"
  define t where "t = ?s\<lparr>cleanup := xs\<rparr>"
  have qi: "queue_inv ?s" and q0: "q \<noteq> 0" and qr: "q \<in> resource_ids ?s"
    using inv c by (auto simp: gc_inv_def queue_inv_def refs_inv_def)
  note take = take_req_Cons [OF qi c]
  obtain e where e: "dbms_next_cleanup_req ?s = (e, q, t)"
    using take(1) by (auto simp: take_req_def t_def split: prod.splits if_splits)
  have it: "gc_inv t"
    by (rule gc_inv_queue [OF inv]) (use take(2) inv c in \<open>auto simp: t_def gc_inv_def refs_inv_def\<close>)
  then have ft: "fault t = []" by (simp add: gc_inv_def queue_inv_def)
  have same: "resources t = resources ?s" "binds t = binds ?s" "resource_ids t = resource_ids ?s" by (simp_all add: t_def resource_ids_def)
  have R: "reachable t = reachable ?s" by (rule reachable_cong) (rule same)
  have cl: "snd ` set (cleanup ?s) \<subseteq> insert q (snd ` set xs)" using c by auto
  obtain z where z: "find_resource q t = Some z" "z \<in> set (resources t)"
    using find_resource_ids [of q t] qr same(3) by auto
  have "unversioned t z" using it z(2) by (auto simp: gc_inv_def list_all_iff)
  with get_property_healthy [OF ft z(1) _ q0] obtain e1 r where
    r: "sabridge_get_property (zero_dbr\<lparr>dr_serialno := q\<rparr>) t = Some (e1, r, t)" "dr_serialno r = q"
      "dr_resourcetype r = dav_repos_get_type_id (r_type z)" "dr_resource r = None" by blast
  obtain p where p: "dbms_find_shortest_path ROOT_COLLECTION_ID q t = (Inr p, t)" "p = None \<longleftrightarrow> \<not> reachable ?s q"
    using shortest_path_healthy(2) [OF ft] R by metis
  have gc: "gc_iteration cf w = gc_collect cf q (w\<lparr>w_db := t\<rparr>)" using e q0 by (simp add: gc_iteration_def)
  show ?thesis
  proof (cases "reachable ?s q")
    case True
    then have "gc_collect cf q (w\<lparr>w_db := t\<rparr>) = Some (w\<lparr>w_db := t\<rparr>)"
      using r p child_binds_healthy [OF ft] by (auto simp: gc_collect_def sabridge_delete_if_orphaned_def)
    moreover have "garbage_queued t" unfolding t_def by (rule garbage_queued_keep [OF g True cl])
    moreover have "(t, ?s) \<in> gc_order" using c by (simp add: gc_order_def t_def)
    ultimately show ?thesis using it gc by auto
  next
    case False
    define v where "v = (if has_body (dr_resourcetype r) then sabridge_remove_body_from_disk cf r (w\<lparr>w_db := t\<rparr>) else w\<lparr>w_db := t\<rparr>)"
    have v: "w_db v = t" using remove_body_healthy [of "w\<lparr>w_db := t\<rparr>"] ft by (simp add: v_def)
    obtain u where u: "dbms_delete_resource r t = (None, u)" "gc_inv u"
      using gc_inv_delete [OF it _ _ z(1) r(2,3)] qr same(3) False R by auto
    note wo = delete_resource_ok [OF u(1), unfolded r(2)]
    have nv: "dr_resourcetype r \<noteq> dav_repos_VERSIONHISTORY"
      using \<open>unversioned t z\<close> r(3) by (simp add: unversioned_def Let_def)
    have "sabridge_delete_resource cf r (w\<lparr>w_db := t\<rparr>) = Some (None, v\<lparr>w_db := u\<rparr>)"
      using nv u(1) v by (simp add: sabridge_delete_resource_def v_def split: if_splits)
    then have del: "sabridge_delete_if_orphaned cf r (w\<lparr>w_db := t\<rparr>) = Some (Inr True, v\<lparr>w_db := u\<rparr>)"
      using p False r(2) by (simp add: sabridge_delete_if_orphaned_def)
    define bs where "bs = rev (map child_bind (filter (\<lambda>b. b_collection_id b = q \<and> b_resource_id b \<noteq> q) (binds t)))"
    define u' where "u' = snd (dbms_insert_cleanup_reqs bs u)"
    have kids: "resource_id ` set bs = {c. (q, c) \<in> edges (binds ?s) \<and> c \<noteq> q}"
      unfolding bs_def edges_children by (simp add: same)
    have "resource_id ` set bs \<subseteq> resource_ids u"
    proof
      fix c
      assume "c \<in> resource_id ` set bs"
      then have "c \<noteq> q" "c \<in> resource_ids t"
        using kids it same by (auto simp: edges_def gc_inv_def refs_inv_def list_all_iff)
      then show "c \<in> resource_ids u" using wo by (auto simp: resource_ids_def without_def)
    qed
    from enqueue_children [OF u(2) this, folded u'_def] kids
    have u': "gc_inv u'" "resources u' = resources u" "binds u' = binds u"
      "snd ` set (cleanup u') = snd ` set (cleanup u) \<union> {c. (q, c) \<in> edges (binds ?s) \<and> c \<noteq> q}" by simp_all
    have run: "gc_collect cf q (w\<lparr>w_db := t\<rparr>) = Some (v\<lparr>w_db := u'\<rparr>)"
      using r(1,2) child_binds_healthy [OF ft, of q] del by (simp add: gc_collect_def bs_def u'_def)
    have "garbage_queued u'" by (rule garbage_queued_delete [OF g False wo [unfolded t_def] cl u'(2-4)])
    moreover have "length (filter (\<lambda>w. r_id w \<noteq> q) (resources t)) < length (resources t)"
      using z by (intro length_filter_less [of z]) (auto simp: find_resource_def find_Some_iff)
    then have "(u', ?s) \<in> gc_order" using wo u'(2) same(1) by (simp add: gc_order_def without_def)
    ultimately show ?thesis using run gc u'(1) by auto
  qed
qed


section \<open>Properties\<close>


text \<open>C15: The collector collects all garbage. In a consistent repository without versions, if every
  unreachable resource can be reached from a request of the queue and no statement fails, then
  after finitely many rounds the queue is empty and exactly the reachable resources are left.\<close>

theorem gc_collects_garbage:
  assumes "gc_inv (w_db w)" "garbage_queued (w_db w)"
  shows "\<exists>n w'. gc_run n cf w = Some w' \<and> cleanup (w_db w') = [] \<and>
     resource_ids (w_db w') = {i \<in> resource_ids (w_db w). reachable (w_db w) i}"
  using assms
proof (induction "w_db w" arbitrary: w rule: wf_induct_rule [OF wf_gc_order])
  case (1 w)
  show ?case
  proof (cases "cleanup (w_db w)")
    case Nil
    with 1 have "resource_ids (w_db w) = {i \<in> resource_ids (w_db w). reachable (w_db w) i}"
      by (auto simp: garbage_queued_def)
    with Nil show ?thesis by (intro exI [of _ 0] exI [of _ w]) simp
  next
    case (Cons x xs)
    obtain j q where "x = (j, q)" by fastforce
    with gc_step [OF 1(2,3)] Cons obtain w1 where w1: "gc_iteration cf w = Some w1" "gc_inv (w_db w1)" "garbage_queued (w_db w1)"
      "(w_db w1, w_db w) \<in> gc_order" by blast
    from 1(1) [OF w1(4,2,3)] obtain n w' where w': "gc_run n cf w1 = Some w'" "cleanup (w_db w') = []"
      "resource_ids (w_db w') = {i \<in> resource_ids (w_db w1). reachable (w_db w1) i}" by blast
    note sp = gc_round_spares [OF w1(1)]
    then have "set (filter (reachable (w_db w)) (map r_id (resources (w_db w1))))
        = set (filter (reachable (w_db w)) (map r_id (resources (w_db w))))" by (simp only: spares_def)
    then have "{i \<in> resource_ids (w_db w1). reachable (w_db w) i} = {i \<in> resource_ids (w_db w). reachable (w_db w) i}"
      by (auto simp: resource_ids_def)
    with w' w1(1) sp show ?thesis by (intro exI [of _ "Suc n"] exI [of _ w']) simp
  qed
qed

lemma rtrancl_cut:
  assumes "(a, j) \<in> E\<^sup>*" "\<And>x y. (x, y) \<in> E \<Longrightarrow> (x, y) \<in> E' \<or> y = i"
  shows "(a, j) \<in> E'\<^sup>* \<or> (i, j) \<in> E'\<^sup>*"
  using assms(1)
proof (induction rule: rtrancl_induct)
  case (step y z)
  then show ?case using assms(2) [OF step.hyps(2)] by (meson rtrancl.rtrancl_into_rtrancl rtrancl.rtrancl_refl)
qed simp

lemma unbound_garbage:
  assumes "garbage_queued s" "resource_ids s' = resource_ids s"
    "binds s' = filter (\<lambda>b. \<not> (P b \<and> b_resource_id b = i)) (binds s)"
    "snd ` set (cleanup s') = insert i (snd ` set (cleanup s))"
  shows "garbage_queued s'"
proof -
  have E: "(x, y) \<in> edges (binds s') \<or> y = i" if "(x, y) \<in> edges (binds s)" for x y
    using that by (auto simp: edges_def assms(3))
  have "reachable s' j \<or> (\<exists>q \<in> snd ` set (cleanup s'). (q, j) \<in> (edges (binds s'))\<^sup>*)" if "j \<in> resource_ids s'" for j
  proof -
    have "(ROOT_COLLECTION_ID, j) \<in> (edges (binds s))\<^sup>* \<or> (\<exists>q \<in> snd ` set (cleanup s). (q, j) \<in> (edges (binds s))\<^sup>*)"
      using assms(1,2) that by (simp add: garbage_queued_def reachable_def)
    with rtrancl_cut [OF _ E, of _ j] show ?thesis unfolding reachable_def assms(4) by blast
  qed
  then show ?thesis by (simp add: garbage_queued_def)
qed


text \<open>C17: With the collector on, unbinding a resource never loses garbage: the resource is queued, so
  if before every unreachable resource could be reached from a request, that is so afterwards,
  also for everything that hung below the removed binding.\<close>

theorem unbind_queues_garbage:
  assumes "use_gc cf" "sabridge_unbind_resource cf dirstr r w = Some (None, r', w')" "garbage_queued (w_db w)"
  shows "garbage_queued (w_db w') \<and> dr_serialno r \<in> snd ` set (cleanup (w_db w'))"
proof -
  let ?s = "w_db w" and ?i = "dr_serialno r"
  obtain r1 t where t: "(case dr_uri r of None \<Rightarrow> Some (None, r, ?s)
     | Some u \<Rightarrow> (case sabridge_retrieve_parent dirstr r ?s of None \<Rightarrow> None
          | Some (p, r, s) \<Rightarrow> (case dbms_delete_bind (dr_serialno p) (dr_serialno r) (basename u) s of (e, s) \<Rightarrow> Some (e, r, s))))
      = Some (None, r1, t)"
    and ins: "dbms_insert_cleanup_reqs [zero_bind\<lparr>resource_id := dr_serialno r1\<rparr>] t = (None, w_db w')"
    using assms(1,2) by (auto simp: sabridge_unbind_resource_def split: option.splits prod.splits)
  have "\<exists>P. binds t = filter (\<lambda>b. \<not> (P b \<and> b_resource_id b = ?i)) (binds ?s) \<and> resources t = resources ?s
      \<and> cleanup t = cleanup ?s \<and> dr_serialno r1 = ?i"
  proof (cases "dr_uri r")
    case None
    with t show ?thesis by (auto intro!: exI [of _ "\<lambda>b. False"])
  next
    case (Some u)
    with t obtain p s1 where p: "sabridge_retrieve_parent dirstr r ?s = Some (p, r1, s1)"
      and d: "dbms_delete_bind (dr_serialno p) (dr_serialno r1) (basename u) s1 = (None, t)"
      by (auto split: option.splits prod.splits)
    note sel = retrieve_parent_select [OF p]
    obtain v where v: "tables_eq v s1" "t = delete_binds (\<lambda>b. b_collection_id b = dr_serialno p \<and> b_resource_id b = dr_serialno r1
        \<and> b_name b = basename u) v"
      using d unfolding dbms_delete_bind_def by (auto elim!: exec_or_500_ok)
    show ?thesis
      using sel v(1) by (intro exI [of _ "\<lambda>b. b_collection_id b = dr_serialno p \<and> b_name b = basename u"])
        (auto simp: v(2) row_simps tables_eqD intro!: filter_cong)
  qed
  then obtain P where P: "binds t = filter (\<lambda>b. \<not> (P b \<and> b_resource_id b = ?i)) (binds ?s)" "resources t = resources ?s"
    "cleanup t = cleanup ?s" "dr_serialno r1 = ?i" by blast
  have "exec_or_500 ''INSERT INTO cleanup(resource_id)'' (enqueue_rows [?i]) t = (None, w_db w')"
    using ins P(4) by (simp add: dbms_insert_cleanup_reqs_def)
  then obtain v where v: "tables_eq v t" "enqueue_rows [?i] v = Some (w_db w')" by (rule exec_or_500_ok)
  then have w': "w_db w' = v\<lparr>cleanup := cleanup v @ number_from (next_cleanup v) [?i], next_cleanup := next_cleanup v + 1\<rparr>"
    by (simp add: enqueue_rows_def split: if_splits)
  have cl: "snd ` set (cleanup (w_db w')) = insert ?i (snd ` set (cleanup ?s))" using v(1) P(3) by (simp add: w' tables_eqD)
  have "garbage_queued (w_db w')"
    by (rule unbound_garbage [OF assms(3) _ _ cl, of P]) (use v(1) P in \<open>simp_all add: w' resource_ids_def tables_eqD\<close>)
  with cl show ?thesis by simp
qed


section \<open>Examples\<close>

definition gc_config :: dav_repos_db where
  "gc_config = \<lparr>use_gc = True, keep_files = False, user_quota = 0\<rparr>"

definition eager_config :: dav_repos_db where
  "eager_config = \<lparr>use_gc = False, keep_files = False, user_quota = 0\<rparr>"

definition a_bind :: "id \<Rightarrow> string \<Rightarrow> id \<Rightarrow> id \<Rightarrow> bind_row" where
  "a_bind i n c r = \<lparr>b_id = i, b_name = n, b_collection_id = c, b_resource_id = r, b_updated_at = []\<rparr>"

definition a_body :: "id \<Rightarrow> int \<Rightarrow> string \<Rightarrow> media_row" where
  "a_body i n h = \<lparr>m_resource_id = i, m_size = n, m_mimetype = ''text/plain'', m_sha1 = h, m_updated_at = []\<rparr>"

text \<open>A user, a file, and a cycle of two collections with a second file that nothing leads to.\<close>

definition littered :: world where
  "littered = \<lparr>w_db = empty_db\<lparr>
       resources := [a_resource 2 ''Collection'', a_resource 1 ''User'', a_resource 9 ''Resource'', a_resource 20 ''Collection'',
         a_resource 21 ''Collection'', a_resource 22 ''Resource''],
       binds := [a_bind 1 ''u'' 2 1, a_bind 2 ''f'' 2 9, a_bind 3 ''sub'' 20 21, a_bind 4 ''up'' 21 20, a_bind 5 ''g'' 21 22],
       media := [a_body 9 4 ''aa'', a_body 22 6 ''bb''], principals := [(1, ''u'')], quota := [(1, 10, 100)],
       cleanup := [(1, 20)], next_cleanup := 2\<rparr>,
     w_disk = [''aa'', ''bb'']\<rparr>"


lemma littered_reachable: "reachable (w_db littered) i \<longleftrightarrow> i \<in> {2, 1, 9}"
proof -
  have E: "edges (binds (w_db littered)) = {(2, 1), (2, 9), (20, 21), (21, 20), (21, 22)}"
    by (simp add: edges_image littered_def a_bind_def)
  have "(2, i) \<in> (edges (binds (w_db littered)))\<^sup>* \<Longrightarrow> i \<in> {2, 1, 9}"
    by (induction rule: rtrancl_induct) (auto simp: E)
  moreover have "(2, i) \<in> (edges (binds (w_db littered)))\<^sup>*" if "i \<in> {2, 1, 9}"
    using that by (auto simp: E)
  ultimately show ?thesis by (auto simp: reachable_def ROOT_COLLECTION_ID_def)
qed

lemma littered_inv: "gc_inv (w_db littered)" "garbage_queued (w_db littered)"
proof -
  have "queue_inv (w_db littered)" "resources_inv (w_db littered)" "refs_inv (w_db littered)" "covers (w_db littered)"
    "list_all (unversioned (w_db littered)) (resources (w_db littered))" by code_simp+
  moreover have "principal_ids (w_db littered) = {1}" "resource_ids (w_db littered) = {2, 1, 9, 20, 21, 22}"
    "cleanup (w_db littered) = [(1, 20)]" by (simp_all add: littered_def principal_ids_def resource_ids_def a_resource_def)
  moreover have "(20, i) \<in> (edges (binds (w_db littered)))\<^sup>*" if "i \<in> {20, 21, 22}" for i
  proof -
    have "(20, 21) \<in> edges (binds (w_db littered))" "(21, 22) \<in> edges (binds (w_db littered))"
      by (simp_all add: edges_image littered_def a_bind_def)
    then show ?thesis using that by (auto intro: rtrancl_into_rtrancl)
  qed
  ultimately show "gc_inv (w_db littered)" "garbage_queued (w_db littered)"
    by (simp_all add: gc_inv_def garbage_queued_def littered_reachable)
qed

theorem gc_collects_garbage_witness:
  "\<exists>n w'. gc_run n gc_config littered = Some w' \<and> cleanup (w_db w') = [] \<and> resource_ids (w_db w') = {2, 1, 9}"
proof -
  have "resource_ids (w_db littered) = {2, 1, 9, 20, 21, 22}" by (simp add: littered_def resource_ids_def a_resource_def)
  then have "{i \<in> resource_ids (w_db littered). reachable (w_db littered) i} = {2, 1, 9}" by (auto simp: littered_reachable)
  then show ?thesis using gc_collects_garbage [OF littered_inv, of gc_config] by simp
qed

text \<open>C14: Its structure has no \<open>resource\<close>, so the collector crashes on the first request for a version
  that still has its row in \<open>versions\<close>: the code that reads its properties needs one.\<close>

theorem gc_crashes_on_version:
  assumes "fault (w_db w) = []" "q \<noteq> 0" "find_resource q (w_db w) = Some z" "r_type z \<in> {''Version'', ''CollectionVersion''}"
    and "find_version q (w_db w) \<noteq> None"
  shows "gc_collect cf q w = None"
proof -
  let ?s = "w_db w"
  obtain r1 where 1: "dbms_get_resource (zero_dbr\<lparr>dr_serialno := q\<rparr>) ?s = (None, r1, ?s)"
    "dr_resourcetype r1 = dav_repos_get_type_id (r_type z)"
    using assms(1,3) by (simp add: dbms_get_resource_def run_stmt_healthy)
  have ty: "dr_resourcetype r1 = dav_repos_VERSION \<or> dr_resourcetype r1 = dav_repos_COLLECTION_VERSION"
  proof -
    have "dav_repos_get_type_id ''Version'' = dav_repos_VERSION"
      "dav_repos_get_type_id ''CollectionVersion'' = dav_repos_COLLECTION_VERSION" by code_simp+
    with assms(4) 1(2) show ?thesis by auto
  qed
  then have 2: "redirect_columns None r1 ?s = (r1, ?s)" "collection_columns r1 ?s = (None, r1, ?s)"
    by (auto simp: redirect_columns_def collection_columns_def is_collection_def dav_repos_VERSION_def dav_repos_REDIRECT_def
        dav_repos_COLLECTION_VERSION_def dav_repos_COLLECTION_def dav_repos_VERSIONED_COLLECTION_def)
  have "fst (dbms_get_media_props r1 ?s) = None \<and> snd (snd (dbms_get_media_props r1 ?s)) = ?s"
    using assms(1) by (auto simp: dbms_get_media_props_def run_stmt_healthy split: option.split)
  then obtain r4 where 4: "dbms_get_media_props r1 ?s = (None, r4, ?s)" by (metis prod.collapse)
  note sel = get_resource_select [OF 1(1)] media_props_select [OF 4]
  have "dr_serialno r4 = q" "dr_resource r4 = None" using sel by (simp_all add: zero_dbr_def)
  then have "dbms_get_version_resource_props r4 ?s = None"
    using assms(1,5) by (auto simp: dbms_get_version_resource_props_def run_stmt_healthy sabridge_new_dbr_from_dbr_def Let_def)
  then have "dbms_get_deltav_props r4 ?s = None"
    using ty sel by (auto simp: dbms_get_deltav_props_def dav_repos_VERSION_def dav_repos_COLLECTION_VERSION_def
        dav_repos_VERSIONED_def dav_repos_VERSIONED_COLLECTION_def)
  with 1 2 4 assms(2) show ?thesis by (simp add: gc_collect_def sabridge_get_property_def load_resource_def)
qed

definition versioned_world :: world where
  "versioned_world = \<lparr>w_db = empty_db\<lparr>resources := [a_resource 2 ''Collection'', a_resource 30 ''Version''],
     versions := [\<lparr>n_resource_id = 30, n_number = 1, n_vcr_id = None, n_vhr_id = 31\<rparr>]\<rparr>, w_disk = []\<rparr>"

theorem gc_crashes_on_version_witness: "gc_collect gc_config 30 versioned_world = None"
  by (rule gc_crashes_on_version [where z = "a_resource 30 ''Version''"])
    (simp_all add: versioned_world_def find_resource_def find_version_def a_resource_def empty_db_def)

text \<open>Two files with the same content; one of them is bound in a collection and in its
  sub-collection.\<close>

definition twice_bound :: world where
  "twice_bound = \<lparr>w_db = empty_db\<lparr>
       resources := [a_resource 2 ''Collection'', a_resource 9 ''Resource'', a_resource 20 ''Collection'',
         a_resource 21 ''Collection'', a_resource 22 ''Resource''],
       binds := [a_bind 1 ''f'' 2 9, a_bind 2 ''a'' 2 20, a_bind 3 ''b'' 20 21, a_bind 4 ''g'' 20 22, a_bind 5 ''g'' 21 22],
       media := [a_body 9 4 ''aa'', a_body 22 4 ''aa'']\<rparr>,
     w_disk = [''aa'']\<rparr>"

definition coll_a :: dav_repos_resource where
  "coll_a = zero_dbr\<lparr>dr_resource := Some zero_resource, dr_serialno := 20, dr_uri := Some ''/a'', dr_parent_id := 2,
     dr_resourcetype := dav_repos_COLLECTION\<rparr>"

text \<open>Without the collector a body can be lost. A resource bound twice below an unbound collection is
  deleted once but visited twice, and the second visit counts the bodies of that content after
  the row of the first is gone: one other resource has the same content, its file is removed,
  and the resource stays.\<close>

theorem unbind_loses_shared_body:
  "case sabridge_unbind_resource eager_config id coll_a twice_bound of
     Some (None, r, w) \<Rightarrow> map r_id (resources (w_db w)) = [2, 9] \<and> map m_sha1 (media (w_db w)) = [''aa''] \<and> w_disk w = []
   | _ \<Rightarrow> False"
  by code_simp


theorem unbind_queues_garbage_witness:
  "case sabridge_unbind_resource gc_config (\<lambda>u. ''/'') coll_a twice_bound of
     Some (None, r, w) \<Rightarrow> garbage_queued (w_db w) \<and> 20 \<in> snd ` set (cleanup (w_db w)) \<and> map b_id (binds (w_db w)) = [1, 3, 4, 5]
   | _ \<Rightarrow> False"
proof -
  have "case sabridge_unbind_resource gc_config (\<lambda>u. ''/'') coll_a twice_bound of
     Some (None, r, w) \<Rightarrow> map b_id (binds (w_db w)) = [1, 3, 4, 5] | _ \<Rightarrow> False" by code_simp
  then obtain r w where run: "sabridge_unbind_resource gc_config (\<lambda>u. ''/'') coll_a twice_bound = Some (None, r, w)"
    "map b_id (binds (w_db w)) = [1, 3, 4, 5]" by (auto split: option.splits prod.splits)
  have ids: "resource_ids (w_db twice_bound) = {2, 9, 20, 21, 22}" by (simp add: twice_bound_def resource_ids_def a_resource_def)
  have "(2, 9) \<in> edges (binds (w_db twice_bound))" "(2, 20) \<in> edges (binds (w_db twice_bound))"
    "(20, 21) \<in> edges (binds (w_db twice_bound))" "(20, 22) \<in> edges (binds (w_db twice_bound))"
    by (simp_all add: edges_image twice_bound_def a_bind_def)
  then have "garbage_queued (w_db twice_bound)"
    by (auto simp: garbage_queued_def ids reachable_def ROOT_COLLECTION_ID_def intro: rtrancl_into_rtrancl)
  moreover have "use_gc gc_config" "dr_serialno coll_a = 20" by (simp_all add: gc_config_def coll_a_def)
  ultimately show ?thesis using unbind_queues_garbage [OF _ run(1)] run by simp
qed

end
