(* ===== verification/Principals.thy ===== *)
theory Principals
  imports Resources Membership
begin

text \<open>
  Users and groups: the rest of \<^verbatim>\<open>dbms_principal.c\<close> (names, e-mail addresses, passwords, domains, the
  members of a group), the e-mail check of \<^verbatim>\<open>bridge.c\<close> and the property \<open>group-member-set\<close> of
  \<^verbatim>\<open>acl_liveprops.c\<close>. The check constraint on addresses and the function \<open>lower\<close> are evaluated by the
  database server and are parameters, \<open>ok\<close> and \<open>lowercase\<close>; so is the order in which the run-time
  library goes through a hash table, \<open>order\<close>.
\<close>

section \<open>Names and e-mail addresses\<close>

definition find_user :: "id \<Rightarrow> db \<Rightarrow> user_row option" where
  "find_user i s = find (\<lambda>u. u_principal_id u = i) (users s)"

definition name_of :: "id \<Rightarrow> db \<Rightarrow> string option" where
  "name_of i s = map_option snd (find (\<lambda>(j, n). j = i) (principals s))"

text \<open>A login name with an \<open>@\<close> is an e-mail address; the user's name is looked up.\<close>

definition dbms_get_canonical_username :: "string option \<Rightarrow> db \<Rightarrow> string option \<times> db" where
  "dbms_get_canonical_username username s =
     (case username of
        None \<Rightarrow> (None, s)
      | Some n \<Rightarrow>
          if CHR ''@'' \<notin> set n then (Some n, s)
          else case run_select s of
            (True, s) \<Rightarrow> (None, s)
          | (False, s) \<Rightarrow>
              ((case filter (\<lambda>u. u_email u = n \<and> name_of (u_principal_id u) s \<noteq> None) (users s) of
                  [] \<Rightarrow> None | u # _ \<Rightarrow> name_of (u_principal_id u) s), s))"

definition dbms_get_principal_id_from_name :: "string \<Rightarrow> db \<Rightarrow> (dav_error + id) \<times> db" where
  "dbms_get_principal_id_from_name name s =
     (case run_select s of
        (True, s) \<Rightarrow> (Inl (dav_new_error HTTP_INTERNAL_SERVER_ERROR ''Error retreving principal id from name''), s)
      | (False, s) \<Rightarrow> (Inr (case find (\<lambda>(i, n). n = name) (principals s) of None \<Rightarrow> 0 | Some (i, n) \<Rightarrow> i), s))"

definition dbms_insert_principal :: "id \<Rightarrow> string \<Rightarrow> db \<Rightarrow> dav_error option \<times> db" where
  "dbms_insert_principal serialno name =
     exec_or_500 ''Error inserting principal''
       (\<lambda>s. if serialno \<in> resource_ids s \<and> serialno \<notin> principal_ids s \<and> length name \<le> 1024
            then Some (s\<lparr>principals := principals s @ [(serialno, name)]\<rparr>) else None)"

text \<open>A failed query finds no row: the address is then available.\<close>

definition dbms_is_email_available :: "string \<Rightarrow> db \<Rightarrow> bool \<times> db" where
  "dbms_is_email_available email s =
     (case run_select s of
        (True, s) \<Rightarrow> (True, s)
      | (False, s) \<Rightarrow> (\<not> list_ex (\<lambda>u. u_email u = email) (users s), s))"

text \<open>
  What the server says when a statement on \<open>users\<close> breaks a constraint: the check is evaluated
  before the unique index on \<open>lower(email)\<close>. \<open>dbms_check_for_email_errors\<close> recognises the message of
  the check.
\<close>

datatype user_outcome = Changed db | Invalid_email | Refused

definition dbms_check_for_email_errors :: "string \<Rightarrow> user_outcome \<Rightarrow> dav_error option" where
  "dbms_check_for_email_errors email x =
     (case x of
        Invalid_email \<Rightarrow> Some (dav_new_error HTTP_CONFLICT ([CHR 0x22] @ email @ [CHR 0x22] @ '' is an invalid email''))
      | _ \<Rightarrow> None)"

definition user_stmt :: "string \<Rightarrow> string \<Rightarrow> (db \<Rightarrow> user_outcome) \<Rightarrow> db \<Rightarrow> dav_error option \<times> db" where
  "user_stmt msg email f s =
     (case next_fault s of
        (True, s) \<Rightarrow> (Some (dav_new_error HTTP_INTERNAL_SERVER_ERROR msg), s)
      | (False, s) \<Rightarrow>
          (case f s of
             Changed s \<Rightarrow> (None, s)
           | x \<Rightarrow> (Some (case dbms_check_for_email_errors email x of
                            Some e \<Rightarrow> e | None \<Rightarrow> dav_new_error HTTP_INTERNAL_SERVER_ERROR msg), s)))"

definition insert_user_row :: "(string \<Rightarrow> bool) \<Rightarrow> (string \<Rightarrow> string) \<Rightarrow> id \<Rightarrow> string \<Rightarrow> string \<Rightarrow> db \<Rightarrow> user_outcome" where
  "insert_user_row ok lowercase i pwhash email s =
     (if \<not> ok email then Invalid_email
      else if i \<in> principal_ids s \<and> i \<notin> user_ids s \<and> length pwhash \<le> 32 \<and> length email \<le> 255 \<and>
              \<not> list_ex (\<lambda>u. lowercase (u_email u) = lowercase email) (users s)
      then Changed (s\<lparr>users := users s @ [\<lparr>u_principal_id = i, u_pwhash = pwhash, u_email = email, u_pwhash_type = ''Email'',
              u_login_to_all = True\<rparr>]\<rparr>)
      else Refused)"

definition dbms_insert_user ::
  "(string \<Rightarrow> bool) \<Rightarrow> (string \<Rightarrow> string) \<Rightarrow> id \<Rightarrow> string \<Rightarrow> string \<Rightarrow> db \<Rightarrow> dav_error option \<times> db" where
  "dbms_insert_user ok lowercase serialno pwhash email =
     user_stmt ''Couldn't insert user'' email (insert_user_row ok lowercase serialno pwhash email)"

definition set_user :: "id \<Rightarrow> (user_row \<Rightarrow> user_row) \<Rightarrow> db \<Rightarrow> db" where
  "set_user i f s = s\<lparr>users := map (\<lambda>u. if u_principal_id u = i then f u else u) (users s)\<rparr>"

definition update_email :: "(string \<Rightarrow> bool) \<Rightarrow> (string \<Rightarrow> string) \<Rightarrow> id \<Rightarrow> string \<Rightarrow> db \<Rightarrow> user_outcome" where
  "update_email ok lowercase i email s =
     (if i \<notin> user_ids s then Changed s
      else if \<not> ok email then Invalid_email
      else if length email \<le> 255 \<and> \<not> list_ex (\<lambda>u. u_principal_id u \<noteq> i \<and> lowercase (u_email u) = lowercase email) (users s)
      then Changed (set_user i (\<lambda>u. u\<lparr>u_email := email\<rparr>) s) else Refused)"

definition dbms_set_user_email ::
  "(string \<Rightarrow> bool) \<Rightarrow> (string \<Rightarrow> string) \<Rightarrow> id \<Rightarrow> string \<Rightarrow> db \<Rightarrow> dav_error option \<times> db" where
  "dbms_set_user_email ok lowercase principal_id email =
     user_stmt ''Couldn't set principal email'' email (update_email ok lowercase principal_id email)"

text \<open>A failed query, like a missing user, leaves \<open>NULL\<close>.\<close>

definition dbms_get_user_email :: "id \<Rightarrow> db \<Rightarrow> string option \<times> db" where
  "dbms_get_user_email principal_id s =
     (case run_select s of
        (True, s) \<Rightarrow> (None, s)
      | (False, s) \<Rightarrow> (map_option u_email (find_user principal_id s), s))"

definition dbms_set_user_pwhash :: "id \<Rightarrow> string \<Rightarrow> db \<Rightarrow> dav_error option \<times> db" where
  "dbms_set_user_pwhash serialno pwhash =
     exec_or_500 ''Couldn't update user''
       (\<lambda>s. if 32 < length pwhash \<and> serialno \<in> user_ids s then None
            else Some (set_user serialno (\<lambda>u. u\<lparr>u_pwhash := pwhash, u_pwhash_type := ''Email''\<rparr>) s))"

definition dbms_get_user_pwhash :: "id \<Rightarrow> db \<Rightarrow> (string \<times> string) option \<times> db" where
  "dbms_get_user_pwhash principal_id s =
     (case run_select s of
        (True, s) \<Rightarrow> (None, s)
      | (False, s) \<Rightarrow> (map_option (\<lambda>u. (u_pwhash u, u_pwhash_type u)) (find_user principal_id s), s))"

definition dbms_get_user_login_to_all_domains :: "id \<Rightarrow> db \<Rightarrow> bool \<times> db" where
  "dbms_get_user_login_to_all_domains principal_id s =
     (case run_select s of
        (True, s) \<Rightarrow> (False, s)
      | (False, s) \<Rightarrow> ((case find_user principal_id s of None \<Rightarrow> False | Some u \<Rightarrow> u_login_to_all u), s))"

definition dbms_set_user_login_to_all_domains :: "id \<Rightarrow> bool \<Rightarrow> db \<Rightarrow> dav_error option \<times> db" where
  "dbms_set_user_login_to_all_domains principal_id b =
     exec_or_500 ''Couldn't update user'' (\<lambda>s. Some (set_user principal_id (\<lambda>u. u\<lparr>u_login_to_all := b\<rparr>) s))"

definition dbms_get_principal_type_from_name :: "string \<Rightarrow> db \<Rightarrow> nat \<times> db" where
  "dbms_get_principal_type_from_name name s =
     (case run_select s of
        (True, s) \<Rightarrow> (0, s)
      | (False, s) \<Rightarrow>
          ((case filter (\<lambda>(i, n). n = name \<and> find_resource i s \<noteq> None) (principals s) of
              [] \<Rightarrow> 0
            | (i, n) # _ \<Rightarrow> (case find_resource i s of None \<Rightarrow> 0 | Some w \<Rightarrow> dav_repos_get_type_id (r_type w))), s))"

definition sabridge_verify_user_email_unique :: "string \<Rightarrow> db \<Rightarrow> dav_error option \<times> db" where
  "sabridge_verify_user_email_unique email s =
     (case dbms_is_email_available email s of
        (b, s) \<Rightarrow> (if b then None else Some (dav_new_error HTTP_CONFLICT (''email conflict for '' @ email)), s))"

definition sabridge_set_user_email ::
  "(string \<Rightarrow> bool) \<Rightarrow> (string \<Rightarrow> string) \<Rightarrow> id \<Rightarrow> string \<Rightarrow> db \<Rightarrow> dav_error option \<times> db" where
  "sabridge_set_user_email ok lowercase principal_id email s =
     (case sabridge_verify_user_email_unique email s of
        (Some e, s) \<Rightarrow> (Some e, s)
      | (None, s) \<Rightarrow> dbms_set_user_email ok lowercase principal_id email s)"

section \<open>Domains\<close>

text \<open>The domains of a user, a table from domain to path; \<open>NULL\<close> when there is none.\<close>

definition dbms_get_domain_map :: "id \<Rightarrow> db \<Rightarrow> (string \<rightharpoonup> string) option \<times> db" where
  "dbms_get_domain_map principal_id s =
     (case run_select s of
        (True, s) \<Rightarrow> (None, s)
      | (False, s) \<Rightarrow>
          (let rows = filter (\<lambda>d. d_principal_id d = principal_id) (user_domains s)
           in (if rows = [] then None
               else Some (map_of (rev (map (\<lambda>d. (d_domain d, d_path d)) rows))), s)))"

definition domain_value :: "(string \<Rightarrow> string) \<Rightarrow> id \<Rightarrow> string \<times> string \<Rightarrow> string" where
  "domain_value esc i = (\<lambda>(d, p). ''('' @ show_long i @ '', '' @ quoted (esc d) @ '', '' @ quoted (esc p) @ '')'')"

text \<open>The values for the insertion, in the order of the table; none for an empty one, and
  \<open>%s\<close> then prints \<open>(null)\<close>.\<close>

definition domain_map_to_values :: "(string \<Rightarrow> string) \<Rightarrow> (string \<times> string) list \<Rightarrow> id \<Rightarrow> string option" where
  "domain_map_to_values esc m i = (if m = [] then None else Some (joinc CHR '','' (map (domain_value esc i) m)))"

fun insert_domain_rows :: "id \<Rightarrow> (string \<times> string) list \<Rightarrow> db \<Rightarrow> db option" where
  "insert_domain_rows i [] s = Some s"
| "insert_domain_rows i ((d, p) # m) s =
     (if i \<in> principal_ids s \<and> length d \<le> 255 \<and> length p \<le> 255 \<and>
         \<not> list_ex (\<lambda>r. d_principal_id r = i \<and> d_domain r = d) (user_domains s)
      then insert_domain_rows i m
             (s\<lparr>user_domains := user_domains s @ [\<lparr>d_id = next_domain s, d_principal_id = i, d_domain = d, d_path = p\<rparr>],
                next_domain := next_domain s + 1\<rparr>)
      else None)"

text \<open>
  \<open>dbms_set_domain_map\<close>: the old rows go, then the new ones are inserted by a statement with the
  values in its text. A question mark among them is taken for a parameter that is never set,
  and the statement is not sent; an empty table makes a statement that the server refuses.
\<close>

definition dbms_set_domain_map ::
  "(string \<Rightarrow> string) \<Rightarrow> id \<Rightarrow> (string \<times> string) list option \<Rightarrow> db \<Rightarrow> dav_error option \<times> db" where
  "dbms_set_domain_map esc principal_id domain_map s =
     (case exec_or_500 ''Failed DELETE in dbms_set_domain_map''
             (\<lambda>s. Some (s\<lparr>user_domains := filter (\<lambda>d. d_principal_id d \<noteq> principal_id) (user_domains s)\<rparr>)) s of
        (Some e, s) \<Rightarrow> (Some e, s)
      | (None, s) \<Rightarrow>
          (case domain_map of
             None \<Rightarrow> (None, s)
           | Some m \<Rightarrow>
               (case domain_map_to_values esc m principal_id of
                  None \<Rightarrow> exec_or_500 ''Failed INSERT in dbms_set_domain_map 2'' (\<lambda>s. None) s
                | Some v \<Rightarrow>
                    if CHR ''?'' \<in> set v then (None, s)
                    else exec_or_500 ''Failed INSERT in dbms_set_domain_map 2'' (insert_domain_rows principal_id m) s)))"

definition domain_row_of :: "string \<Rightarrow> db \<Rightarrow> (string \<times> string) option" where
  "domain_row_of host s =
     (case filter (\<lambda>d. d_domain d = host \<and> name_of (d_principal_id d) s \<noteq> None) (sort_key d_id (user_domains s)) of
        [] \<Rightarrow> None
      | d # _ \<Rightarrow> map_option (\<lambda>n. (n, d_path d)) (name_of (d_principal_id d) s))"

lemma www_nonempty: "take 4 host = ''www.'' \<Longrightarrow> host \<noteq> []"
  by auto

text \<open>Without a row for the host the search goes on without a leading \<open>www.\<close>; a failed query is
  a host that is not found.\<close>

function dbms_get_domain_path :: "string \<Rightarrow> db \<Rightarrow> string option \<times> db" where
  "dbms_get_domain_path host s =
     (case run_select s of
        (b, s) \<Rightarrow>
          (case (if b then None else domain_row_of host s) of
             Some (user, path) \<Rightarrow> (Some (''/home/'' @ user @ path), s)
           | None \<Rightarrow>
               if take 4 host = ''www.'' then dbms_get_domain_path (drop 4 host) s else (None, s)))"
  by pat_completeness auto

termination
  by (relation "measure (\<lambda>(host, s). length host)") (auto dest: www_nonempty)

declare dbms_get_domain_path.simps [simp del]


section \<open>The members of a group\<close>

definition member_ids :: "id \<Rightarrow> db \<Rightarrow> id list" where
  "member_ids grp s = map (\<lambda>(i, g, m). m) (filter (\<lambda>(i, g, m). g = grp) (group_members s))"

definition type_of :: "id \<Rightarrow> db \<Rightarrow> nat" where
  "type_of i s = (case find_resource i s of None \<Rightarrow> 0 | Some w \<Rightarrow> dav_repos_get_type_id (r_type w))"

text \<open>\<open>dbms_get_group_members\<close>; \<open>root_path\<close> is the prefix that the build puts before the paths of users
  and groups. No member is \<open>NULL\<close>, here the empty list.\<close>

definition member_item :: "string \<Rightarrow> dav_repos_resource \<Rightarrow> db \<Rightarrow> id \<Rightarrow> dav_repos_resource" where
  "member_item root_path group_dbr s i =
     (let n = column (name_of i s); ty = type_of i s
      in zero_dbr\<lparr>dr_root_path := dr_root_path group_dbr, dr_serialno := i, dr_resourcetype := ty,
           dr_uri := (if ty = dav_repos_GROUP then Some (root_path @ ''/groups/'' @ n)
                      else if ty = dav_repos_USER then Some (root_path @ ''/users/'' @ n) else None)\<rparr>)"

definition dbms_get_group_members ::
  "string \<Rightarrow> dav_repos_resource \<Rightarrow> db \<Rightarrow> (dav_error + dav_repos_resource list) \<times> db" where
  "dbms_get_group_members root_path group_dbr s =
     (case run_select s of
        (True, s) \<Rightarrow> (Inl (dav_new_error HTTP_INTERNAL_SERVER_ERROR ''Can't get group members''), s)
      | (False, s) \<Rightarrow>
          (Inr (map (member_item root_path group_dbr s)
             (filter (\<lambda>i. name_of i s \<noteq> None \<and> find_resource i s \<noteq> None) (member_ids (dr_serialno group_dbr) s))), s))"

text \<open>
  \<open>dbms_calculate_group_changes\<close> joins the wanted names with the principals and with the present
  members. The table of wanted names is a list in its order: a name keeps the value it came with
  (\<open>None\<close>, the empty string in the code) until a row sets it, and is dropped when it is a
  member already. Present members that no name stands for are to be removed.
\<close>

definition wanted_rows :: "string list \<Rightarrow> db \<Rightarrow> (string \<times> id option) list" where
  "wanted_rows names s =
     concat (map (\<lambda>n. case filter (\<lambda>(i, m). m = n) (principals s) of
         [] \<Rightarrow> [(n, None)]
       | ps \<Rightarrow> map (\<lambda>(i, m). (n, Some i)) ps) names)"

fun take_rows :: "id list \<Rightarrow> (string \<times> id option) list \<Rightarrow> (string \<times> id option) list \<Rightarrow> dav_error + (string \<times> id option) list" where
  "take_rows cur [] acc = Inr acc"
| "take_rows cur ((n, None) # rows) acc = Inl (dav_new_error HTTP_CONFLICT ''New member does not exist'')"
| "take_rows cur ((n, Some i) # rows) acc =
     take_rows cur rows
       (if i \<in> set cur then filter (\<lambda>(m, v). m \<noteq> n) acc
        else if n \<in> fst ` set acc then map (\<lambda>(m, v). if m = n then (m, Some i) else (m, v)) acc
        else acc @ [(n, Some i)])"

definition dbms_calculate_group_changes ::
  "id \<Rightarrow> string list \<Rightarrow> db \<Rightarrow> (dav_error + (string \<times> id option) list \<times> id list) \<times> db" where
  "dbms_calculate_group_changes grp names s =
     (if list_ex (\<lambda>n. CHR ''?'' \<in> set n) names then (Inr (map (\<lambda>n. (n, None)) names, []), s)
      else case run_select s of
        (True, s) \<Rightarrow> (Inl (dav_new_error HTTP_INTERNAL_SERVER_ERROR ''Can't calculate group changes''), s)
      | (False, s) \<Rightarrow>
          (let cur = member_ids grp s; rows = wanted_rows names s
           in case take_rows cur rows (map (\<lambda>n. (n, None)) names) of
                Inl e \<Rightarrow> (Inl e, s)
              | Inr adds \<Rightarrow> (Inr (adds, filter (\<lambda>i. Some i \<notin> snd ` set rows) cur), s)))"

text \<open>\<open>get_name_from_principal_URL\<close>: only the part before the name is compared with the prefix; the
  rest is taken to have the length of the prefix of users, or of groups.\<close>

definition has_infix :: "string \<Rightarrow> string \<Rightarrow> bool" where
  "has_infix u p = list_ex (\<lambda>i. take (length p) (drop i u) = p) [0..<Suc (length u)]"

definition get_name_from_principal_URL :: "string \<Rightarrow> string \<Rightarrow> string option \<Rightarrow> string option" where
  "get_name_from_principal_URL href_prefix root_path url =
     (case url of
        None \<Rightarrow> None
      | Some u \<Rightarrow>
          if take (length href_prefix) u \<noteq> href_prefix then None
          else let v = drop (length href_prefix) u; up = root_path @ ''/users/''; gp = root_path @ ''/groups/''
            in if has_infix v up then Some (drop (length up) v)
               else if has_infix v gp then Some (drop (length gp) v) else None)"

text \<open>
  Setting the property \<open>group-member-set\<close>: \<open>dav_acl_patch_validate\<close> collects the names of the
  references and computes the changes, \<open>dav_acl_patch_exec\<close> makes them. The members to remove
  travel in the table of names under the key \<open>-to-remove-\<close>.
\<close>

definition to_remove_key :: string where "to_remove_key = ''-to-remove-''"

fun member_names :: "string \<Rightarrow> string \<Rightarrow> string option list \<Rightarrow> string list \<Rightarrow> dav_error + string list" where
  "member_names hp rp [] acc = Inr acc"
| "member_names hp rp (h # hs) acc =
     (case get_name_from_principal_URL hp rp h of
        None \<Rightarrow> Inl (dav_new_error HTTP_CONFLICT ''Not a DAV:principal-URL'')
      | Some n \<Rightarrow> member_names hp rp hs (if n \<in> set acc then acc else acc @ [n]))"

definition dav_acl_patch_validate ::
  "(string list \<Rightarrow> string list) \<Rightarrow> string \<Rightarrow> string \<Rightarrow> dav_repos_resource \<Rightarrow> bool \<Rightarrow> string option list \<Rightarrow> db
    \<Rightarrow> (dav_error + (string \<times> id option) list \<times> id list) \<times> db" where
  "dav_acl_patch_validate order hp rp group_dbr is_set hrefs s =
     (if dr_resourcetype group_dbr \<noteq> dav_repos_GROUP \<or> \<not> is_set
      then (Inl (dav_new_error HTTP_FORBIDDEN ''Not a set operation on a group''), s)
      else case member_names hp rp hrefs [] of
        Inl e \<Rightarrow> (Inl e, s)
      | Inr names \<Rightarrow>
          (case (if names \<noteq> [] then dbms_calculate_group_changes (dr_serialno group_dbr) (order names) s
                 else case dbms_get_group_members rp group_dbr s of
                   (Inl e, s) \<Rightarrow> (Inl e, s) | (Inr ms, s) \<Rightarrow> (Inr ([], map dr_serialno ms), s)) of
             (Inl e, s) \<Rightarrow> (Inl e, s)
           | (Inr (adds, rems), s) \<Rightarrow> (Inr (filter (\<lambda>(n, v). n \<noteq> to_remove_key) adds, rems), s)))"

fun remove_members :: "id \<Rightarrow> id list \<Rightarrow> db \<Rightarrow> dav_error option \<times> db" where
  "remove_members grp [] s = (None, s)"
| "remove_members grp (p # ps) s =
     (case sabridge_rem_prin_frm_grp grp p s of
        (Some e, s) \<Rightarrow> (Some e, s)
      | (None, s) \<Rightarrow> remove_members grp ps s)"

fun add_members :: "id \<Rightarrow> (string \<times> id option) list \<Rightarrow> db \<Rightarrow> (dav_error option \<times> db) option" where
  "add_members grp [] s = Some (None, s)"
| "add_members grp ((n, None) # ps) s = None"
| "add_members grp ((n, Some p) # ps) s =
     (case sabridge_add_prin_to_grp grp p s of
        (Some e, s) \<Rightarrow> Some (Some e, s)
      | (None, s) \<Rightarrow> add_members grp ps s)"

definition dav_acl_patch_exec :: "id \<Rightarrow> (string \<times> id option) list \<times> id list \<Rightarrow> db \<Rightarrow> (dav_error option \<times> db) option" where
  "dav_acl_patch_exec grp ctx s =
     (case remove_members grp (snd ctx) s of
        (Some e, s) \<Rightarrow> Some (Some e, s)
      | (None, s) \<Rightarrow> add_members grp (fst ctx) s)"

end
