(* ===== verification/PrincipalFacts.thy ===== *)
theory PrincipalFacts
  imports Principals "HOL-Library.Multiset"
begin

text \<open>
  Facts about users and groups: setting the members of a group, logging in with an e-mail address,
  and the domains of a user.
\<close>

section \<open>Members\<close>

definition members :: "id \<Rightarrow> db \<Rightarrow> id set" where
  "members grp s = set (member_ids grp s)"

lemma members_iff: "m \<in> members grp s \<longleftrightarrow> (grp, m) \<in> snd ` set (group_members s)"
  by (force simp: members_def member_ids_def)

lemma add_prin_members:
  assumes "sabridge_add_prin_to_grp grp p s = (None, s')"
  shows "snd ` set (group_members s') = insert (grp, p) (snd ` set (group_members s)) \<and> principals s' = principals s"
proof -
  obtain r1 s1 where 1: "dbms_is_prin_in_grp grp p s = (r1, s1)" by fastforce
  obtain r2 s2 where 2: "dbms_will_loop_prin_add_grp grp p s1 = (r2, s2)" by fastforce
  obtain e3 s3 where 3: "dbms_add_prin_to_group grp p s2 = (e3, s3)" by fastforce
  have run: "e3 = None" "dbms_add_prin_to_grp_xitively grp p s3 = (None, s')"
    using assms 1 2 3 by (auto simp: sabridge_add_prin_to_grp_def split: if_splits option.splits)
  have t: "tables_eq s1 s" "tables_eq s2 s1"
    using 1 2 by (auto simp: dbms_is_prin_in_grp_def dbms_will_loop_prin_add_grp_def split: prod.splits bool.splits dest: run_select_same)
  obtain t3 where t3: "tables_eq t3 s2" "s3 = t3\<lparr>group_members := group_members t3 @ [(next_member t3, grp, p)],
      next_member := next_member t3 + 1\<rparr>"
    using 3 run(1) unfolding dbms_add_prin_to_group_def by (auto elim!: exec_or_500_ok split: if_splits)
  have keep: "group_members s' = group_members s3 \<and> principals s' = principals s3"
  proof -
    obtain e4 s4 where 4: "exec_or_500 ''Couldn't add principal to group'' (update_counts (+) grp p) s3 = (e4, s4)" by fastforce
    with run(2) have "e4 = None" "exec_or_500 ''Couldn't add principal to group'' (insert_pairs grp p) s4 = (None, s')"
      by (auto simp: dbms_add_prin_to_grp_xitively_def split: option.splits)
    moreover have "group_members s4 = group_members s3 \<and> principals s4 = principals s3"
      using 4 by (rule exec_or_500_inv [where I = "\<lambda>u. group_members u = group_members s3 \<and> principals u = principals s3"])
        (auto simp: tables_eqD elim!: update_counts_cases)
    ultimately show ?thesis
      by (auto simp: insert_pairs_def tables_eqD elim!: exec_or_500_ok split: if_splits)
  qed
  show ?thesis using keep t t3 by (simp add: tables_eqD)
qed

lemma rem_prin_members:
  assumes "sabridge_rem_prin_frm_grp grp p s = (None, s')"
  shows "snd ` set (group_members s') = snd ` set (group_members s) - {(grp, p)} \<and> principals s' = principals s"
proof -
  obtain e1 s1 where 1: "dbms_rem_prin_frm_grp grp p s = (e1, s1)" by fastforce
  with assms have run: "e1 = None" "dbms_rem_prin_frm_grp_xitively grp p s1 = (None, s')"
    by (auto simp: sabridge_rem_prin_frm_grp_def split: option.splits)
  obtain t where t: "tables_eq t s" "s1 = t\<lparr>group_members := filter (\<lambda>(i, g, m). \<not> (g = grp \<and> m = p)) (group_members t)\<rparr>"
    using 1 run(1) unfolding dbms_rem_prin_frm_grp_def by (auto elim!: exec_or_500_ok)
  have keep: "group_members s' = group_members s1 \<and> principals s' = principals s1"
  proof -
    obtain e4 s4 where 4: "exec_or_500 ''Couldn't add principal to group'' (update_counts (-) grp p) s1 = (e4, s4)" by fastforce
    with run(2) have "e4 = None" "exec_or_500 ''Couldn't add principal to group'' (delete_zero_pairs grp p) s4 = (None, s')"
      by (auto simp: dbms_rem_prin_frm_grp_xitively_def split: option.splits)
    moreover have "group_members s4 = group_members s1 \<and> principals s4 = principals s1"
      using 4 by (rule exec_or_500_inv [where I = "\<lambda>u. group_members u = group_members s1 \<and> principals u = principals s1"])
        (auto simp: tables_eqD elim!: update_counts_cases)
    ultimately show ?thesis by (auto simp: delete_zero_pairs_def tables_eqD elim!: exec_or_500_ok)
  qed
  show ?thesis using keep t by (auto simp: tables_eqD image_iff)
qed

lemma remove_members_ok:
  "remove_members grp ps s = (None, s') \<Longrightarrow>
     snd ` set (group_members s') = snd ` set (group_members s) - Pair grp ` set ps \<and> principals s' = principals s"
proof (induction ps arbitrary: s)
  case (Cons p ps)
  then obtain s1 where 1: "sabridge_rem_prin_frm_grp grp p s = (None, s1)" "remove_members grp ps s1 = (None, s')"
    by (auto split: prod.splits option.splits)
  from rem_prin_members [OF 1(1)] Cons.IH [OF 1(2)] show ?case by auto
qed simp

lemma add_members_ok:
  "add_members grp adds s = Some (None, s') \<Longrightarrow>
     snd ` set (group_members s') = snd ` set (group_members s) \<union> {(grp, i) | n i. (n, Some i) \<in> set adds} \<and>
     principals s' = principals s"
proof (induction grp adds s rule: add_members.induct)
  case (3 grp n p ps s)
  then obtain s1 where 1: "sabridge_add_prin_to_grp grp p s = (None, s1)" "add_members grp ps s1 = Some (None, s')"
    by (auto split: prod.splits option.splits)
  from add_prin_members [OF 1(1)] "3.IH" [OF 1(1) [symmetric] refl 1(2)] show ?case by auto
qed auto


section \<open>The changes\<close>

definition id_named :: "db \<Rightarrow> string \<rightharpoonup> id" where
  "id_named s = map_of (map (\<lambda>(i, n). (n, i)) (principals s))"

lemma id_named_iff:
  assumes "distinct (map snd (principals s))"
  shows "id_named s n = Some i \<longleftrightarrow> (i, n) \<in> set (principals s)"
proof -
  have "distinct (map fst (map (\<lambda>(i, n). (n, i)) (principals s)))" using assms by (simp add: comp_def split_def)
  then show ?thesis by (force simp: id_named_def map_of_eq_Some_iff)
qed

lemma filter_named:
  "distinct (map snd ps) \<Longrightarrow> filter (\<lambda>(i, m). m = n) ps = (case map_of (map (\<lambda>(i, n). (n, i)) ps) n of None \<Rightarrow> [] | Some i \<Rightarrow> [(i, n)])"
proof (induction ps)
  case (Cons p ps)
  obtain i m where p: "p = (i, m)" by fastforce
  have "map_of (map (\<lambda>(i, n). (n, i)) ps) m = None" using Cons.prems p by (force simp: map_of_eq_None_iff)
  with Cons p show ?case by auto
qed simp

lemma wanted_rows_named:
  assumes "distinct (map snd (principals s))"
  shows "wanted_rows names s = map (\<lambda>n. (n, id_named s n)) names"
proof -
  have "(case filter (\<lambda>(i, m). m = n) (principals s) of [] \<Rightarrow> [(n, None)] | ps \<Rightarrow> map (\<lambda>(i, m). (n, Some i)) ps) = [(n, id_named s n)]" for n
    by (simp only: filter_named [OF assms] id_named_def [symmetric]) (simp split: option.split)
  then show ?thesis by (simp add: wanted_rows_def)
qed

lemma take_rows_missing: "(n, None) \<in> set rows \<Longrightarrow> \<exists>e. take_rows cur rows acc = Inl e"
  by (induction cur rows acc rule: take_rows.induct) auto

lemma take_rows_all:
  assumes "distinct ns" "set ns \<inter> fst ` set fin = {}"
  shows "take_rows cur (map (\<lambda>n. (n, Some (f n))) ns) (fin @ map (\<lambda>n. (n, None)) ns)
    = Inr (fin @ map (\<lambda>n. (n, Some (f n))) (filter (\<lambda>n. f n \<notin> set cur) ns))"
  using assms
proof (induction ns arbitrary: fin)
  case (Cons n ns)
  have out: "filter (\<lambda>(m, v). m \<noteq> n) (fin @ map (\<lambda>n. (n, None)) (n # ns)) = fin @ map (\<lambda>n. (n, None)) ns"
  proof -
    have "filter (\<lambda>(m, v). m \<noteq> n) fin = fin" "filter (\<lambda>(m, v). m \<noteq> n) (map (\<lambda>n. (n, None)) ns) = map (\<lambda>n. (n, None)) ns"
      using Cons.prems by (force intro!: filter_True)+
    then show ?thesis by simp
  qed
  have upd: "map (\<lambda>(m, v). if m = n then (m, Some (f n)) else (m, v)) (fin @ map (\<lambda>n. (n, None)) (n # ns))
      = (fin @ [(n, Some (f n))]) @ map (\<lambda>n. (n, None)) ns"
  proof -
    let ?u = "\<lambda>(m, v). if m = n then (m, Some (f n)) else (m, v)"
    have "map ?u fin = fin" by (rule map_idI) (use Cons.prems in force)
    moreover have "map ?u (map (\<lambda>n. (n, None)) ns) = map (\<lambda>n. (n, None)) ns" by (rule map_idI) (use Cons.prems in auto)
    ultimately show ?thesis by simp
  qed
  show ?case
  proof (cases "f n \<in> set cur")
    case True
    with out Cons show ?thesis by simp
  next
    case False
    have "take_rows cur (map (\<lambda>n. (n, Some (f n))) (n # ns)) (fin @ map (\<lambda>n. (n, None)) (n # ns))
        = take_rows cur (map (\<lambda>n. (n, Some (f n))) ns) ((fin @ [(n, Some (f n))]) @ map (\<lambda>n. (n, None)) ns)"
      by (simp only: upd [symmetric]) (use False in simp)
    also have "\<dots> = Inr ((fin @ [(n, Some (f n))]) @ map (\<lambda>n. (n, Some (f n))) (filter (\<lambda>n. f n \<notin> set cur) ns))"
      using Cons.prems by (intro Cons.IH) auto
    finally show ?thesis using False by simp
  qed
qed simp

lemma group_changes:
  assumes run: "dbms_calculate_group_changes grp names s = (Inr (adds, rems), s')"
    and "distinct (map snd (principals s))" "distinct names" "\<not> list_ex (\<lambda>n. CHR ''?'' \<in> set n) names"
  shows "tables_eq s' s"
    "{(n, v). (n, v) \<in> set adds} = {(n, Some i) | n i. n \<in> set names \<and> (i, n) \<in> set (principals s) \<and> i \<notin> members grp s}"
    "set rems = members grp s - {i. \<exists>n \<in> set names. (i, n) \<in> set (principals s)}"
    "\<forall>n \<in> set names. \<exists>i. (i, n) \<in> set (principals s)"
proof -
  obtain t where t: "run_select s = (False, t)"
    using run assms(4) by (auto simp: dbms_calculate_group_changes_def split: prod.splits bool.splits)
  note same = run_select_same [OF t]
  have p: "principals t = principals s" "id_named t = id_named s" "member_ids grp t = member_ids grp s"
    using same by (simp_all add: tables_eqD id_named_def member_ids_def)
  have rows: "wanted_rows names t = map (\<lambda>n. (n, id_named s n)) names"
    using wanted_rows_named [of t] assms(2) p by simp
  have ok: "take_rows (member_ids grp s) (map (\<lambda>n. (n, id_named s n)) names) (map (\<lambda>n. (n, None)) names) = Inr adds"
    "rems = filter (\<lambda>i. Some i \<notin> snd ` set (map (\<lambda>n. (n, id_named s n)) names)) (member_ids grp s)" "s' = t"
    using run t assms(4) rows p by (auto simp: dbms_calculate_group_changes_def Let_def split: sum.splits)
  have all: "\<forall>n \<in> set names. id_named s n \<noteq> None"
  proof (rule ballI, rule notI)
    fix n assume "n \<in> set names" "id_named s n = None"
    then have "(n, None) \<in> set (map (\<lambda>n. (n, id_named s n)) names)" by force
    from take_rows_missing [OF this] ok(1) show False by (metis Inr_not_Inl)
  qed
  then have eq: "map (\<lambda>n. (n, id_named s n)) names = map (\<lambda>n. (n, Some (the (id_named s n)))) names" by auto
  have adds: "adds = map (\<lambda>n. (n, Some (the (id_named s n)))) (filter (\<lambda>n. the (id_named s n) \<notin> set (member_ids grp s)) names)"
    using ok(1) take_rows_all [OF assms(3), of "[]"] unfolding eq by simp
  note nm = id_named_iff [OF assms(2)]
  show "tables_eq s' s" using same ok(3) by simp
  show "\<forall>n \<in> set names. \<exists>i. (i, n) \<in> set (principals s)" using all nm by blast
  show "{(n, v). (n, v) \<in> set adds} = {(n, Some i) | n i. n \<in> set names \<and> (i, n) \<in> set (principals s) \<and> i \<notin> members grp s}"
    using all by (fastforce simp: adds nm [symmetric] members_def)
  show "set rems = members grp s - {i. \<exists>n \<in> set names. (i, n) \<in> set (principals s)}"
    by (auto simp: ok(2) nm [symmetric] members_def image_iff eq_commute)
qed

lemma member_names_distinct: "distinct acc \<Longrightarrow> member_names hp rp hs acc = Inr names \<Longrightarrow> distinct names"
proof (induction hs arbitrary: acc)
  case (Cons h hs)
  then obtain n where n: "member_names hp rp hs (if n \<in> set acc then acc else acc @ [n]) = Inr names"
    by (auto split: option.splits)
  with Cons.prems(1) show ?case by (intro Cons.IH [OF _ n]) simp
qed simp

lemma get_group_members_ok:
  assumes "dbms_get_group_members rp r s = (Inr ms, s')" "list_all (\<lambda>i. name_of i s \<noteq> None \<and> find_resource i s \<noteq> None) (member_ids (dr_serialno r) s)"
  shows "tables_eq s' s \<and> map dr_serialno ms = member_ids (dr_serialno r) s"
proof -
  from assms(1) obtain t where t: "run_select s = (False, t)" "s' = t"
    "ms = map (member_item rp r t) (filter (\<lambda>i. name_of i t \<noteq> None \<and> find_resource i t \<noteq> None) (member_ids (dr_serialno r) t))"
    by (auto simp: dbms_get_group_members_def split: prod.splits bool.splits)
  have same: "tables_eq t s" using t(1) by (rule run_select_same)
  then have "name_of i t = name_of i s" "find_resource i t = find_resource i s" "member_ids (dr_serialno r) t = member_ids (dr_serialno r) s" for i
    by (simp_all add: name_of_def find_resource_def member_ids_def tables_eqD)
  with t assms(2) same show ?thesis
    by (simp add: comp_def member_item_def Let_def filter_True list_all_iff)
qed

section \<open>Properties\<close>

text \<open>C13: Setting the property \<open>group-member-set\<close> is exact: when both phases succeed, the direct members of
  the group are the principals named by the references and no others, and the members of every
  other group are what they were.\<close>

theorem group_member_set_exact:
  assumes val: "dav_acl_patch_validate order hp rp r True hrefs s = (Inr ctx, s1)"
    and exe: "dav_acl_patch_exec (dr_serialno r) ctx s1 = Some (None, s2)"
    and names: "member_names hp rp hrefs [] = Inr names" "to_remove_key \<notin> set names" "\<not> list_ex (\<lambda>n. CHR ''?'' \<in> set n) names"
    and order: "\<And>xs. mset (order xs) = mset xs"
    and uniq: "distinct (map snd (principals s))"
    and refs: "list_all (\<lambda>i. name_of i s \<noteq> None \<and> find_resource i s \<noteq> None) (member_ids (dr_serialno r) s)"
  shows "members (dr_serialno r) s2 = {i. \<exists>n \<in> set names. (i, n) \<in> set (principals s)} \<and>
    (\<forall>g. g \<noteq> dr_serialno r \<longrightarrow> members g s2 = members g s)"
proof -
  let ?g = "dr_serialno r"
  have ord: "set (order names) = set names" "distinct (order names)"
    using order [of names] member_names_distinct [OF _ names(1)] by (metis set_mset_mset, metis distinct.simps(1) mset_eq_imp_distinct_iff)
  obtain adds rems where ctx: "ctx = (filter (\<lambda>(n, v). n \<noteq> to_remove_key) adds, rems)"
    and ch: "(if names \<noteq> [] then dbms_calculate_group_changes ?g (order names) s
       else case dbms_get_group_members rp r s of (Inl e, s) \<Rightarrow> (Inl e, s) | (Inr ms, s) \<Rightarrow> (Inr ([], map dr_serialno ms), s))
      = (Inr (adds, rems), s1)"
    using val names(1) by (auto simp: dav_acl_patch_validate_def split: if_splits sum.splits prod.splits)
  have spec: "tables_eq s1 s \<and> {(n, v). (n, v) \<in> set adds} = {(n, Some i) | n i. n \<in> set names \<and> (i, n) \<in> set (principals s) \<and> i \<notin> members ?g s}
    \<and> set rems = members ?g s - {i. \<exists>n \<in> set names. (i, n) \<in> set (principals s)}"
  proof (cases "names = []")
    case True
    with ch obtain ms where "dbms_get_group_members rp r s = (Inr ms, s1)" "adds = []" "rems = map dr_serialno ms"
      by (auto split: prod.splits sum.splits)
    with get_group_members_ok [OF _ refs, of rp ms s1] True show ?thesis by (auto simp: members_def)
  next
    case False
    with ch have "dbms_calculate_group_changes ?g (order names) s = (Inr (adds, rems), s1)" by simp
    from group_changes [OF this uniq ord(2)] names(3) ord(1) show ?thesis by (auto simp: list_ex_iff)
  qed
  obtain t where t: "remove_members ?g rems s1 = (None, t)" "add_members ?g (filter (\<lambda>(n, v). n \<noteq> to_remove_key) adds) t = Some (None, s2)"
    using exe by (auto simp: dav_acl_patch_exec_def ctx split: prod.splits option.splits)
  have "{(?g, i) | n i. (n, Some i) \<in> set (filter (\<lambda>(n, v). n \<noteq> to_remove_key) adds)}
      = {(?g, i) | n i. n \<in> set names \<and> (i, n) \<in> set (principals s) \<and> i \<notin> members ?g s}"
    using spec names(2) by (fastforce simp: set_eq_iff)
  moreover have "group_members s1 = group_members s" using spec by (simp add: tables_eqD)
  ultimately
  have "snd ` set (group_members s2) = snd ` set (group_members s) - Pair ?g ` set rems
      \<union> {(?g, i) | n i. n \<in> set names \<and> (i, n) \<in> set (principals s) \<and> i \<notin> members ?g s}"
    using add_members_ok [OF t(2)] remove_members_ok [OF t(1)] by simp
  then have after: "(g, i) \<in> snd ` set (group_members s2) \<longleftrightarrow> (g, i) \<in> snd ` set (group_members s) \<and> \<not> (g = ?g \<and> i \<in> set rems)
      \<or> g = ?g \<and> (\<exists>n \<in> set names. (i, n) \<in> set (principals s)) \<and> i \<notin> members ?g s" for g i
    by (simp only: Un_iff Diff_iff) blast
  have "i \<in> set rems \<longleftrightarrow> i \<in> members ?g s \<and> \<not> (\<exists>n \<in> set names. (i, n) \<in> set (principals s))" for i using spec by simp
  with after show ?thesis unfolding set_eq_iff members_iff mem_Collect_eq by blast
qed

text \<open>Two users, one of them in the group; the group gets the other one instead.\<close>

definition small_group :: db where
  "small_group = empty_db\<lparr>principals := [(10, ''staff''), (11, ''ann''), (12, ''bob'')],
     resources := [a_resource 10 ''Group'', a_resource 11 ''User'', a_resource 12 ''User''],
     users := [a_user 11, (a_user 12)\<lparr>u_email := ''b@b.c''\<rparr>],
     group_members := [(1, 10, 11)], transitive_group_members := [(10, 11, 1)], next_member := 2\<rparr>"

definition staff :: dav_repos_resource where
  "staff = zero_dbr\<lparr>dr_serialno := 10, dr_resourcetype := dav_repos_GROUP\<rparr>"

theorem group_member_set_exact_witness:
  "\<exists>ctx s1 s2. dav_acl_patch_validate rev ''http://h'' [] staff True [Some ''http://h/users/bob''] small_group = (Inr ctx, s1) \<and>
     dav_acl_patch_exec 10 ctx s1 = Some (None, s2) \<and> members 10 s2 = {12}"
proof -
  let ?v = "dav_acl_patch_validate rev ''http://h'' [] staff True [Some ''http://h/users/bob''] small_group"
  let ?x = "dav_acl_patch_exec (dr_serialno staff) ([(''bob'', Some 12)], [11]) small_group"
  have v: "?v = (Inr ([(''bob'', Some 12)], [11]), small_group)" by code_simp
  have x: "?x = Some (None, snd (the ?x))" by code_simp
  have n: "member_names ''http://h'' [] [Some ''http://h/users/bob''] [] = Inr [''bob'']" by code_simp
  have h: "to_remove_key \<notin> set [''bob'']" "\<not> list_ex (\<lambda>n. CHR ''?'' \<in> set n) [''bob'']"
    "distinct (map snd (principals small_group))"
    "list_all (\<lambda>i. name_of i small_group \<noteq> None \<and> find_resource i small_group \<noteq> None) (member_ids (dr_serialno staff) small_group)"
    by code_simp+
  have p: "{i. \<exists>n \<in> set [''bob'']. (i, n) \<in> set (principals small_group)} = {12}" by (auto simp: small_group_def)
  have g: "dr_serialno staff = 10" by (simp add: staff_def)
  have m: "members 10 (snd (the ?x)) = {12}"
    using group_member_set_exact [OF v x n h(1,2) mset_rev h(3,4)] unfolding p g by (rule conjunct1)
  show ?thesis by (intro exI conjI, rule v, rule x [unfolded g], rule m [unfolded g])
qed

section \<open>E-mail addresses\<close>



text \<open>A user can log in with the address the account was made with.\<close>

lemma insert_user_canonical:
  assumes "dbms_insert_user ok lowercase i pwhash email s = (None, s')" and "name_of i s = Some n"
    and "CHR ''@'' \<in> set email" and "fault s' = []"
  shows "dbms_get_canonical_username (Some email) s' = (Some n, s')"
proof -
  obtain t where t: "tables_eq t s" "insert_user_row ok lowercase i pwhash email t = Changed s'"
  proof (rule next_fault_cases [of s])
    fix t assume "next_fault s = (False, t)" "tables_eq t s"
    with assms(1) that show thesis
      by (auto simp: dbms_insert_user_def user_stmt_def split: user_outcome.splits)
  next
    fix t assume "next_fault s = (True, t)" "tables_eq t s"
    with assms(1) show thesis by (simp add: dbms_insert_user_def user_stmt_def)
  qed
  have "\<forall>u \<in> set (users t). u_email u \<noteq> email"
    using t(2) by (auto simp: insert_user_row_def list_ex_iff split: if_splits)
  then have none: "filter (\<lambda>u. u_email u = email \<and> Q u) (users t) = []" for Q by (auto simp: filter_empty_conv)
  obtain u where u: "s' = t\<lparr>users := users t @ [u]\<rparr>" "u_email u = email" "u_principal_id u = i"
    using t(2) by (auto simp: insert_user_row_def split: if_splits)
  have "name_of i t = Some n" using t(1) assms(2) by (simp add: name_of_def tables_eqD)
  moreover have "name_of j s' = name_of j t" for j using u by (simp add: name_of_def)
  moreover have "run_select s' = (False, s')" using assms(4) by (simp add: run_stmt_healthy)
  ultimately show ?thesis using u assms(3) none by (simp add: dbms_get_canonical_username_def)
qed

section \<open>Domains\<close>

lemma insert_domain_rows_ok:
  "insert_domain_rows i m s = Some s' \<Longrightarrow>
     map (\<lambda>d. (d_domain d, d_path d)) (filter (\<lambda>d. d_principal_id d = i) (user_domains s'))
       = map (\<lambda>d. (d_domain d, d_path d)) (filter (\<lambda>d. d_principal_id d = i) (user_domains s)) @ m \<and>
     filter (\<lambda>d. d_principal_id d \<noteq> i) (user_domains s') = filter (\<lambda>d. d_principal_id d \<noteq> i) (user_domains s) \<and>
     fault s' = fault s"
proof (induction i m s rule: insert_domain_rows.induct)
  case (2 i d p m s)
  then show ?case by (auto split: if_splits)
qed simp

lemma insert_domain_rows_accepts:
  "\<lbrakk>i \<in> principal_ids s; list_all (\<lambda>(d, p). length d \<le> 255 \<and> length p \<le> 255) m; distinct (map fst m);
    \<forall>r \<in> set (user_domains s). d_principal_id r = i \<longrightarrow> d_domain r \<notin> fst ` set m\<rbrakk> \<Longrightarrow> \<exists>s'. insert_domain_rows i m s = Some s'"
proof (induction i m s rule: insert_domain_rows.induct)
  case (2 i d p m s)
  let ?s = "s\<lparr>user_domains := user_domains s @ [\<lparr>d_id = next_domain s, d_principal_id = i, d_domain = d, d_path = p\<rparr>],
                next_domain := next_domain s + 1\<rparr>"
  have c: "i \<in> principal_ids s \<and> length d \<le> 255 \<and> length p \<le> 255 \<and>
         \<not> list_ex (\<lambda>r. d_principal_id r = i \<and> d_domain r = d) (user_domains s)"
    using 2 by (auto simp: list_ex_iff)
  have "principal_ids ?s = principal_ids s" by (simp add: principal_ids_def)
  then have "\<exists>s'. insert_domain_rows i m ?s = Some s'" using 2 c by (intro "2.IH" [OF c]) auto
  then show ?case using c by simp
qed simp

text \<open>The domains of a user are set as a whole: on a healthy connection, for a principal and a
  non-empty table within the limits of the columns and without question marks, the call succeeds,
  reading back gives the table that was set, and the rows of other users are untouched.\<close>

theorem domain_map_round_trip:
  assumes "fault s = []" and "i \<in> principal_ids s" and "m \<noteq> []" and "distinct (map fst m)"
    and "list_all (\<lambda>(d, p). length d \<le> 255 \<and> length p \<le> 255) m"
    and "CHR ''?'' \<notin> set (joinc CHR '','' (map (domain_value esc i) m))"
  shows "\<exists>s'. dbms_set_domain_map esc i (Some m) s = (None, s') \<and>
    dbms_get_domain_map i s' = (Some (map_of m), s') \<and>
    filter (\<lambda>d. d_principal_id d \<noteq> i) (user_domains s') = filter (\<lambda>d. d_principal_id d \<noteq> i) (user_domains s)"
proof -
  let ?t = "s\<lparr>user_domains := filter (\<lambda>d. d_principal_id d \<noteq> i) (user_domains s)\<rparr>"
  have "i \<in> principal_ids ?t" using assms(2) by (simp add: principal_ids_def)
  then obtain s' where s': "insert_domain_rows i m ?t = Some s'"
    using insert_domain_rows_accepts [of i ?t m] assms(4,5) by auto
  have "dbms_set_domain_map esc i (Some m) s = (None, s')"
    using assms(1,3,6) s' by (simp add: dbms_set_domain_map_def domain_map_to_values_def exec_or_500_healthy)
  moreover have rows: "map (\<lambda>d. (d_domain d, d_path d)) (filter (\<lambda>d. d_principal_id d = i) (user_domains s')) = m"
    "filter (\<lambda>d. d_principal_id d \<noteq> i) (user_domains s') = filter (\<lambda>d. d_principal_id d \<noteq> i) (user_domains s)" "fault s' = []"
    using insert_domain_rows_ok [OF s'] assms(1) by (simp_all add: filter_empty_conv)
  moreover have "map_of (rev m) = map_of m" using assms(4) by (simp add: map_of_inject_set rev_map [symmetric])
  moreover have "filter (\<lambda>d. d_principal_id d = i) (user_domains s') \<noteq> []" using rows(1) assms(3) by auto
  ultimately show ?thesis by (auto simp: dbms_get_domain_map_def run_stmt_healthy Let_def)
qed

theorem domain_map_round_trip_witness:
  "\<exists>s'. dbms_set_domain_map (\<lambda>x. x) 11 (Some [(''ann.org'', ''/site''), (''ann.net'', ''/'')]) small_group = (None, s') \<and>
    dbms_get_domain_map 11 s' = (Some (map_of [(''ann.org'', ''/site''), (''ann.net'', ''/'')]), s')"
proof -
  let ?m = "[(''ann.org'', ''/site''), (''ann.net'', ''/'')]"
  have "fault small_group = []" "11 \<in> principal_ids small_group" "?m \<noteq> []" "distinct (map fst ?m)"
    "list_all (\<lambda>(d, p). length d \<le> 255 \<and> length p \<le> 255) ?m"
    "CHR ''?'' \<notin> set (joinc CHR '','' (map (domain_value (\<lambda>x. x) 11) ?m))" by code_simp+
  from domain_map_round_trip [OF this] show ?thesis by blast
qed

end
