(* ===== verification/Creation.thy ===== *)
theory Creation
  imports Lifecycle Principals
begin

text \<open>
  Making resources: \<open>sabridge_insert_resource\<close> and its neighbours in \<^verbatim>\<open>bridge.c\<close>, the initial ACL of
  \<^verbatim>\<open>acl.c\<close>, \<open>dav_repos_create_resource\<close> and \<open>dav_repos_create_collection\<close> of \<^verbatim>\<open>repos.c\<close>.

  A request works on a \<open>session\<close>: the database and the directory of bodies, the cache of the
  request and the number of identifiers generated so far. What comes from outside the
  repository is in the record \<open>env\<close>: the configuration, the principal of the request, the clock (which
  stands still during a request), the generator of identifiers, \<open>ap_make_dirstr_parent\<close>, the file
  system's answers when a body is opened and when its path is made (\<open>generate_path\<close> of \<^theory_text>\<open>Util\<close> with
  the directory of the configuration), the driver's escape function, \<open>libmagic\<close>, the principal that mod_dav
  finds for a URL, the address of the server, and the privilege that stands for all privileges.

  An outer \<open>None\<close> is a read through a null or uninitialised pointer.
\<close>

record env =
  e_cf :: dav_repos_db
  e_dirstr :: "string \<Rightarrow> string"
  e_now :: datetime
  e_principal :: dav_principal
  e_user :: "string option"
  e_acl_hooks :: bool
  e_all_priv :: "string \<times> string"
  e_uuid :: "nat \<Rightarrow> string"
  e_open_ok :: "string \<Rightarrow> bool"
  e_escape :: "string \<Rightarrow> string"
  e_path :: "string \<Rightarrow> (dav_error + string) option"
  e_mime :: "string \<Rightarrow> string \<Rightarrow> string"
  e_principal_of_url :: "string \<Rightarrow> dav_principal"
  e_href_prefix :: string
  e_root_prefix :: string

record session =
  sn_world :: world
  sn_cache :: dav_repos_cache
  sn_uuids :: nat

abbreviation sn_db :: "session \<Rightarrow> db" where "sn_db sn \<equiv> w_db (sn_world sn)"

definition put_db :: "db \<Rightarrow> session \<Rightarrow> session" where
  "put_db s sn = sn\<lparr>sn_world := (sn_world sn)\<lparr>w_db := s\<rparr>\<rparr>"

definition put_world :: "world \<Rightarrow> session \<Rightarrow> session" where
  "put_world w sn = sn\<lparr>sn_world := w\<rparr>"

lemma put_db_simps [simp]:
  "sn_db (put_db s sn) = s" "sn_cache (put_db s sn) = sn_cache sn" "w_disk (sn_world (put_db s sn)) = w_disk (sn_world sn)"
  "put_db s (put_db t sn) = put_db s sn" "put_db (sn_db sn) sn = sn" "sn_world (put_world w sn) = w"
  "sn_cache (put_world w sn) = sn_cache sn" "sn_uuids (put_db s sn) = sn_uuids sn" "sn_uuids (put_world w sn) = sn_uuids sn"
  by (simp_all add: put_db_def put_world_def)

type_synonym outcome = "(dav_error option \<times> dav_repos_resource \<times> session) option"

text \<open>The C idiom \<open>err = ...; if (err) goto error;\<close>, and a function of the database in it.\<close>

definition step_ok :: "outcome \<Rightarrow> (dav_repos_resource \<Rightarrow> session \<Rightarrow> outcome) \<Rightarrow> outcome" where
  "step_ok m f =
     (case m of
        None \<Rightarrow> None
      | Some (Some e, r, sn) \<Rightarrow> Some (Some e, r, sn)
      | Some (None, r, sn) \<Rightarrow> f r sn)"

definition in_db :: "(db \<Rightarrow> dav_error option \<times> db) \<Rightarrow> dav_repos_resource \<Rightarrow> session \<Rightarrow> outcome" where
  "in_db f r sn = (case f (sn_db sn) of (e, s) \<Rightarrow> Some (e, r, put_db s sn))"

definition in_db_r :: "(dav_repos_resource \<Rightarrow> db \<Rightarrow> dav_error option \<times> dav_repos_resource \<times> db)
    \<Rightarrow> dav_repos_resource \<Rightarrow> session \<Rightarrow> outcome" where
  "in_db_r f r sn = (case f r (sn_db sn) of (e, r, s) \<Rightarrow> Some (e, r, put_db s sn))"

section \<open>The body of a new resource\<close>

definition EMPTY_SHA1 :: string where "EMPTY_SHA1 = ''da39a3ee5e6b4b0d3255bfef95601890afd80709''"

definition sabridge_create_empty_body :: "env \<Rightarrow> dav_repos_resource \<Rightarrow> session \<Rightarrow> outcome" where
  "sabridge_create_empty_body env r sn =
     step_ok (in_db_r (dbms_insert_media (e_now env)) (r\<lparr>dr_sha1str := Some EMPTY_SHA1\<rparr>) sn)
       (\<lambda>r sn. if e_open_ok env EMPTY_SHA1
               then Some (None, r, put_world ((sn_world sn)\<lparr>w_disk := List.insert EMPTY_SHA1 (w_disk (sn_world sn))\<rparr>) sn)
               else Some (Some (dav_new_error HTTP_INTERNAL_SERVER_ERROR ''Filesystem error''), r, sn))"

section \<open>The initial ACL\<close>

text \<open>\<open>dav_repos_inherit_aces\<close> and \<open>dav_repos_create_initial_acl\<close>, the hook that mod_dav and the code below
  call; the namespace table is the one of the resource.\<close>

definition dav_repos_inherit_aces :: "env \<Rightarrow> dav_repos_resource \<Rightarrow> session \<Rightarrow> outcome" where
  "dav_repos_inherit_aces env r sn =
     (case sabridge_get_parent_id (e_dirstr env) r (sn_db sn) of
        None \<Rightarrow> None
      | Some (p, r, s) \<Rightarrow>
          if p = 0 then Some (Some (dav_new_error HTTP_INTERNAL_SERVER_ERROR ''Could not get parent id for ACL Inheritance''),
                              r, put_db s sn)
          else in_db (dbms_inherit_parent_aces (dr_serialno r) p) r (put_db s sn))"

definition dav_repos_create_initial_acl :: "env \<Rightarrow> dav_principal \<Rightarrow> dav_repos_resource \<Rightarrow> session \<Rightarrow> outcome" where
  "dav_repos_create_initial_acl env owner r sn =
     step_ok
       (case acl_create_initial_acl (e_all_priv env) (dr_serialno r) owner (dr_ns_id_hash r) (sn_cache sn) (sn_db sn) of
          (e, h, c, s) \<Rightarrow> Some (e, r\<lparr>dr_ns_id_hash := h\<rparr>, (put_db s sn)\<lparr>sn_cache := c\<rparr>))
       (dav_repos_inherit_aces env)"

section \<open>Inserting a resource\<close>

text \<open>The pointer \<open>r->parent\<close> is an argument and a result of its own. When it is not set it is
  looked up by the id of the parent, or by the URI; the error of the first query is
  overwritten by the second.\<close>

definition insert_parent ::
  "env \<Rightarrow> dav_repos_resource \<Rightarrow> dav_repos_resource option \<Rightarrow> db
    \<Rightarrow> (dav_error option \<times> dav_repos_resource \<times> dav_repos_resource option \<times> db) option" where
  "insert_parent env r parent s =
     (case parent of
        Some p \<Rightarrow> Some (None, r, Some p, s)
      | None \<Rightarrow>
          if 0 < dr_parent_id r
          then (case sabridge_new_dbr_from_dbr r of
                  None \<Rightarrow> None
                | Some p \<Rightarrow>
                    (case dbms_get_resource (p\<lparr>dr_serialno := dr_parent_id r\<rparr>) s of (e, p, s) \<Rightarrow>
                     case dbms_get_collection_props p s of (e, p, s) \<Rightarrow> Some (e, r, Some p, s)))
          else if dr_uri r \<noteq> None
          then map_option (\<lambda>(p, r, s). (None, r, Some p, s)) (sabridge_retrieve_parent (e_dirstr env) r s)
          else Some (None, r, None, s))"

definition new_fields :: "env \<Rightarrow> string \<Rightarrow> dav_repos_resource option \<Rightarrow> dav_repos_resource \<Rightarrow> dav_repos_resource" where
  "new_fields env uuid parent r =
     (let me = dav_repos_get_principal_id (e_principal env)
      in r\<lparr>dr_uuid := Some uuid, dr_created_at := Some (e_now env), dr_updated_at := Some (e_now env),
           dr_creator_id := me, dr_owner_id := (if dr_owner_id r = 0 then me else dr_owner_id r),
           dr_displayname := (case dr_displayname r of
               Some d \<Rightarrow> Some d | None \<Rightarrow> Some (case dr_uri r of None \<Rightarrow> [] | Some u \<Rightarrow> basename u)),
           dr_getcontenttype := (case dr_getcontenttype r of None \<Rightarrow> Some ''application/octet-stream'' | Some t \<Rightarrow> Some t),
           dr_limebar_state := (case parent of None \<Rightarrow> dr_limebar_state r | Some p \<Rightarrow> dr_limebar_state p)\<rparr>)"

definition insert_body :: "env \<Rightarrow> dav_repos_resource \<Rightarrow> session \<Rightarrow> outcome" where
  "insert_body env r sn = (if has_body (dr_resourcetype r) then sabridge_create_empty_body env r sn else Some (None, r, sn))"

definition insert_members :: "dav_repos_resource option \<Rightarrow> dav_repos_resource \<Rightarrow> session \<Rightarrow> outcome" where
  "insert_members parent r sn =
     (if dr_resourcetype r = dav_repos_COLLECTION \<or> dr_resourcetype r = dav_repos_VERSIONED_COLLECTION
      then (case parent of
              None \<Rightarrow> None
            | Some p \<Rightarrow> let r = r\<lparr>dr_av_new_children := dr_av_new_children p\<rparr> in in_db (dbms_insert_collection r) r sn)
      else Some (None, r, sn))"

text \<open>\<open>basename\<close> of a missing URI is a read through \<open>NULL\<close>.\<close>

definition insert_prin :: "dav_repos_resource \<Rightarrow> session \<Rightarrow> outcome" where
  "insert_prin r sn =
     (if dr_resourcetype r = dav_repos_USER \<or> dr_resourcetype r = dav_repos_GROUP
      then (case dr_uri r of
              None \<Rightarrow> None
            | Some u \<Rightarrow> in_db (dbms_insert_principal (dr_serialno r) (basename u)) r sn)
      else Some (None, r, sn))"

definition insert_user_quota :: "env \<Rightarrow> dav_repos_resource \<Rightarrow> session \<Rightarrow> outcome" where
  "insert_user_quota env r sn =
     (if dr_resourcetype r = dav_repos_USER
      then step_ok (in_db (dbms_insert_quota (dr_serialno r) (user_quota (e_cf env))) r sn)
             (\<lambda>r sn. let r = r\<lparr>dr_owner_id := dr_serialno r\<rparr> in in_db (dbms_set_property r) r sn)
      else Some (None, r, sn))"

definition insert_first_bind :: "env \<Rightarrow> bool \<Rightarrow> dav_repos_resource option \<Rightarrow> dav_repos_resource \<Rightarrow> session \<Rightarrow> outcome" where
  "insert_first_bind env delay_bind parent r sn =
     (case dr_uri r of
        None \<Rightarrow> Some (None, r, sn)
      | Some u \<Rightarrow>
          if delay_bind then Some (None, r, sn)
          else (case parent of
                  None \<Rightarrow> None
                | Some p \<Rightarrow> in_db (dbms_insert_bind (e_now env) (dr_serialno r) (dr_serialno p) (Some (basename u))) r sn))"

definition insert_acl :: "env \<Rightarrow> bool \<Rightarrow> dav_repos_resource \<Rightarrow> session \<Rightarrow> outcome" where
  "insert_acl env delay_acl r sn =
     (if e_acl_hooks env \<and> \<not> delay_acl then dav_repos_create_initial_acl env (e_principal env) r sn else Some (None, r, sn))"

definition insert_rows :: "env \<Rightarrow> bool \<Rightarrow> bool \<Rightarrow> dav_repos_resource option \<Rightarrow> dav_repos_resource \<Rightarrow> session \<Rightarrow> outcome" where
  "insert_rows env delay_bind delay_acl parent r sn =
     step_ok (step_ok (step_ok (step_ok (step_ok (step_ok
       (in_db_r (dbms_insert_resource (e_now env)) r sn)
       (insert_body env)) (insert_members parent)) insert_prin) (insert_user_quota env))
       (insert_first_bind env delay_bind parent)) (insert_acl env delay_acl)"

definition sabridge_insert_resource ::
  "env \<Rightarrow> bool \<Rightarrow> bool \<Rightarrow> dav_repos_resource \<Rightarrow> dav_repos_resource option \<Rightarrow> session
    \<Rightarrow> (dav_error option \<times> dav_repos_resource \<times> dav_repos_resource option \<times> session) option" where
  "sabridge_insert_resource env delay_bind delay_acl r parent sn =
     (case insert_parent env r parent (sn_db sn) of
        None \<Rightarrow> None
      | Some (Some e, r, parent, s) \<Rightarrow> Some (Some e, r, parent, put_db s sn)
      | Some (None, r, parent, s) \<Rightarrow>
          map_option (\<lambda>(e, r, sn). (e, r, parent, sn))
            (insert_rows env delay_bind delay_acl parent (new_fields env (e_uuid env (sn_uuids sn)) parent r)
               ((put_db s sn)\<lparr>sn_uuids := sn_uuids sn + 1\<rparr>)))"

text \<open>\<open>dav_repos_create_resource\<close> of \<^verbatim>\<open>repos.c\<close>.\<close>

definition dav_repos_create_resource ::
  "env \<Rightarrow> bool \<Rightarrow> bool \<Rightarrow> dav_repos_resource \<Rightarrow> dav_repos_resource option \<Rightarrow> session
    \<Rightarrow> (dav_error option \<times> dav_repos_resource \<times> dav_repos_resource option \<times> session) option" where
  "dav_repos_create_resource env delay_bind delay_acl r parent sn =
     (case dr_resource r of
        None \<Rightarrow> None
      | Some rs \<Rightarrow>
          (let r = (if rs_collection rs
                    then r\<lparr>dr_resourcetype := dav_repos_COLLECTION, dr_getcontenttype := Some DIR_MAGIC_TYPE\<rparr>
                    else if dr_resourcetype r = 0 then r\<lparr>dr_resourcetype := dav_repos_RESOURCE\<rparr> else r)
           in case sabridge_insert_resource env delay_bind delay_acl r parent sn of
                None \<Rightarrow> None
              | Some (Some e, r, p, sn) \<Rightarrow> Some (Some e, r, p, sn)
              | Some (None, r, p, sn) \<Rightarrow> map_option (\<lambda>r. (None, r, p, sn)) (dav_repos_update_dbr_resource r)))"

text \<open>
  \<open>dav_repos_create_collection\<close>, the handler of \<open>MKCOL\<close>. A lock-null resource that is turned into a
  collection takes the autoversioning of its parent; its \<open>limebar_state\<close> is that of a structure into
  which none was read.
\<close>

definition overwrite_locknull :: "dav_repos_resource \<Rightarrow> session \<Rightarrow> outcome" where
  "overwrite_locknull r sn =
     step_ok (in_db (dbms_set_property r) r sn)
       (\<lambda>r sn. case sabridge_new_dbr_from_dbr r of
          None \<Rightarrow> None
        | Some p \<Rightarrow>
            (case dbms_get_collection_props (p\<lparr>dr_serialno := dr_parent_id r\<rparr>) (sn_db sn) of
               (Some e, p, s) \<Rightarrow> Some (Some e, r, put_db s sn)
             | (None, p, s) \<Rightarrow>
                 (let r = r\<lparr>dr_av_new_children := dr_av_new_children p, dr_limebar_state := dr_limebar_state p\<rparr>
                  in in_db (dbms_insert_collection r) r (put_db s sn))))"

definition mark_existing :: "dav_repos_resource \<Rightarrow> dav_repos_resource" where
  "mark_existing r = r\<lparr>dr_resource := map_option (\<lambda>rs. rs\<lparr>rs_exists := True\<rparr>) (dr_resource r)\<rparr>"

definition dav_repos_create_collection :: "env \<Rightarrow> dav_repos_resource \<Rightarrow> session \<Rightarrow> outcome" where
  "dav_repos_create_collection env r sn =
     (case dr_resource r of
        None \<Rightarrow> None
      | Some rs \<Rightarrow>
          if rs_type rs = DAV_RESOURCE_TYPE_VERSION \<or> rs_type rs = DAV_RESOURCE_TYPE_HISTORY
          then Some (Some (dav_new_error HTTP_CONFLICT ''Version resource.''), r, sn)
          else let r = r\<lparr>dr_getcontenttype := Some DIR_MAGIC_TYPE, dr_resourcetype := dav_repos_COLLECTION\<rparr>
            in step_ok
                 (if dr_serialno r = 0
                  then map_option (\<lambda>(e, r, p, sn). (e, r, sn)) (sabridge_insert_resource env False False r None sn)
                  else overwrite_locknull r sn)
                 (\<lambda>r sn. Some (None, mark_existing r, sn)))"

section \<open>Collections along a path\<close>

text \<open>
  \<open>sabridge_mkcol_w_parents\<close>. One structure is used for all new collections, and its pointer to the
  parent is found for the first of them only. \<open>new_coll_id\<close> is not initialised: a path without a
  segment, and a first query that fails, leave it so; a later query that fails leaves the id of
  the previous segment.
\<close>

fun mkcol_loop ::
  "env \<Rightarrow> string list \<Rightarrow> bool \<Rightarrow> id \<Rightarrow> id option \<Rightarrow> dav_repos_resource \<Rightarrow> dav_repos_resource option \<Rightarrow> session
    \<Rightarrow> (dav_error option \<times> id option \<times> session) option" where
  "mkcol_loop env [] look base found r parent sn = Some (None, found, sn)"
| "mkcol_loop env (d # ds) look base found r parent sn =
     (case (if look then (case dbms_get_bind_resource_id base d (sn_db sn) of
                (Inl e, s) \<Rightarrow> (found, s) | (Inr i, s) \<Rightarrow> (Some i, s))
            else (Some 0, sn_db sn)) of (found, s) \<Rightarrow>
        (case found of
           None \<Rightarrow> None
         | Some i \<Rightarrow>
             if i \<noteq> 0 then mkcol_loop env ds look i (Some i) r parent (put_db s sn)
             else (case dav_repos_create_resource env True False (r\<lparr>dr_serialno := 0, dr_parent_id := base\<rparr>) parent (put_db s sn) of
                     None \<Rightarrow> None
                   | Some (Some e, r, parent, sn) \<Rightarrow> Some (Some e, found, sn)
                   | Some (None, r, parent, sn) \<Rightarrow>
                       (case dbms_insert_bind (e_now env) (dr_serialno r) base (Some d) (sn_db sn) of
                          (Some e, s) \<Rightarrow> Some (Some e, Some (dr_serialno r), put_db s sn)
                        | (None, s) \<Rightarrow>
                            mkcol_loop env ds False (dr_serialno r) (Some (dr_serialno r)) r parent (put_db s sn)))))"

definition sabridge_mkcol_w_parents :: "env \<Rightarrow> dav_repos_resource \<Rightarrow> session \<Rightarrow> outcome" where
  "sabridge_mkcol_w_parents env r sn =
     (case (sabridge_new_dbr_from_dbr r, dr_uri r) of
        (Some c, Some u) \<Rightarrow>
          (case mkcol_loop env (tokens CHR ''/'' (drop (length (dr_root_path r)) u)) True ROOT_COLLECTION_ID None
                  (c\<lparr>dr_resourcetype := dav_repos_COLLECTION\<rparr>) None sn of
             None \<Rightarrow> None
           | Some (Some e, i, sn) \<Rightarrow> Some (Some e, r, sn)
           | Some (None, None, sn) \<Rightarrow> None
           | Some (None, Some i, sn) \<Rightarrow> Some (None, r\<lparr>dr_serialno := i\<rparr>, sn))
      | _ \<Rightarrow> None)"

end
