(* ===== verification/Versions.thy ===== *)
theory Versions
  imports Creation
begin

text \<open>
  Version control: \<^verbatim>\<open>deltav_bridge.c\<close> and the hooks of \<^verbatim>\<open>version.c\<close> (\<open>VERSION-CONTROL\<close>, \<open>CHECKOUT\<close>,
  \<open>CHECKIN\<close>, \<open>UNCHECKOUT\<close>). Versions of a resource are copies below \<open>/history/<id of the history>/\<close>.
  The database is the one of the scripts, PostgreSQL: the statements that take constraints away
  on MySQL are not sent.
\<close>

definition DAV_AV_CHECKOUT_CHECKIN :: int where "DAV_AV_CHECKOUT_CHECKIN = 1"
definition DAV_AV_CHECKOUT_UNLOCKED_CHECKIN :: int where "DAV_AV_CHECKOUT_UNLOCKED_CHECKIN = 2"
definition DAV_AV_CHECKOUT :: int where "DAV_AV_CHECKOUT = 3"
definition DAV_AV_LOCKED_CHECKOUT :: int where "DAV_AV_LOCKED_CHECKOUT = 4"
definition DAV_AV_NONE :: int where "DAV_AV_NONE = 5"
definition DAV_AV_VERSION_CONTROL :: int where "DAV_AV_VERSION_CONTROL = 6"

lemmas av_defs = DAV_AV_CHECKOUT_CHECKIN_def DAV_AV_CHECKOUT_UNLOCKED_CHECKIN_def DAV_AV_CHECKOUT_def
  DAV_AV_LOCKED_CHECKOUT_def DAV_AV_NONE_def DAV_AV_VERSION_CONTROL_def

section \<open>Copying a body\<close>

text \<open>\<open>sabridge_copy_medium\<close>: \<open>strcmp\<close> needs both display names.\<close>

definition copy_displayname ::
  "dav_repos_resource \<Rightarrow> dav_repos_resource \<Rightarrow> db \<Rightarrow> (dav_error option \<times> dav_repos_resource \<times> db) option" where
  "copy_displayname src dest s =
     (case (dr_displayname src, dr_displayname dest) of
        (Some a, Some b) \<Rightarrow>
          if a = b then Some (None, dest, s)
          else let dest = dest\<lparr>dr_displayname := Some a\<rparr>
            in (case dbms_update_displayname dest s of (e, s) \<Rightarrow> Some (e, dest, s))
      | _ \<Rightarrow> None)"

definition sabridge_copy_medium :: "env \<Rightarrow> dav_repos_resource \<Rightarrow> dav_repos_resource \<Rightarrow> session \<Rightarrow> outcome" where
  "sabridge_copy_medium env src dest sn =
     (let sn = (if dr_sha1str dest = None then sn else put_world (sabridge_remove_body_from_disk (e_cf env) dest (sn_world sn)) sn)
      in case copy_displayname src dest (sn_db sn) of
           None \<Rightarrow> None
         | Some (e, dest, s) \<Rightarrow>
             step_ok (in_db_r (dbms_copy_media_props (e_now env) src) dest (put_db s sn))
               (\<lambda>dest sn. in_db (sabridge_copy_dead_props (dr_serialno src) (dr_serialno dest)) dest sn))"

section \<open>Making histories and versions\<close>

definition sabridge_mk_versions_collection :: "env \<Rightarrow> dav_repos_resource \<Rightarrow> session \<Rightarrow> outcome" where
  "sabridge_mk_versions_collection env vhr sn =
     (case sabridge_new_dbr_from_dbr vhr of
        None \<Rightarrow> None
      | Some c \<Rightarrow> sabridge_mkcol_w_parents env (c\<lparr>dr_uri := Some (e_dirstr env (sabridge_mk_version_uri vhr 0))\<rparr>) sn)"

text \<open>The binding of the new history; errors in making the collections above it are not looked at,
  and the error of the insertion is replaced by the outcome of the ACL.\<close>

definition bind_vhr :: "env \<Rightarrow> dav_repos_resource \<Rightarrow> session \<Rightarrow> outcome" where
  "bind_vhr env vhr sn =
     (let vhr = vhr\<lparr>dr_uri := Some (sabridge_mk_vhr_uri vhr)\<rparr>
      in case sabridge_new_dbr_from_dbr vhr of
           None \<Rightarrow> None
         | Some p \<Rightarrow>
             (case sabridge_mkcol_w_parents env (p\<lparr>dr_uri := Some (e_dirstr env (sabridge_mk_vhr_uri vhr))\<rparr>) sn of
                None \<Rightarrow> None
              | Some (e, p, sn) \<Rightarrow>
                  (case dbms_insert_bind (e_now env) (dr_serialno vhr) (dr_serialno p) (Some (basename (sabridge_mk_vhr_uri vhr))) (sn_db sn) of
                     (e, s) \<Rightarrow>
                       (let vhr = vhr\<lparr>dr_parent_id := dr_serialno p\<rparr>
                        in if e_acl_hooks env then dav_repos_create_initial_acl env (e_principal env) vhr (put_db s sn)
                           else Some (e, vhr, put_db s sn)))))"

text \<open>When the history cannot be created the caller is left with \<open>NULL\<close>, here a result on the left.\<close>

definition sabridge_mk_vhr ::
  "env \<Rightarrow> dav_repos_resource \<Rightarrow> session \<Rightarrow> ((dav_error \<times> session) + (dav_error option \<times> dav_repos_resource \<times> session)) option" where
  "sabridge_mk_vhr env vcr sn =
     (case sabridge_new_dbr_from_dbr vcr of
        None \<Rightarrow> None
      | Some vhr \<Rightarrow>
          (case dav_repos_create_resource env True True (vhr\<lparr>dr_resourcetype := dav_repos_VERSIONHISTORY, dr_uri := None\<rparr>) None sn of
             None \<Rightarrow> None
           | Some (Some e, vhr, p, sn) \<Rightarrow> Some (Inl (e, sn))
           | Some (None, vhr, p, sn) \<Rightarrow> map_option Inr (bind_vhr env vhr sn)))"

text \<open>Whether the new resource could be created is not looked at.\<close>

definition new_version_dbr :: "env \<Rightarrow> dav_repos_resource \<Rightarrow> dav_repos_resource \<Rightarrow> int \<Rightarrow> dav_repos_resource \<Rightarrow> dav_repos_resource" where
  "new_version_dbr env vcr vhr vr_num nv =
     nv\<lparr>dr_uri := Some (sabridge_mk_version_uri vhr vr_num), dr_serialno := 0, dr_getcontenttype := dr_getcontenttype vcr,
        dr_creator_id := 0, dr_creator_displayname := e_user env\<rparr>"

definition copy_to_version :: "env \<Rightarrow> dav_repos_resource \<Rightarrow> dav_repos_resource \<Rightarrow> session \<Rightarrow> outcome" where
  "copy_to_version env vcr nv sn =
     (if dr_resourcetype vcr = dav_repos_VERSIONED_COLLECTION
      then (case dav_repos_create_resource env False False (nv\<lparr>dr_resourcetype := dav_repos_COLLECTION_VERSION\<rparr>) None sn of
              None \<Rightarrow> None
            | Some (e, nv, p, sn) \<Rightarrow> in_db (dbms_copy_resource_collection_version vcr nv) nv sn)
      else if dr_resourcetype vcr = dav_repos_VERSIONED
      then (case dav_repos_create_resource env False False (nv\<lparr>dr_resourcetype := dav_repos_VERSION\<rparr>) None sn of
              None \<Rightarrow> None
            | Some (e, nv, p, sn) \<Rightarrow> sabridge_copy_medium env vcr nv sn)
      else Some (None, nv, sn))"

definition sabridge_mk_new_version ::
  "env \<Rightarrow> dav_repos_resource \<Rightarrow> dav_repos_resource \<Rightarrow> int \<Rightarrow> session \<Rightarrow> outcome" where
  "sabridge_mk_new_version env vcr vhr vr_num sn =
     (case sabridge_new_dbr_from_dbr vcr of
        None \<Rightarrow> None
      | Some nv \<Rightarrow>
          map_option (\<lambda>(e, nv, sn). (e, nv\<lparr>dr_vcr_id := dr_serialno vcr, dr_version := vr_num, dr_vhr_id := dr_vhr_id vcr\<rparr>, sn))
            (copy_to_version env vcr (new_version_dbr env vcr vhr vr_num nv) sn))"

section \<open>Putting a resource under version control\<close>

definition versioned_type :: "nat \<Rightarrow> nat" where
  "versioned_type t = (if t = dav_repos_RESOURCE then dav_repos_VERSIONED
     else if t = dav_repos_COLLECTION then dav_repos_VERSIONED_COLLECTION else 0)"

text \<open>The autoversioning that a new version-controlled resource takes from its parent.\<close>

definition inherited_av :: "int \<Rightarrow> int \<Rightarrow> int" where
  "inherited_av old av =
     (if av \<in> {DAV_AV_CHECKOUT_CHECKIN, DAV_AV_CHECKOUT_UNLOCKED_CHECKIN, DAV_AV_CHECKOUT, DAV_AV_LOCKED_CHECKOUT, DAV_AV_NONE} then av
      else if av = DAV_AV_VERSION_CONTROL then DAV_AV_NONE else old)"

text \<open>The last part of \<open>sabridge_vsn_control\<close>: the rows of the history, the version and the resource.
  Of all the errors only the last is returned.\<close>

definition vsn_rows :: "bool \<Rightarrow> dav_repos_resource \<Rightarrow> dav_repos_resource \<Rightarrow> dav_repos_resource \<Rightarrow> db
    \<Rightarrow> (dav_error option \<times> dav_repos_resource \<times> db) option" where
  "vsn_rows auto_version vhr nv r s =
     (case dbms_insert_vhr (vhr\<lparr>dr_root_version_id := dr_serialno nv\<rparr>) s of (e, s) \<Rightarrow>
      case (if auto_version then (None, s) else dbms_insert_version (nv\<lparr>dr_vhr_id := dr_serialno vhr\<rparr>) s) of (e, s) \<Rightarrow>
        (let r = r\<lparr>dr_vhr_id := dr_serialno vhr, dr_vr_num := dr_version nv, dr_checked_id := dr_serialno nv\<rparr>
         in case sabridge_new_dbr_from_dbr r of
              None \<Rightarrow> None
            | Some p \<Rightarrow>
                (case dbms_get_collection_props (p\<lparr>dr_serialno := dr_parent_id r\<rparr>) s of (e, p, s) \<Rightarrow>
                   Some (dbms_insert_vcr
                     (r\<lparr>dr_autoversion_type := inherited_av (dr_autoversion_type r) (dr_av_new_children p)\<rparr>) s))))"

definition sabridge_vsn_control :: "env \<Rightarrow> bool \<Rightarrow> dav_repos_resource \<Rightarrow> session \<Rightarrow> outcome" where
  "sabridge_vsn_control env auto_version r sn =
     (case dbms_update_resource_type r (versioned_type (dr_resourcetype r)) (sn_db sn) of (e, r, s) \<Rightarrow>
        (case sabridge_mk_vhr env r (put_db s sn) of
           Some (Inr (e, vhr, sn)) \<Rightarrow>
             (case sabridge_mk_versions_collection env vhr sn of
                None \<Rightarrow> None
              | Some (e, c, sn) \<Rightarrow>
                  (case (if auto_version
                         then map_option (\<lambda>nv. (None, nv\<lparr>dr_serialno := dr_serialno r, dr_version := 0\<rparr>, sn)) (sabridge_new_dbr_from_dbr r)
                         else sabridge_mk_new_version env r vhr 1 sn) of
                     None \<Rightarrow> None
                   | Some (e, nv, sn) \<Rightarrow>
                       map_option (\<lambda>(e, r, s). (e, r, put_db s sn)) (vsn_rows auto_version vhr nv r (sn_db sn))))
         | _ \<Rightarrow> None))"

definition set_flags :: "(dav_resource \<Rightarrow> dav_resource) \<Rightarrow> dav_repos_resource \<Rightarrow> dav_repos_resource" where
  "set_flags f r = r\<lparr>dr_resource := map_option f (dr_resource r)\<rparr>"

text \<open>\<open>dav_repos_vsn_control\<close>, the handler of \<open>VERSION-CONTROL\<close>: it always answers with success once the
  resource is known to be versionable.\<close>

definition vsn_control_existing :: "env \<Rightarrow> bool \<Rightarrow> dav_repos_resource \<Rightarrow> session \<Rightarrow> outcome" where
  "vsn_control_existing env auto_created r sn =
     (case dr_resource r of
        None \<Rightarrow> None
      | Some rs \<Rightarrow>
          if rs_type rs \<noteq> DAV_RESOURCE_TYPE_REGULAR then Some (Some (dav_new_error HTTP_CONFLICT ''<DAV:must-be-versionable/>''), r, sn)
          else if rs_versioned rs then Some (None, r, sn)
          else map_option (\<lambda>(e, r, sn). (None, set_flags (\<lambda>rs. rs\<lparr>rs_versioned := True, rs_working := False\<rparr>) r, sn))
                 (sabridge_vsn_control env auto_created r sn))"

definition dav_repos_vsn_control :: "env \<Rightarrow> dav_repos_resource \<Rightarrow> dav_repos_resource option \<Rightarrow> session \<Rightarrow> outcome" where
  "dav_repos_vsn_control env r parent sn =
     (case dr_resource r of
        None \<Rightarrow> None
      | Some rs \<Rightarrow>
          if rs_exists rs then vsn_control_existing env False r sn
          else step_ok (map_option (\<lambda>(e, r, p, sn). (e, r, sn)) (dav_repos_create_resource env False False r parent sn))
                 (vsn_control_existing env True))"

section \<open>Checking out and in\<close>

text \<open>The history of a resource, read for its URI.\<close>

definition read_vhr :: "dav_repos_resource \<Rightarrow> db \<Rightarrow> (dav_error option \<times> dav_repos_resource \<times> db) option" where
  "read_vhr r s =
     (case sabridge_new_dbr_from_dbr r of
        None \<Rightarrow> None
      | Some vhr \<Rightarrow> sabridge_get_property (vhr\<lparr>dr_serialno := dr_vhr_id r\<rparr>) s)"

text \<open>The working resource that \<open>dav_repos_checkout\<close> returns is used for its URI only; an automatic
  checkout returns none.\<close>

definition dav_repos_checkout ::
  "bool \<Rightarrow> dav_repos_resource \<Rightarrow> session \<Rightarrow> (dav_error option \<times> string option \<times> dav_repos_resource \<times> session) option" where
  "dav_repos_checkout auto_checkout r sn =
     (case read_vhr r (sn_db sn) of
        None \<Rightarrow> None
      | Some (Some e, vhr, s) \<Rightarrow> Some (Some e, None, r, put_db s sn)
      | Some (None, vhr, s) \<Rightarrow>
          if dr_checked_state r \<noteq> DAV_RESOURCE_CHECKED_IN
          then Some (Some (dav_new_error HTTP_CONFLICT ''<DAV:must-be-checked-in/>''), None, r, put_db s sn)
          else let u = (if auto_checkout then None else Some (sabridge_mk_version_uri vhr (dr_vr_num r)))
            in case dbms_set_checkin_out r DAV_RESOURCE_CHECKED_OUT (dr_vr_num r) s of
                 (Some e, r, s) \<Rightarrow> Some (Some e, u, r, put_db s sn)
               | (None, r, s) \<Rightarrow> Some (None, u, set_flags (\<lambda>rs. rs\<lparr>rs_working := True\<rparr>) r, put_db s sn))"

definition dav_repos_uncheckout :: "env \<Rightarrow> dav_repos_resource \<Rightarrow> session \<Rightarrow> outcome" where
  "dav_repos_uncheckout env r sn =
     (if dr_checked_state r \<noteq> DAV_RESOURCE_CHECKED_OUT
      then Some (Some (dav_new_error HTTP_CONFLICT ''<DAV:must-be-checked-out/>''), r, sn)
      else case read_vhr r (sn_db sn) of
        None \<Rightarrow> None
      | Some (Some e, vhr, s) \<Rightarrow> Some (Some e, r, put_db s sn)
      | Some (None, vhr, s) \<Rightarrow>
          (case sabridge_new_dbr_from_dbr r of
             None \<Rightarrow> None
           | Some v \<Rightarrow>
               (case sabridge_get_property (v\<lparr>dr_uri := Some (sabridge_mk_version_uri vhr (dr_vr_num r))\<rparr>) s of
                  None \<Rightarrow> None
                | Some (Some e, v, s) \<Rightarrow> Some (Some e, r, put_db s sn)
                | Some (None, v, s) \<Rightarrow>
                    step_ok (step_ok
                      (if dr_resourcetype r = dav_repos_VERSIONED_COLLECTION then in_db (dbms_restore_vcc r v) r (put_db s sn)
                       else if dr_resourcetype r = dav_repos_VERSIONED then sabridge_copy_medium env v r (put_db s sn)
                       else Some (None, r, put_db s sn))
                      (\<lambda>r sn. in_db_r (\<lambda>r. dbms_set_checkin_out r DAV_RESOURCE_CHECKED_IN (dr_vr_num r)) r sn))
                      (\<lambda>r sn. Some (None, set_flags (\<lambda>rs. rs\<lparr>rs_type := DAV_RESOURCE_TYPE_REGULAR, rs_working := False\<rparr>) r, sn)))))"

text \<open>
  The rows of a checkin. The first version of a resource that was put under version control
  automatically becomes the root of the history. After an error the new version is deleted again.
\<close>

definition checkin_rows :: "dav_repos_resource \<Rightarrow> dav_repos_resource \<Rightarrow> dav_repos_resource \<Rightarrow> db
    \<Rightarrow> dav_error option \<times> dav_repos_resource \<times> db" where
  "checkin_rows r vhr nv s =
     (case (if dr_vr_num r = 0 then dbms_update_vhr (vhr\<lparr>dr_root_version_id := dr_serialno nv\<rparr>) s else (None, s)) of
        (Some e, s) \<Rightarrow> (Some e, r, s)
      | (None, s) \<Rightarrow>
          (case dbms_insert_version nv s of
             (Some e, s) \<Rightarrow> (Some e, r, s)
           | (None, s) \<Rightarrow> dbms_set_checkin_out r DAV_RESOURCE_CHECKED_IN (dr_vr_num r + 1) s))"

definition dav_repos_checkin ::
  "env \<Rightarrow> dav_repos_resource \<Rightarrow> session \<Rightarrow> (dav_error option \<times> string option \<times> dav_repos_resource \<times> session) option" where
  "dav_repos_checkin env r sn =
     (if dr_resourcetype r \<noteq> dav_repos_VERSIONED \<and> dr_resourcetype r \<noteq> dav_repos_VERSIONED_COLLECTION
      then Some (Some (dav_new_error HTTP_CONFLICT ''<DAV:must-be-version-controlled-resource/>''), None, r, sn)
      else if dr_checked_state r \<noteq> DAV_RESOURCE_CHECKED_OUT
      then Some (Some (dav_new_error HTTP_CONFLICT ''<DAV:must-be-checked-out/>''), None, r, sn)
      else case read_vhr r (sn_db sn) of
        None \<Rightarrow> None
      | Some (Some e, vhr, s) \<Rightarrow> Some (Some e, None, r, put_db s sn)
      | Some (None, vhr, s) \<Rightarrow>
          (case sabridge_mk_new_version env r vhr (dr_vr_num r + 1) (put_db s sn) of
             None \<Rightarrow> None
           | Some (Some e, nv, sn) \<Rightarrow> Some (Some e, None, r, sn)
           | Some (None, nv, sn) \<Rightarrow>
               (case checkin_rows r vhr nv (sn_db sn) of
                  (Some e, r, s) \<Rightarrow> Some (Some e, None, r, put_db (snd (dbms_delete_resource nv s)) sn)
                | (None, r, s) \<Rightarrow>
                    Some (None, Some (sabridge_mk_version_uri vhr (dr_vr_num r)),
                      set_flags (\<lambda>rs. rs\<lparr>rs_type := DAV_RESOURCE_TYPE_REGULAR, rs_working := False\<rparr>) r, put_db s sn))))"

section \<open>Autoversioning\<close>

datatype dav_auto_version = DAV_AUTO_VERSION_NEVER | DAV_AUTO_VERSION_ALWAYS | DAV_AUTO_VERSION_LOCKED

definition av_checked_in :: "int \<Rightarrow> dav_auto_version" where
  "av_checked_in av =
     (if av \<in> {DAV_AV_CHECKOUT_UNLOCKED_CHECKIN, DAV_AV_CHECKOUT_CHECKIN, DAV_AV_CHECKOUT} then DAV_AUTO_VERSION_ALWAYS
      else if av = DAV_AV_LOCKED_CHECKOUT then DAV_AUTO_VERSION_LOCKED else DAV_AUTO_VERSION_NEVER)"

definition av_checked_out :: "int \<Rightarrow> dav_auto_version" where
  "av_checked_out av =
     (if av \<in> {DAV_AV_CHECKOUT_CHECKIN, DAV_AV_CHECKOUT_UNLOCKED_CHECKIN} then DAV_AUTO_VERSION_ALWAYS
      else if av = DAV_AV_LOCKED_CHECKOUT then DAV_AUTO_VERSION_LOCKED else DAV_AUTO_VERSION_NEVER)"

definition dav_repos_auto_versionable :: "dav_repos_resource \<Rightarrow> db \<Rightarrow> (dav_auto_version \<times> db) option" where
  "dav_repos_auto_versionable r s =
     (case dr_resource r of
        None \<Rightarrow> None
      | Some rs \<Rightarrow>
          if rs_type rs \<noteq> DAV_RESOURCE_TYPE_REGULAR then Some (DAV_AUTO_VERSION_NEVER, s)
          else if \<not> rs_exists rs \<and> rs_collection rs then Some (DAV_AUTO_VERSION_NEVER, s)
          else if \<not> rs_exists rs
          then (case sabridge_new_dbr_from_dbr r of
                  None \<Rightarrow> None
                | Some p \<Rightarrow>
                    (case dbms_get_collection_props (p\<lparr>dr_serialno := dr_parent_id r\<rparr>) s of (e, p, s) \<Rightarrow>
                       Some (if dr_av_new_children p = DAV_AV_NONE then DAV_AUTO_VERSION_NEVER else DAV_AUTO_VERSION_ALWAYS, s)))
          else if \<not> rs_versioned rs then Some (DAV_AUTO_VERSION_NEVER, s)
          else if \<not> rs_working rs then Some (av_checked_in (dr_autoversion_type r), s)
          else Some (av_checked_out (dr_autoversion_type r), s))"

text \<open>\<open>dav_repos_set_checkin_on_unlock\<close>: the two inequalities are joined by "or".\<close>

definition dav_repos_set_checkin_on_unlock :: "dav_repos_resource \<Rightarrow> session \<Rightarrow> outcome" where
  "dav_repos_set_checkin_on_unlock r sn =
     (if dr_resourcetype r \<noteq> dav_repos_VERSIONED \<or> dr_resourcetype r \<noteq> dav_repos_VERSIONED_COLLECTION
      then Some (Some (dav_new_error HTTP_INTERNAL_SERVER_ERROR ''Cannot mark this resource for auto checkin''), r, sn)
      else in_db_r dbms_set_checkin_on_unlock r sn)"

definition dav_repos_is_checkin_on_unlock :: "dav_repos_resource \<Rightarrow> bool" where
  "dav_repos_is_checkin_on_unlock r = dr_checkin_on_unlock r"

end
