(* ===== verification/Frames.thy ===== *)
theory Frames
  imports Versions Collector
begin

text \<open>
  What making a resource leaves alone. A view of the database that does not look at the tables
  which \<open>sabridge_insert_resource\<close> and the copying of bodies write has the same value before and
  after, whichever statements fail. The locale states what such a view is; it is interpreted
  for the tables of version control, of locks and of group membership.
\<close>

lemma step_ok_cases:
  assumes "step_ok m f = Some (e, r', sn')"
  obtains "m = Some (e, r', sn')" "e \<noteq> None" | r1 sn1 where "m = Some (None, r1, sn1)" "f r1 sn1 = Some (e, r', sn')"
  using assms by (auto simp: step_ok_def split: option.splits)

locale creation_frame =
  fixes V :: "db \<Rightarrow> 'v"
  assumes V_fault: "V (s\<lparr>fault := f\<rparr>) = V s"
    and V_resources: "V (s\<lparr>resources := rs\<rparr>) = V s" "V (s\<lparr>next_resource := i\<rparr>) = V s"
    and V_columns: "V (s\<lparr>media := ms\<rparr>) = V s" "V (s\<lparr>collections := cs\<rparr>) = V s" "V (s\<lparr>quota := qs\<rparr>) = V s"
      "V (s\<lparr>principals := ps\<rparr>) = V s"
    and V_binds: "V (s\<lparr>binds := bs\<rparr>) = V s" "V (s\<lparr>next_bind := i\<rparr>) = V s"
    and V_aces: "V (s\<lparr>aces := as\<rparr>) = V s" "V (s\<lparr>next_ace := i\<rparr>) = V s" "V (s\<lparr>dav_aces_privileges := vs\<rparr>) = V s"
      "V (s\<lparr>acl_inheritance := hs\<rparr>) = V s"
    and V_properties: "V (s\<lparr>namespaces := ns\<rparr>) = V s" "V (s\<lparr>next_ns := i\<rparr>) = V s" "V (s\<lparr>properties := xs\<rparr>) = V s"
      "V (s\<lparr>next_property := i\<rparr>) = V s"
begin

lemmas V_simps = V_resources V_columns V_binds V_aces V_properties

lemma V_tables: "tables_eq s t \<Longrightarrow> V s = V t"
  by (metis V_fault tables_eq_def)

lemma V_exec:
  assumes "exec_or_500 msg f s = (e, s')" "\<And>t u. f t = Some u \<Longrightarrow> V u = V t"
  shows "V s' = V s"
  by (rule exec_or_500_inv [OF assms(1), where I = "\<lambda>u. V u = V s"]) (auto simp: V_tables assms(2))

lemma V_run:
  assumes "run_stmt f s = (b, s')" "\<And>t u. f t = Some u \<Longrightarrow> V u = V t"
  shows "V s' = V s"
proof (cases b)
  case True
  with assms(1) show ?thesis by (auto dest: run_stmt_error intro: V_tables)
next
  case False
  with assms(1) have "run_stmt f s = (False, s')" by simp
  then obtain t where "tables_eq t s" "f t = Some s'" by (rule run_stmt_ok)
  then show ?thesis using assms(2) V_tables by metis
qed

lemma V_charge: "charge i n s = Some s' \<Longrightarrow> V s' = V s"
  by (auto simp: charge_def V_simps split: option.splits if_splits)

lemma V_charge_once: "charge_once i ns s = Some s' \<Longrightarrow> V s' = V s"
  by (auto simp: charge_once_def V_charge split: list.splits)

section \<open>Rows of a resource\<close>

lemma V_notify: "dbms_notify_resource_updated r s = (e, s') \<Longrightarrow> V s' = V s"
  unfolding dbms_notify_resource_updated_def by (erule V_exec) (auto simp: touch_def V_simps)

lemma V_insert_media: "dbms_insert_media now r s = (e, r', s') \<Longrightarrow> V s' = V s"
proof -
  assume run: "dbms_insert_media now r s = (e, r', s')"
  let ?f = "\<lambda>s. case dr_sha1str r of None \<Rightarrow> None
                   | Some h \<Rightarrow> insert_media_row \<lparr>m_resource_id = dr_serialno r, m_size = dr_getcontentlength r,
                       m_mimetype = (case dr_getcontenttype r of None \<Rightarrow> [] | Some t \<Rightarrow> t), m_sha1 = h,
                       m_updated_at = now\<rparr> s"
  obtain e1 s1 where 1: "exec_or_500 (''DBMS error while inserting into '' @ quoted ''media'') ?f s = (e1, s1)" by fastforce
  have "V s1 = V s"
    by (rule V_exec [OF 1]) (auto simp: insert_media_row_def V_simps dest: V_charge split: option.splits if_splits)
  with run 1 show ?thesis
    by (auto simp: dbms_insert_media_def Let_def split: option.splits prod.splits dest: V_notify)
qed

lemma V_insert_resource: "dbms_insert_resource now r s = (e, r', s') \<Longrightarrow> V s' = V s"
  by (auto simp: dbms_insert_resource_def insert_resource_row_def V_simps split: prod.splits option.splits if_splits elim!: V_exec)

lemma V_insert_collection: "dbms_insert_collection r s = (e, s') \<Longrightarrow> V s' = V s"
  unfolding dbms_insert_collection_def by (erule V_exec) (auto simp: V_simps split: if_splits)

lemma V_insert_principal: "dbms_insert_principal i n s = (e, s') \<Longrightarrow> V s' = V s"
  unfolding dbms_insert_principal_def by (erule V_exec) (auto simp: V_simps split: if_splits)

lemma V_insert_quota: "dbms_insert_quota i q s = (e, s') \<Longrightarrow> V s' = V s"
  unfolding dbms_insert_quota_def by (erule V_exec) (auto simp: V_simps split: if_splits)

lemma V_set_property: "dbms_set_property r s = (e, s') \<Longrightarrow> V s' = V s"
  unfolding dbms_set_property_def by (erule V_exec) (auto simp: update_resource_def V_simps split: if_splits option.splits)

lemma V_update_displayname: "dbms_update_displayname r s = (e, s') \<Longrightarrow> V s' = V s"
  unfolding dbms_update_displayname_def by (erule V_exec) (auto simp: update_resource_def V_simps)

lemma V_insert_bind: "dbms_insert_bind now i c n s = (e, s') \<Longrightarrow> V s' = V s"
  unfolding dbms_insert_bind_def
  by (erule V_exec) (auto simp: insert_bind_row_def V_simps split: if_splits option.splits)

section \<open>The ACL\<close>

lemma V_namespace: "sabridge_get_namespace_id n c s = (x, c', s') \<Longrightarrow> V s' = V s"
  by (auto simp: sabridge_get_namespace_id_def dbms_get_namespace_id_def split: option.splits prod.splits bool.splits if_splits
      dest!: run_select_same intro: V_tables)

lemma V_insert_ns: "dbms_insert_ns n s = (i, s') \<Longrightarrow> V s' = V s"
  by (auto simp: dbms_insert_ns_def V_simps split: prod.splits bool.splits if_splits elim!: V_run)

lemma V_get_ns: "dbms_get_ns_id n h c s = (x, h', c', s') \<Longrightarrow> V s' = V s"
  by (auto simp: dbms_get_ns_id_def split: option.splits prod.splits if_splits dest!: V_namespace V_insert_ns)

lemma V_privilege: "dbms_get_privilege_id p c s = (i, c', s') \<Longrightarrow> V s' = V s"
  by (auto simp: dbms_get_privilege_id_def Let_def split: prod.splits option.splits dest!: V_namespace run_select_same V_tables)

lemma V_ace_privilege: "dbms_add_ace_privilege p a c s = (n, c', s') \<Longrightarrow> V s' = V s"
proof -
  assume run: "dbms_add_ace_privilege p a c s = (n, c', s')"
  obtain v c1 s1 where 1: "dbms_get_privilege_id p c s = (v, c1, s1)" by (metis prod_cases3)
  let ?f = "\<lambda>s. if (a, v) \<in> set (dav_aces_privileges s) \<or> a \<notin> a_id ` set (aces s)
                       \<or> v \<notin> v_id ` set (acl_privileges s) then None
                    else Some (s\<lparr>dav_aces_privileges := dav_aces_privileges s @ [(a, v)]\<rparr>)"
  have "V (snd (run_stmt ?f s1)) = V s1"
    by (rule V_run [of ?f s1 "fst (run_stmt ?f s1)"]) (auto simp: V_simps split: if_splits)
  with run 1 V_privilege [OF 1] show ?thesis by (auto simp: dbms_add_ace_privilege_def split: if_splits)
qed

lemma V_ace_privileges: "add_ace_privileges vs a c s = (e, c', s') \<Longrightarrow> V s' = V s"
proof (induction vs arbitrary: c s)
  case (Cons v vs)
  obtain n c1 s1 where 1: "dbms_add_ace_privilege v a c s = (n, c1, s1)" by (metis prod_cases3)
  with Cons V_ace_privilege [OF 1] show ?case by (auto split: if_splits)
qed simp

lemma V_add_ace: "dbms_add_ace i ace h c s = (e, h', c', s') \<Longrightarrow> V s' = V s"
proof -
  assume run: "dbms_add_ace i ace h c s = (e, h', c', s')"
  obtain n h1 c1 s1 where 1: "(case ace_property ace of
           Some (Some ns, name) \<Rightarrow> (case dbms_get_ns_id ns h c s of ((err, i), h, c, s) \<Rightarrow> (i, h, c, s))
         | _ \<Rightarrow> (0, h, c, s)) = (n, h1, c1, s1)" by (metis prod_cases4)
  have v1: "V s1 = V s" using 1 by (auto split: option.splits prod.splits dest!: V_get_ns)
  obtain b s2 where 2: "run_stmt (insert_ace_row i ace n) s1 = (b, s2)" by fastforce
  have v2: "V s2 = V s1" by (rule V_run [OF 2]) (auto simp: insert_ace_row_def V_simps split: if_splits)
  obtain e3 c3 s3 where 3: "add_ace_privileges (ace_privileges ace) (next_ace s2 - 1) c1 s2 = (e3, c3, s3)" by (metis prod_cases3)
  from run 1 2 3 V_ace_privileges [OF 3] v1 v2 show ?thesis by (cases b) (simp_all add: dbms_add_ace_def)
qed

lemma V_inherit: "dbms_inherit_parent_aces i p s = (e, s') \<Longrightarrow> V s' = V s"
proof -
  assume run: "dbms_inherit_parent_aces i p s = (e, s')"
  obtain b s1 where 1: "run_select s = (b, s1)" by fastforce
  note v1 = V_tables [OF run_select_same [OF 1]]
  have ex: "V t = V s1" if "exec_or_500 m (insert_path i p) s1 = (x, t)" for m x t
    using that by (rule V_exec) (auto simp: insert_path_def Let_def V_simps split: option.splits if_splits)
  from run 1 v1 show ?thesis by (auto simp: dbms_inherit_parent_aces_def dest: ex split: bool.splits if_splits)
qed

section \<open>Steps of a creation\<close>

definition keeps :: "session \<Rightarrow> outcome \<Rightarrow> bool" where
  "keeps sn m \<longleftrightarrow> (\<forall>e r sn'. m = Some (e, r, sn') \<longrightarrow> V (sn_db sn') = V (sn_db sn))"

lemma keepsI: "(\<And>e r sn'. m = Some (e, r, sn') \<Longrightarrow> V (sn_db sn') = V (sn_db sn)) \<Longrightarrow> keeps sn m"
  by (auto simp: keeps_def)

lemma keepsD: "keeps sn m \<Longrightarrow> m = Some (e, r, sn') \<Longrightarrow> V (sn_db sn') = V (sn_db sn)"
  by (auto simp: keeps_def)

lemma keeps_simple [simp]: "keeps sn None" "keeps sn (Some (e, r, sn))"
  by (simp_all add: keeps_def)

lemma keeps_put [simp]: "keeps (put_db s sn) m = (\<forall>e r sn'. m = Some (e, r, sn') \<longrightarrow> V (sn_db sn') = V s)"
  by (simp add: keeps_def)

lemma keeps_step:
  assumes "keeps sn m" "\<And>r sn. keeps sn (f r sn)"
  shows "keeps sn (step_ok m f)"
proof (rule keepsI)
  fix e r' sn'
  assume "step_ok m f = Some (e, r', sn')"
  then show "V (sn_db sn') = V (sn_db sn)"
  proof (rule step_ok_cases)
    fix r1 sn1
    assume "m = Some (None, r1, sn1)" "f r1 sn1 = Some (e, r', sn')"
    with keepsD [OF assms(1)] keepsD [OF assms(2)] show ?thesis by metis
  qed (rule keepsD [OF assms(1)])
qed

lemma keeps_in_db: "(\<And>e s'. f (sn_db sn) = (e, s') \<Longrightarrow> V s' = V (sn_db sn)) \<Longrightarrow> keeps sn (in_db f r sn)"
  by (auto simp: in_db_def keeps_def split: prod.splits)

lemma keeps_in_db_r: "(\<And>e r' s'. f r (sn_db sn) = (e, r', s') \<Longrightarrow> V s' = V (sn_db sn)) \<Longrightarrow> keeps sn (in_db_r f r sn)"
  by (auto simp: in_db_r_def keeps_def split: prod.splits)

lemma keeps_empty_body: "keeps sn (sabridge_create_empty_body env r sn)"
  unfolding sabridge_create_empty_body_def
  by (rule keeps_step, rule keeps_in_db_r, erule V_insert_media) (auto intro!: keepsI)

lemma keeps_inherit: "keeps sn (dav_repos_inherit_aces env r sn)"
proof (rule keepsI)
  fix e r' sn'
  assume run: "dav_repos_inherit_aces env r sn = Some (e, r', sn')"
  then obtain p r1 s1 where 1: "sabridge_get_parent_id (e_dirstr env) r (sn_db sn) = Some (p, r1, s1)"
    by (auto simp: dav_repos_inherit_aces_def split: option.splits)
  then have "tables_eq s1 (sn_db sn)"
    by (auto simp: sabridge_get_parent_id_def split: if_splits option.splits dest: retrieve_parent_select)
  then have v: "V s1 = V (sn_db sn)" by (rule V_tables)
  obtain e2 s2 where 2: "dbms_inherit_parent_aces (dr_serialno r1) p s1 = (e2, s2)" by fastforce
  from run 1 2 v V_inherit [OF 2] show "V (sn_db sn') = V (sn_db sn)"
    by (auto simp: dav_repos_inherit_aces_def in_db_def split: if_splits)
qed

lemma keeps_initial_acl: "keeps sn (dav_repos_create_initial_acl env owner r sn)"
  unfolding dav_repos_create_initial_acl_def
  by (rule keeps_step) (auto simp: acl_create_initial_acl_def keeps_inherit intro!: keepsI split: prod.splits dest: V_add_ace)

lemma keeps_rows: "keeps sn (insert_rows env db da parent r sn)"
  unfolding insert_rows_def
proof (intro keeps_step)
  show "keeps sn (in_db_r (dbms_insert_resource (e_now env)) r sn)" by (rule keeps_in_db_r) (erule V_insert_resource)
  show "keeps sn (insert_body env r sn)" for r sn by (simp add: insert_body_def keeps_empty_body)
  show "keeps sn (insert_members parent r sn)" for r sn
    by (auto simp: insert_members_def Let_def split: option.splits intro!: keeps_in_db elim!: V_insert_collection)
  show "keeps sn (insert_prin r sn)" for r sn
    by (auto simp: insert_prin_def split: option.splits intro!: keeps_in_db elim!: V_insert_principal)
  show "keeps sn (insert_user_quota env r sn)" for r sn
    by (auto simp: insert_user_quota_def Let_def intro!: keeps_step keeps_in_db elim!: V_insert_quota V_set_property)
  show "keeps sn (insert_first_bind env db parent r sn)" for r sn
    by (auto simp: insert_first_bind_def split: option.splits intro!: keeps_in_db elim!: V_insert_bind)
  show "keeps sn (insert_acl env da r sn)" for r sn by (simp add: insert_acl_def keeps_initial_acl)
qed

lemma V_insert_parent: "insert_parent env r p s = Some (e, r', p', s') \<Longrightarrow> V s' = V s"
  by (auto simp: insert_parent_def dbms_get_collection_props_def split: option.splits if_splits prod.splits bool.splits
      dest!: get_resource_select run_select_same retrieve_parent_select V_tables)

lemma V_bridge_insert:
  assumes "sabridge_insert_resource env db da r p sn = Some (e, r', p', sn')"
  shows "V (sn_db sn') = V (sn_db sn)"
proof -
  obtain e1 r1 p1 s1 where 1: "insert_parent env r p (sn_db sn) = Some (e1, r1, p1, s1)"
    using assms by (auto simp: sabridge_insert_resource_def split: option.splits)
  note v = V_insert_parent [OF 1]
  show ?thesis
  proof (cases e1)
    case None
    with assms 1 obtain r0 where
      "insert_rows env db da p1 r0 ((put_db s1 sn)\<lparr>sn_uuids := sn_uuids sn + 1\<rparr>) = Some (e, r', sn')"
      by (auto simp: sabridge_insert_resource_def)
    from keepsD [OF keeps_rows this] v show ?thesis by simp
  qed (use assms 1 v in \<open>auto simp: sabridge_insert_resource_def\<close>)
qed

lemma V_create:
  assumes "dav_repos_create_resource env db da r p sn = Some (e, r', p', sn')"
  shows "V (sn_db sn') = V (sn_db sn)"
proof -
  from assms obtain r0 r1 where "sabridge_insert_resource env db da r0 p sn = Some (e, r1, p', sn')"
    by (auto simp: dav_repos_create_resource_def Let_def split: option.splits)
  then show ?thesis by (rule V_bridge_insert)
qed

section \<open>Copying\<close>

lemma V_copy_media: "dbms_copy_media_props now src dest s = (e, dest', s') \<Longrightarrow> V s' = V s"
proof -
  assume run: "dbms_copy_media_props now src dest s = (e, dest', s')"
  let ?d = "dr_serialno dest"
  let ?f = "\<lambda>s. map_option (\<lambda>s. s\<lparr>media := filter (\<lambda>m. m_resource_id m \<noteq> ?d) (media s)\<rparr>)
                (charge_once ?d (map (\<lambda>m. - m_size m) (filter (\<lambda>m. m_resource_id m = ?d) (media s))) s)"
  let ?g = "\<lambda>s. let ms = filter (\<lambda>m. m_resource_id m = dr_serialno src) (media s)
                   in if ms = [] then Some s
                      else if ?d \<notin> resource_ids s then None
                      else charge_once ?d (map m_size ms)
                        (s\<lparr>media := media s @ map (\<lambda>m. m\<lparr>m_resource_id := ?d, m_updated_at := now\<rparr>) ms\<rparr>)"
  obtain b s1 where 1: "run_stmt ?f s = (b, s1)" by fastforce
  have v1: "V s1 = V s" by (rule V_run [OF 1]) (auto simp: V_simps dest: V_charge_once)
  obtain e2 s2 where 2: "exec_or_500 (''DBMS Error in copying '' @ quoted ''media'') ?g s1 = (e2, s2)" by fastforce
  have v2: "V s2 = V s1" by (rule V_exec [OF 2]) (auto simp: Let_def V_simps dest!: V_charge_once split: if_splits)
  from run 1 2 v1 v2 show ?thesis
    by (auto simp: dbms_copy_media_props_def Let_def split: option.splits prod.splits dest: V_notify)
qed

lemma V_copy_props: "sabridge_copy_dead_props a b s = (e, s') \<Longrightarrow> V s' = V s"
proof -
  assume run: "sabridge_copy_dead_props a b s = (e, s')"
  obtain e1 s1 where 1: "dbms_delete_dead_props b s = (e1, s1)" by fastforce
  then have v1: "V s1 = V s" unfolding dbms_delete_dead_props_def
    by (rule V_exec) (auto simp: delete_properties_def V_simps dest: V_charge_once)
  have "V t = V s1" if "dbms_copy_dead_props a b s1 = (x, t)" for x t
    using that unfolding dbms_copy_dead_props_def
    by (rule V_exec) (auto simp: copy_property_rows_def Let_def V_simps dest!: V_charge_once split: if_splits)
  with run 1 v1 show ?thesis by (auto simp: sabridge_copy_dead_props_def split: option.splits)
qed

lemma keeps_copy_medium: "keeps sn (sabridge_copy_medium env src dest sn)"
proof (rule keepsI)
  fix e r' sn'
  assume run: "sabridge_copy_medium env src dest sn = Some (e, r', sn')"
  define sn1 where "sn1 = (if dr_sha1str dest = None then sn else put_world (sabridge_remove_body_from_disk (e_cf env) dest (sn_world sn)) sn)"
  have v1: "V (sn_db sn1) = V (sn_db sn)" using V_tables [OF remove_body_select] by (simp add: sn1_def)
  obtain e2 d2 s2 where 2: "copy_displayname src dest (sn_db sn1) = Some (e2, d2, s2)"
    using run by (auto simp: sabridge_copy_medium_def sn1_def [symmetric] split: option.splits)
  then have v2: "V s2 = V (sn_db sn1)"
    by (auto simp: copy_displayname_def Let_def split: option.splits if_splits prod.splits dest: V_update_displayname)
  have "step_ok (in_db_r (dbms_copy_media_props (e_now env) src) d2 (put_db s2 sn1))
      (\<lambda>dest sn. in_db (sabridge_copy_dead_props (dr_serialno src) (dr_serialno dest)) dest sn) = Some (e, r', sn')"
    using run 2 by (simp add: sabridge_copy_medium_def sn1_def [symmetric])
  moreover have "keeps (put_db s2 sn1) (step_ok (in_db_r (dbms_copy_media_props (e_now env) src) d2 (put_db s2 sn1))
      (\<lambda>dest sn. in_db (sabridge_copy_dead_props (dr_serialno src) (dr_serialno dest)) dest sn))"
    by (rule keeps_step, rule keeps_in_db_r, erule V_copy_media) (rule keeps_in_db, erule V_copy_props)
  ultimately have "V (sn_db sn') = V (sn_db (put_db s2 sn1))" by (rule keepsD [rotated])
  with v1 v2 show "V (sn_db sn') = V (sn_db sn)" by simp
qed

lemma V_insert_all: "insert_all bs c s = Some s' \<Longrightarrow> V s' = V s"
  by (induction bs c s rule: insert_all.induct) (auto simp: insert_bind_row_def V_simps split: option.splits if_splits)

lemma V_copy_collection: "dbms_copy_resource_collection_version a b s = (e, s') \<Longrightarrow> V s' = V s"
  by (auto simp: dbms_copy_resource_collection_version_def split: if_splits elim!: V_exec dest: V_insert_all)

lemma keeps_to_version: "keeps sn (copy_to_version env vcr nv sn)"
proof (rule keepsI)
  fix e r' sn'
  assume run: "copy_to_version env vcr nv sn = Some (e, r', sn')"
  consider e1 n0 n1 p1 sn1 where "dav_repos_create_resource env False False n0 None sn = Some (e1, n1, p1, sn1)"
      "in_db (dbms_copy_resource_collection_version vcr n1) n1 sn1 = Some (e, r', sn')"
    | e1 n0 n1 p1 sn1 where "dav_repos_create_resource env False False n0 None sn = Some (e1, n1, p1, sn1)"
      "sabridge_copy_medium env vcr n1 sn1 = Some (e, r', sn')"
    | "sn' = sn"
    using run by (auto simp: copy_to_version_def split: if_splits option.splits)
  then show "V (sn_db sn') = V (sn_db sn)"
  proof cases
    case 1
    with V_create [OF 1(1)] show ?thesis by (auto simp: in_db_def split: prod.splits dest: V_copy_collection)
  next
    case 2
    with V_create [OF 2(1)] keepsD [OF keeps_copy_medium 2(2)] show ?thesis by simp
  qed simp
qed

lemma keeps_new_version: "keeps sn (sabridge_mk_new_version env vcr vhr n sn)"
  by (rule keepsI) (auto simp: sabridge_mk_new_version_def split: option.splits dest: keepsD [OF keeps_to_version])

end

interpretation versioning: creation_frame "\<lambda>s. (versions s, vcrs s, vhrs s)"
  by unfold_locales simp_all

interpretation locking: creation_frame "\<lambda>s. (locks s, locks_resources s, binds_locks s)"
  by unfold_locales simp_all

interpretation membership: creation_frame "\<lambda>s. (group_members s, transitive_group_members s)"
  by unfold_locales simp_all

end
