(* ===== verification/VersionFacts.thy ===== *)
theory VersionFacts
  imports Frames
begin

text \<open>
  The versions of a resource as a state machine. Abstractly a version-controlled resource is checked in or
  out and has a checked version and a list of numbered versions; the hooks of \<^verbatim>\<open>version.c\<close> implement
  its steps, and whatever happens the numbers are \<open>1, 2, 3, ...\<close> and the checked version is the
  last one.
\<close>

section \<open>The abstract machine\<close>

type_synonym vhistory = "checked_state \<times> id \<times> (int \<times> id) list"

inductive vstep :: "nat \<Rightarrow> vhistory \<Rightarrow> vhistory \<Rightarrow> bool" where
  check_out: "vstep 0 (DAV_RESOURCE_CHECKED_IN, c, vs) (DAV_RESOURCE_CHECKED_OUT, c, vs)"
| undo: "vstep 0 (DAV_RESOURCE_CHECKED_OUT, c, vs) (DAV_RESOURCE_CHECKED_IN, c, vs)"
| check_in: "vstep 1 (DAV_RESOURCE_CHECKED_OUT, c, vs) (DAV_RESOURCE_CHECKED_IN, w, vs @ [(int (length vs) + 1, w)])"

inductive_simps vstep_simps [simp]: "vstep k (a, c, vs) (a', c', vs')"

definition numbered :: "(int \<times> id) list \<Rightarrow> bool" where
  "numbered vs \<longleftrightarrow> map fst vs = map int [1..<Suc (length vs)]"

lemma numbered_Nil [simp]: "numbered []"
  by (simp add: numbered_def)

lemma numbered_snoc [simp]: "numbered (vs @ [(n, w)]) \<longleftrightarrow> numbered vs \<and> n = int (length vs) + 1"
  by (auto simp: numbered_def)

lemma numbered_keys:
  assumes "numbered vs"
  shows "distinct (map fst vs)" "set (map fst vs) = {1..int (length vs)}"
proof -
  show "distinct (map fst vs)" using assms by (simp add: numbered_def distinct_map)
  have "int ` {1..<Suc n} = {1..int n}" for n
    by (auto simp: image_iff) (metis atLeastLessThan_iff less_Suc_eq_le nat_int of_nat_le_iff zero_le_imp_eq_int int_one_le_iff_zero_less One_nat_def Suc_leI of_nat_0_less_iff order.trans zero_le_one)
  then show "set (map fst vs) = {1..int (length vs)}" using assms by (simp add: numbered_def del: upt_Suc)
qed

lemma numbered_last:
  assumes "numbered vs" "vs \<noteq> []"
  shows "map_of vs (int (length vs)) = Some (snd (last vs))"
proof -
  obtain us n w where vs: "vs = us @ [(n, w)]" using assms(2) by (metis rev_exhaust surj_pair)
  with numbered_keys(1) [OF assms(1)] assms(1) show ?thesis
    by (simp add: map_of_eq_None_iff map_add_Some_iff add.commute)
qed

section \<open>What the tables say\<close>

definition versions_of :: "id \<Rightarrow> db \<Rightarrow> (int \<times> id) list" where
  "versions_of i s = map (\<lambda>v. (n_number v, n_resource_id v)) (filter (\<lambda>v. n_vcr_id v = Some i) (versions s))"

definition vview :: "id \<Rightarrow> db \<Rightarrow> vhistory option" where
  "vview i s = map_option (\<lambda>c. (state_of (c_checked_state c), c_checked_id c, versions_of i s)) (find_vcr i s)"

text \<open>The structure in memory agrees with the tables, and these are in order.\<close>

definition vinv :: "dav_repos_resource \<Rightarrow> db \<Rightarrow> bool" where
  "vinv r s \<longleftrightarrow> distinct (map n_resource_id (versions s)) \<and>
     (let vs = versions_of (dr_serialno r) s
      in vview (dr_serialno r) s = Some (dr_checked_state r, dr_checked_id r, vs) \<and> numbered vs \<and>
         dr_vr_num r = int (length vs) \<and>
         (if vs = [] then find_version (dr_checked_id r) s = None else dr_checked_id r = snd (last vs)))"

lemma same_versions:
  assumes "(versions t, vcrs t, vhrs t) = (versions s, vcrs s, vhrs s)"
  shows "versions_of i t = versions_of i s" "vview i t = vview i s" "find_version i t = find_version i s" "vinv r t = vinv r s"
  using assms by (simp_all add: versions_of_def vview_def find_vcr_def find_version_def vinv_def Let_def)

lemmas tables_versions = same_versions [OF versioning.V_tables]

lemma version_id_map_of:
  "map_option n_resource_id (find (\<lambda>v. n_number v = k \<and> n_vcr_id v = Some i) (versions s)) = map_of (versions_of i s) k"
proof -
  have "map_option n_resource_id (find (\<lambda>v. n_number v = k \<and> n_vcr_id v = Some i) vs)
    = map_of (map (\<lambda>v. (n_number v, n_resource_id v)) (filter (\<lambda>v. n_vcr_id v = Some i) vs)) k" for vs
    by (induction vs) auto
  then show ?thesis by (simp add: versions_of_def)
qed

lemma find_set_vcr:
  assumes "\<And>c. c_resource_id (f c) = c_resource_id c"
  shows "find_vcr j (set_vcr i f s) = (if j = i then map_option f (find_vcr j s) else find_vcr j s)"
proof -
  have "find (\<lambda>c. c_resource_id c = j) (map (\<lambda>c. if c_resource_id c = i then f c else c) cs) =
    (if j = i then map_option f (find (\<lambda>c. c_resource_id c = j) cs) else find (\<lambda>c. c_resource_id c = j) cs)" for cs
    by (induction cs) (auto simp: assms)
  then show ?thesis by (simp add: find_vcr_def set_vcr_def)
qed

section \<open>The statements\<close>

lemma get_version_id_ok:
  assumes "dbms_get_version_id i k s = (Inr w, s')"
  shows "map_of (versions_of i s) k = Some w" "tables_eq s' s"
proof -
  obtain t where t: "run_select s = (False, t)" "s' = t" "find (\<lambda>v. n_number v = k \<and> n_vcr_id v = Some i) (versions t) = Some v \<Longrightarrow> n_resource_id v = w" for v
    using assms by (auto simp: dbms_get_version_id_def split: prod.splits bool.splits option.splits)
  show same: "tables_eq s' s" using run_select_same [OF t(1)] t(2) by simp
  have "map_option n_resource_id (find (\<lambda>v. n_number v = k \<and> n_vcr_id v = Some i) (versions t)) = Some w"
    using assms t(1) by (auto simp: dbms_get_version_id_def split: option.splits)
  then show "map_of (versions_of i s) k = Some w"
    using same t(2) by (simp add: version_id_map_of tables_versions)
qed

lemma set_checkin_out_ok:
  assumes run: "dbms_set_checkin_out r st k s = (None, r', s')" and st: "st \<noteq> DAV_RESOURCE_NOT_VERSIONED"
    and vcr: "vview (dr_serialno r) s = Some (st0, c0, vs)"
  obtains w where "w = dr_checked_id r \<and> dr_vr_num r = k \<and> dr_checked_id r \<noteq> 0 \<or> map_of vs k = Some w"
    "r' = r\<lparr>dr_checked_id := w, dr_checked_state := st, dr_vr_num := k\<rparr>"
    "versions s' = versions s" "vview (dr_serialno r) s' = Some (st, w, vs)"
    "\<And>j. j \<noteq> dr_serialno r \<Longrightarrow> vview j s' = vview j s"
proof -
  obtain w t where 1: "(if dr_vr_num r = k \<and> dr_checked_id r \<noteq> 0 then (Inr (dr_checked_id r), s)
            else dbms_get_version_id (dr_serialno r) k s) = (Inr w, t)"
    using run by (auto simp: dbms_set_checkin_out_def split: prod.splits sum.splits)
  have vs: "vs = versions_of (dr_serialno r) s" using vcr by (auto simp: vview_def)
  have w: "w = dr_checked_id r \<and> dr_vr_num r = k \<and> dr_checked_id r \<noteq> 0 \<or> map_of vs k = Some w" and t: "tables_eq t s"
    using 1 get_version_id_ok [of "dr_serialno r" k s w t] vs by (auto split: if_splits)
  let ?f = "\<lambda>c. c\<lparr>c_checked_state := (if st = DAV_RESOURCE_CHECKED_IN then ''I'' else ''O''), c_checked_id := w\<rparr>"
  have 2: "exec_or_500 ''DBMS Error'' (\<lambda>s. Some (set_vcr (dr_serialno r) ?f s)) t = (None, s')"
    and r': "r' = r\<lparr>dr_checked_id := w, dr_checked_state := st, dr_vr_num := k\<rparr>"
    using run 1 by (auto simp: dbms_set_checkin_out_def split: prod.splits option.splits)
  obtain u where u: "tables_eq u t" "s' = set_vcr (dr_serialno r) ?f u" using 2 by (auto elim: exec_or_500_ok)
  have us: "tables_eq u s" using u(1) t by (rule tables_eq_trans)
  have vers: "versions s' = versions s" using u(2) us by (simp add: set_vcr_def tables_eqD)
  have find: "find_vcr j s' = (if j = dr_serialno r then map_option ?f (find_vcr j s) else find_vcr j s)" for j
    using us unfolding u(2) by (subst find_set_vcr) (simp_all add: find_vcr_def tables_eqD)
  have stt: "state_of (if st = DAV_RESOURCE_CHECKED_IN then ''I'' else ''O'') = st"
    using st by (cases st) (simp_all add: state_of_def)
  have "vview (dr_serialno r) s' = Some (st, w, vs)"
    using vcr find stt vers by (auto simp: vview_def versions_of_def)
  moreover have "vview j s' = vview j s" if "j \<noteq> dr_serialno r" for j
    using that find vers by (simp add: vview_def versions_of_def)
  ultimately show ?thesis using that w r' vers by blast
qed

lemma read_vhr_same: "read_vhr r s = Some (e, vhr, s') \<Longrightarrow> tables_eq s' s"
  by (auto simp: read_vhr_def split: option.splits dest: get_property_tables)

section \<open>The hooks refine the machine\<close>

text \<open>One step, and nothing else of the tables of version control changes.\<close>

definition refines_step :: "nat \<Rightarrow> dav_repos_resource \<Rightarrow> db \<Rightarrow> dav_repos_resource \<Rightarrow> db \<Rightarrow> bool" where
  "refines_step k r s r' s' \<longleftrightarrow> dr_serialno r' = dr_serialno r \<and> vinv r' s' \<and>
     (\<exists>h h'. vview (dr_serialno r) s = Some h \<and> vview (dr_serialno r) s' = Some h' \<and> vstep k h h') \<and>
     (\<forall>j. j \<noteq> dr_serialno r \<longrightarrow> vview j s' = vview j s)"

lemma vinv_flags [simp]: "vinv (set_flags f r) s = vinv r s" "dr_serialno (set_flags f r) = dr_serialno r"
  by (simp_all add: vinv_def set_flags_def)

text \<open>Setting the state with the number of the structure itself keeps the checked version.\<close>

lemma toggle_refines:
  assumes run: "dbms_set_checkin_out r st (dr_vr_num r) s = (None, r', s')" and inv: "vinv r s"
    and st: "(dr_checked_state r, st) \<in> {(DAV_RESOURCE_CHECKED_IN, DAV_RESOURCE_CHECKED_OUT), (DAV_RESOURCE_CHECKED_OUT, DAV_RESOURCE_CHECKED_IN)}"
  shows "refines_step 0 r s r' s'"
proof -
  let ?vs = "versions_of (dr_serialno r) s"
  have v: "vview (dr_serialno r) s = Some (dr_checked_state r, dr_checked_id r, ?vs)" using inv by (simp add: vinv_def Let_def)
  have "st \<noteq> DAV_RESOURCE_NOT_VERSIONED" using st by auto
  from set_checkin_out_ok [OF run this v] obtain w where
    w: "w = dr_checked_id r \<and> dr_vr_num r = dr_vr_num r \<and> dr_checked_id r \<noteq> 0 \<or> map_of ?vs (dr_vr_num r) = Some w"
    and r': "r' = r\<lparr>dr_checked_id := w, dr_checked_state := st, dr_vr_num := dr_vr_num r\<rparr>"
    and s': "versions s' = versions s" "vview (dr_serialno r) s' = Some (st, w, ?vs)"
      "\<And>j. j \<noteq> dr_serialno r \<Longrightarrow> vview j s' = vview j s" by blast
  have vo: "versions_of (dr_serialno r) s' = ?vs" "find_version i s' = find_version i s" for i
    using s'(1) by (simp_all add: versions_of_def find_version_def)
  have "w = dr_checked_id r"
  proof (cases "?vs = []")
    case False
    with inv have "map_of ?vs (dr_vr_num r) = Some (dr_checked_id r)"
      using numbered_last [of ?vs] by (auto simp: vinv_def Let_def)
    with w show ?thesis by auto
  qed (use w in auto)
  then show ?thesis
    using inv v s' vo st unfolding refines_step_def r' by (auto simp: vinv_def Let_def)
qed

lemma checkout_refines:
  assumes "dav_repos_checkout auto r sn = Some (None, u, r', sn')" "vinv r (sn_db sn)"
  shows "dr_checked_state r = DAV_RESOURCE_CHECKED_IN \<and> refines_step 0 r (sn_db sn) r' (sn_db sn')"
proof -
  from assms(1) obtain vhr s1 r2 s2 where 1: "read_vhr r (sn_db sn) = Some (None, vhr, s1)"
    and 2: "dr_checked_state r = DAV_RESOURCE_CHECKED_IN"
    "dbms_set_checkin_out r DAV_RESOURCE_CHECKED_OUT (dr_vr_num r) s1 = (None, r2, s2)"
    "r' = set_flags (\<lambda>rs. rs\<lparr>rs_working := True\<rparr>) r2" "sn' = put_db s2 sn"
    by (auto simp: dav_repos_checkout_def Let_def split: option.splits prod.splits if_splits)
  note same = read_vhr_same [OF 1]
  have "refines_step 0 r s1 r2 s2"
    using 2(1) assms(2) by (intro toggle_refines [OF 2(2)]) (simp_all add: tables_versions [OF same])
  then show ?thesis using 2 by (simp add: refines_step_def tables_versions [OF same])
qed

text \<open>The fields of the structure that the machine looks at; copying a body keeps them.\<close>

definition version_fields :: "dav_repos_resource \<Rightarrow> id \<times> checked_state \<times> id \<times> int" where
  "version_fields r = (dr_serialno r, dr_checked_state r, dr_checked_id r, dr_vr_num r)"

lemma vinv_fields: "version_fields r' = version_fields r \<Longrightarrow> vinv r' s = vinv r s"
  by (simp add: version_fields_def vinv_def)

lemma copy_medium_fields:
  assumes "sabridge_copy_medium env src dest sn = Some (e, r', sn')"
  shows "version_fields r' = version_fields dest"
proof -
  obtain e1 d1 s1 sn1 where 1: "copy_displayname src dest (sn_db sn1) = Some (e1, d1, s1)"
    and 2: "step_ok (in_db_r (dbms_copy_media_props (e_now env) src) d1 (put_db s1 sn1))
      (\<lambda>dest sn. in_db (sabridge_copy_dead_props (dr_serialno src) (dr_serialno dest)) dest sn) = Some (e, r', sn')"
    using assms by (auto simp: sabridge_copy_medium_def Let_def split: option.splits)
  have f1: "version_fields d1 = version_fields dest"
    using 1 by (auto simp: copy_displayname_def Let_def version_fields_def split: option.splits if_splits prod.splits)
  obtain e2 d2 s2 where 3: "dbms_copy_media_props (e_now env) src d1 s1 = (e2, d2, s2)" by (metis prod_cases3)
  then have "version_fields d2 = version_fields d1"
    by (auto simp: dbms_copy_media_props_def Let_def version_fields_def split: option.splits prod.splits)
  moreover have "r' = d2" using 2 3 by (auto simp: in_db_r_def in_db_def step_ok_def split: option.splits prod.splits)
  ultimately show ?thesis using f1 by simp
qed

lemma restored_body:
  assumes "(if dr_resourcetype r = dav_repos_VERSIONED_COLLECTION then in_db (dbms_restore_vcc r v) r sn
            else if dr_resourcetype r = dav_repos_VERSIONED then sabridge_copy_medium env v r sn
            else Some (None, r, sn)) = Some (e, r', sn')"
  shows "version_fields r' = version_fields r \<and>
    (versions (sn_db sn'), vcrs (sn_db sn'), vhrs (sn_db sn')) = (versions (sn_db sn), vcrs (sn_db sn), vhrs (sn_db sn))"
proof -
  have "tables_eq s (sn_db sn)" if "dbms_restore_vcc r v (sn_db sn) = (e, s)" for e s
    using that unfolding dbms_restore_vcc_def by (cases e) (auto dest: exec_or_500_error elim: exec_or_500_ok)
  then show ?thesis
    using assms copy_medium_fields [of env v r sn e r' sn'] versioning.keepsD [OF versioning.keeps_copy_medium, of env v r sn e r' sn']
    by (auto simp: in_db_def tables_eqD split: if_splits prod.splits)
qed

lemma uncheckout_refines:
  assumes "dav_repos_uncheckout env r sn = Some (None, r', sn')" "vinv r (sn_db sn)"
  shows "dr_checked_state r = DAV_RESOURCE_CHECKED_OUT \<and> refines_step 0 r (sn_db sn) r' (sn_db sn')"
proof -
  have out: "dr_checked_state r = DAV_RESOURCE_CHECKED_OUT" using assms(1) by (auto simp: dav_repos_uncheckout_def split: if_splits)
  with assms(1) obtain vhr s1 where 1: "read_vhr r (sn_db sn) = Some (None, vhr, s1)"
    by (auto simp: dav_repos_uncheckout_def split: option.splits)
  define body where "body = (\<lambda>v s. if dr_resourcetype r = dav_repos_VERSIONED_COLLECTION then in_db (dbms_restore_vcc r v) r (put_db s sn)
                       else if dr_resourcetype r = dav_repos_VERSIONED then sabridge_copy_medium env v r (put_db s sn)
                       else Some (None, r, put_db s sn))"
  from assms(1) out 1 obtain v v' s2 where 2: "sabridge_get_property v s1 = Some (None, v', s2)"
    and 3: "step_ok (step_ok (body v' s2)
                      (\<lambda>r sn. in_db_r (\<lambda>r. dbms_set_checkin_out r DAV_RESOURCE_CHECKED_IN (dr_vr_num r)) r sn))
                      (\<lambda>r sn. Some (None, set_flags (\<lambda>rs. rs\<lparr>rs_type := DAV_RESOURCE_TYPE_REGULAR, rs_working := False\<rparr>) r, sn))
      = Some (None, r', sn')"
    by (auto simp: dav_repos_uncheckout_def body_def split: option.splits)
  from 3 obtain r1 sn1 r2 s3 where b: "body v' s2 = Some (None, r1, sn1)"
    and set: "dbms_set_checkin_out r1 DAV_RESOURCE_CHECKED_IN (dr_vr_num r1) (sn_db sn1) = (None, r2, s3)"
    and r': "r' = set_flags (\<lambda>rs. rs\<lparr>rs_type := DAV_RESOURCE_TYPE_REGULAR, rs_working := False\<rparr>) r2" "sn' = put_db s3 sn1"
    by (auto simp: step_ok_def in_db_r_def split: option.splits prod.splits)
  note rb = restored_body [OF b [unfolded body_def]]
  have t: "tables_eq s2 (sn_db sn)" using read_vhr_same [OF 1] get_property_tables [OF 2] by (rule tables_eq_trans [rotated])
  have same: "(versions (sn_db sn1), vcrs (sn_db sn1), vhrs (sn_db sn1)) = (versions (sn_db sn), vcrs (sn_db sn), vhrs (sn_db sn))"
    using rb t by (simp add: tables_eqD)
  have f: "version_fields r1 = version_fields r" using rb by simp
  have "refines_step 0 r1 (sn_db sn1) r2 s3"
    using assms(2) out f by (intro toggle_refines [OF set]) (simp_all add: same_versions [OF same] vinv_fields [OF f] version_fields_def)
  then show ?thesis using out f r' by (simp add: refines_step_def same_versions [OF same] version_fields_def)
qed

lemma checkin_refines:
  assumes "dav_repos_checkin env r sn = Some (None, u, r', sn')" "vinv r (sn_db sn)"
  shows "dr_checked_state r = DAV_RESOURCE_CHECKED_OUT \<and> refines_step 1 r (sn_db sn) r' (sn_db sn')"
proof -
  have out: "dr_checked_state r = DAV_RESOURCE_CHECKED_OUT" using assms(1) by (auto simp: dav_repos_checkin_def split: if_splits)
  with assms(1) obtain vhr s1 where 1: "read_vhr r (sn_db sn) = Some (None, vhr, s1)"
    by (auto simp: dav_repos_checkin_def split: option.splits if_splits)
  with assms(1) out obtain nv sn1 r2 s3 where 2: "sabridge_mk_new_version env r vhr (dr_vr_num r + 1) (put_db s1 sn) = Some (None, nv, sn1)"
    and 3: "checkin_rows r vhr nv (sn_db sn1) = (None, r2, s3)"
    and r': "r' = set_flags (\<lambda>rs. rs\<lparr>rs_type := DAV_RESOURCE_TYPE_REGULAR, rs_working := False\<rparr>) r2" "sn' = put_db s3 sn1"
    by (auto simp: dav_repos_checkin_def split: option.splits prod.splits if_splits)
  have nv: "dr_vcr_id nv = dr_serialno r" "dr_version nv = dr_vr_num r + 1"
    using 2 by (auto simp: sabridge_mk_new_version_def split: option.splits)
  have same: "(versions (sn_db sn1), vcrs (sn_db sn1), vhrs (sn_db sn1)) = (versions (sn_db sn), vcrs (sn_db sn), vhrs (sn_db sn))"
    using versioning.keepsD [OF versioning.keeps_new_version 2] read_vhr_same [OF 1] by (simp add: tables_eqD)
  let ?t = "sn_db sn1"
  have inv: "vinv r ?t" using assms(2) by (simp add: same_versions [OF same])
  from 3 obtain t2 t3 where 4: "(if dr_vr_num r = 0 then dbms_update_vhr (vhr\<lparr>dr_root_version_id := dr_serialno nv\<rparr>) ?t else (None, ?t)) = (None, t2)"
    and 5: "dbms_insert_version nv t2 = (None, t3)"
    and 6: "dbms_set_checkin_out r DAV_RESOURCE_CHECKED_IN (dr_vr_num r + 1) t3 = (None, r2, s3)"
    by (auto simp: checkin_rows_def split: prod.splits option.splits)
  have t2: "versions t2 = versions ?t" "vcrs t2 = vcrs ?t"
    using 4 by (auto simp: dbms_update_vhr_def tables_eqD split: if_splits elim!: exec_or_500_ok)
  from 5 have new: "find_version (dr_serialno nv) t2 = None" and t3: "vcrs t3 = vcrs t2"
    "versions t3 = versions t2 @ [\<lparr>n_resource_id = dr_serialno nv, n_number = dr_version nv, n_vcr_id = Some (dr_vcr_id nv), n_vhr_id = dr_vhr_id nv\<rparr>]"
    by (auto simp: dbms_insert_version_def find_version_def tables_eqD split: if_splits elim!: exec_or_500_ok)
  let ?i = "dr_serialno r"
  let ?vs = "versions_of ?i ?t"
  have vs3: "versions_of ?i t3 = ?vs @ [(dr_vr_num r + 1, dr_serialno nv)]" "\<And>j. j \<noteq> ?i \<Longrightarrow> versions_of j t3 = versions_of j ?t"
    using t2 t3 nv by (simp_all add: versions_of_def)
  have view: "vview ?i ?t = Some (dr_checked_state r, dr_checked_id r, ?vs)" and len: "dr_vr_num r = int (length ?vs)" "numbered ?vs"
    using inv by (simp_all add: vinv_def Let_def)
  have view3: "vview ?i t3 = Some (dr_checked_state r, dr_checked_id r, ?vs @ [(dr_vr_num r + 1, dr_serialno nv)])"
    using view t2 t3 vs3 by (auto simp: vview_def find_vcr_def)
  from set_checkin_out_ok [OF 6 _ view3] obtain w where
    w: "w = dr_checked_id r \<and> dr_vr_num r = dr_vr_num r + 1 \<and> dr_checked_id r \<noteq> 0
        \<or> map_of (?vs @ [(dr_vr_num r + 1, dr_serialno nv)]) (dr_vr_num r + 1) = Some w"
    and r2: "r2 = r\<lparr>dr_checked_id := w, dr_checked_state := DAV_RESOURCE_CHECKED_IN, dr_vr_num := dr_vr_num r + 1\<rparr>"
    and s3: "versions s3 = versions t3" "vview ?i s3 = Some (DAV_RESOURCE_CHECKED_IN, w, ?vs @ [(dr_vr_num r + 1, dr_serialno nv)])"
      "\<And>j. j \<noteq> ?i \<Longrightarrow> vview j s3 = vview j t3" by blast
  have "numbered (?vs @ [(dr_vr_num r + 1, dr_serialno nv)])" using len by simp
  from numbered_last [OF this] w len have w': "w = dr_serialno nv" by (simp add: add.commute)
  have vs: "versions_of ?i s3 = ?vs @ [(dr_vr_num r + 1, dr_serialno nv)]" using s3(1) vs3 by (simp add: versions_of_def)
  have "dr_serialno nv \<notin> n_resource_id ` set (versions ?t)"
    using new t2 by (auto simp: find_version_def find_None_iff)
  then have "distinct (map n_resource_id (versions s3))"
    using inv s3(1) t2 t3 by (simp add: vinv_def)
  then have "vinv r2 s3" using vs s3(2) len w' r2 by (simp add: vinv_def Let_def)
  moreover have "vview j s3 = vview j ?t" if "j \<noteq> ?i" for j
    using that s3(3) [OF that] vs3(2) [OF that] t2 t3 by (simp add: vview_def find_vcr_def)
  ultimately have "refines_step 1 r ?t r2 s3"
    using view s3(2) out w' len r2 by (simp add: refines_step_def)
  then show ?thesis using out r' by (simp add: refines_step_def same_versions [OF same])
qed

section \<open>Runs\<close>

text \<open>
  A run of successful requests on one resource, counting the checkins; between two requests the structure
  may be read again from the tables. A request that fails is rolled back with its transaction and is
  not part of the run.
\<close>

inductive vrun :: "env \<Rightarrow> nat \<Rightarrow> dav_repos_resource \<Rightarrow> session \<Rightarrow> dav_repos_resource \<Rightarrow> session \<Rightarrow> bool" for env where
  start: "vrun env 0 r sn r sn"
| checkout: "vrun env k r sn r1 sn1 \<Longrightarrow> dav_repos_checkout auto r1 sn1 = Some (None, u, r2, sn2) \<Longrightarrow> vrun env k r sn r2 sn2"
| uncheckout: "vrun env k r sn r1 sn1 \<Longrightarrow> dav_repos_uncheckout env r1 sn1 = Some (None, r2, sn2) \<Longrightarrow> vrun env k r sn r2 sn2"
| checkin: "vrun env k r sn r1 sn1 \<Longrightarrow> dav_repos_checkin env r1 sn1 = Some (None, u, r2, sn2) \<Longrightarrow> vrun env (Suc k) r sn r2 sn2"
| reload: "vrun env k r sn r1 sn1 \<Longrightarrow> dbms_get_vcr_props r1 (sn_db sn1) = (None, r2, s2) \<Longrightarrow> vrun env k r sn r2 (put_db s2 sn1)"

lemma find_distinct_version:
  assumes "distinct (map n_resource_id (versions s))" "v \<in> set (versions s)" "n_resource_id v = w"
  shows "find_version w s = Some v"
proof -
  have "find (\<lambda>v. n_resource_id v = w) vs = Some v" if "distinct (map n_resource_id vs)" "v \<in> set vs" for vs
    using that assms(3) by (induction vs) auto
  then show ?thesis using assms by (simp add: find_version_def)
qed

lemma reload_keeps:
  assumes run: "dbms_get_vcr_props r s = (None, r', s')" and inv: "vinv r s"
  shows "vinv r' s' \<and> dr_serialno r' = dr_serialno r \<and> tables_eq s' s"
proof -
  let ?vs = "versions_of (dr_serialno r) s"
  obtain c where c: "find_vcr (dr_serialno r) s = Some c" "state_of (c_checked_state c) = dr_checked_state r"
    "c_checked_id c = dr_checked_id r"
    using inv by (auto simp: vinv_def vview_def Let_def)
  have same: "tables_eq s' s" using vcr_props_select [OF run] by simp
  obtain s1 v where 1: "run_select s = (False, s1)" and v: "find_version (dr_checked_id r) s1 = Some v"
    and r': "dr_serialno r' = dr_serialno r" "dr_checked_state r' = dr_checked_state r" "dr_checked_id r' = dr_checked_id r" "dr_vr_num r' = n_number v"
  proof -
    obtain b s1 where s1: "run_select s = (b, s1)" by fastforce
    note t1 = run_select_same [OF s1]
    have c1: "find_vcr (dr_serialno r) s1 = Some c" using c(1) t1 by (simp add: find_vcr_def tables_eqD)
    obtain b2 s2 where s2: "run_select s1 = (b2, s2)" by fastforce
    have f: "find_version i s2 = find_version i s1" for i using run_select_same [OF s2] by (simp add: tables_versions)
    from run s1 s2 c1 c(2,3) f that show thesis
      by (cases b; cases b2) (auto simp: dbms_get_vcr_props_def dbms_get_version_number_def split: option.splits)
  qed
  have v': "find_version (dr_checked_id r) s = Some v" using v run_select_same [OF 1] by (simp add: tables_versions)
  then have ne: "?vs \<noteq> []" using inv by (auto simp: vinv_def Let_def)
  have num: "numbered ?vs" and id: "dr_checked_id r = snd (last ?vs)" and len: "dr_vr_num r = int (length ?vs)"
    using inv ne by (simp_all add: vinv_def Let_def)
  have "last ?vs \<in> set ?vs" using ne by simp
  then obtain v2 where v2: "v2 \<in> set (versions s)" "(n_number v2, n_resource_id v2) = last ?vs"
    by (auto simp: versions_of_def)
  then have w: "n_resource_id v2 = dr_checked_id r" using id by (metis snd_conv)
  have "distinct (map n_resource_id (versions s))" using inv by (simp add: vinv_def)
  from find_distinct_version [OF this v2(1) w] v' have "v2 = v" by simp
  moreover have "n_number v2 = int (length ?vs)"
    using numbered_last [OF num ne] numbered_keys(1) [OF num] v2(2) ne num
    by (metis fst_conv last_map list.map_disc_iff numbered_def last_upt length_greater_0_conv lessI less_Suc_eq_le not_less_zero diff_Suc_1 of_nat_eq_iff zero_less_Suc list.size(3) upt_Suc last_snoc One_nat_def Suc_leI)
  ultimately have "dr_vr_num r' = dr_vr_num r" using r' len by simp
  with r' have "version_fields r' = version_fields r" by (simp add: version_fields_def)
  from vinv_fields [OF this] inv same r' show ?thesis by (simp add: tables_versions [OF same])
qed

lemma vrun_inv:
  assumes "vrun env k r sn r' sn'" "vinv r (sn_db sn)"
  shows "vinv r' (sn_db sn') \<and> dr_serialno r' = dr_serialno r \<and>
    length (versions_of (dr_serialno r) (sn_db sn')) = length (versions_of (dr_serialno r) (sn_db sn)) + k \<and>
    (\<forall>j. j \<noteq> dr_serialno r \<longrightarrow> vview j (sn_db sn') = vview j (sn_db sn))"
  using assms
proof (induction rule: vrun.induct)
  case (checkout k r sn r1 sn1 auto u r2 sn2)
  with checkout_refines [OF checkout.hyps(2)] show ?case by (auto simp: refines_step_def vview_def)
next
  case (uncheckout k r sn r1 sn1 r2 sn2)
  with uncheckout_refines [OF uncheckout.hyps(2)] show ?case by (auto simp: refines_step_def vview_def)
next
  case (checkin k r sn r1 sn1 u r2 sn2)
  with checkin_refines [OF checkin.hyps(2)] show ?case by (auto simp: refines_step_def vview_def)
next
  case (reload k r sn r1 sn1 r2 s2)
  with reload_keeps [OF reload.hyps(2)] show ?case by (auto simp: tables_versions)
qed simp

section \<open>Properties\<close>

text \<open>C11: The handlers of \<open>CHECKOUT\<close>, \<open>UNCHECKOUT\<close> and \<open>CHECKIN\<close> refine the abstract machine: when one succeeds
  the state of the resource makes the step of the machine with that name, the structure in memory
  agrees with the tables again, and no other version-controlled resource changes; called in
  the wrong state, checkin and uncheckout answer 409 and change nothing.\<close>

theorem version_hooks_refine:
  assumes "vinv r (sn_db sn)"
  shows "(\<forall>auto u r' sn'. dav_repos_checkout auto r sn = Some (None, u, r', sn') \<longrightarrow>
      dr_checked_state r = DAV_RESOURCE_CHECKED_IN \<and> refines_step 0 r (sn_db sn) r' (sn_db sn')) \<and>
    (\<forall>r' sn'. dav_repos_uncheckout env r sn = Some (None, r', sn') \<longrightarrow>
      dr_checked_state r = DAV_RESOURCE_CHECKED_OUT \<and> refines_step 0 r (sn_db sn) r' (sn_db sn')) \<and>
    (\<forall>u r' sn'. dav_repos_checkin env r sn = Some (None, u, r', sn') \<longrightarrow>
      dr_checked_state r = DAV_RESOURCE_CHECKED_OUT \<and> refines_step 1 r (sn_db sn) r' (sn_db sn')) \<and>
    (dr_checked_state r \<noteq> DAV_RESOURCE_CHECKED_OUT \<longrightarrow>
      (\<exists>e. dav_repos_uncheckout env r sn = Some (Some e, r, sn) \<and> status e = HTTP_CONFLICT) \<and>
      (\<exists>e. dav_repos_checkin env r sn = Some (Some e, None, r, sn) \<and> status e = HTTP_CONFLICT))"
proof -
  have no: "(\<exists>e. dav_repos_uncheckout env r sn = Some (Some e, r, sn) \<and> status e = HTTP_CONFLICT) \<and>
      (\<exists>e. dav_repos_checkin env r sn = Some (Some e, None, r, sn) \<and> status e = HTTP_CONFLICT)"
    if "dr_checked_state r \<noteq> DAV_RESOURCE_CHECKED_OUT"
    using that by (simp add: dav_repos_uncheckout_def dav_repos_checkin_def dav_new_error_def)
  show ?thesis
    by (intro conjI allI impI; (drule checkout_refines [OF _ assms] uncheckout_refines [OF _ assms] checkin_refines [OF _ assms] no; simp)+)
qed

text \<open>A file in the root collection.\<close>

definition dirstr_parent :: "string \<Rightarrow> string" where
  "dirstr_parent u = rev (dropWhile (\<lambda>c. c \<noteq> CHR ''/'') (rev u))"

definition demo_env :: env where
  "demo_env = \<lparr>e_cf = \<lparr>use_gc = True, keep_files = False, user_quota = 1000\<rparr>, e_dirstr = dirstr_parent,
     e_now = ''2007-05-01 10:00:00'', e_principal = PRINCIPAL_ALL, e_user = Some ''ann'', e_acl_hooks = False,
     e_all_priv = (''DAV:'', ''all''), e_uuid = (\<lambda>n. replicate 32 (char_of (48 + n mod 10))), e_open_ok = (\<lambda>p. True),
     e_escape = (\<lambda>x. x), e_path = (\<lambda>h. Some (Inr (''/files/'' @ h))), e_mime = (\<lambda>u p. ''text/plain''),
     e_principal_of_url = (\<lambda>u. PRINCIPAL_ALL), e_href_prefix = ''http://h'', e_root_prefix = []\<rparr>"

definition plain_file :: session where
  "plain_file = \<lparr>sn_world = \<lparr>w_db = empty_db\<lparr>
       resources := [a_resource 2 ''Collection'', a_resource 20 ''Resource''],
       collections := [(2, 0)], next_resource := 21, next_bind := 2,
       binds := [\<lparr>b_id = 1, b_name = ''f'', b_collection_id = 2, b_resource_id = 20, b_updated_at = ''2006''\<rparr>],
       media := [\<lparr>m_resource_id = 20, m_size = 3, m_mimetype = ''text/plain'', m_sha1 = ''abc'', m_updated_at = ''2006''\<rparr>],
       principals := [(1, ''root''), (3, ''all'')]\<rparr>, w_disk = [''abc'']\<rparr>,
     sn_cache = \<lparr>c_namespaces = Map.empty, c_privileges = Map.empty\<rparr>, sn_uuids = 0\<rparr>"

text \<open>Whether a request succeeded is evaluated; the resulting structures are only named.\<close>

definition succeeded :: "(dav_error option \<times> string option \<times> dav_repos_resource \<times> session) option \<Rightarrow> bool" where
  "succeeded x \<longleftrightarrow> (case x of Some (None, u, r, sn) \<Rightarrow> True | _ \<Rightarrow> False)"

lemma succeeded_run:
  "succeeded x \<Longrightarrow> \<exists>u. x = Some (None, u, fst (case x of Some (e, u, r, sn) \<Rightarrow> (r, sn)), snd (case x of Some (e, u, r, sn) \<Rightarrow> (r, sn)))"
  by (auto simp: succeeded_def split: option.splits)

text \<open>The same file under version control and checked out, with its history below \<open>/history/21\<close>.\<close>

definition a_bind :: "id \<Rightarrow> string \<Rightarrow> id \<Rightarrow> id \<Rightarrow> bind_row" where
  "a_bind i n c r = \<lparr>b_id = i, b_name = n, b_collection_id = c, b_resource_id = r, b_updated_at = ''2006''\<rparr>"

definition out_file :: session where
  "out_file = put_db ((sn_db plain_file)\<lparr>
       resources := [a_resource 2 ''Collection'', a_resource 20 ''Versioned'', a_resource 21 ''VersionHistory'',
         a_resource 22 ''Collection'', a_resource 23 ''Collection'', a_resource 24 ''Version''],
       collections := [(2, 0), (22, 0), (23, 0)], next_resource := 25, next_bind := 6,
       binds := [a_bind 1 ''f'' 2 20, a_bind 2 ''history'' 2 22, a_bind 3 ''21'' 22 23, a_bind 4 ''vhr'' 23 21, a_bind 5 ''1'' 23 24],
       vcrs := [\<lparr>c_resource_id = 20, c_checked_id = 24, c_vhr_id = 21, c_checked_state = ''O'', c_version_type = 5, c_checkin_on_unlock = 0\<rparr>],
       versions := [\<lparr>n_resource_id = 24, n_number = 1, n_vcr_id = Some 20, n_vhr_id = 21\<rparr>], vhrs := [(21, 24)]\<rparr>) plain_file"

definition out_dbr :: dav_repos_resource where
  "out_dbr = zero_dbr\<lparr>dr_resource := Some zero_resource, dr_serialno := 20, dr_uri := Some ''/f'', dr_resourcetype := dav_repos_VERSIONED,
     dr_displayname := Some ''f'', dr_checked_state := DAV_RESOURCE_CHECKED_OUT, dr_checked_id := 24, dr_vr_num := 1, dr_vhr_id := 21,
     dr_getcontenttype := Some ''text/plain'', dr_getcontentlength := 3, dr_sha1str := Some ''abc''\<rparr>"

definition checked_in :: "dav_repos_resource \<times> session" where
  "checked_in = (case dav_repos_checkin demo_env out_dbr out_file of Some (e, u, r, sn) \<Rightarrow> (r, sn))"

lemma out_file_inv: "vinv out_dbr (sn_db out_file)"
  by code_simp

lemma checked_in_run: "\<exists>u. dav_repos_checkin demo_env out_dbr out_file = Some (None, u, fst checked_in, snd checked_in)"
proof -
  have "succeeded (dav_repos_checkin demo_env out_dbr out_file)" by code_simp
  then show ?thesis unfolding checked_in_def by (rule succeeded_run)
qed

theorem version_hooks_refine_witness:
  "refines_step 1 out_dbr (sn_db out_file) (fst checked_in) (sn_db (snd checked_in))"
proof -
  obtain u where "dav_repos_checkin demo_env out_dbr out_file = Some (None, u, fst checked_in, snd checked_in)"
    using checked_in_run by (elim exE)
  with version_hooks_refine [OF out_file_inv, of demo_env, THEN conjunct2, THEN conjunct2, THEN conjunct1]
  show ?thesis by blast
qed

text \<open>C12: However a resource is checked out, reverted, checked in and read again, its versions are numbered
  1, 2, 3, ... without gaps, every successful checkin adds exactly one of them, the checked version is the
  latest one, and the other version-controlled resources are untouched.\<close>

theorem version_numbers_consecutive:
  assumes "vrun env k r sn r' sn'" and "vinv r (sn_db sn)"
  shows "\<exists>st c vs. vview (dr_serialno r) (sn_db sn') = Some (st, c, vs) \<and>
    map fst vs = map int [1..<Suc (length vs)] \<and>
    length vs = length (versions_of (dr_serialno r) (sn_db sn)) + k \<and> (vs \<noteq> [] \<longrightarrow> c = snd (last vs)) \<and>
    (\<forall>j. j \<noteq> dr_serialno r \<longrightarrow> vview j (sn_db sn') = vview j (sn_db sn))"
proof -
  let ?vs = "versions_of (dr_serialno r) (sn_db sn')"
  note run = vrun_inv [OF assms]
  then have "vview (dr_serialno r) (sn_db sn') = Some (dr_checked_state r', dr_checked_id r', ?vs)" "numbered ?vs"
    "?vs \<noteq> [] \<longrightarrow> dr_checked_id r' = snd (last ?vs)"
    unfolding vinv_def by (auto simp: Let_def)
  with run show ?thesis unfolding numbered_def by blast
qed

theorem version_numbers_consecutive_witness:
  "\<exists>st c vs. vview 20 (sn_db (snd checked_in)) = Some (st, c, vs) \<and> map fst vs = [1, 2] \<and> c = snd (last vs)"
proof -
  obtain u where "dav_repos_checkin demo_env out_dbr out_file = Some (None, u, fst checked_in, snd checked_in)"
    using checked_in_run by (elim exE)
  from vrun.checkin [OF vrun.start this]
  have "vrun demo_env (Suc 0) out_dbr out_file (fst checked_in) (snd checked_in)" .
  note all = version_numbers_consecutive [OF this out_file_inv]
  have i: "dr_serialno out_dbr = 20" "length (versions_of 20 (sn_db out_file)) = 1" by code_simp+
  from all obtain st c vs where v: "vview 20 (sn_db (snd checked_in)) = Some (st, c, vs)"
    "map fst vs = map int [1..<Suc (length vs)]" "length vs = 1 + Suc 0" "vs \<noteq> [] \<longrightarrow> c = snd (last vs)"
    unfolding i by (elim exE conjE)
  then have "map fst vs = [1, 2]" "vs \<noteq> []" by auto
  with v show ?thesis by (intro exI conjI) simp_all
qed

section \<open>Errors that are not reported\<close>

text \<open>\<open>dav_repos_set_checkin_on_unlock\<close> refuses every resource.\<close>

lemma checkin_on_unlock_refused:
  "\<exists>e. dav_repos_set_checkin_on_unlock r sn = Some (Some e, r, sn) \<and> status e = HTTP_INTERNAL_SERVER_ERROR"
proof -
  have "dav_repos_VERSIONED \<noteq> dav_repos_VERSIONED_COLLECTION" by code_simp
  then show ?thesis by (auto simp: dav_repos_set_checkin_on_unlock_def dav_new_error_def)
qed

end
