(* ===== verification/Copying.thy ===== *)
theory Copying
  imports Versions
begin

text \<open>
  Copying, moving and deleting: the rest of \<^verbatim>\<open>bridge.c\<close>, the binding hooks of \<^verbatim>\<open>bind.c\<close> and the handlers
  of \<open>COPY\<close>, \<open>MOVE\<close> and \<open>DELETE\<close> in \<^verbatim>\<open>repos.c\<close>. A structure in memory is passed and returned; the hash tables
  from paths to copies are maps to the structures as they were when they were entered (they are
  not written afterwards).
\<close>

definition in_world ::
  "(dav_repos_resource \<Rightarrow> world \<Rightarrow> (dav_error option \<times> dav_repos_resource \<times> world) option) \<Rightarrow> dav_repos_resource \<Rightarrow> session \<Rightarrow> outcome" where
  "in_world f r sn = map_option (\<lambda>(e, r, w). (e, r, put_world w sn)) (f r (sn_world sn))"

definition unbind :: "env \<Rightarrow> dav_repos_resource \<Rightarrow> session \<Rightarrow> outcome" where
  "unbind env = in_world (sabridge_unbind_resource (e_cf env) (e_dirstr env))"

section \<open>Copying one resource\<close>

definition sabridge_copy_collection :: "dav_repos_resource \<Rightarrow> dav_repos_resource \<Rightarrow> session \<Rightarrow> outcome" where
  "sabridge_copy_collection src dst sn =
     step_ok (map_option (\<lambda>(e, r, s). (e, r, put_db s sn)) (copy_displayname src dst (sn_db sn)))
       (\<lambda>dst sn. in_db (sabridge_copy_dead_props (dr_serialno src) (dr_serialno dst)) dst sn)"

text \<open>\<open>sabridge_copy_if_compatible\<close>: the boolean is \<open>*p_copied\<close>. A checked-in destination is checked out
  first, when its autoversioning allows, and checked in again at the end.\<close>

definition open_for_copy :: "dav_repos_resource \<Rightarrow> dav_repos_resource \<Rightarrow> session \<Rightarrow> (dav_error option \<times> bool \<times> dav_repos_resource \<times> session) option" where
  "open_for_copy src dst sn =
     (if (dr_resourcetype src = dav_repos_RESOURCE \<or> dr_resourcetype src = dav_repos_VERSIONED)
         \<and> dr_checked_state dst = DAV_RESOURCE_CHECKED_IN
      then if dr_autoversion_type dst = DAV_AV_CHECKOUT_CHECKIN
           then map_option (\<lambda>(e, u, dst, sn). (e, True, dst, sn)) (dav_repos_checkout True dst sn)
           else Some (Some (dav_new_error HTTP_CONFLICT ''DAV:cannot-modify-version-controlled-content''), False, dst, sn)
      else Some (None, False, dst, sn))"

definition copy_content :: "env \<Rightarrow> dav_repos_resource \<Rightarrow> dav_repos_resource \<Rightarrow> session
    \<Rightarrow> (dav_error option \<times> bool \<times> dav_repos_resource \<times> session) option" where
  "copy_content env src dst sn =
     (let done = (\<lambda>m. map_option (\<lambda>(e, dst, sn). (e, e = None, dst, sn)) m)
      in if has_body (dr_resourcetype src)
         then if dr_resourcetype dst = dav_repos_LOCKNULL
              then (case sabridge_create_empty_body env dst sn of
                      None \<Rightarrow> None
                    | Some (e, dst, sn) \<Rightarrow> done (sabridge_copy_medium env src dst sn))
              else if dr_resourcetype dst = dav_repos_RESOURCE \<or> dr_resourcetype dst = dav_repos_VERSIONED
              then done (sabridge_copy_medium env src dst sn)
              else Some (None, False, dst, sn)
         else if is_collection (dr_resourcetype src)
              \<and> (dr_resourcetype dst = dav_repos_LOCKNULL \<or> is_collection (dr_resourcetype dst))
         then done (sabridge_copy_collection src dst sn)
         else Some (None, False, dst, sn))"

definition sabridge_copy_if_compatible :: "env \<Rightarrow> dav_repos_resource \<Rightarrow> dav_repos_resource \<Rightarrow> session
    \<Rightarrow> (dav_error option \<times> bool \<times> dav_repos_resource \<times> session) option" where
  "sabridge_copy_if_compatible env src dst sn =
     (case open_for_copy src dst sn of
        None \<Rightarrow> None
      | Some (Some e, ci, dst, sn) \<Rightarrow> Some (Some e, False, dst, sn)
      | Some (None, ci, dst, sn) \<Rightarrow>
          (case copy_content env src dst sn of
             None \<Rightarrow> None
           | Some (Some e, copied, dst, sn) \<Rightarrow> Some (Some e, copied, dst, sn)
           | Some (None, copied, dst, sn) \<Rightarrow>
               if ci then map_option (\<lambda>(e, u, dst, sn). (e, copied, dst, sn)) (dav_repos_checkin env dst sn)
               else Some (None, copied, dst, sn)))"

text \<open>\<open>sabridge_create_copy\<close>: whether the new resource could be created is not looked at; a resource that
  is neither a file nor a collection gives a structure that was never stored.\<close>

definition copy_created :: "env \<Rightarrow> nat \<Rightarrow> dav_repos_resource \<Rightarrow> dav_repos_resource \<Rightarrow> session \<Rightarrow> (dav_repos_resource \<times> session) option" where
  "copy_created env t copy_parent copy sn =
     map_option (\<lambda>(e, c, p, sn). (c, sn)) (dav_repos_create_resource env True False (copy\<lparr>dr_resourcetype := t\<rparr>) (Some copy_parent) sn)"

definition controlled_children :: "int \<Rightarrow> bool" where
  "controlled_children av \<longleftrightarrow> av \<in> {DAV_AV_CHECKOUT_CHECKIN, DAV_AV_CHECKOUT_UNLOCKED_CHECKIN, DAV_AV_CHECKOUT,
     DAV_AV_LOCKED_CHECKOUT, DAV_AV_VERSION_CONTROL}"

definition sabridge_create_copy :: "env \<Rightarrow> dav_repos_resource \<Rightarrow> dav_repos_resource \<Rightarrow> session \<Rightarrow> outcome" where
  "sabridge_create_copy env r copy_parent sn =
     (case sabridge_new_dbr_from_dbr r of
        None \<Rightarrow> None
      | Some c \<Rightarrow>
          (let c = c\<lparr>dr_parent_id := dr_serialno copy_parent, dr_displayname := dr_displayname r, dr_uri := None\<rparr>
           in if has_body (dr_resourcetype r)
              then (case copy_created env dav_repos_RESOURCE copy_parent c sn of
                      None \<Rightarrow> None
                    | Some (c, sn) \<Rightarrow>
                        step_ok (sabridge_copy_medium env r c sn)
                          (\<lambda>c sn. if controlled_children (dr_av_new_children copy_parent)
                                  then dav_repos_vsn_control env c (Some copy_parent) sn else Some (None, c, sn)))
              else if is_collection (dr_resourcetype r)
              then (case copy_created env dav_repos_COLLECTION copy_parent c sn of
                      None \<Rightarrow> None
                    | Some (c, sn) \<Rightarrow> sabridge_copy_collection r c sn)
              else Some (None, c, sn)))"

section \<open>Removing what a copy has not replaced\<close>

text \<open>
  \<open>sabridge_clear_unused\<close> walks over a list that grows at its end. Listing an empty collection sets the pointer
  to the end to \<open>NULL\<close> (\<open>tail = False\<close>), and the next collection that is listed is then written through
  it.
\<close>

lemma clear_measure:
  assumes "i \<in> set in_use" "i \<notin> set cleared"
  shows "card (set in_use - insert i (set cleared)) < card (set in_use - set cleared)"
  using assms by (intro psubset_card_mono) auto

function clear_loop :: "env \<Rightarrow> id list \<Rightarrow> id list \<Rightarrow> bool \<Rightarrow> dav_repos_resource list \<Rightarrow> session \<Rightarrow> (dav_error option \<times> session) option" where
  "clear_loop env in_use cleared tail [] sn = Some (None, sn)"
| "clear_loop env in_use cleared tail (r # rs) sn =
     (if dr_serialno r \<in> set cleared then clear_loop env in_use cleared tail rs sn
      else if dr_serialno r \<notin> set in_use
      then (case unbind env r sn of
              None \<Rightarrow> None
            | Some (Some e, r', sn) \<Rightarrow> Some (Some e, sn)
            | Some (None, r', sn) \<Rightarrow> clear_loop env in_use (dr_serialno r # cleared) tail rs sn)
      else if \<not> is_collection (dr_resourcetype r) then clear_loop env in_use (dr_serialno r # cleared) tail rs sn
      else if \<not> tail then None
      else (case sabridge_get_collection_children None r 1 (sn_db sn) of
              None \<Rightarrow> None
            | Some (Inl e, s) \<Rightarrow> clear_loop env in_use (dr_serialno r # cleared) tail rs (put_db s sn)
            | Some (Inr (cs, n), s) \<Rightarrow> clear_loop env in_use (dr_serialno r # cleared) (cs \<noteq> []) (rs @ cs) (put_db s sn)))"
  by pat_completeness auto

termination
  by (relation "inv_image (less_than <*lex*> less_than)
        (\<lambda>(env, in_use, cleared, tail, rs, sn). (card (set in_use - set cleared), length rs))")
    (auto intro: clear_measure simp del: card_Diff_insert)

definition sabridge_clear_unused :: "env \<Rightarrow> dav_repos_resource \<Rightarrow> id list \<Rightarrow> session \<Rightarrow> (dav_error option \<times> session) option" where
  "sabridge_clear_unused env res in_use sn = clear_loop env in_use [] True [res] sn"

section \<open>Copying a tree\<close>

text \<open>\<open>struct dav_response\<close>, one entry of the multi-status answer.\<close>

record dav_response =
  rp_href :: "string option"
  rp_desc :: "string option"
  rp_status :: nat

record copying =
  cp_map :: "string \<rightharpoonup> dav_repos_resource"
  cp_in_use :: "id list"
  cp_binds :: "dbms_bind_list list"
  cp_responses :: "dav_response list"

text \<open>The resource that is at the corresponding place below the destination, when it can be used:
  the result is the structure to bind to, if any, and whether it is there already.\<close>

definition reuse_child :: "env \<Rightarrow> dav_repos_resource \<Rightarrow> dav_repos_resource \<Rightarrow> dav_repos_resource \<Rightarrow> copying \<Rightarrow> session
    \<Rightarrow> ((dav_error \<times> session) + (dav_repos_resource option \<times> copying \<times> session)) option" where
  "reuse_child env r_src r_dst iter cp sn =
     (case sabridge_new_dbr_from_dbr r_dst of
        None \<Rightarrow> None
      | Some c \<Rightarrow>
          (case sabridge_get_property (c\<lparr>dr_uri := Some (column (dr_uri r_dst) @ drop (length (column (dr_uri r_src))) (column (dr_uri iter)))\<rparr>) (sn_db sn) of
             None \<Rightarrow> None
           | Some (Some e, c, s) \<Rightarrow> Some (Inl (e, put_db s sn))
           | Some (None, c, s) \<Rightarrow>
               (let sn = put_db s sn
                in if dr_serialno c = 0 \<or> dr_serialno c \<in> set (cp_in_use cp) then Some (Inr (None, cp, sn))
                   else case sabridge_copy_if_compatible env iter c sn of
                          None \<Rightarrow> None
                        | Some (e, copied, c, sn) \<Rightarrow>
                            (let cp = (case e of None \<Rightarrow> cp
                                 | Some e \<Rightarrow> cp\<lparr>cp_responses := \<lparr>rp_href = dr_uri c, rp_desc = desc e, rp_status = status e\<rparr> # cp_responses cp\<rparr>)
                             in if copied \<or> e \<noteq> None
                                then Some (Inr (Some c, cp\<lparr>cp_in_use := dr_serialno c # cp_in_use cp\<rparr>, sn))
                                else Some (Inr (None, cp, sn))))))"

definition enter_copy :: "dav_repos_resource \<Rightarrow> dav_repos_resource \<Rightarrow> bool \<Rightarrow> dav_repos_resource \<Rightarrow> copying \<Rightarrow> copying" where
  "enter_copy parent_copy copy dst_reused iter cp =
     (let cp = cp\<lparr>cp_map := (cp_map cp)(column (dr_uri iter) \<mapsto> copy)\<rparr>
      in if dst_reused then cp
         else cp\<lparr>cp_binds := cp_binds cp @ [zero_bind\<lparr>parent_id := dr_serialno parent_copy,
                bind_name := Some (basename (column (dr_uri iter))), resource_id := dr_serialno copy\<rparr>]\<rparr>)"

text \<open>One round of the loop of \<open>sabridge_depth_inf_copy_coll\<close>. A resource seen before is bound again to its copy.\<close>

definition copy_round :: "env \<Rightarrow> dav_repos_resource \<Rightarrow> dav_repos_resource \<Rightarrow> dav_repos_resource \<Rightarrow> copying \<Rightarrow> session
    \<Rightarrow> (dav_error option \<times> copying \<times> session) option" where
  "copy_round env r_src r_dst iter cp sn =
     (case cp_map cp (get_parent_uri (e_dirstr env) (column (dr_uri iter))) of
        None \<Rightarrow> None
      | Some parent_copy \<Rightarrow>
          (case (case dr_bind iter of
                   Some u \<Rightarrow> Some (Inr (map_option (\<lambda>c. (c, False)) (cp_map cp u), cp, sn))
                 | None \<Rightarrow>
                     if dr_serialno parent_copy \<in> set (cp_in_use cp)
                     then map_option (map_sum id (\<lambda>(c, cp, sn). (map_option (\<lambda>c. (c, True)) c, cp, sn))) (reuse_child env r_src r_dst iter cp sn)
                     else Some (Inr (None, cp, sn))) of
             None \<Rightarrow> None
           | Some (Inl (e, sn)) \<Rightarrow> Some (Some e, cp, sn)
           | Some (Inr (Some (c, reused), cp, sn)) \<Rightarrow> Some (None, enter_copy parent_copy c reused iter cp, sn)
           | Some (Inr (None, cp, sn)) \<Rightarrow>
               (case sabridge_create_copy env iter parent_copy sn of
                  None \<Rightarrow> None
                | Some (Some e, c, sn) \<Rightarrow> Some (Some e, cp, sn)
                | Some (None, c, sn) \<Rightarrow> Some (None, enter_copy parent_copy c False iter cp, sn))))"

fun copy_loop :: "env \<Rightarrow> dav_repos_resource \<Rightarrow> dav_repos_resource \<Rightarrow> dav_repos_resource list \<Rightarrow> copying \<Rightarrow> session
    \<Rightarrow> (dav_error option \<times> copying \<times> session) option" where
  "copy_loop env r_src r_dst [] cp sn = Some (None, cp, sn)"
| "copy_loop env r_src r_dst (i # is) cp sn =
     (case copy_round env r_src r_dst i cp sn of
        None \<Rightarrow> None
      | Some (Some e, cp, sn) \<Rightarrow> Some (Some e, cp, sn)
      | Some (None, cp, sn) \<Rightarrow> copy_loop env r_src r_dst is cp sn)"

definition sabridge_depth_inf_copy_coll :: "env \<Rightarrow> dav_repos_resource \<Rightarrow> dav_repos_resource \<Rightarrow> dav_response list \<Rightarrow> session
    \<Rightarrow> (dav_error option \<times> dav_response list \<times> session) option" where
  "sabridge_depth_inf_copy_coll env r_src r_dst responses sn =
     (case sabridge_get_collection_children (Some (dav_repos_get_principal_id (e_principal env), ''read'')) r_src DAV_INFINITY (sn_db sn) of
        Some (Inr (items, n), s) \<Rightarrow>
          (case copy_loop env r_src r_dst items
                  \<lparr>cp_map = [column (dr_uri r_src) \<mapsto> r_dst], cp_in_use = [dr_serialno r_dst], cp_binds = [], cp_responses = responses\<rparr> (put_db s sn) of
             None \<Rightarrow> None
           | Some (Some e, cp, sn) \<Rightarrow> Some (Some e, cp_responses cp, sn)
           | Some (None, cp, sn) \<Rightarrow>
               (case sabridge_clear_unused env r_dst (cp_in_use cp) sn of
                  None \<Rightarrow> None
                | Some (Some e, sn) \<Rightarrow> Some (Some e, cp_responses cp, sn)
                | Some (None, sn) \<Rightarrow>
                    if cp_binds cp = [] then Some (None, cp_responses cp, sn)
                    else map_option (\<lambda>(e, s). (e, cp_responses cp, put_db s sn))
                           (dbms_insert_bind_list (e_escape env) (e_now env) (cp_binds cp) (int (length (cp_binds cp))) (sn_db sn))))
      | _ \<Rightarrow> None)"

section \<open>Copying onto a path\<close>

definition sabridge_copy_medium_w_create :: "env \<Rightarrow> dav_repos_resource \<Rightarrow> dav_repos_resource \<Rightarrow> session \<Rightarrow> outcome" where
  "sabridge_copy_medium_w_create env r_src r_dst sn =
     step_ok
       (if dr_serialno r_dst \<noteq> 0 \<and> dr_resourcetype r_dst \<noteq> dav_repos_RESOURCE \<and> dr_resourcetype r_dst \<noteq> dav_repos_VERSIONED
           \<and> dr_resourcetype r_dst \<noteq> dav_repos_LOCKNULL
        then map_option (\<lambda>(e, r, sn). (e, if e = None then r\<lparr>dr_serialno := 0\<rparr> else r, sn)) (unbind env r_dst sn)
        else Some (None, r_dst, sn))
       (\<lambda>r_dst sn.
          case (if dr_serialno r_dst = 0
                then map_option (\<lambda>(e, r, p, sn). (r, sn)) (sabridge_insert_resource env False False (r_dst\<lparr>dr_resourcetype := dav_repos_RESOURCE\<rparr>) None sn)
                else Some (r_dst, sn)) of
            None \<Rightarrow> None
          | Some (r_dst, sn) \<Rightarrow>
              (case (if dr_resourcetype r_dst = dav_repos_LOCKNULL
                     then map_option (\<lambda>(e, r, sn). (r, sn)) (sabridge_create_empty_body env r_dst sn)
                     else Some (r_dst, sn)) of
                 None \<Rightarrow> None
               | Some (r_dst, sn) \<Rightarrow> sabridge_copy_medium env r_src r_dst sn))"

text \<open>The destination of a collection is created without its binding, filled, and bound at the end, after
  what was there before has been unbound.\<close>

definition coll_destination :: "env \<Rightarrow> dav_repos_resource \<Rightarrow> session \<Rightarrow> (dav_error option \<times> dav_repos_resource \<times> (id \<times> id) option \<times> session) option" where
  "coll_destination env r_dst sn =
     (if dr_serialno r_dst = 0 \<or> \<not> is_collection (dr_resourcetype r_dst) \<and> dr_resourcetype r_dst \<noteq> dav_repos_LOCKNULL
      then (case sabridge_retrieve_parent (e_dirstr env) (r_dst\<lparr>dr_resourcetype := dav_repos_COLLECTION\<rparr>) (sn_db sn) of
              None \<Rightarrow> None
            | Some (p, r, s) \<Rightarrow>
                map_option (\<lambda>(e, r, q, sn). (e, r, Some (dr_serialno p, dr_serialno r_dst), sn))
                  (sabridge_insert_resource env True False (r\<lparr>dr_parent_id := dr_serialno p\<rparr>) None (put_db s sn)))
      else Some (None, r_dst, None, sn))"

definition unbind_previous :: "env \<Rightarrow> id \<Rightarrow> dav_repos_resource \<Rightarrow> session \<Rightarrow> outcome" where
  "unbind_previous env prev r_dst sn =
     (if prev = 0 then Some (None, r_dst, sn)
      else case sabridge_new_dbr_from_dbr r_dst of
        None \<Rightarrow> None
      | Some p \<Rightarrow> map_option (\<lambda>(e, q, sn). (e, r_dst, sn)) (unbind env (p\<lparr>dr_serialno := prev, dr_uri := dr_uri r_dst\<rparr>) sn))"

definition sabridge_copy_coll_w_create :: "env \<Rightarrow> dav_repos_resource \<Rightarrow> dav_repos_resource \<Rightarrow> int \<Rightarrow> dav_response list \<Rightarrow> session
    \<Rightarrow> (dav_error option \<times> dav_repos_resource \<times> dav_response list \<times> session) option" where
  "sabridge_copy_coll_w_create env r_src r_dst deep responses sn =
     (case coll_destination env r_dst sn of
        None \<Rightarrow> None
      | Some (Some e, r_dst, created, sn) \<Rightarrow> Some (Some e, r_dst, responses, sn)
      | Some (None, r_dst, created, sn) \<Rightarrow>
          (case sabridge_copy_dead_props (dr_serialno r_src) (dr_serialno r_dst) (sn_db sn) of
             (Some e, s) \<Rightarrow> Some (Some e, r_dst, responses, put_db s sn)
           | (None, s) \<Rightarrow>
               (case (if deep = DAV_INFINITY then sabridge_depth_inf_copy_coll env r_src r_dst responses (put_db s sn)
                      else Some (None, responses, put_db s sn)) of
                  None \<Rightarrow> None
                | Some (Some e, responses, sn) \<Rightarrow> Some (Some e, r_dst, responses, sn)
                | Some (None, responses, sn) \<Rightarrow>
                    (case created of
                       None \<Rightarrow> Some (None, r_dst, responses, sn)
                     | Some (parent, prev) \<Rightarrow>
                         map_option (\<lambda>(e, r, sn). (e, r, responses, sn))
                           (step_ok (unbind_previous env prev r_dst sn)
                              (\<lambda>r sn. in_db (dbms_insert_bind (e_now env) (dr_serialno r) parent (Some (basename (column (dr_uri r))))) r sn))))))"

section \<open>Bindings\<close>

definition dav_repos_is_bindable :: "dav_resource \<Rightarrow> bool" where
  "dav_repos_is_bindable rs \<longleftrightarrow> rs_type rs \<noteq> DAV_RESOURCE_TYPE_HISTORY"

text \<open>The structures of mod_dav: \<open>update_flags\<close> is \<open>dav_repos_update_dbr_resource\<close>.\<close>

definition reread :: "dav_repos_resource \<Rightarrow> session \<Rightarrow> outcome" where
  "reread r sn =
     (case sabridge_get_property r (sn_db sn) of
        None \<Rightarrow> None
      | Some (Some e, r, s) \<Rightarrow> Some (Some e, r, put_db s sn)
      | Some (None, r, s) \<Rightarrow> map_option (\<lambda>r. (None, r, put_db s sn)) (dav_repos_update_dbr_resource r))"

text \<open>The error of reading the new binding is not looked at.\<close>

definition dav_repos_bind_resource :: "env \<Rightarrow> dav_repos_resource \<Rightarrow> dav_repos_resource \<Rightarrow> string \<Rightarrow> dav_repos_resource option \<Rightarrow> session
    \<Rightarrow> (dav_error option \<times> dav_repos_resource option \<times> session) option" where
  "dav_repos_bind_resource env r coll segment binding sn =
     (case dbms_insert_bind (e_now env) (dr_serialno r) (dr_serialno coll) (Some segment) (sn_db sn) of
        (e, s) \<Rightarrow>
          (case binding of
             None \<Rightarrow> Some (e, None, put_db s sn)
           | Some b \<Rightarrow>
               (case sabridge_get_property b s of
                  None \<Rightarrow> None
                | Some (e2, b, s) \<Rightarrow> map_option (\<lambda>b. (e, Some b, put_db s sn)) (dav_repos_update_dbr_resource b))))"

definition dav_repos_unbind_resource :: "env \<Rightarrow> dav_repos_resource \<Rightarrow> session \<Rightarrow> outcome" where
  "dav_repos_unbind_resource = unbind"

text \<open>\<open>dav_repos_rebind_resource\<close>: the destination is deleted, the binding renamed, the old destination
  collected; then both structures are read again and the content type is guessed from the new name.
  The type is a guess from the path of the body, and a resource without body is a read through
  \<open>NULL\<close>.\<close>

definition drop_destination :: "env \<Rightarrow> dav_repos_resource \<Rightarrow> session \<Rightarrow> outcome" where
  "drop_destination env nb sn =
     map_option (\<lambda>(e, r, sn). (e, r\<lparr>dr_uri := dr_uri nb\<rparr>, sn)) (unbind env (nb\<lparr>dr_uri := None\<rparr>) sn)"

definition guess_type :: "env \<Rightarrow> dav_repos_resource \<Rightarrow> session \<Rightarrow> outcome" where
  "guess_type env r sn =
     (if dr_resourcetype r \<noteq> dav_repos_RESOURCE then Some (None, r, sn)
      else case dr_sha1str r of
        None \<Rightarrow> None
      | Some h \<Rightarrow>
          (case e_path env h of
             None \<Rightarrow> None
           | Some (Inl e) \<Rightarrow> Some (Some e, r, sn)
           | Some (Inr p) \<Rightarrow>
               in_db_r (dbms_update_media_props (e_now env)) (r\<lparr>dr_getcontenttype := Some (e_mime env (column (dr_uri r)) p)\<rparr>) sn))"

definition dav_repos_rebind_resource ::
  "env \<Rightarrow> dav_repos_resource \<Rightarrow> string \<Rightarrow> dav_repos_resource \<Rightarrow> dav_repos_resource \<Rightarrow> session
    \<Rightarrow> (dav_error option \<times> dav_repos_resource \<times> dav_repos_resource \<times> session) option" where
  "dav_repos_rebind_resource env coll segment href nb sn =
     (case (sabridge_retrieve_parent (e_dirstr env) href (sn_db sn), dr_resource nb) of
        (Some (hp, href, s), Some nrs) \<Rightarrow>
          (case (if rs_exists nrs then dbms_delete_bind (dr_serialno coll) (dr_serialno nb) segment s else (None, s)) of
             (Some e, s) \<Rightarrow> Some (Some e, href, nb, put_db s sn)
           | (None, s) \<Rightarrow>
               (case dbms_rebind_resource (e_now env) (dr_serialno hp) (basename (column (dr_uri href))) (dr_serialno coll) segment s of
                  (Some e, s) \<Rightarrow> Some (Some e, href, nb, put_db s sn)
                | (None, s) \<Rightarrow>
                    (case step_ok (if rs_exists nrs then drop_destination env nb (put_db s sn) else Some (None, nb, put_db s sn))
                            (\<lambda>nb sn. map_option (\<lambda>(e, h, sn). (e, nb, sn)) (reread href sn)) of
                       None \<Rightarrow> None
                     | Some (Some e, nb, sn) \<Rightarrow> Some (Some e, href, nb, sn)
                     | Some (None, nb, sn) \<Rightarrow>
                         map_option (\<lambda>(e, nb, sn). (e, href, nb, sn))
                           (step_ok (step_ok (reread nb sn) (guess_type env))
                              (\<lambda>nb sn. in_db (dbms_change_acl_parent (dr_serialno href) (dr_serialno coll)) nb sn)))))
      | _ \<Rightarrow> None)"

section \<open>The handlers\<close>

definition HTTP_METHOD_NOT_ALLOWED :: nat where "HTTP_METHOD_NOT_ALLOWED = 405"
definition HTTP_MULTI_STATUS :: nat where "HTTP_MULTI_STATUS = 207"

text \<open>\<open>dav_push_error\<close> keeps the status; a destination without a parent is a read through \<open>NULL\<close>.\<close>

definition dav_repos_check_dst_parent ::
  "env \<Rightarrow> dav_repos_resource \<Rightarrow> db \<Rightarrow> (dav_error option \<times> dav_repos_resource option \<times> dav_repos_resource \<times> db) option" where
  "dav_repos_check_dst_parent env dst s =
     (case dav_repos_get_parent_resource (e_dirstr env) dst s of
        None \<Rightarrow> None
      | Some (Inl e, dst, s) \<Rightarrow> Some (Some (dav_new_error (status e) ''Could not fetch parent resource information.''), None, dst, s)
      | Some (Inr None, dst, s) \<Rightarrow> None
      | Some (Inr (Some p), dst, s) \<Rightarrow>
          Some (case dr_resource p of
                  None \<Rightarrow> Some (dav_new_error HTTP_CONFLICT ''No parent collection.'')
                | Some rs \<Rightarrow> if rs_exists rs \<and> rs_collection rs then None else Some (dav_new_error HTTP_CONFLICT ''No parent collection.''),
                Some p, dst, s))"

definition type_is :: "dav_resource_type list \<Rightarrow> dav_repos_resource \<Rightarrow> bool" where
  "type_is ts r = (case dr_resource r of None \<Rightarrow> False | Some rs \<Rightarrow> rs_type rs \<in> set ts)"

definition chomp_uri :: "dav_repos_resource \<Rightarrow> dav_repos_resource" where
  "chomp_uri r = r\<lparr>dr_uri := map_option dav_repos_chomp_slash (dr_uri r)\<rparr>"

definition dav_repos_copy_resource ::
  "env \<Rightarrow> dav_repos_resource \<Rightarrow> dav_repos_resource \<Rightarrow> int \<Rightarrow> session
    \<Rightarrow> (dav_error option \<times> dav_repos_resource \<times> dav_response list \<times> session) option" where
  "dav_repos_copy_resource env src dst deep sn =
     (if type_is [DAV_RESOURCE_TYPE_HISTORY] src \<or> type_is [DAV_RESOURCE_TYPE_VERSION, DAV_RESOURCE_TYPE_HISTORY] dst
      then Some (Some (dav_new_error HTTP_METHOD_NOT_ALLOWED ''Can not copy or move version resource.''), dst, [], sn)
      else case dav_repos_check_dst_parent env dst (sn_db sn) of
        None \<Rightarrow> None
      | Some (Some e, p, dst, s) \<Rightarrow> Some (Some e, dst, [], put_db s sn)
      | Some (None, p, dst, s) \<Rightarrow>
          (let src = chomp_uri src; dst = chomp_uri dst; sn = put_db s sn
           in if dr_uri src = None \<or> dr_uri dst = None then None
              else if dr_uri src = dr_uri dst
              then Some (Some (dav_new_error HTTP_BAD_REQUEST ''Source and destination are same while copying DBMS.''), dst, [], sn)
              else let dst = dst\<lparr>dr_displayname := dr_displayname src\<rparr>
                in map_option (\<lambda>(e, dst, rs, sn). (if rs = [] then e else Some (dav_new_error HTTP_MULTI_STATUS ''Error copying''), dst, rs, sn))
                     (if has_body (dr_resourcetype src)
                      then map_option (\<lambda>(e, dst, sn). (e, dst, [], sn)) (sabridge_copy_medium_w_create env src dst sn)
                      else if is_collection (dr_resourcetype src) then sabridge_copy_coll_w_create env src dst deep [] sn
                      else Some (None, dst, [], sn))))"

definition dav_repos_move_resource ::
  "env \<Rightarrow> dav_repos_resource \<Rightarrow> dav_repos_resource \<Rightarrow> session
    \<Rightarrow> (dav_error option \<times> dav_repos_resource \<times> dav_repos_resource \<times> session) option" where
  "dav_repos_move_resource env src dst sn =
     (if type_is [DAV_RESOURCE_TYPE_VERSION, DAV_RESOURCE_TYPE_HISTORY] src \<or> type_is [DAV_RESOURCE_TYPE_VERSION, DAV_RESOURCE_TYPE_HISTORY] dst
      then Some (Some (dav_new_error HTTP_METHOD_NOT_ALLOWED ''Can not copy or move version resource.''), src, dst, sn)
      else case dav_repos_check_dst_parent env dst (sn_db sn) of
        None \<Rightarrow> None
      | Some (Some e, p, dst, s) \<Rightarrow> Some (Some e, src, dst, put_db s sn)
      | Some (None, None, dst, s) \<Rightarrow> None
      | Some (None, Some p, dst, s) \<Rightarrow>
          if dr_uri src = None \<or> dr_uri dst = None then None
          else if dr_uri src = dr_uri dst
          then Some (Some (dav_new_error HTTP_BAD_REQUEST ''Source and destination are same while moving DBMS.''), src, dst, put_db s sn)
          else dav_repos_rebind_resource env p (basename (column (dr_uri dst))) src dst (put_db s sn))"

definition dav_repos_remove_resource :: "env \<Rightarrow> dav_repos_resource \<Rightarrow> session \<Rightarrow> outcome" where
  "dav_repos_remove_resource env r sn =
     (if type_is [DAV_RESOURCE_TYPE_VERSION] r
      then Some (Some (dav_new_error HTTP_METHOD_NOT_ALLOWED ''<DAV:no-version-delete>''), r, sn)
      else step_ok (unbind env r sn) (\<lambda>r sn. Some (None, set_flags (\<lambda>rs. rs\<lparr>rs_exists := False\<rparr>) r, sn)))"

end
