(* ===== verification/Streams.thy ===== *)
theory Streams
  imports Copying Util
begin

text \<open>
  Reading and writing bodies: the streams of \<^verbatim>\<open>repos.c\<close> with the file functions of \<^verbatim>\<open>bridge.c\<close>, the \<open>PUT\<close> of a
  user (\<^verbatim>\<open>repos.c\<close>, \<^verbatim>\<open>principal.c\<close>), \<open>dav_repos_get_resource\<close> and the delivery of a file.

  The contents of files are a table from paths; the directory of bodies in \<open>world\<close> still holds the
  names. The record \<open>fenv\<close> has what comes from outside: the digest functions, the answers of the file
  system, the \<open>Content-Type\<close> of the request, the XML parser, the provider of profiles, and the
  uninitialised variable that \<open>dav_repos_seek_stream\<close> seeks to.
\<close>

record dav_repos_user_profile =
  f_id :: id
  f_email :: "string option"
  f_username :: "string option"
  f_password_hash :: "string option"
  f_displayname :: "string option"
  f_otp :: "string option"

text \<open>The children of the root element \<open>user\<close> of a document, without a namespace.\<close>

record user_doc =
  x_password :: "string option"
  x_password_hash :: "string option"
  x_email :: "string option"
  x_displayname :: "string option"
  x_no_profile :: "string option"
  x_otp :: "string option"
  x_cur_password :: "string option"

record fenv =
  fe_env :: env
  fe_tmp_dir :: string
  fe_create_ok :: "string \<Rightarrow> bool"
  fe_rename_ok :: "string \<Rightarrow> string \<Rightarrow> bool"
  fe_copy_ok :: "string \<Rightarrow> string \<Rightarrow> bool"
  fe_write :: "string \<Rightarrow> nat option"
  fe_garbage :: nat
  fe_sha1 :: "string \<Rightarrow> 8 word list"
  fe_md5 :: "string \<Rightarrow> 8 word list"
  fe_content_type :: "string option"
  fe_user_doc :: "string \<Rightarrow> user_doc option"
  fe_email_ok :: "string \<Rightarrow> bool"
  fe_lowercase :: "string \<Rightarrow> string"
  fe_profile_create :: "(dav_repos_user_profile \<Rightarrow> dav_error option) option"
  fe_profile_update :: "(dav_repos_user_profile \<Rightarrow> dav_error option) option"

text \<open>The state of a request with streams; \<open>io_done\<close> is the note \<open>put_stream_done\<close> of the request.\<close>

record io =
  io_session :: session
  io_files :: "(string \<times> string) list"
  io_done :: "string option"

definition put_session :: "session \<Rightarrow> io \<Rightarrow> io" where
  "put_session sn io = io\<lparr>io_session := sn\<rparr>"

definition put_file :: "string \<Rightarrow> string \<Rightarrow> io \<Rightarrow> io" where
  "put_file p c io = io\<lparr>io_files := (p, c) # filter (\<lambda>(q, _). q \<noteq> p) (io_files io)\<rparr>"

definition remove_file :: "string \<Rightarrow> io \<Rightarrow> io" where
  "remove_file p io = io\<lparr>io_files := filter (\<lambda>(q, _). q \<noteq> p) (io_files io)\<rparr>"

abbreviation read_file :: "string \<Rightarrow> io \<Rightarrow> string option" where
  "read_file p io \<equiv> map_of (io_files io) p"

text \<open>\<open>dav_stream\<close>: the path of the temporary file and the offset in it.\<close>

record dav_stream =
  ds_inserted :: bool
  ds_path :: string
  ds_pos :: nat

datatype stream_mode = DAV_MODE_WRITE_TRUNC | DAV_MODE_WRITE_SEEKABLE

text \<open>A result of \<open>None\<close> is again a read through a null or uninitialised pointer; \<open>%s\<close> prints \<open>NULL\<close> as \<open>(null)\<close>.\<close>

type_synonym io_outcome = "(dav_error option \<times> dav_repos_resource \<times> io) option"

definition printed :: "string option \<Rightarrow> string" where
  "printed x = (case x of None \<Rightarrow> ''(null)'' | Some v \<Rightarrow> v)"

definition on_session :: "(session \<Rightarrow> outcome) \<Rightarrow> io \<Rightarrow> io_outcome" where
  "on_session f io = map_option (\<lambda>(e, r, sn). (e, r, put_session sn io)) (f (io_session io))"

section \<open>Files of bodies\<close>

definition tmp_path :: "fenv \<Rightarrow> dav_repos_resource \<Rightarrow> string" where
  "tmp_path fe r = fe_tmp_dir fe @ ''/'' @ printed (dr_uuid r)"

text \<open>The path of the body: without a digest, and when its directory cannot be made, there is none.\<close>

definition body_path :: "fenv \<Rightarrow> dav_repos_resource \<Rightarrow> string option" where
  "body_path fe r =
     (case dr_sha1str r of
        None \<Rightarrow> None
      | Some h \<Rightarrow> (case e_path (fe_env fe) h of Some (Inr p) \<Rightarrow> Some p | _ \<Rightarrow> None))"

definition sabridge_get_new_file :: "fenv \<Rightarrow> dav_repos_resource \<Rightarrow> io \<Rightarrow> string \<times> io" where
  "sabridge_get_new_file fe r io =
     (let p = tmp_path fe r in (p, if fe_create_ok fe p then put_file p [] io else io))"

definition sabridge_get_resource_file :: "fenv \<Rightarrow> dav_repos_resource \<Rightarrow> io \<Rightarrow> (string \<times> io) option" where
  "sabridge_get_resource_file fe r io =
     (case body_path fe r of
        None \<Rightarrow> None
      | Some b \<Rightarrow>
          (let p = tmp_path fe r
           in Some (p, case read_file b io of
                         None \<Rightarrow> io
                       | Some c \<Rightarrow> if fe_copy_ok fe b p then put_file p c io else io)))"

text \<open>A failure to rename is only written to the log.\<close>

definition sabridge_put_resource_file :: "fenv \<Rightarrow> dav_repos_resource \<Rightarrow> string \<Rightarrow> io \<Rightarrow> io option" where
  "sabridge_put_resource_file fe r p io =
     (case body_path fe r of
        None \<Rightarrow> None
      | Some b \<Rightarrow>
          (case read_file p io of
             Some c \<Rightarrow>
               if fe_rename_ok fe p b
               then (let w = sn_world (io_session io)
                     in Some (put_session (put_world (w\<lparr>w_disk := List.insert (column (dr_sha1str r)) (w_disk w)\<rparr>) (io_session io))
                                (put_file b c (remove_file p io))))
               else Some io
           | None \<Rightarrow> Some io))"

definition sabridge_getetag_dbr :: "dav_repos_resource \<Rightarrow> string option" where
  "sabridge_getetag_dbr r = map_option (\<lambda>h. [CHR 0x22] @ h @ [CHR 0x22]) (dr_sha1str r)"

definition dav_repos_getetag :: "dav_repos_resource \<Rightarrow> string option option" where
  "dav_repos_getetag r =
     (case dr_resource r of
        None \<Rightarrow> None
      | Some rs \<Rightarrow> Some (if rs_exists rs then sabridge_getetag_dbr r else None))"

text \<open>Delivery: the file is sent up to the length that the database has.\<close>

definition sabridge_deliver :: "fenv \<Rightarrow> dav_repos_resource \<Rightarrow> io \<Rightarrow> (dav_error + string) option" where
  "sabridge_deliver fe r io =
     (case dr_sha1str r of
        None \<Rightarrow> None
      | Some h \<Rightarrow>
          (case e_path (fe_env fe) h of
             None \<Rightarrow> None
           | Some (Inl e) \<Rightarrow> Some (Inl e)
           | Some (Inr p) \<Rightarrow>
               (case read_file p io of
                  None \<Rightarrow> Some (Inl (dav_new_error HTTP_INTERNAL_SERVER_ERROR ''Could not open file''))
                | Some c \<Rightarrow> Some (Inr (take (nat (dr_getcontentlength r)) c)))))"

section \<open>Getting a resource\<close>

text \<open>
  \<open>dav_repos_get_resource\<close>: a new structure for the URI of the request, filled from the database. The
  path of the file that the server made of the request is \<open>pathname\<close>; the answer has the flag for clearing
  \<open>path_info\<close>.
\<close>

definition dav_repos_new_resource :: "bool \<Rightarrow> string \<Rightarrow> dav_error + dav_repos_resource" where
  "dav_repos_new_resource have_db root_path =
     (if \<not> have_db then Inl (dav_new_error HTTP_INTERNAL_SERVER_ERROR ''Couldn't initialize connection to database'')
      else Inr (zero_dbr\<lparr>dr_root_path := root_path, dr_resource := Some zero_resource\<rparr>))"

definition dav_repos_get_resource :: "bool \<Rightarrow> string \<Rightarrow> string \<Rightarrow> string \<Rightarrow> db \<Rightarrow> ((dav_error + dav_repos_resource) \<times> db) option" where
  "dav_repos_get_resource have_db root_prefix filename req_uri s =
     (case dav_repos_new_resource have_db (dav_repos_chomp_slash root_prefix) of
        Inl e \<Rightarrow> Some (Inl e, s)
      | Inr r \<Rightarrow>
          (let u = dav_repos_chomp_trailing_slash req_uri;
               r = r\<lparr>dr_uri := Some u,
                     dr_resource := Some (zero_resource\<lparr>rs_uri := Some u, rs_pathname := Some (dav_repos_chomp_slash filename)\<rparr>)\<rparr>
           in case sabridge_get_property r s of
                None \<Rightarrow> None
              | Some (Some e, r, s) \<Rightarrow> Some (Inl e, s)
              | Some (None, r, s) \<Rightarrow>
                  if dr_serialno r \<noteq> 0
                  then map_option (\<lambda>r. (Inr (r\<lparr>dr_resource := map_option (\<lambda>rs. rs\<lparr>rs_working :=
                           (dr_checked_state r = DAV_RESOURCE_CHECKED_OUT)\<rparr>) (dr_resource r)\<rparr>), s))
                         (dav_repos_update_dbr_resource r)
                  else Some (Inr (r\<lparr>dr_resource := map_option (\<lambda>rs. rs\<lparr>rs_exists := False, rs_type := DAV_RESOURCE_TYPE_REGULAR\<rparr>)
                           (dr_resource r)\<rparr>), s)))"

section \<open>Opening, writing, seeking\<close>

text \<open>What a \<open>PUT\<close> creates is decided by the path: everything whose URI begins with \<open>/users\<close> is a user.\<close>

definition put_type :: "string \<Rightarrow> nat" where
  "put_type u =
     (if take 6 u = ''/users'' then dav_repos_USER
      else if take 7 u = ''/groups'' then dav_repos_GROUP else dav_repos_RESOURCE)"

definition open_insert :: "fenv \<Rightarrow> dav_repos_resource \<Rightarrow> io \<Rightarrow> io_outcome" where
  "open_insert fe r io =
     (if dr_serialno r \<noteq> 0 then Some (None, r, io)
      else case dr_resource r of
        None \<Rightarrow> None
      | Some rs \<Rightarrow>
          (case rs_uri rs of
             None \<Rightarrow> None
           | Some u \<Rightarrow>
               on_session (\<lambda>sn. map_option (\<lambda>(e, r, p, sn). (e, r, sn))
                 (sabridge_insert_resource (fe_env fe) False (put_type u = dav_repos_USER)
                    (r\<lparr>dr_resourcetype := put_type u\<rparr>) None sn)) io))"

definition open_file :: "fenv \<Rightarrow> stream_mode \<Rightarrow> dav_repos_resource \<Rightarrow> io \<Rightarrow> (string \<times> io) option" where
  "open_file fe mode r io =
     (case mode of
        DAV_MODE_WRITE_TRUNC \<Rightarrow> Some (sabridge_get_new_file fe r io)
      | DAV_MODE_WRITE_SEEKABLE \<Rightarrow> sabridge_get_resource_file fe r io)"

definition dav_repos_open_stream ::
  "fenv \<Rightarrow> stream_mode \<Rightarrow> dav_repos_resource \<Rightarrow> io \<Rightarrow> (dav_error option \<times> dav_stream \<times> dav_repos_resource \<times> io) option" where
  "dav_repos_open_stream fe mode r io =
     (let ins = (dr_serialno r = 0)
      in case open_insert fe r io of
           None \<Rightarrow> None
         | Some (Some e, r, io) \<Rightarrow> Some (Some e, \<lparr>ds_inserted = False, ds_path = [], ds_pos = 0\<rparr>, r, io)
         | Some (None, r, io) \<Rightarrow>
             (case io_done io of
                Some p \<Rightarrow> Some (None, \<lparr>ds_inserted = ins, ds_path = p, ds_pos = 0\<rparr>, r, io)
              | None \<Rightarrow>
                  (case open_file fe mode r io of
                     None \<Rightarrow> None
                   | Some (p, io) \<Rightarrow>
                       Some (if read_file p io = None
                             then Some (dav_new_error HTTP_INTERNAL_SERVER_ERROR ''Unable to open file for write'') else None,
                             \<lparr>ds_inserted = ins, ds_path = p, ds_pos = 0\<rparr>, r, io))))"

definition write_at :: "nat \<Rightarrow> string \<Rightarrow> string \<Rightarrow> string" where
  "write_at pos buf c = take pos (c @ replicate (pos - length c) (char_of (0 :: nat))) @ buf @ drop (pos + length buf) c"

definition dav_repos_write_stream :: "fenv \<Rightarrow> string \<Rightarrow> dav_stream \<Rightarrow> io \<Rightarrow> dav_error option \<times> dav_stream \<times> io" where
  "dav_repos_write_stream fe buf st io =
     (if io_done io \<noteq> None then (None, st, io)
      else case fe_write fe buf of
        None \<Rightarrow> (Some (dav_new_error HTTP_INTERNAL_SERVER_ERROR ''Unable to write to file.''), st, io)
      | Some n \<Rightarrow>
          (let b = take n buf
           in (if n \<noteq> length buf then Some (dav_new_error HTTP_INTERNAL_SERVER_ERROR ''Did not write all contents.'') else None,
               st\<lparr>ds_pos := ds_pos st + length b\<rparr>,
               put_file (ds_path st) (write_at (ds_pos st) b (column (read_file (ds_path st) io))) io)))"

text \<open>\<open>apr_file_seek\<close> reads the offset to seek to from the variable that it also returns the new offset in. The
  code does not set the variable to the position it was asked for.\<close>

definition dav_repos_seek_stream :: "fenv \<Rightarrow> nat \<Rightarrow> dav_stream \<Rightarrow> io \<Rightarrow> dav_error option \<times> dav_stream" where
  "dav_repos_seek_stream fe abs_pos st io =
     (if io_done io \<noteq> None then (None, st)
      else (if fe_garbage fe \<noteq> abs_pos
            then Some (dav_new_error HTTP_INTERNAL_SERVER_ERROR ''Seek resulted in different position.'') else None,
            st\<lparr>ds_pos := fe_garbage fe\<rparr>))"

section \<open>A new user\<close>

definition initial_acl :: "env \<Rightarrow> dav_principal \<Rightarrow> dav_repos_resource \<Rightarrow> session \<Rightarrow> outcome" where
  "initial_acl env p r sn = (if e_acl_hooks env then dav_repos_create_initial_acl env p r sn else None)"

text \<open>Whether the folder could be inserted is not looked at.\<close>

definition sabridge_create_home_folder :: "env \<Rightarrow> dav_repos_resource \<Rightarrow> session \<Rightarrow> (dav_error option \<times> session) option" where
  "sabridge_create_home_folder env r sn =
     (case (sabridge_new_dbr_from_dbr r, dr_uri r) of
        (Some hf, Some u) \<Rightarrow>
          (let hf = hf\<lparr>dr_uri := Some (dr_root_path hf @ ''/home/'' @ basename u), dr_owner_id := dr_serialno r,
                       dr_resourcetype := dav_repos_COLLECTION\<rparr>
           in case sabridge_insert_resource env False True hf None sn of
                None \<Rightarrow> None
              | Some (e, hf, p, sn) \<Rightarrow>
                  map_option (\<lambda>(e, hf, sn). (e, sn)) (initial_acl env (e_principal_of_url env u) hf sn))
      | _ \<Rightarrow> None)"

text \<open>The principal of a name; the type of the name is asked of the database (the request remembers it,
  which makes no difference here: the name is new).\<close>

definition prin_by_name :: "env \<Rightarrow> string \<Rightarrow> db \<Rightarrow> dav_principal \<times> db" where
  "prin_by_name env n s =
     (if n \<in> {''all'', ''authenticated'', ''unauthenticated''}
      then (dav_repos_get_prin_by_name (e_principal_of_url env) (e_href_prefix env) (e_root_prefix env) (\<lambda>_. 0) (Some n), s)
      else case dbms_get_principal_type_from_name n s of
        (t, s) \<Rightarrow> (dav_repos_get_prin_by_name (e_principal_of_url env) (e_href_prefix env) (e_root_prefix env) (\<lambda>_. t) (Some n), s))"

text \<open>The error of the initial ACL is overwritten.\<close>

definition dav_repos_create_user :: "fenv \<Rightarrow> string \<Rightarrow> string \<Rightarrow> dav_repos_resource \<Rightarrow> session \<Rightarrow> outcome" where
  "dav_repos_create_user fe passwd_hash email r sn =
     (case dr_uri r of
        None \<Rightarrow> None
      | Some u \<Rightarrow>
          step_ok (in_db (dbms_insert_user (fe_email_ok fe) (fe_lowercase fe) (dr_serialno r) passwd_hash email) r sn)
            (\<lambda>r sn. case prin_by_name (fe_env fe) (basename u) (sn_db sn) of (p, s) \<Rightarrow>
               (case initial_acl (fe_env fe) p r (put_db s sn) of
                  None \<Rightarrow> None
                | Some (e, r, sn) \<Rightarrow>
                    (case dbms_get_principal_id_from_name ''authenticated'' (sn_db sn) of
                       (Inl e, s) \<Rightarrow> Some (Some e, r, put_db s sn)
                     | (Inr g, s) \<Rightarrow>
                         step_ok (in_db (sabridge_add_prin_to_grp g (dr_serialno r)) r (put_db s sn))
                           (\<lambda>r sn. map_option (\<lambda>(e, sn). (e, r, sn)) (sabridge_create_home_folder (fe_env fe) r sn))))))"

definition dav_repos_update_password :: "string \<Rightarrow> dav_repos_resource \<Rightarrow> db \<Rightarrow> dav_error option \<times> db" where
  "dav_repos_update_password passwd_hash r = dbms_set_user_pwhash (dr_serialno r) passwd_hash"

definition dav_repos_create_group :: "env \<Rightarrow> dav_repos_resource \<Rightarrow> session \<Rightarrow> outcome" where
  "dav_repos_create_group env r sn =
     map_option (\<lambda>(e, r, p, sn). (e, r, sn)) (sabridge_insert_resource env False False (r\<lparr>dr_resourcetype := dav_repos_GROUP\<rparr>) None sn)"

definition profile_error :: "(dav_repos_user_profile \<Rightarrow> dav_error option) option \<Rightarrow> user_doc \<Rightarrow> dav_repos_user_profile \<Rightarrow> dav_error option" where
  "profile_error hook d p = (if x_no_profile d = None then (case hook of None \<Rightarrow> None | Some f \<Rightarrow> f p) else None)"

definition put_new_user :: "fenv \<Rightarrow> user_doc \<Rightarrow> dav_repos_resource \<Rightarrow> session \<Rightarrow> outcome \<times> bool" where
  "put_new_user fe d r sn =
     (let bad = (\<lambda>m. (Some (Some (dav_new_error HTTP_BAD_REQUEST m), r, sn), True))
      in case (x_email d, x_displayname d, dr_uri r) of
           (None, _, _) \<Rightarrow> bad ''email required for new user''
         | (Some m, None, _) \<Rightarrow> bad ''displayname required for new user''
         | (Some m, Some n, u) \<Rightarrow>
             (case (case x_password_hash d of Some h \<Rightarrow> Some h | None \<Rightarrow> map_option (get_password_hash (fe_md5 fe) m) (x_password d)) of
                None \<Rightarrow> bad ''password required for new user''
              | Some h \<Rightarrow>
                  (case u of
                     None \<Rightarrow> (None, True)
                   | Some u \<Rightarrow>
                       (case profile_error (fe_profile_create fe) d \<lparr>f_id = dr_serialno r, f_email = Some m,
                               f_username = Some (basename u), f_password_hash = Some h, f_displayname = Some n, f_otp = x_otp d\<rparr> of
                          Some e \<Rightarrow> (Some (Some e, r, sn), True)
                        | None \<Rightarrow> (dav_repos_create_user fe h m r sn, False)))))"

text \<open>
  An existing user who changes the password or the address gives the current password; the boolean says that the handler returns
  at once. The error of the new password is overwritten by the outcome of the new address.
\<close>

definition current_hash :: "fenv \<Rightarrow> string option \<Rightarrow> string \<Rightarrow> string \<Rightarrow> string option \<Rightarrow> string" where
  "current_hash fe cur_email type cur_passwd u =
     get_password_hash (fe_md5 fe) (if type = ''Email'' then printed cur_email else basename (column u)) cur_passwd"

definition put_credentials :: "fenv \<Rightarrow> user_doc \<Rightarrow> dav_repos_resource \<Rightarrow> session \<Rightarrow> outcome \<times> bool" where
  "put_credentials fe d r sn =
     (case dbms_get_user_email (dr_serialno r) (sn_db sn) of
        (cur_email, s) \<Rightarrow>
          (case x_cur_password d of
             None \<Rightarrow> (Some (Some (dav_new_error HTTP_BAD_REQUEST ''current password not provided''), r, put_db s sn), True)
           | Some cur_passwd \<Rightarrow>
               (case dbms_get_user_pwhash (dr_serialno r) s of
                  (None, s) \<Rightarrow> (None, True)
                | (Some (cur_pwhash, type), s) \<Rightarrow>
                    if type \<noteq> ''Email'' \<and> dr_uri r = None then (None, True)
                    else if cur_pwhash \<noteq> current_hash fe cur_email type cur_passwd (dr_uri r)
                    then (Some (Some (dav_new_error HTTP_BAD_REQUEST ''password did not match''), r, put_db s sn), True)
                    else
                      (let h = get_password_hash (fe_md5 fe) (printed (case x_email d of None \<Rightarrow> cur_email | Some m \<Rightarrow> Some m))
                                 (case x_password d of None \<Rightarrow> cur_passwd | Some p \<Rightarrow> p)
                       in case profile_error (fe_profile_update fe) d \<lparr>f_id = dr_serialno r, f_email = x_email d, f_username = None,
                                 f_password_hash = Some h, f_displayname = None, f_otp = None\<rparr> of
                            Some e \<Rightarrow> (Some (Some e, r, put_db s sn), True)
                          | None \<Rightarrow>
                              (case dav_repos_update_password h r s of
                                 (e, s) \<Rightarrow>
                                   (case x_email d of
                                      None \<Rightarrow> (Some (e, r, put_db s sn), False)
                                    | Some m \<Rightarrow> (in_db (dbms_set_user_email (fe_email_ok fe) (fe_lowercase fe) (dr_serialno r) m) r (put_db s sn),
                                                False)))))))"

definition put_displayname :: "user_doc \<Rightarrow> dav_error option \<times> dav_repos_resource \<times> session \<Rightarrow> dav_error option \<times> dav_repos_resource \<times> session" where
  "put_displayname d =
     (\<lambda>(e, r, sn). case x_displayname d of
        None \<Rightarrow> (e, r, sn)
      | Some n \<Rightarrow> (let r = r\<lparr>dr_displayname := Some n\<rparr> in (e, r, put_db (snd (dbms_set_property r (sn_db sn))) sn)))"

definition dav_repos_put_user :: "fenv \<Rightarrow> dav_stream \<Rightarrow> dav_repos_resource \<Rightarrow> io \<Rightarrow> io_outcome" where
  "dav_repos_put_user fe st r io =
     (case read_file (ds_path st) io of
        None \<Rightarrow> None
      | Some c \<Rightarrow>
          (case fe_user_doc fe c of
             None \<Rightarrow> Some (Some (dav_new_error HTTP_BAD_REQUEST (ds_path st)), r, io)
           | Some d \<Rightarrow>
               on_session (\<lambda>sn.
                 case (case x_email d of None \<Rightarrow> (None, sn_db sn) | Some m \<Rightarrow> sabridge_verify_user_email_unique m (sn_db sn)) of
                   (Some e, s) \<Rightarrow> Some (Some e, r, put_db s sn)
                 | (None, s) \<Rightarrow>
                     (case (if ds_inserted st then put_new_user fe d r (put_db s sn)
                            else if x_password d \<noteq> None \<or> x_email d \<noteq> None then put_credentials fe d r (put_db s sn)
                            else (Some (None, r, put_db s sn), False)) of
                        (out, at_once) \<Rightarrow> if at_once then out else map_option (put_displayname d) out)) io))"

section \<open>Closing\<close>

definition put_content_type :: "fenv \<Rightarrow> string \<Rightarrow> dav_repos_resource \<Rightarrow> string option" where
  "put_content_type fe path r =
     (case fe_content_type fe of
        Some t \<Rightarrow> if is_content_type_good (Some t) then Some t else map_option (\<lambda>u. e_mime (fe_env fe) u path) (dr_uri r)
      | None \<Rightarrow> map_option (\<lambda>u. e_mime (fe_env fe) u path) (dr_uri r))"

definition put_body :: "fenv \<Rightarrow> string \<Rightarrow> dav_repos_resource \<Rightarrow> io \<Rightarrow> io_outcome" where
  "put_body fe path r io =
     (case (put_content_type fe path r, read_file path io) of
        (Some t, Some c) \<Rightarrow>
          (let r = r\<lparr>dr_getcontenttype := Some t, dr_sha1str := compute_file_sha1 (fe_sha1 fe) (Some c),
                     dr_getcontentlength := int (length c)\<rparr>
           in case step_ok (in_db (dbms_set_property r) r (io_session io)) (in_db_r (dbms_update_media_props (e_now (fe_env fe)))) of
                None \<Rightarrow> None
              | Some (Some e, r, sn) \<Rightarrow> Some (Some e, r, put_session sn io)
              | Some (None, r, sn) \<Rightarrow>
                  map_option (\<lambda>io. (None, r, io)) (sabridge_put_resource_file fe r path (put_session sn io)))
      | _ \<Rightarrow> None)"

text \<open>A lock-null resource is turned into a file: the error of the empty body ends the handler.\<close>

definition close_locknull :: "fenv \<Rightarrow> dav_repos_resource \<Rightarrow> io \<Rightarrow> io_outcome" where
  "close_locknull fe r io =
     (if dr_resourcetype r = dav_repos_LOCKNULL
      then on_session (\<lambda>sn. step_ok (sabridge_create_empty_body (fe_env fe) r sn)
             (\<lambda>r sn. Some (None, r\<lparr>dr_resourcetype := dav_repos_RESOURCE\<rparr>, sn))) io
      else Some (None, r, io))"

definition close_commit :: "fenv \<Rightarrow> dav_stream \<Rightarrow> dav_repos_resource \<Rightarrow> io \<Rightarrow> io_outcome" where
  "close_commit fe st r io =
     (case close_locknull fe r io of
        None \<Rightarrow> None
      | Some (Some e, r, io) \<Rightarrow> Some (Some e, r, io)
      | Some (None, r, io) \<Rightarrow>
          (case (if dr_resourcetype r = dav_repos_RESOURCE \<or> dr_resourcetype r = dav_repos_VERSIONED then put_body fe (ds_path st) r io
                 else if dr_resourcetype r = dav_repos_USER then dav_repos_put_user fe st r io
                 else Some (None, r, io)) of
             None \<Rightarrow> None
           | Some (Some e, r, io) \<Rightarrow> Some (Some e, r, io)
           | Some (None, r, io) \<Rightarrow> Some (None, r, remove_file (ds_path st) io)))"

definition dav_repos_close_stream :: "fenv \<Rightarrow> dav_stream \<Rightarrow> bool \<Rightarrow> dav_repos_resource \<Rightarrow> io \<Rightarrow> io_outcome" where
  "dav_repos_close_stream fe st commit r io =
     (let io = (if io_done io = None then io\<lparr>io_done := Some (ds_path st)\<rparr> else io)
      in if commit then close_commit fe st r io
         else if ds_inserted st
         then map_option (\<lambda>(e, w). (None, r, put_session (put_world w (io_session io)) io))
                (sabridge_delete_resource (e_cf (fe_env fe)) r (sn_world (io_session io)))
         else Some (None, r, io))"

end
