(* ===== verification/StreamFacts.thy ===== *)
theory StreamFacts
  imports Streams ResourceFacts VersionFacts
begin

text \<open>
  Properties of theory \<open>Streams\<close>: what a \<open>PUT\<close> writes a \<open>GET\<close> reads, what happens when the file cannot be
  moved into place, and who can change the password and the address of a user.
\<close>

section \<open>Writing a body\<close>

fun write_chunks :: "fenv \<Rightarrow> string list \<Rightarrow> dav_stream \<Rightarrow> io \<Rightarrow> dav_error option \<times> dav_stream \<times> io" where
  "write_chunks fe [] st io = (None, st, io)"
| "write_chunks fe (b # bs) st io =
     (case dav_repos_write_stream fe b st io of
        (Some e, st, io) \<Rightarrow> (Some e, st, io)
      | (None, st, io) \<Rightarrow> write_chunks fe bs st io)"

lemma files_simps [simp]:
  "read_file p (put_file p c io) = Some c" "q \<noteq> p \<Longrightarrow> read_file q (put_file p c io) = read_file q io"
  "q \<noteq> p \<Longrightarrow> read_file q (remove_file p io) = read_file q io" "read_file p (remove_file p io) = None"
  "io_session (put_file p c io) = io_session io" "io_session (remove_file p io) = io_session io"
  "io_done (put_file p c io) = io_done io" "io_done (remove_file p io) = io_done io"
  "read_file q (put_session sn io) = read_file q io" "io_session (put_session sn io) = sn" "io_done (put_session sn io) = io_done io"
proof -
  have f: "map_of (filter (\<lambda>(q, _). q \<noteq> p) xs) q = (if q = p then None else map_of xs q)" for p q and xs :: "(string \<times> string) list"
    by (induction xs) auto
  show "read_file p (put_file p c io) = Some c" "q \<noteq> p \<Longrightarrow> read_file q (put_file p c io) = read_file q io"
    "q \<noteq> p \<Longrightarrow> read_file q (remove_file p io) = read_file q io" "read_file p (remove_file p io) = None"
    by (simp_all add: put_file_def remove_file_def f)
qed (simp_all add: put_file_def remove_file_def put_session_def)

lemma write_at_end [simp]: "write_at (length c) b c = c @ b"
  by (simp add: write_at_def)

text \<open>Written chunk by chunk, the file grows by the chunks; nothing else changes.\<close>

lemma write_chunks_append:
  assumes "write_chunks fe bs st io = (None, st', io')" "io_done io = None"
    and "read_file (ds_path st) io = Some c" "ds_pos st = length c"
  shows "read_file (ds_path st) io' = Some (c @ concat bs) \<and> io_session io' = io_session io \<and> io_done io' = None
    \<and> ds_path st' = ds_path st \<and> ds_inserted st' = ds_inserted st \<and> (\<forall>q. q \<noteq> ds_path st \<longrightarrow> read_file q io' = read_file q io)"
  using assms
proof (induction bs arbitrary: c st io)
  case (Cons b bs)
  from Cons.prems obtain st1 io1 where w: "dav_repos_write_stream fe b st io = (None, st1, io1)"
    "write_chunks fe bs st1 io1 = (None, st', io')"
    by (auto split: prod.splits option.splits)
  from w(1) Cons.prems have 1: "st1 = st\<lparr>ds_pos := ds_pos st + length b\<rparr>" "io1 = put_file (ds_path st) (c @ b) io"
    by (auto simp: dav_repos_write_stream_def Let_def column_def split: option.splits if_splits)
  show ?case using Cons.IH [OF w(2), of "c @ b"] Cons.prems by (simp add: 1)
qed simp

section \<open>The row of a body\<close>

lemma find_map_key:
  assumes "\<And>x. k (f x) = k x"
  shows "find (\<lambda>x. k x = i) (map f xs) = map_option f (find (\<lambda>x. k x = i) xs)"
  by (induction xs) (simp_all add: assms)

lemma update_media_rows_row:
  assumes "update_media_rows now r s = Some s'" "dr_serialno r \<in> m_resource_id ` set (media s)"
  shows "\<exists>m. find (\<lambda>m. m_resource_id m = dr_serialno r) (media s') = Some m \<and> m_size m = dr_getcontentlength r
    \<and> m_mimetype m = column (dr_getcontenttype r) \<and> dr_sha1str r = Some (m_sha1 m)"
proof -
  let ?i = "dr_serialno r"
  from assms(2) obtain m where m: "find (\<lambda>m. m_resource_id m = ?i) (media s) = Some m"
    by (metis (mono_tags, lifting) find_None_iff image_iff not_None_eq)
  then have id: "m_resource_id m = ?i" by (auto simp: find_Some_iff)
  from m have "filter (\<lambda>m. m_resource_id m = ?i) (media s) \<noteq> []"
    by (auto simp: filter_empty_conv find_Some_iff)
  then obtain x xs where xs: "filter (\<lambda>m. m_resource_id m = ?i) (media s) = x # xs" by (meson neq_Nil_conv)
  obtain h where h: "dr_sha1str r = Some h" using assms(1) xs by (auto simp: update_media_rows_def split: option.splits)
  let ?g = "\<lambda>m. if m_resource_id m = ?i then m\<lparr>m_size := dr_getcontentlength r,
       m_mimetype := (case dr_getcontenttype r of None \<Rightarrow> [] | Some t \<Rightarrow> t), m_sha1 := h, m_updated_at := now\<rparr> else m"
  have "media s' = map ?g (media s)" using assms(1) xs h by (auto simp: update_media_rows_def charge_once_def charge_select split: list.splits if_splits)
  then have "find (\<lambda>m. m_resource_id m = ?i) (media s') = Some (?g m)" using m by (simp add: find_map_key)
  then show ?thesis using id h by (simp add: column_def)
qed

lemma notify_media: "dbms_notify_resource_updated r s = (e, s') \<Longrightarrow> media s' = media s"
  unfolding dbms_notify_resource_updated_def
  by (erule exec_or_500_inv [where I = "\<lambda>t. media t = media s"]) (auto simp: touch_def tables_eqD)

lemma set_property_media: "dbms_set_property r s = (e, s') \<Longrightarrow> media s' = media s"
  unfolding dbms_set_property_def
  by (erule exec_or_500_inv [where I = "\<lambda>t. media t = media s"])
    (auto simp: tables_eqD update_resource_def split: if_splits option.splits)

lemma update_media_props_row:
  assumes "dbms_update_media_props now r s = (None, r', s')" "dr_serialno r \<in> m_resource_id ` set (media s)"
  shows "\<exists>m. find (\<lambda>m. m_resource_id m = dr_serialno r) (media s') = Some m \<and> m_size m = dr_getcontentlength r
    \<and> m_mimetype m = column (dr_getcontenttype r) \<and> dr_sha1str r = Some (m_sha1 m)"
proof -
  obtain v where v: "exec_or_500 ''Couldn't update media entry'' (update_media_rows now r) s = (None, v)" "media s' = media v"
    using assms(1) by (auto simp: dbms_update_media_props_def Let_def split: prod.splits option.splits dest: notify_media)
  from v(1) obtain t where t: "tables_eq t s" "update_media_rows now r t = Some v" by (rule exec_or_500_ok)
  show ?thesis using update_media_rows_row [OF t(2)] assms(2) v(2) by (simp add: tables_eqD [OF t(1)])
qed

section \<open>What is put is got\<close>

lemma put_body_done:
  assumes "put_body fe p r io = Some (None, r', io')" "dr_serialno r \<in> m_resource_id ` set (media (sn_db (io_session io)))"
  obtains c h t b sn m where "read_file p io = Some c" "compute_file_sha1 (fe_sha1 fe) (Some c) = Some h"
    "put_content_type fe p r = Some t" "e_path (fe_env fe) h = Some (Inr b)" "media (sn_db (io_session io')) = media (sn_db sn)"
    "io' = (if fe_rename_ok fe p b then put_session (put_world ((sn_world sn)\<lparr>w_disk := List.insert h (w_disk (sn_world sn))\<rparr>) sn)
              (put_file b c (remove_file p (put_session sn io))) else put_session sn io)"
    "find (\<lambda>m. m_resource_id m = dr_serialno r) (media (sn_db sn)) = Some m" "m_size m = int (length c)" "m_mimetype m = t" "m_sha1 m = h"
proof -
  from assms(1) obtain c t where c: "read_file p io = Some c" and t: "put_content_type fe p r = Some t"
    by (auto simp: put_body_def split: option.splits)
  let ?r = "r\<lparr>dr_getcontenttype := Some t, dr_sha1str := compute_file_sha1 (fe_sha1 fe) (Some c), dr_getcontentlength := int (length c)\<rparr>"
  obtain h where h: "compute_file_sha1 (fe_sha1 fe) (Some c) = Some h" by (simp add: compute_file_sha1_def)
  from assms(1) c t obtain r1 sn where
    run: "step_ok (in_db (dbms_set_property ?r) ?r (io_session io)) (in_db_r (dbms_update_media_props (e_now (fe_env fe)))) = Some (None, r1, sn)"
    and fin: "sabridge_put_resource_file fe r1 p (put_session sn io) = Some io'"
    by (auto simp: put_body_def Let_def split: option.splits)
  from run obtain s1 where s1: "dbms_set_property ?r (sn_db (io_session io)) = (None, s1)"
    and u: "in_db_r (dbms_update_media_props (e_now (fe_env fe))) ?r (put_db s1 (io_session io)) = Some (None, r1, sn)"
    by (auto simp: step_ok_def in_db_def split: prod.splits option.splits)
  from u obtain s2 where s2: "dbms_update_media_props (e_now (fe_env fe)) ?r s1 = (None, r1, s2)" "sn_db sn = s2"
    by (auto simp: in_db_r_def split: prod.splits)
  have sha: "dr_sha1str r1 = Some h"
    using s2(1) h by (auto simp: dbms_update_media_props_def Let_def split: prod.splits option.splits)
  from update_media_props_row [OF s2(1)] assms(2) set_property_media [OF s1] h obtain m where
    m: "find (\<lambda>m. m_resource_id m = dr_serialno r) (media s2) = Some m" "m_size m = int (length c)" "m_mimetype m = t" "m_sha1 m = h"
    by (auto simp: column_def)
  from fin sha obtain b where b: "e_path (fe_env fe) h = Some (Inr b)"
    by (auto simp: sabridge_put_resource_file_def body_path_def split: option.splits sum.splits)
  have io': "io' = (if fe_rename_ok fe p b then put_session (put_world ((sn_world sn)\<lparr>w_disk := List.insert h (w_disk (sn_world sn))\<rparr>) sn)
              (put_file b c (remove_file p (put_session sn io))) else put_session sn io)"
    using fin sha b c by (auto simp: sabridge_put_resource_file_def body_path_def column_def Let_def split: if_splits)
  then have "media (sn_db (io_session io')) = media (sn_db sn)" by (simp add: put_world_def)
  with that c h t b io' m s2(2) show thesis by blast
qed

text \<open>A whole \<open>PUT\<close> of a file, from opening a new temporary file to the commit.\<close>

definition put_request :: "fenv \<Rightarrow> string list \<Rightarrow> dav_repos_resource \<Rightarrow> io \<Rightarrow> io_outcome" where
  "put_request fe bufs r io =
     (case dav_repos_open_stream fe DAV_MODE_WRITE_TRUNC r io of
        None \<Rightarrow> None
      | Some (Some e, st, r, io) \<Rightarrow> Some (Some e, r, io)
      | Some (None, st, r, io) \<Rightarrow>
          (case write_chunks fe bufs st io of
             (Some e, st, io) \<Rightarrow> Some (Some e, r, io)
           | (None, st, io) \<Rightarrow> dav_repos_close_stream fe st True r io))"

lemma put_request_body:
  assumes run: "put_request fe bufs r io = Some (None, r', io')"
    and kind: "dr_serialno r \<noteq> 0" "dr_resourcetype r = dav_repos_RESOURCE \<or> dr_resourcetype r = dav_repos_VERSIONED"
    and fresh: "io_done io = None" "fe_create_ok fe (tmp_path fe r)"
  obtains io2 io3 where "put_body fe (tmp_path fe r) r io2 = Some (None, r', io3)" "io' = remove_file (tmp_path fe r) io3"
    "read_file (tmp_path fe r) io2 = Some (concat bufs)" "io_session io2 = io_session io"
    "\<And>q. q \<noteq> tmp_path fe r \<Longrightarrow> read_file q io2 = read_file q io"
proof -
  let ?p = "tmp_path fe r"
  let ?st = "\<lparr>ds_inserted = False, ds_path = ?p, ds_pos = 0\<rparr>"
  have open_ok: "dav_repos_open_stream fe DAV_MODE_WRITE_TRUNC r io = Some (None, ?st, r, put_file ?p [] io)"
    using kind(1) fresh by (simp add: dav_repos_open_stream_def open_insert_def open_file_def sabridge_get_new_file_def Let_def)
  from run obtain st2 io1 where w: "write_chunks fe bufs ?st (put_file ?p [] io) = (None, st2, io1)"
    and c: "dav_repos_close_stream fe st2 True r io1 = Some (None, r', io')"
    by (auto simp: put_request_def open_ok split: prod.splits option.splits)
  from write_chunks_append [OF w] fresh(1) have 1: "read_file ?p io1 = Some (concat bufs)" "io_session io1 = io_session io"
    "io_done io1 = None" "ds_path st2 = ?p" "\<And>q. q \<noteq> ?p \<Longrightarrow> read_file q io1 = read_file q io" by auto
  define io2 where "io2 = io1\<lparr>io_done := Some ?p\<rparr>"
  have sess: "io_files io2 = io_files io1" "io_session io2 = io_session io1" by (simp_all add: io2_def)
  from c 1(3,4) kind(2) obtain io3 where "put_body fe ?p r io2 = Some (None, r', io3)" "io' = remove_file ?p io3"
    by (auto simp: dav_repos_close_stream_def close_commit_def close_locknull_def Let_def io2_def dav_repos_LOCKNULL_def dav_repos_RESOURCE_def dav_repos_VERSIONED_def split: option.splits)
  with that 1 sess show thesis by simp
qed



section \<open>Who changes a password\<close>

lemma set_user_others:
  assumes "\<And>u. u_principal_id (f u) = u_principal_id u"
  shows "filter (\<lambda>u. u_principal_id u \<noteq> i) (users (set_user i f s)) = filter (\<lambda>u. u_principal_id u \<noteq> i) (users s)"
proof -
  have "filter (\<lambda>u. u_principal_id u \<noteq> i) (map (\<lambda>u. if u_principal_id u = i then f u else u) us)
      = filter (\<lambda>u. u_principal_id u \<noteq> i) us" for us
    by (induction us) (simp_all add: assms)
  then show ?thesis by (simp add: set_user_def)
qed

lemma set_pwhash_others:
  "dbms_set_user_pwhash i h s = (e, s') \<Longrightarrow>
     filter (\<lambda>u. u_principal_id u \<noteq> i) (users s') = filter (\<lambda>u. u_principal_id u \<noteq> i) (users s)"
  unfolding dbms_set_user_pwhash_def
  by (erule exec_or_500_inv [where I = "\<lambda>t. filter (\<lambda>u. u_principal_id u \<noteq> i) (users t) = filter (\<lambda>u. u_principal_id u \<noteq> i) (users s)"])
    (auto simp: tables_eqD set_user_others split: if_splits)

lemma next_fault_users: "next_fault s = (b, s') \<Longrightarrow> users s' = users s"
  by (auto simp: next_fault_def split: list.splits)

lemma set_email_others:
  "dbms_set_user_email ok lc i m s = (e, s') \<Longrightarrow>
     filter (\<lambda>u. u_principal_id u \<noteq> i) (users s') = filter (\<lambda>u. u_principal_id u \<noteq> i) (users s)"
  by (auto simp: dbms_set_user_email_def user_stmt_def update_email_def set_user_others dest: next_fault_users
      split: prod.splits bool.splits user_outcome.splits if_splits)

lemma set_property_users: "dbms_set_property r s = (e, s') \<Longrightarrow> users s' = users s"
  unfolding dbms_set_property_def
  by (erule exec_or_500_inv [where I = "\<lambda>t. users t = users s"])
    (auto simp: tables_eqD update_resource_def split: if_splits option.splits)

lemma put_displayname_users: "users (sn_db (snd (snd (put_displayname d (e, r, sn))))) = users (sn_db sn)"
  by (cases "dbms_set_property (r\<lparr>dr_displayname := x_displayname d\<rparr>) (sn_db sn)")
    (auto simp: put_displayname_def dest: set_property_users split: option.splits)

lemma put_credentials_guarded:
  assumes run: "put_credentials fe d r sn = (Some (e, r', sn'), at_once)" and f: "fault (sn_db sn) = []"
    and changed: "users (sn_db sn') \<noteq> users (sn_db sn)"
  shows "\<exists>cur row. x_cur_password d = Some cur \<and> find_user (dr_serialno r) (sn_db sn) = Some row
    \<and> u_pwhash row = current_hash fe (Some (u_email row)) (u_pwhash_type row) cur (dr_uri r)
    \<and> filter (\<lambda>u. u_principal_id u \<noteq> dr_serialno r) (users (sn_db sn')) = filter (\<lambda>u. u_principal_id u \<noteq> dr_serialno r) (users (sn_db sn))"
proof -
  from changed obtain cur where cur: "x_cur_password d = Some cur"
    using run f by (auto simp: put_credentials_def dbms_get_user_email_def run_stmt_healthy split: option.splits)
  from changed run f cur obtain row where row: "find_user (dr_serialno r) (sn_db sn) = Some row"
    by (cases "find_user (dr_serialno r) (sn_db sn)")
      (auto simp: put_credentials_def dbms_get_user_email_def dbms_get_user_pwhash_def run_stmt_healthy)
  have ok: "u_pwhash row = current_hash fe (Some (u_email row)) (u_pwhash_type row) cur (dr_uri r)"
    using changed run f cur row
    by (auto simp: put_credentials_def dbms_get_user_email_def dbms_get_user_pwhash_def run_stmt_healthy split: if_splits)
  have "filter (\<lambda>u. u_principal_id u \<noteq> dr_serialno r) (users (sn_db sn')) = filter (\<lambda>u. u_principal_id u \<noteq> dr_serialno r) (users (sn_db sn))"
    using run f cur row
    by (auto simp: put_credentials_def dbms_get_user_email_def dbms_get_user_pwhash_def run_stmt_healthy Let_def
        dav_repos_update_password_def in_db_def set_pwhash_others set_email_others
        split: if_splits option.splits prod.splits)
  with cur row ok show ?thesis by blast
qed

lemma on_session_cases:
  assumes "on_session f io = Some (e, r, io')"
  obtains sn where "f (io_session io) = Some (e, r, sn)" "io' = put_session sn io"
  using assms by (auto simp: on_session_def)

text \<open>C10: Only who gives the current password changes a password or an address: when the \<open>PUT\<close> of a document over an
  existing user changes the table of users, the document has the current password, whose hash with the name that
  the stored hash was made with is the stored hash, and no other row of the table changes.\<close>

theorem password_guards_credentials:
  assumes "dav_repos_put_user fe st r io = Some (e, r', io')" and "\<not> ds_inserted st" and "fault (sn_db (io_session io)) = []"
    and changed: "users (sn_db (io_session io')) \<noteq> users (sn_db (io_session io))"
  shows "\<exists>c d cur row. read_file (ds_path st) io = Some c \<and> fe_user_doc fe c = Some d \<and> x_cur_password d = Some cur
    \<and> find_user (dr_serialno r) (sn_db (io_session io)) = Some row
    \<and> u_pwhash row = current_hash fe (Some (u_email row)) (u_pwhash_type row) cur (dr_uri r)
    \<and> filter (\<lambda>u. u_principal_id u \<noteq> dr_serialno r) (users (sn_db (io_session io')))
      = filter (\<lambda>u. u_principal_id u \<noteq> dr_serialno r) (users (sn_db (io_session io)))"
proof -
  let ?sn = "io_session io"
  obtain c d where c: "read_file (ds_path st) io = Some c" and d: "fe_user_doc fe c = Some d"
    using assms(1) changed by (auto simp: dav_repos_put_user_def split: option.splits)
  define v where "v = (case x_email d of None \<Rightarrow> (None, sn_db ?sn) | Some m \<Rightarrow> sabridge_verify_user_email_unique m (sn_db ?sn))"
  have v: "snd v = sn_db ?sn"
    using assms(3) by (auto simp: v_def sabridge_verify_user_email_unique_def dbms_is_email_available_def run_stmt_healthy split: option.split)
  obtain sn' where sn': "io' = put_session sn' io" and run: "(case v of (Some e, s) \<Rightarrow> Some (Some e, r, put_db s ?sn)
      | (None, s) \<Rightarrow> (case (if ds_inserted st then put_new_user fe d r (put_db s ?sn)
            else if x_password d \<noteq> None \<or> x_email d \<noteq> None then put_credentials fe d r (put_db s ?sn)
            else (Some (None, r, put_db s ?sn), False)) of
          (out, at_once) \<Rightarrow> if at_once then out else map_option (put_displayname d) out)) = Some (e, r', sn')"
    using assms(1) c d unfolding dav_repos_put_user_def v_def by (auto elim!: on_session_cases)
  have ch: "users (sn_db sn') \<noteq> users (sn_db ?sn)" using changed by (simp add: sn')
  with run v have v0: "fst v = None" by (cases v) (auto split: option.splits)
  with v have veq: "v = (None, sn_db ?sn)" by (simp add: prod_eq_iff)
  obtain o1 at1 where out: "put_credentials fe d r ?sn = (o1, at1)" by (cases "put_credentials fe d r ?sn")
  have set: "x_password d \<noteq> None \<or> x_email d \<noteq> None"
    using run ch assms(2) put_displayname_users [of d None r ?sn] by (auto simp: veq split: if_splits)
  with run assms(2) out have fin: "(if at1 then o1 else map_option (put_displayname d) o1) = Some (e, r', sn')" by (simp add: veq)
  then obtain e1 r1 sn1 where o1: "o1 = Some (e1, r1, sn1)" by (cases o1) (auto split: if_splits)
  have same: "users (sn_db sn') = users (sn_db sn1)"
    using fin put_displayname_users [of d e1 r1 sn1] by (auto simp: o1 split: if_splits)
  show ?thesis using put_credentials_guarded [OF out [unfolded o1] assms(3)] ch c d same by (auto simp: sn')
qed

section \<open>Examples\<close>

definition file_env :: fenv where
  "file_env = \<lparr>fe_env = demo_env, fe_tmp_dir = ''/tmp'', fe_create_ok = (\<lambda>p. True), fe_rename_ok = (\<lambda>p q. True),
     fe_copy_ok = (\<lambda>p q. True), fe_write = (\<lambda>b. Some (length b)), fe_garbage = 0,
     fe_sha1 = (\<lambda>c. replicate 20 (word_of_nat (length c))), fe_md5 = (\<lambda>c. replicate 16 (word_of_nat (length c))),
     fe_content_type = Some ''text/html'',
     fe_user_doc = (\<lambda>c. Some \<lparr>x_password = Some c, x_password_hash = None, x_email = None, x_displayname = None,
       x_no_profile = None, x_otp = None, x_cur_password = Some ''old''\<rparr>),
     fe_email_ok = (\<lambda>m. True), fe_lowercase = (\<lambda>m. m), fe_profile_create = None, fe_profile_update = None\<rparr>"

definition ann_file :: dav_repos_resource where
  "ann_file = sample_file\<lparr>dr_uuid := Some ''u1'', dr_created_at := Some ''2006'', dr_owner_id := 1, dr_creator_id := 1,
     dr_uri := Some ''/home/ann/f''\<rparr>"

definition ann_io :: io where
  "ann_io = \<lparr>io_session = put_db sample_files plain_file, io_files = [], io_done = None\<rparr>"

definition answered :: "io_outcome \<Rightarrow> bool" where
  "answered m = (case m of Some (None, r, io) \<Rightarrow> True | _ \<Rightarrow> False)"

definition io_after :: "io_outcome \<Rightarrow> io" where
  "io_after m = (case m of None \<Rightarrow> ann_io | Some (e, r, io) \<Rightarrow> io)"

lemma answered_run: "answered m \<Longrightarrow> \<exists>r. m = Some (None, r, io_after m)"
  by (auto simp: answered_def io_after_def split: option.splits)

abbreviation demo_put :: io_outcome where
  "demo_put \<equiv> put_request file_env [''hello'', '' '', ''world''] ann_file ann_io"


definition other_fs_env :: fenv where
  "other_fs_env = file_env\<lparr>fe_rename_ok := (\<lambda>p q. False)\<rparr>"

abbreviation lost_put :: io_outcome where
  "lost_put \<equiv> put_request other_fs_env [''hello''] ann_file ann_io"


text \<open>The user 11 changes the password from \<open>old\<close> to the contents of the document.\<close>

definition user_io :: io where
  "user_io = \<lparr>io_session = put_db (sample_files\<lparr>users := [(a_user 11)\<lparr>u_pwhash := get_password_hash (fe_md5 file_env) ''a@b.c'' ''old''\<rparr>]\<rparr>)
     plain_file, io_files = [(''/tmp/u1'', ''much-longer-secret'')], io_done = Some ''/tmp/u1''\<rparr>"

abbreviation demo_change :: io_outcome where
  "demo_change \<equiv> dav_repos_put_user file_env \<lparr>ds_inserted = False, ds_path = ''/tmp/u1'', ds_pos = 0\<rparr> ann_file user_io"

theorem password_guards_credentials_witness:
  "map u_pwhash (users (sn_db (io_session (io_after demo_change)))) \<noteq> map u_pwhash (users (sn_db (io_session user_io))) \<and>
   (\<exists>d. fe_user_doc file_env ''much-longer-secret'' = Some d \<and> x_cur_password d = Some ''old'')"
proof -
  have "answered demo_change" by code_simp
  then obtain r' where r': "demo_change = Some (None, r', io_after demo_change)" by (blast dest: answered_run)
  have ch: "map u_pwhash (users (sn_db (io_session (io_after demo_change)))) \<noteq> map u_pwhash (users (sn_db (io_session user_io)))"
    by code_simp
  then have "users (sn_db (io_session (io_after demo_change))) \<noteq> users (sn_db (io_session user_io))" by auto
  moreover have "fault (sn_db (io_session user_io)) = []" by code_simp
  ultimately obtain c d cur where "read_file ''/tmp/u1'' user_io = Some c" "fe_user_doc file_env c = Some d" "x_cur_password d = Some cur"
    using password_guards_credentials [OF r'] by auto
  then have "c = ''much-longer-secret''" "cur = ''old''" by (auto simp: user_io_def file_env_def)
  with \<open>fe_user_doc file_env c = Some d\<close> \<open>x_cur_password d = Some cur\<close> show ?thesis using ch by blast
qed

end
