(* ===== verification/Transactions.thy ===== *)
theory Transactions
  imports ResourceFacts
begin

text \<open>
  The transaction of a request: \<^verbatim>\<open>transaction.c\<close> and \<^verbatim>\<open>dbms_transaction.c\<close> with
  \<open>dbms_defer_all_constraints\<close> of \<^verbatim>\<open>dbms.c\<close>. The database driver of APR (\<open>apr_dbd_transaction_start\<close>,
  \<open>apr_dbd_transaction_mode_set\<close>, \<open>apr_dbd_transaction_end\<close>) is a parameter, and so are the numbers that
  mod_dav gives to its modes. \<open>driver_laws\<close> states what the documentation of the driver promises.
  The main result is that the check before a commit enforces the quota.
\<close>

section \<open>The statement layer of a transaction\<close>

datatype dbms = UNKNOWN | MYSQL | PGSQL

datatype xaction_iso_level = READ_UNCOMMITTED | READ_COMMITTED | REPEATABLE_READ | SERIALIZABLE

text \<open>The statement that sets the isolation level; for an unknown server it has no beginning, and the server refuses it.\<close>

definition iso_query :: "dbms \<Rightarrow> xaction_iso_level \<Rightarrow> string" where
  "iso_query d level =
     (case d of
        PGSQL \<Rightarrow> ''SET SESSION CHARACTERISTICS AS TRANSACTION ISOLATION LEVEL ''
      | MYSQL \<Rightarrow> ''SET SESSION TRANSACTION ISOLATION LEVEL '' | UNKNOWN \<Rightarrow> []) @
     (case level of
        READ_UNCOMMITTED \<Rightarrow> ''READ UNCOMMITTED'' | READ_COMMITTED \<Rightarrow> ''READ COMMITTED''
      | REPEATABLE_READ \<Rightarrow> ''REPEATABLE READ'' | SERIALIZABLE \<Rightarrow> ''SERIALIZABLE'')"

definition dbms_set_session_xaction_iso_level :: "dbms \<Rightarrow> xaction_iso_level \<Rightarrow> db \<Rightarrow> bool \<times> db" where
  "dbms_set_session_xaction_iso_level d level = run_stmt (\<lambda>s. if take 3 (iso_query d level) = ''SET'' then Some s else None)"

definition dbms_defer_all_constraints :: "db \<Rightarrow> dav_error option \<times> db" where
  "dbms_defer_all_constraints = exec_or_500 ''DBMS Error: couldn't defer all constraints'' Some"

text \<open>The driver: a result of zero is success.\<close>

datatype apr_mode = APR_DBD_TRANSACTION_COMMIT | APR_DBD_TRANSACTION_ROLLBACK | APR_DBD_TRANSACTION_IGNORE_ERRORS

record 'x driver =
  drv_start :: "db \<Rightarrow> int \<times> 'x \<times> db"
  drv_mode_set :: "apr_mode \<Rightarrow> 'x \<Rightarrow> int \<times> 'x"
  drv_end :: "'x \<Rightarrow> db \<Rightarrow> int \<times> db"

record dav_modes =
  DAV_TRANSACTION_COMMIT :: int
  DAV_TRANSACTION_ROLLBACK :: int
  DAV_TRANSACTION_IGNORE_ERRORS :: int

text \<open>The constraints are deferred whether or not the transaction was started; a failure to defer them is not seen.\<close>

definition dbms_transaction_start :: "'x driver \<Rightarrow> dbms \<Rightarrow> db \<Rightarrow> int \<times> 'x option \<times> db" where
  "dbms_transaction_start drv d s =
     (case drv_start drv s of
        (ierrno, x, s) \<Rightarrow>
          (ierrno, if ierrno = 0 then Some x else None,
           if d = PGSQL then snd (dbms_defer_all_constraints s) else s))"

definition dbms_transaction_end :: "'x driver \<Rightarrow> 'x \<Rightarrow> db \<Rightarrow> int \<times> db" where
  "dbms_transaction_end drv x s = drv_end drv x s"

definition ap_mode :: "dav_modes \<Rightarrow> int \<Rightarrow> apr_mode" where
  "ap_mode M mode =
     (if mode = DAV_TRANSACTION_COMMIT M then APR_DBD_TRANSACTION_COMMIT
      else if mode = DAV_TRANSACTION_ROLLBACK M then APR_DBD_TRANSACTION_ROLLBACK
      else if mode = DAV_TRANSACTION_IGNORE_ERRORS M then APR_DBD_TRANSACTION_IGNORE_ERRORS
      else APR_DBD_TRANSACTION_COMMIT)"

definition dbms_transaction_mode_set :: "dav_modes \<Rightarrow> 'x driver \<Rightarrow> int \<Rightarrow> 'x \<Rightarrow> int \<times> 'x" where
  "dbms_transaction_mode_set M drv mode x = drv_mode_set drv (ap_mode M mode) x"

section \<open>The transaction hooks\<close>

text \<open>\<open>dav_transaction\<close> and its private part. \<open>have_db\<close>: \<open>dav_repos_get_db\<close> found a connection.\<close>

record 'x dav_transaction =
  t_mode :: int
  t_fserrno :: int
  t_trans :: 'x

definition dav_repos_transaction_start ::
  "dav_modes \<Rightarrow> 'x driver \<Rightarrow> dbms \<Rightarrow> bool \<Rightarrow> db \<Rightarrow> (dav_error + 'x dav_transaction) \<times> db" where
  "dav_repos_transaction_start M drv d have_db s =
     (if \<not> have_db then (Inl (dav_new_error HTTP_INTERNAL_SERVER_ERROR ''Couldn't initialize connection with database''), s)
      else case dbms_transaction_start drv d s of
        (ierrno, None, s) \<Rightarrow> (Inl (dav_new_error HTTP_INTERNAL_SERVER_ERROR ''failed to start transaction''), s)
      | (ierrno, Some x, s) \<Rightarrow> (Inr \<lparr>t_mode = DAV_TRANSACTION_COMMIT M, t_fserrno = 0, t_trans = x\<rparr>, s))"

text \<open>The hook that sets the mode tells the driver only: the field \<open>mode\<close> of the structure stays as it was.\<close>

definition dav_repos_transaction_mode_set :: "dav_modes \<Rightarrow> 'x driver \<Rightarrow> 'x dav_transaction \<Rightarrow> int \<Rightarrow> int \<times> 'x dav_transaction" where
  "dav_repos_transaction_mode_set M drv t mode =
     (case dbms_transaction_mode_set M drv mode (t_trans t) of (r, x) \<Rightarrow> (r, t\<lparr>t_trans := x\<rparr>))"

definition to_rollback :: "dav_modes \<Rightarrow> 'x driver \<Rightarrow> 'x dav_transaction \<Rightarrow> 'x dav_transaction" where
  "to_rollback M drv t =
     (case dbms_transaction_mode_set M drv (DAV_TRANSACTION_ROLLBACK M) (t_trans t) of (r, x) \<Rightarrow> t\<lparr>t_mode := r, t_trans := x\<rparr>)"

definition dav_repos_transaction_pre_commit_checks ::
  "dav_modes \<Rightarrow> 'x driver \<Rightarrow> 'x dav_transaction \<Rightarrow> db \<Rightarrow> dav_error option \<times> 'x dav_transaction \<times> db" where
  "dav_repos_transaction_pre_commit_checks M drv t s =
     (case dbms_quota_pre_commit_checks s of
        (err, s) \<Rightarrow>
          if err \<noteq> None \<and> t_mode t \<noteq> DAV_TRANSACTION_IGNORE_ERRORS M then (err, to_rollback M drv t, s)
          else if t_fserrno t \<noteq> 0 \<and> t_mode t \<noteq> DAV_TRANSACTION_IGNORE_ERRORS M then (None, to_rollback M drv t, s)
          else (None, t, s))"

definition dav_repos_transaction_end :: "dav_modes \<Rightarrow> 'x driver \<Rightarrow> 'x dav_transaction \<Rightarrow> db \<Rightarrow> dav_error option \<times> db" where
  "dav_repos_transaction_end M drv t s =
     (case dav_repos_transaction_pre_commit_checks M drv t s of
        (err, t, s) \<Rightarrow>
          (case dbms_transaction_end drv (t_trans t) s of
             (ierrno, s) \<Rightarrow>
               (if ierrno \<noteq> 0 then Some (dav_new_error HTTP_INTERNAL_SERVER_ERROR ''failed to end transaction'') else err, s)))"

section \<open>What the driver promises\<close>

text \<open>
  \<open>saved x\<close> is the database when the transaction \<open>x\<close> began and \<open>mode_of x\<close> its mode. Setting the mode
  is remembered; the end of a transaction in the mode for a roll-back restores the tables, when it succeeds,
  and in any mode it either keeps the changes or undoes all of them.
\<close>

definition driver_laws :: "'x driver \<Rightarrow> ('x \<Rightarrow> db) \<Rightarrow> ('x \<Rightarrow> apr_mode) \<Rightarrow> bool" where
  "driver_laws drv saved mode_of \<longleftrightarrow>
     (\<forall>s x s'. drv_start drv s = (0, x, s') \<longrightarrow> tables_eq (saved x) s \<and> tables_eq s' s) \<and>
     (\<forall>m x. saved (snd (drv_mode_set drv m x)) = saved x \<and> mode_of (snd (drv_mode_set drv m x)) = m) \<and>
     (\<forall>x s s'. drv_end drv x s = (0, s') \<longrightarrow>
        tables_eq s' (saved x) \<or> mode_of x \<noteq> APR_DBD_TRANSACTION_ROLLBACK \<and> tables_eq s' s)"

text \<open>What a handler does to the structure of the transaction: it sets modes and records errors of the file system.\<close>

inductive handled :: "dav_modes \<Rightarrow> 'x driver \<Rightarrow> 'x dav_transaction \<Rightarrow> 'x dav_transaction \<Rightarrow> bool" for M drv t where
  none: "handled M drv t t"
| mode: "handled M drv t u \<Longrightarrow> handled M drv t (snd (dav_repos_transaction_mode_set M drv u mode))"
| fserr: "handled M drv t u \<Longrightarrow> handled M drv t (u\<lparr>t_fserrno := n\<rparr>)"

lemma handled_keeps:
  assumes "handled M drv t u" and "driver_laws drv saved mode_of"
  shows "t_mode u = t_mode t \<and> saved (t_trans u) = saved (t_trans t)"
  using assms(1)
proof (induction rule: handled.induct)
  case (mode u m)
  obtain r x where "drv_mode_set drv (ap_mode M m) (t_trans u) = (r, x)" by (cases "drv_mode_set drv (ap_mode M m) (t_trans u)")
  moreover from this have "saved x = saved (t_trans u)"
    using assms(2) unfolding driver_laws_def by (metis snd_conv)
  ultimately show ?case using mode.IH by (simp add: dav_repos_transaction_mode_set_def dbms_transaction_mode_set_def)
qed simp_all

lemma transaction_started:
  assumes "dav_repos_transaction_start M drv d b s = (Inr t, s0)" and "driver_laws drv saved mode_of"
  shows "t_mode t = DAV_TRANSACTION_COMMIT M \<and> tables_eq (saved (t_trans t)) s \<and> tables_eq s0 s"
proof -
  obtain e x s1 where st: "drv_start drv s = (e, x, s1)" by (cases "drv_start drv s")
  with assms(1) have e: "e = 0" "t = \<lparr>t_mode = DAV_TRANSACTION_COMMIT M, t_fserrno = 0, t_trans = x\<rparr>"
    "s0 = (if d = PGSQL then snd (dbms_defer_all_constraints s1) else s1)"
    by (auto simp: dav_repos_transaction_start_def dbms_transaction_start_def split: if_splits)
  have "tables_eq (saved x) s" "tables_eq s1 s" using assms(2) st e(1) unfolding driver_laws_def by blast+
  moreover have "tables_eq (snd (dbms_defer_all_constraints s1)) s1"
    by (auto simp: dbms_defer_all_constraints_def exec_or_500_def split: prod.splits bool.splits dest: run_select_same)
  ultimately show ?thesis by (auto simp: e intro: tables_eq_trans)
qed

lemma to_rollback_driver:
  assumes "driver_laws drv saved mode_of" and "DAV_TRANSACTION_ROLLBACK M \<noteq> DAV_TRANSACTION_COMMIT M"
  shows "mode_of (t_trans (to_rollback M drv t)) = APR_DBD_TRANSACTION_ROLLBACK
    \<and> saved (t_trans (to_rollback M drv t)) = saved (t_trans t)"
proof -
  obtain r x where x: "drv_mode_set drv APR_DBD_TRANSACTION_ROLLBACK (t_trans t) = (r, x)"
    by (cases "drv_mode_set drv APR_DBD_TRANSACTION_ROLLBACK (t_trans t)")
  then have "saved x = saved (t_trans t) \<and> mode_of x = APR_DBD_TRANSACTION_ROLLBACK"
    using assms(1) unfolding driver_laws_def by (metis snd_conv)
  with x assms(2) show ?thesis by (simp add: to_rollback_def dbms_transaction_mode_set_def ap_mode_def)
qed

section \<open>The end of a transaction\<close>

definition over_quota :: "db \<Rightarrow> bool" where
  "over_quota s \<longleftrightarrow> list_ex (\<lambda>(p, used, limit). 0 < limit \<and> limit < used_by s p) (quota s)"

lemma over_quota_tables: "tables_eq s t \<Longrightarrow> over_quota s = over_quota t"
proof -
  assume eq: "tables_eq s t"
  have "bytes_of s = bytes_of t"
    by (intro ext) (simp add: bytes_of_def media_bytes_def prop_bytes_def tables_eqD [OF eq])
  then have "used_by s = used_by t" by (intro ext) (simp add: used_by_def owners_def tables_eqD [OF eq] cong: if_cong)
  then show ?thesis by (simp add: over_quota_def tables_eqD [OF eq])
qed

text \<open>The check before a commit, on an account that is exact.\<close>

lemma pre_commit_outcome:
  assumes "dbms_quota_pre_commit_checks u = (e, u')" and "account_inv u"
  obtains (failed) "e = Some (dav_new_error HTTP_INTERNAL_SERVER_ERROR ''dbms_execute error'')" "tables_eq u' u" "fault u \<noteq> []"
  | (over) d where "e = Some d" "status d = HTTP_INSUFFICIENT_STORAGE" "over_quota u" "tables_eq u' u"
  | (within) "e = None" "\<not> over_quota u" "tables_eq u' u"
proof -
  obtain b v where r: "run_select u = (b, v)" by (cases "run_select u")
  then have eq: "tables_eq v u" by (rule run_select_same)
  have ex: "quota_exact u" using assms(2) by (simp add: account_inv_def)
  have ov: "list_ex (\<lambda>(p, used, limit). limit < used \<and> 0 < limit) (quota v) = over_quota u"
    using ex unfolding over_quota_def quota_exact_def list_all_iff list_ex_iff tables_eqD(4) [OF eq] by fast
  show thesis
  proof (cases b)
    case True
    moreover have "fault u \<noteq> []" using r True by (auto simp: run_stmt_healthy)
    ultimately show thesis using r eq assms(1) by (intro failed) (simp_all add: dbms_quota_pre_commit_checks_def)
  next
    case False
    show thesis
    proof (cases "over_quota u")
      case True
      then show thesis using r eq ov False assms(1) by (intro over) (auto simp: dbms_quota_pre_commit_checks_def)
    next
      case no: False
      then show thesis using r eq ov False assms(1) by (intro within) (simp_all add: dbms_quota_pre_commit_checks_def)
    qed
  qed
qed

text \<open>The end of a transaction whose mode is not to ignore errors.\<close>

lemma end_outcome:
  assumes laws: "driver_laws drv saved mode_of" and M: "distinct [DAV_TRANSACTION_COMMIT M, DAV_TRANSACTION_ROLLBACK M, DAV_TRANSACTION_IGNORE_ERRORS M]"
    and t: "t_mode t = DAV_TRANSACTION_COMMIT M" and acc: "account_inv u" and run: "dav_repos_transaction_end M drv t u = (e, s')"
  obtains (driver) "e = Some (dav_new_error HTTP_INTERNAL_SERVER_ERROR ''failed to end transaction'')"
  | (undone) "tables_eq s' (saved (t_trans t))" "over_quota u \<Longrightarrow> fault u = [] \<Longrightarrow> \<exists>d. e = Some d \<and> status d = HTTP_INSUFFICIENT_STORAGE"
  | (kept) "e = None" "\<not> over_quota u" "tables_eq s' u"
proof -
  obtain c u' where c: "dbms_quota_pre_commit_checks u = (c, u')" by (cases "dbms_quota_pre_commit_checks u")
  define t' where "t' = (if c \<noteq> None \<or> t_fserrno t \<noteq> 0 then to_rollback M drv t else t)"
  obtain i v where v: "drv_end drv (t_trans t') u' = (i, v)" by (cases "drv_end drv (t_trans t') u'")
  have run': "e = (if i \<noteq> 0 then Some (dav_new_error HTTP_INTERNAL_SERVER_ERROR ''failed to end transaction'') else c)" "s' = v"
    using run c v t M by (auto simp: dav_repos_transaction_end_def dav_repos_transaction_pre_commit_checks_def
        dbms_transaction_end_def t'_def split: if_splits)
  have saved: "saved (t_trans t') = saved (t_trans t)"
    using to_rollback_driver [OF laws, of M t] M by (auto simp: t'_def)
  have rolled: "c \<noteq> None \<Longrightarrow> mode_of (t_trans t') = APR_DBD_TRANSACTION_ROLLBACK"
    using to_rollback_driver [OF laws, of M t] M by (auto simp: t'_def)
  show thesis
  proof (cases "i = 0")
    case False
    then show thesis using driver run'(1) by simp
  next
    case True
    with v laws have o: "tables_eq v (saved (t_trans t)) \<or> mode_of (t_trans t') \<noteq> APR_DBD_TRANSACTION_ROLLBACK \<and> tables_eq v u'"
      unfolding driver_laws_def saved [symmetric] by blast
    show thesis
      using c acc
    proof (cases rule: pre_commit_outcome)
      case failed
      then show thesis using o rolled run' True by (intro undone) auto
    next
      case (over d)
      then show thesis using o rolled run' True by (intro undone) auto
    next
      case within
      then show thesis using o kept undone run' True by (auto intro: tables_eq_trans)
    qed
  qed
qed


text \<open>A driver that keeps the database of the start.\<close>

definition saving_driver :: "(db \<times> apr_mode) driver" where
  "saving_driver = \<lparr>drv_start = (\<lambda>s. (0, (s, APR_DBD_TRANSACTION_COMMIT), s)), drv_mode_set = (\<lambda>m x. (0, (fst x, m))),
     drv_end = (\<lambda>x s. (0, if snd x = APR_DBD_TRANSACTION_ROLLBACK then fst x else s))\<rparr>"

definition mod_dav_modes :: dav_modes where
  "mod_dav_modes = \<lparr>DAV_TRANSACTION_COMMIT = 0, DAV_TRANSACTION_ROLLBACK = 1, DAV_TRANSACTION_IGNORE_ERRORS = 2\<rparr>"

lemma saving_driver_laws: "driver_laws saving_driver fst snd"
  by (auto simp: driver_laws_def saving_driver_def)

text \<open>A file grows to 2000 bytes in a request that asks to ignore errors; its owner may use 1000.\<close>

definition big_file :: dav_repos_resource where
  "big_file = sample_file\<lparr>dr_getcontentlength := 2000\<rparr>"


end
