(* ===== verification/Config.thy ===== *)
theory Config
  imports Streams Transactions
begin

text \<open>
  The module itself, \<^verbatim>\<open>mod_dav_repos.c\<close>: the configuration of a server and how that of a virtual host is merged with
  it, the commands of the configuration file, the table of content types and \<open>get_mime_type\<close> of \<^verbatim>\<open>util.c\<close>
  that uses it, and the hooks that start the collector and set the user of a request.
\<close>

section \<open>The configuration of a server\<close>

text \<open>\<open>dav_repos_server_conf\<close>. \<open>INHERIT_VALUE\<close> reads a field as a truth value. The provider of profiles is named by
  what \<open>ap_lookup_provider\<close> found.\<close>

record dav_repos_server_conf =
  cf_tmp_dir :: "string option"
  cf_file_dir :: "string option"
  cf_db_driver :: "string option"
  cf_dbms :: dbms
  cf_db_params :: "string option"
  cf_use_gc :: int
  cf_keep_files :: int
  cf_css_uri :: "string option"
  cf_xsl_403_uri :: "string option"
  cf_quota :: int
  cf_profile_provider :: "string option"

definition dav_repos_create_server_config :: dav_repos_server_conf where
  "dav_repos_create_server_config = \<lparr>cf_tmp_dir = None, cf_file_dir = None, cf_db_driver = None, cf_dbms = UNKNOWN,
     cf_db_params = None, cf_use_gc = 0, cf_keep_files = 1, cf_css_uri = None, cf_xsl_403_uri = None,
     cf_quota = 10 * 1024 * 1024, cf_profile_provider = None\<rparr>"

definition inherit_ptr :: "'a option \<Rightarrow> 'a option \<Rightarrow> 'a option" where
  "inherit_ptr parent child = (case child of Some x \<Rightarrow> Some x | None \<Rightarrow> parent)"

definition inherit_int :: "int \<Rightarrow> int \<Rightarrow> int" where
  "inherit_int parent child = (if child \<noteq> 0 then child else parent)"

text \<open>The merged structure starts as zeros, and the provider of profiles is not copied into it.\<close>

definition dav_repos_merge_server_config :: "dav_repos_server_conf \<Rightarrow> dav_repos_server_conf \<Rightarrow> dav_repos_server_conf" where
  "dav_repos_merge_server_config parent child =
     \<lparr>cf_tmp_dir = inherit_ptr (cf_tmp_dir parent) (cf_tmp_dir child),
      cf_file_dir = inherit_ptr (cf_file_dir parent) (cf_file_dir child),
      cf_db_driver = inherit_ptr (cf_db_driver parent) (cf_db_driver child),
      cf_dbms = (if cf_dbms child = UNKNOWN then cf_dbms parent else cf_dbms child),
      cf_db_params = inherit_ptr (cf_db_params parent) (cf_db_params child),
      cf_use_gc = inherit_int (cf_use_gc parent) (cf_use_gc child),
      cf_keep_files = inherit_int (cf_keep_files parent) (cf_keep_files child),
      cf_css_uri = inherit_ptr (cf_css_uri parent) (cf_css_uri child),
      cf_xsl_403_uri = inherit_ptr (cf_xsl_403_uri parent) (cf_xsl_403_uri child),
      cf_quota = inherit_int (cf_quota parent) (cf_quota child),
      cf_profile_provider = None\<rparr>"

section \<open>Commands\<close>

text \<open>\<open>atoi\<close>: white space, a sign, digits; what follows is ignored. The value is taken to fit an \<open>int\<close>.\<close>

definition digits_value :: "string \<Rightarrow> int" where
  "digits_value ds = foldl (\<lambda>n c. 10 * n + (of_char c - 48)) 0 ds"

definition atoi :: "string \<Rightarrow> int" where
  "atoi x =
     (case dropWhile isspace x of
        [] \<Rightarrow> 0
      | c # cs \<Rightarrow>
          if c = CHR ''-'' then - digits_value (takeWhile is_digit cs)
          else if c = CHR ''+'' then digits_value (takeWhile is_digit cs)
          else digits_value (takeWhile is_digit (c # cs)))"

datatype command =
    DAVDBMSTmpDir string
  | DAVDBMSFileDir string
  | DBDriver string
  | DBDParams string
  | DAVLimestoneUseGC
  | DAVLimestoneKeepFiles bool
  | DAVLimestoneIndexCSS string
  | DAVLimestoneXSL403 string
  | DAVLimestoneUserQuota string
  | DAVLimestoneProfileProvider string

text \<open>\<open>lowercase\<close> is what \<open>strcasecmp\<close> compares by. A driver that is not supported is still stored; the
  command then reports the error, which stops the server.\<close>

definition dav_repos_dbd_driver_cmd :: "(string \<Rightarrow> string) \<Rightarrow> string \<Rightarrow> dav_repos_server_conf \<Rightarrow> string option \<times> dav_repos_server_conf" where
  "dav_repos_dbd_driver_cmd lowercase a c =
     (let c = c\<lparr>cf_db_driver := Some a\<rparr>
      in if lowercase a = ''mysql'' then (None, c\<lparr>cf_dbms := MYSQL\<rparr>)
         else if lowercase a = ''pgsql'' then (None, c\<lparr>cf_dbms := PGSQL\<rparr>)
         else (Some ''This database driver is not supported'', c))"

fun run_command :: "(string \<Rightarrow> string) \<Rightarrow> (string \<Rightarrow> string option) \<Rightarrow> command \<Rightarrow> dav_repos_server_conf \<Rightarrow> string option \<times> dav_repos_server_conf" where
  "run_command lowercase lookup (DAVDBMSTmpDir a) c = (None, c\<lparr>cf_tmp_dir := Some a\<rparr>)"
| "run_command lowercase lookup (DAVDBMSFileDir a) c = (None, c\<lparr>cf_file_dir := Some a\<rparr>)"
| "run_command lowercase lookup (DBDriver a) c = dav_repos_dbd_driver_cmd lowercase a c"
| "run_command lowercase lookup (DBDParams a) c = (None, c\<lparr>cf_db_params := Some a\<rparr>)"
| "run_command lowercase lookup DAVLimestoneUseGC c = (None, c\<lparr>cf_use_gc := 1\<rparr>)"
| "run_command lowercase lookup (DAVLimestoneKeepFiles b) c = (None, c\<lparr>cf_keep_files := of_bool b\<rparr>)"
| "run_command lowercase lookup (DAVLimestoneIndexCSS a) c = (None, c\<lparr>cf_css_uri := Some a\<rparr>)"
| "run_command lowercase lookup (DAVLimestoneXSL403 a) c = (None, c\<lparr>cf_xsl_403_uri := Some a\<rparr>)"
| "run_command lowercase lookup (DAVLimestoneUserQuota a) c = (None, c\<lparr>cf_quota := atoi a\<rparr>)"
| "run_command lowercase lookup (DAVLimestoneProfileProvider a) c = (None, c\<lparr>cf_profile_provider := lookup a\<rparr>)"

text \<open>The part of a server in the configuration file: its commands run in order on a fresh structure.\<close>

fun run_commands :: "(string \<Rightarrow> string) \<Rightarrow> (string \<Rightarrow> string option) \<Rightarrow> command list \<Rightarrow> dav_repos_server_conf \<Rightarrow> string + dav_repos_server_conf" where
  "run_commands lowercase lookup [] c = Inr c"
| "run_commands lowercase lookup (x # xs) c =
     (case run_command lowercase lookup x c of
        (Some e, c) \<Rightarrow> Inl e
      | (None, c) \<Rightarrow> run_commands lowercase lookup xs c)"

section \<open>Connections, the collector, the user\<close>

text \<open>\<open>dav_repos_get_db\<close>: a request opens its connection once; after a failure it tries again at the next call. \<open>own\<close> is the
  configuration of the request, \<open>opened\<close> the answer of \<open>dbms_opendb\<close>.\<close>

definition dav_repos_get_db :: "'c option \<Rightarrow> bool \<Rightarrow> 'c \<Rightarrow> 'c option" where
  "dav_repos_get_db own opened server = (case own of Some db \<Rightarrow> Some db | None \<Rightarrow> if opened then Some server else None)"

definition dav_repos_create_request :: "'c option option \<Rightarrow> 'c option \<Rightarrow> 'c option" where
  "dav_repos_create_request main own =
     (case main of None \<Rightarrow> own | Some None \<Rightarrow> own | Some (Some db) \<Rightarrow> Some db)"

definition dav_repos_pre_mpm :: "dav_repos_server_conf list \<Rightarrow> dav_repos_server_conf list" where
  "dav_repos_pre_mpm servers = filter (\<lambda>c. cf_use_gc c \<noteq> 0 \<and> cf_dbms c \<noteq> UNKNOWN) servers"

definition dav_repos_fixups :: "string option \<Rightarrow> db \<Rightarrow> string option \<times> db" where
  "dav_repos_fixups user s = dbms_get_canonical_username user s"

section \<open>Content types\<close>

text \<open>The file of content types: \<open>words\<close> splits a line as \<open>ap_getword_conf\<close> does, \<open>lowercase\<close> is \<open>ap_str_tolower\<close>. A later
  line overrides an earlier one.\<close>

definition type_line :: "(string \<Rightarrow> string list) \<Rightarrow> (string \<Rightarrow> string) \<Rightarrow> string \<Rightarrow> (string \<rightharpoonup> string) \<Rightarrow> (string \<rightharpoonup> string)" where
  "type_line words lowercase l m =
     (if take 1 l = ''#'' then m
      else case words l of
        [] \<Rightarrow> m
      | ct # exts \<Rightarrow> foldl (\<lambda>m e. m(lowercase e \<mapsto> ct)) m exts)"

definition dav_repos_post_config :: "(string \<Rightarrow> string list) \<Rightarrow> (string \<Rightarrow> string) \<Rightarrow> string list option \<Rightarrow> nat + (string \<rightharpoonup> string)" where
  "dav_repos_post_config words lowercase lines =
     (case lines of
        None \<Rightarrow> Inl HTTP_INTERNAL_SERVER_ERROR
      | Some ls \<Rightarrow> Inr (foldl (\<lambda>m l. type_line words lowercase l m) Map.empty ls))"

text \<open>\<open>strrchr(filename, '.') + 1\<close>.\<close>

definition extension :: "string \<Rightarrow> string option" where
  "extension f = (if CHR ''.'' \<in> set f then Some (rev (takeWhile (\<lambda>c. c \<noteq> CHR ''.'') (rev f))) else None)"

definition get_mime_type :: "(string \<rightharpoonup> string) \<Rightarrow> (string \<Rightarrow> string) \<Rightarrow> string \<Rightarrow> string \<Rightarrow> string" where
  "get_mime_type ext_map guess_mime_type u path =
     (case Option.bind (extension (basename u)) ext_map of
        Some t \<Rightarrow> t
      | None \<Rightarrow> guess_mime_type path)"

section \<open>What a virtual host inherits\<close>

lemma run_commands_keep:
  assumes "run_commands lc lk xs c = Inr c'" "\<And>b. DAVLimestoneKeepFiles b \<notin> set xs"
  shows "cf_keep_files c' = cf_keep_files c"
  using assms
proof (induction xs arbitrary: c)
  case (Cons x xs)
  then show ?case
    by (cases x) (auto simp: dav_repos_dbd_driver_cmd_def Let_def split: if_splits)
qed simp

lemma run_commands_quota:
  assumes "run_commands lc lk xs c = Inr c'" "\<And>a. DAVLimestoneUserQuota a \<notin> set xs"
  shows "cf_quota c' = cf_quota c"
  using assms
proof (induction xs arbitrary: c)
  case (Cons x xs)
  then show ?case
    by (cases x) (auto simp: dav_repos_dbd_driver_cmd_def Let_def split: if_splits)
qed simp



end
