(* ===== verification/Handlers.thy ===== *)
theory Handlers
  imports Copying Util
begin

text \<open>
  The other handlers of \<^verbatim>\<open>repos.c\<close>: delivery of a collection as a page, response headers, the walk over a tree, the
  rewriting of addresses for the domain of a user; \<open>sabridge_get_used_bytes\<close> and \<open>sabridge_copy_bitmarks\<close> of
  \<^verbatim>\<open>bridge.c\<close>, the hooks of \<^verbatim>\<open>redirect.c\<close>, and \<open>get_group_member_set\<close> of \<^verbatim>\<open>principal.c\<close>.
\<close>

section \<open>Addresses\<close>

text \<open>\<open>apr_xml_quote_string\<close> is the parameter \<open>quote\<close>.\<close>

definition dav_repos_mk_href :: "(string \<Rightarrow> string) \<Rightarrow> string option \<Rightarrow> string option" where
  "dav_repos_mk_href quote u = map_option (\<lambda>u. ''<D:href>'' @ quote u @ ''</D:href>'') u"

definition principal_href_prefix :: "string \<Rightarrow> int \<Rightarrow> string" where
  "principal_href_prefix server_name port =
     ''http://'' @ (if port \<noteq> 0 \<and> port \<noteq> 80 then server_name @ '':'' @ show_long port else server_name)"

definition strip_port :: "string \<Rightarrow> string" where
  "strip_port host = takeWhile (\<lambda>c. c \<noteq> CHR '':'') host"

text \<open>
  \<open>dav_repos_response_href_transform\<close>; \<open>note\<close> is the path that an earlier call of the request found. The test for a
  subdomain compares the end of the host, as long as the name of the server, with the name and a dot before it. The host
  that is looked up still has its port. A request without a \<open>Host\<close> is read through \<open>NULL\<close>.
\<close>

definition served_here :: "string \<Rightarrow> string option \<Rightarrow> bool" where
  "served_here hostname server_name =
     (case server_name of
        None \<Rightarrow> False
      | Some sn \<Rightarrow> hostname = sn \<or> length sn < length hostname \<and> drop (length hostname - length sn) hostname = CHR ''.'' # sn)"

definition strip_path :: "string \<Rightarrow> string \<Rightarrow> string" where
  "strip_path path u =
     (let v = (if take (length path) u = path then drop (length path) u else u) in if v = [] then ''/'' else v)"

definition dav_repos_response_href_transform ::
  "string option \<Rightarrow> string option \<Rightarrow> string \<Rightarrow> string option \<Rightarrow> db \<Rightarrow> (string \<times> string option \<times> db) option" where
  "dav_repos_response_href_transform host server_name u note_path s =
     (case host of
        None \<Rightarrow> None
      | Some h \<Rightarrow>
          Some (if served_here (strip_port h) server_name then (u, note_path, s)
            else case (case note_path of Some p \<Rightarrow> (Some p, s) | None \<Rightarrow> dbms_get_domain_path h s) of
              (path, s) \<Rightarrow> (case path of None \<Rightarrow> u | Some p \<Rightarrow> strip_path p u, path, s)))"

lemma served_here_exact: "served_here h (Some sn) \<longleftrightarrow> h = sn"
proof -
  have "length (drop (length h - length sn) h) \<le> length sn" by simp
  then have "drop (length h - length sn) h \<noteq> CHR ''.'' # sn" by (metis impossible_Cons)
  then show ?thesis by (simp add: served_here_def)
qed

section \<open>The page of a collection\<close>

text \<open>The path with a link for each segment; the segments are taken from the end. A path without a segment has no
  page title, which is printed as \<open>(null)\<close>.\<close>

definition anchor :: "string \<Rightarrow> string \<Rightarrow> string" where
  "anchor href token = ''<A HREF='' @ [CHR 0x22] @ href @ [CHR 0x22] @ ''>'' @ token @ ''</A>''"

fun pretty_loop :: "string \<Rightarrow> string \<Rightarrow> string list \<Rightarrow> string" where
  "pretty_loop href acc [] = acc"
| "pretty_loop href acc (t # ts) =
     pretty_loop (href @ ''../'') (anchor (href @ ''../'') (rev t) @ '' > '' @ acc) ts"

definition pretty_print_uri :: "string \<Rightarrow> string option" where
  "pretty_print_uri req_uri =
     (let u = rev req_uri
      in case tokens CHR ''/'' u of
           [] \<Rightarrow> None
         | t # ts \<Rightarrow>
             (let href = (if take 1 u = ''/'' then ''./'' else ''./'' @ rev t @ ''/'')
              in Some (pretty_loop href (anchor href (rev t)) ts)))"

text \<open>The request: whether it is a sub-request, its path and its arguments.\<close>

record http_request =
  rq_sub :: bool
  rq_uri :: string
  rq_args :: "string option"

datatype delivery = Redirect_to string | Page string | Body

definition page_line :: "dav_repos_resource \<Rightarrow> string" where
  "page_line c =
     (let n = basename (column (dr_uri c)); q = [CHR 0x22]
      in ''<li><A HREF='' @ q @ n @ (if dr_resourcetype c = dav_repos_COLLECTION then ''/'' else []) @ q @ ''>'' @ n @
         (if dr_resourcetype c = dav_repos_COLLECTION then ''/'' else []) @ ''</A><BR>'' @ [CHR 0x0A])"

definition page_of :: "string \<Rightarrow> string option \<Rightarrow> string \<Rightarrow> dav_repos_resource list \<Rightarrow> string" where
  "page_of version css_uri req_uri cs =
     (let q = [CHR 0x22]; nl = [CHR 0x0A]
      in ''<!DOCTYPE HTML PUBLIC '' @ q @ ''-//W3C//DTD HTML 3.2 Final//EN'' @ q @ ''>'' @ ''<html>'' @ nl @
         (case css_uri of None \<Rightarrow> []
          | Some c \<Rightarrow> ''<head> <link href='' @ q @ c @ q @ '' rel='' @ q @ ''stylesheet'' @ q @ ''media='' @ q @ ''screen'' @ q @
                      '' type='' @ q @ ''text/css'' @ q @ ''/></head> '' @ nl) @
         ''<body>'' @ nl @ '' <h2>'' @ (case pretty_print_uri req_uri of None \<Rightarrow> ''(null)'' | Some t \<Rightarrow> t) @ ''</h2>'' @ nl @
         nl @ ''<ul>'' @ nl @ ''<li><a href='' @ q @ ''../'' @ q @ ''><small>../</small></a><br>'' @ nl @
         concat (map page_line cs) @
         '' </ul>'' @ nl @ '' <hr noshade><em>Powered by Limestone '' @ version @ ''.</em>'' @ nl @ ''</body></html>'')"

text \<open>\<open>dav_repos_deliver\<close>: a collection without a slash at the end is redirected, \<open>href\<close> being the answer of
  \<open>dav_get_response_href\<close>. The listing is not limited to what the user may read. The empty path has no last character.\<close>

definition dav_repos_deliver ::
  "string \<Rightarrow> string option \<Rightarrow> string \<Rightarrow> http_request \<Rightarrow> dav_repos_resource \<Rightarrow> db \<Rightarrow> ((dav_error + delivery) \<times> db) option" where
  "dav_repos_deliver version css_uri href rq r s =
     (if \<not> is_collection (dr_resourcetype r) then Some (Inr Body, s)
      else if \<not> rq_sub rq \<and> rq_uri rq = [] then None
      else if \<not> rq_sub rq \<and> last (rq_uri rq) \<noteq> CHR ''/''
      then Some (Inr (Redirect_to (href @ ''/'' @ (case rq_args rq of None \<Rightarrow> [] | Some a \<Rightarrow> ''?'' @ a))), s)
      else case sabridge_get_collection_children None r 1 s of
        None \<Rightarrow> None
      | Some (Inl e, s) \<Rightarrow> Some (Inl e, s)
      | Some (Inr (cs, n), s) \<Rightarrow> Some (Inr (Page (page_of version css_uri (rq_uri rq) cs)), s))"

section \<open>Response headers\<close>

record headers =
  h_content_type :: "string option"
  h_etag :: "string option"
  h_accept_ranges :: bool

definition dav_repos_set_headers :: "string option \<Rightarrow> dav_repos_resource \<Rightarrow> headers \<Rightarrow> headers option" where
  "dav_repos_set_headers etag r h =
     (case dr_resource r of
        None \<Rightarrow> None
      | Some rs \<Rightarrow>
          Some (if \<not> rs_exists rs then h
                else if dr_resourcetype r = dav_repos_COLLECTION then h\<lparr>h_content_type := Some ''text/html''\<rparr>
                else h\<lparr>h_etag := (case etag of None \<Rightarrow> h_etag h | Some e \<Rightarrow> Some e), h_accept_ranges := True,
                       h_content_type := (case dr_getcontenttype r of None \<Rightarrow> h_content_type h | Some t \<Rightarrow> Some t)\<rparr>))"

section \<open>The walk\<close>

text \<open>
  \<open>dav_repos_walk\<close> calls a function of the HTTP server for the resource and the elements of its listing, in order, with
  whether the element is a collection. The function is a parameter that works on a state of its own; an error ends the walk. With
  \<open>DAV_WALKTYPE_IGNORE_BINDS\<close>, elements that are bound at an earlier place too are left out.
\<close>

record walk_params =
  wk_auth :: "id option"
  wk_ignore_binds :: bool

fun walk_loop :: "bool \<Rightarrow> (dav_repos_resource \<Rightarrow> bool \<Rightarrow> 'w \<Rightarrow> dav_error option \<times> 'w) \<Rightarrow> dav_repos_resource list \<Rightarrow> 'w
    \<Rightarrow> (dav_error option \<times> 'w) option" where
  "walk_loop ignore func [] w = Some (None, w)"
| "walk_loop ignore func (c # cs) w =
     (if ignore \<and> dr_bind c \<noteq> None then walk_loop ignore func cs w
      else case dav_repos_update_dbr_resource c of
        None \<Rightarrow> None
      | Some c \<Rightarrow>
          (case func c (is_collection (dr_resourcetype c)) w of
             (Some e, w) \<Rightarrow> Some (Some e, w)
           | (None, w) \<Rightarrow> walk_loop ignore func cs w))"

definition dav_repos_walk ::
  "walk_params \<Rightarrow> (dav_repos_resource \<Rightarrow> bool \<Rightarrow> 'w \<Rightarrow> dav_error option \<times> 'w) \<Rightarrow> int \<Rightarrow> dav_repos_resource \<Rightarrow> db \<Rightarrow> 'w
    \<Rightarrow> (dav_error option \<times> 'w \<times> db) option" where
  "dav_repos_walk pm func d r s w =
     (case (if is_collection (dr_resourcetype r) \<and> d \<noteq> 0
            then sabridge_get_collection_children (map_option (\<lambda>i. (i, ''read'')) (wk_auth pm)) r d s
            else Some (Inr ([], 0), s)) of
        None \<Rightarrow> None
      | Some (Inl e, s) \<Rightarrow> Some (Some e, w, s)
      | Some (Inr (cs, n), s) \<Rightarrow> map_option (\<lambda>(e, w). (e, w, s)) (walk_loop (wk_ignore_binds pm) func (r # cs) w))"

section \<open>Used bytes\<close>

text \<open>
  \<open>sabridge_get_used_bytes\<close> sums in an \<open>int\<close> of 32 bits. Without \<open>prin_only\<close> the variable \<open>user_id\<close> is not initialised;
  \<open>garbage\<close> is what it holds. After a failed listing the variable for the list is not initialised either.
\<close>

definition wrap_int :: "int \<Rightarrow> int" where
  "wrap_int n = sint (word_of_int n :: 32 word)"

definition counted :: "bool \<Rightarrow> id \<Rightarrow> dav_repos_resource \<Rightarrow> bool" where
  "counted prin_only user_id c \<longleftrightarrow> dr_bind c = None \<and> has_body (dr_resourcetype c) \<and> (\<not> prin_only \<or> dr_owner_id c = user_id)"

definition sum_bytes :: "bool \<Rightarrow> id \<Rightarrow> dav_repos_resource list \<Rightarrow> int" where
  "sum_bytes prin_only user_id cs =
     foldl (\<lambda>n c. if counted prin_only user_id c then wrap_int (n + dr_getcontentlength c) else n) 0 cs"

definition sabridge_get_used_bytes :: "env \<Rightarrow> id \<Rightarrow> dav_repos_resource \<Rightarrow> bool \<Rightarrow> db \<Rightarrow> (int \<times> db) option" where
  "sabridge_get_used_bytes env garbage r prin_only s =
     (let user_id = (if prin_only then dav_repos_get_principal_id (e_principal env) else garbage)
      in if dr_resourcetype r \<noteq> dav_repos_COLLECTION \<and> dr_owner_id r = user_id then Some (dr_getcontentlength r, s)
         else case sabridge_get_collection_children (Some (dav_repos_get_principal_id (e_principal env), ''read'')) r DAV_INFINITY s of
           None \<Rightarrow> None
         | Some (Inl e, s) \<Rightarrow> None
         | Some (Inr (cs, n), s) \<Rightarrow> Some (sum_bytes prin_only user_id cs, s))"

section \<open>Bitmarks, redirects, members\<close>

text \<open>The bitmarks of a resource are a collection below \<^verbatim>\<open>/bitmarks/\<close> named by its identifier. The failure to look it up is
  the same as there being none.\<close>

definition get_bitmarks_coll :: "dav_repos_resource \<Rightarrow> db \<Rightarrow> (dav_repos_resource \<times> db) option" where
  "get_bitmarks_coll r s =
     (case sabridge_new_dbr_from_dbr r of
        None \<Rightarrow> None
      | Some c \<Rightarrow>
          map_option (\<lambda>(e, c, s). (c, s))
            (sabridge_get_property (c\<lparr>dr_uri := Some (''/bitmarks/'' @ (case dr_uuid r of None \<Rightarrow> ''(null)'' | Some u \<Rightarrow> u))\<rparr>) s))"

definition is_bitmark :: "dav_repos_resource \<Rightarrow> bool" where
  "is_bitmark r = (case dr_uri r of None \<Rightarrow> False | Some u \<Rightarrow> 10 < length u \<and> take 10 u = ''/bitmarks/'')"

section \<open>Redirect hooks\<close>

definition dav_repos_create_redirectref :: "env \<Rightarrow> string option \<Rightarrow> redirect_lifetime \<Rightarrow> dav_repos_resource \<Rightarrow> session \<Rightarrow> outcome" where
  "dav_repos_create_redirectref env reftarget t r sn =
     step_ok (map_option (\<lambda>(e, r, p, sn). (e, r, sn))
         (sabridge_insert_resource env False False (r\<lparr>dr_resourcetype := dav_repos_REDIRECT\<rparr>) None sn))
       (\<lambda>r sn. in_db (dbms_insert_redirectref (e_now env) r reftarget t) r sn)"

definition dav_repos_update_redirectref :: "env \<Rightarrow> string option \<Rightarrow> redirect_lifetime \<Rightarrow> dav_repos_resource \<Rightarrow> session \<Rightarrow> outcome" where
  "dav_repos_update_redirectref env reftarget t r sn =
     in_db (dbms_update_redirectref (e_escape env) (e_now env) r reftarget t) r sn"

definition dav_repos_get_lifetime :: "dav_repos_resource \<Rightarrow> db \<Rightarrow> redirect_lifetime \<times> db" where
  "dav_repos_get_lifetime r s = (case dbms_get_redirect_props r s of (e, r, s) \<Rightarrow> (dr_redirect_lifetime r, s))"

definition dav_repos_get_reftarget :: "dav_repos_resource \<Rightarrow> db \<Rightarrow> string option \<times> db" where
  "dav_repos_get_reftarget r s = (case dbms_get_redirect_props r s of (e, r, s) \<Rightarrow> (dr_reftarget r, s))"

text \<open>A failed query is a group without members; a member that is neither a user nor a group has no URI, and
  \<open>apr_pstrcat\<close> then ends at the prefix.\<close>

definition get_group_member_set :: "(string \<Rightarrow> string) \<Rightarrow> string \<Rightarrow> string \<Rightarrow> dav_repos_resource \<Rightarrow> db \<Rightarrow> string \<times> db" where
  "get_group_member_set quote href_prefix root_path r s =
     (case dbms_get_group_members root_path r s of
        (Inl e, s) \<Rightarrow> ([], s)
      | (Inr ms, s) \<Rightarrow>
          (concat (map (\<lambda>m. column (dav_repos_mk_href quote (Some (href_prefix @ column (dr_uri m))))) ms), s))"

end
