(* ===== verification/Walks.thy ===== *)
theory Walks
  imports Handlers VersionFacts
begin

text \<open>
  What the walk over a tree visits, and what \<open>sabridge_get_used_bytes\<close> counts: each resource once, however often it
  is bound.
\<close>

section \<open>Elements that are not bound at an earlier place\<close>

definition unmarked :: "dav_repos_resource list \<Rightarrow> dav_repos_resource list" where
  "unmarked cs = filter (\<lambda>c. dr_bind c = None) cs"

lemma mark_level_unmarked:
  "mark_level cs h = (cs', h') \<Longrightarrow>
     distinct (map dr_serialno (unmarked cs')) \<and> dr_serialno ` set (unmarked cs') = dr_serialno ` set cs - dom h"
proof (induction cs arbitrary: h cs' h')
  case (Cons c cs)
  obtain ds g where m: "mark_level cs (h(dr_serialno c \<mapsto> column (dr_uri c))) = (ds, g)" by fastforce
  with Cons.prems have e: "cs' = c\<lparr>dr_bind := h (dr_serialno c)\<rparr> # ds" by simp
  from Cons.IH [OF m] have IH: "distinct (map dr_serialno (unmarked ds))"
    "dr_serialno ` set (unmarked ds) = dr_serialno ` set cs - insert (dr_serialno c) (dom h)"
    by (simp_all del: fun_upd_apply)
  then show ?case by (cases "h (dr_serialno c)") (auto simp: e unmarked_def)
qed (simp add: unmarked_def)

lemma mark_level_ids: "mark_level cs h = (cs', h') \<Longrightarrow> map dr_serialno cs' = map dr_serialno cs"
  by (induction cs arbitrary: h cs' h') (auto split: prod.splits)

text \<open>The table has exactly the resources met, and each has one unmarked element.\<close>

definition each_once :: "(id \<rightharpoonup> string) \<Rightarrow> id \<Rightarrow> (id \<rightharpoonup> string) \<Rightarrow> dav_repos_resource list \<Rightarrow> bool" where
  "each_once h0 root h acc \<longleftrightarrow> distinct (map dr_serialno (unmarked acc)) \<and> dom h0 \<subseteq> dom h \<and>
     dr_serialno ` set (unmarked acc) = dom h - dom h0 \<and> dr_serialno ` set acc \<subseteq> dom h"

lemma each_once_start: "each_once h root h []"
  by (simp add: each_once_def unmarked_def)

lemma each_once_step:
  assumes "each_once h0 root h acc" "mark_level cs h = (cs', h')"
  shows "each_once h0 root h' (acc @ cs')"
proof -
  have a: "unmarked (acc @ cs') = unmarked acc @ unmarked cs'" by (simp add: unmarked_def)
  have b: "dr_serialno ` set (unmarked acc) \<subseteq> dom h" "dr_serialno ` set (unmarked cs') \<inter> dom h = {}"
    using assms(1) mark_level_unmarked [OF assms(2)] by (auto simp: each_once_def)
  have c: "dom h' = dom h \<union> dr_serialno ` set cs" by (rule mark_level_dom [OF assms(2)])
  moreover have "dr_serialno ` set cs' = dr_serialno ` set cs" using arg_cong [OF mark_level_ids [OF assms(2)], of set] by simp
  ultimately have d: "dr_serialno ` set (acc @ cs') \<subseteq> dom h'" using assms(1) by (auto simp: each_once_def)
  have e: "distinct (map dr_serialno (unmarked acc))" "dom h0 \<subseteq> dom h" "dr_serialno ` set (unmarked acc) = dom h - dom h0"
    "distinct (map dr_serialno (unmarked cs'))" "dr_serialno ` set (unmarked cs') = dr_serialno ` set cs - dom h"
    using assms(1) mark_level_unmarked [OF assms(2)] by (auto simp: each_once_def)
  have "dr_serialno ` set (unmarked acc) \<union> dr_serialno ` set (unmarked cs') = dom h' - dom h0"
    using e(2) unfolding e(3) e(5) c by blast
  moreover have "distinct (map dr_serialno (unmarked acc @ unmarked cs'))" using e(1,4) b by auto
  moreover have "dom h0 \<subseteq> dom h'" using c e(2) by blast
  ultimately show ?thesis unfolding each_once_def a using d by (simp only: image_Un set_append simp_thms)
qed

lemma levels_loop_once:
  assumes "levels_loop acl deep cs h acc n s = Some (Inr (xs, k), s')" "each_once h0 root h acc"
  shows "\<exists>h'. each_once h0 root h' xs"
  using assms
proof (induction acl deep cs h acc n s rule: levels_loop.induct)
  case (1 acl deep cs h acc n s)
  show ?case
  proof (cases "cs = []")
    case True
    with 1(2,3) show ?thesis by (auto simp: levels_loop.simps [of acl deep "[]"])
  next
    case False
    obtain cs' h' where m: "mark_level cs h = (cs', h')" by fastforce
    have e: "each_once h0 root h' (acc @ cs')" by (rule each_once_step [OF 1(3) m])
    show ?thesis
    proof (cases "deep \<and> (\<exists>ds j t. dbms_get_collection_resource acl cs' s = Some (Inr (ds, j), t) \<and> ds \<noteq> [])")
      case False
      with \<open>cs \<noteq> []\<close> m 1(2) have "xs = acc @ cs'"
        by (auto simp: levels_loop.simps [of acl deep cs] split: if_splits option.splits sum.splits)
      with e show ?thesis by blast
    next
      case True
      then obtain ds j t where d: "deep" "dbms_get_collection_resource acl cs' s = Some (Inr (ds, j), t)" "ds \<noteq> []" by blast
      with \<open>cs \<noteq> []\<close> m 1(2) have "levels_loop acl deep ds h' (acc @ cs') (n + j) t = Some (Inr (xs, k), s')"
        by (simp add: levels_loop.simps [of acl True cs])
      from 1(1) [OF \<open>cs \<noteq> []\<close> m [symmetric] _ d(2) refl refl refl d(3) this e] d(1) show ?thesis by simp
    qed
  qed
qed

section \<open>The walk\<close>

text \<open>A function that reports no error and the resources it is called for.\<close>

lemma walk_loop_fold:
  assumes "\<And>c b w. fst (func c b w) = None" "\<And>c. c \<in> set cs \<Longrightarrow> dr_resource c \<noteq> None"
  shows "\<exists>xs. walk_loop ignore func cs w = Some (None, fold (\<lambda>c w. snd (func c (is_collection (dr_resourcetype c)) w)) xs w)
    \<and> map dr_serialno xs = map dr_serialno (if ignore then unmarked cs else cs)
    \<and> map dr_bind_id xs = map dr_bind_id (if ignore then unmarked cs else cs)"
  using assms(2)
proof (induction cs arbitrary: w)
  case (Cons c cs)
  show ?case
  proof (cases "ignore \<and> dr_bind c \<noteq> None")
    case True
    then show ?thesis using Cons by (auto simp: unmarked_def)
  next
    case False
    obtain c' where c': "dav_repos_update_dbr_resource c = Some c'" "dr_serialno c' = dr_serialno c" "dr_bind_id c' = dr_bind_id c"
      using Cons.prems [of c] by (auto simp: dav_repos_update_dbr_resource_def Let_def)
    obtain w' where w': "func c' (is_collection (dr_resourcetype c')) w = (None, w')" using assms(1) by (metis prod.collapse)
    from Cons.IH [of w'] Cons.prems obtain xs where
      "walk_loop ignore func cs w' = Some (None, fold (\<lambda>c w. snd (func c (is_collection (dr_resourcetype c)) w)) xs w')"
      "map dr_serialno xs = map dr_serialno (if ignore then unmarked cs else cs)"
      "map dr_bind_id xs = map dr_bind_id (if ignore then unmarked cs else cs)" by auto
    with c' w' False show ?thesis by (intro exI [of _ "c' # xs"]) (auto simp: unmarked_def)
  qed
qed (simp add: unmarked_def)

text \<open>The listing of all levels below a collection.\<close>

lemma listing_each_once:
  assumes "fault s = []" and "dr_resource r \<noteq> None" and "dr_bind r = None" and "is_collection (dr_resourcetype r)"
  obtains xs k where "sabridge_get_collection_children None r DAV_INFINITY s = Some (Inr (xs, k), s)"
    "mset (map dr_bind_id xs) = mset (map b_id (binds_of s ((descend s)\<^sup>* `` {dr_serialno r})))"
    "distinct (map dr_serialno (unmarked xs))"
    "dr_serialno ` set (unmarked xs) = b_resource_id ` set (binds_of s ((descend s)\<^sup>* `` {dr_serialno r})) - {dr_serialno r}"
    "list_all (\<lambda>c. dr_resource c \<noteq> None) xs"
proof -
  let ?h = "[dr_serialno r \<mapsto> column (dr_uri r)]"
  define J where "J h acc \<longleftrightarrow> each_once ?h (dr_serialno r) h acc \<and> list_all (\<lambda>c. dr_resource c \<noteq> None) acc" for h acc
  have step: "J h' (acc @ cs')" if "J h acc" "mark_level cs h = (cs', h')" "list_all (fresh_item s) cs" for cs h cs' h' acc
  proof -
    have "map dr_resource cs' = map dr_resource cs" using mark_level_select [OF that(2)] by simp
    moreover have "list_all (\<lambda>x. x \<noteq> None) (map dr_resource cs)"
      using that(3) by (auto simp: list_all_iff fresh_item_def)
    ultimately have "list_all (\<lambda>x. x \<noteq> None) (map dr_resource cs')" by simp
    then show ?thesis using that(1) each_once_step [OF _ that(2)] by (auto simp: J_def list_all_iff)
  qed
  have start: "J ?h []" by (simp add: J_def each_once_def unmarked_def)
  obtain ds k where l: "sabridge_get_collection_children None r DAV_INFINITY s = levels_loop None True ds ?h [] k s"
    "levels_inv s (dr_serialno r) {dr_serialno r} ds ?h []"
    by (rule first_level [OF assms])
  have "\<exists>xs j V' h'. levels_loop None True ds ?h [] k s = Some (Inr (xs, j), s)
      \<and> levels_inv s (dr_serialno r) V' [] h' xs \<and> J h' xs"
    by (rule levels_loop_ends [where J = J, OF assms(1) l(2) start step])
  then obtain xs j V' h' where e: "levels_loop None True ds ?h [] k s = Some (Inr (xs, j), s)"
    "levels_inv s (dr_serialno r) V' [] h' xs" "J h' xs" by blast
  note fin = levels_done [OF e(2)]
  have V': "V' = (descend s)\<^sup>* `` {dr_serialno r}" using fin by blast
  have "dom h' \<union> dr_serialno ` set ([] :: dav_repos_resource list) = insert (dr_serialno r) (b_resource_id ` set (binds_of s V'))"
    using e(2) unfolding levels_inv_def by (elim conjE)
  then have "dr_serialno ` set (unmarked xs) = b_resource_id ` set (binds_of s V') - {dr_serialno r}"
    using e(3) by (auto simp: J_def each_once_def)
  moreover have "distinct (map dr_serialno (unmarked xs))" "list_all (\<lambda>c. dr_resource c \<noteq> None) xs"
    using e(3) by (simp_all add: J_def each_once_def)
  moreover have "sabridge_get_collection_children None r DAV_INFINITY s = Some (Inr (xs, j), s)" using l(1) e(1) by simp
  ultimately show thesis using that fin unfolding V' by blast
qed


text \<open>A function that writes down what it is called for.\<close>

definition visit :: "dav_repos_resource \<Rightarrow> bool \<Rightarrow> id list \<Rightarrow> dav_error option \<times> id list" where
  "visit c coll w = (None, w @ [dr_serialno c])"


section \<open>Used bytes\<close>

lemma wrap_int_add: "wrap_int (wrap_int n + m) = wrap_int (n + m)"
  by (simp add: wrap_int_def)

lemma diff_same: "A - {r} \<subseteq> X \<Longrightarrow> X \<subseteq> A \<Longrightarrow> A - {r} = X - {r}"
  by blast

lemma sum_bytes_wraps:
  "foldl (\<lambda>n c. if counted p u c then wrap_int (n + dr_getcontentlength c) else n) (wrap_int n) cs
     = wrap_int (n + sum_list (map dr_getcontentlength (filter (counted p u) cs)))"
  by (induction cs arbitrary: n) (simp_all add: wrap_int_add add.assoc)

text \<open>C23: The bytes used below a collection are read off its listing to infinite depth: every resource of the listing
  has exactly one element that is not marked as bound earlier, except the collection itself; the marked
  elements are skipped, so a body that is bound many times counts once; and the sum of the sizes is kept in an
  \<open>int\<close> of 32 bits, so from two gigabytes on it is wrong.\<close>

theorem used_bytes_counts_once:
  assumes "sabridge_get_used_bytes env g r prin_only s = Some (n, s')" and "dr_resourcetype r = dav_repos_COLLECTION"
  shows "\<exists>xs k. sabridge_get_collection_children (Some (dav_repos_get_principal_id (e_principal env), ''read'')) r DAV_INFINITY s
      = Some (Inr (xs, k), s') \<and>
    dr_serialno ` {c \<in> set xs. dr_bind c = None} = dr_serialno ` set xs - {dr_serialno r} \<and>
    (let cs = filter (counted prin_only (if prin_only then dav_repos_get_principal_id (e_principal env) else g)) xs
     in distinct (map dr_serialno cs) \<and> n = wrap_int (sum_list (map dr_getcontentlength cs)))"
proof -
  let ?u = "if prin_only then dav_repos_get_principal_id (e_principal env) else g"
  obtain xs k where l: "sabridge_get_collection_children (Some (dav_repos_get_principal_id (e_principal env), ''read'')) r DAV_INFINITY s
      = Some (Inr (xs, k), s')" and n: "n = sum_bytes prin_only ?u xs"
    using assms by (auto simp: sabridge_get_used_bytes_def Let_def split: option.splits sum.splits)
  have "\<exists>h'. each_once [dr_serialno r \<mapsto> column (dr_uri r)] (dr_serialno r) h' xs"
    using l by (auto simp: sabridge_get_collection_children_def DAV_INFINITY_def
        split: option.splits sum.splits intro: levels_loop_once [OF _ each_once_start])
  then obtain h' where o: "each_once [dr_serialno r \<mapsto> column (dr_uri r)] (dr_serialno r) h' xs" by blast
  have h': "distinct (map dr_serialno (unmarked xs))" "dr_serialno ` set (unmarked xs) = dom h' - {dr_serialno r}"
    "dr_serialno ` set xs \<subseteq> dom h'" using o by (simp_all add: each_once_def)
  have d: "distinct (map dr_serialno (unmarked xs))" by (rule h')
  have "dr_serialno ` set (unmarked xs) \<subseteq> dr_serialno ` set xs" by (auto simp: unmarked_def)
  with h'(2) have "dom h' - {dr_serialno r} \<subseteq> dr_serialno ` set xs" by (simp only:)
  with h'(2,3) have all: "dr_serialno ` set (unmarked xs) = dr_serialno ` set xs - {dr_serialno r}"
    using diff_same by metis
  have f: "filter (counted prin_only ?u) xs = filter (counted prin_only ?u) (unmarked xs)"
    by (auto simp: unmarked_def counted_def intro: filter_cong)
  have "n = wrap_int (sum_list (map dr_getcontentlength (filter (counted prin_only ?u) xs)))"
    using sum_bytes_wraps [of prin_only ?u 0 xs] by (simp add: n sum_bytes_def wrap_int_def)
  moreover have "distinct (map dr_serialno (filter (counted prin_only ?u) xs))"
    unfolding f using d by (rule distinct_map_filter)
  moreover have "{c \<in> set xs. dr_bind c = None} = set (unmarked xs)" by (auto simp: unmarked_def)
  ultimately show ?thesis using l all by (auto simp: Let_def)
qed

definition tall_tree :: db where
  "tall_tree = cyclic_tree\<lparr>media := [\<lparr>m_resource_id = 22, m_size = 2147483648, m_mimetype = [], m_sha1 = [], m_updated_at = []\<rparr>],
     acl_inheritance := map (\<lambda>i. (i, ''20'')) [20, 21, 22], acl_privileges := [\<lparr>v_id = 1, v_name = ''read'', v_ns = 1, v_lft = 1, v_rgt = 2\<rparr>],
     principals := [(3, ''all'')],
     aces := [\<lparr>a_id = 1, a_grantdeny = ''G'', a_protected = False, a_resource_id = 20, a_principal_id = 3,
                a_property_namespace_id = None, a_property_name = None\<rparr>], dav_aces_privileges := [(1, 1)]\<rparr>"

theorem used_bytes_counts_once_witness:
  "map_option fst (sabridge_get_used_bytes demo_env 0 tree_root False tall_tree) = Some (- 2147483648) \<and>
   (\<exists>xs k s'. sabridge_get_collection_children (Some (dav_repos_get_principal_id (e_principal demo_env), ''read'')) tree_root DAV_INFINITY tall_tree
      = Some (Inr (xs, k), s') \<and>
     - 2147483648 = wrap_int (sum_list (map dr_getcontentlength (filter (counted False 0) xs))))"
proof -
  have run: "map_option fst (sabridge_get_used_bytes demo_env 0 tree_root False tall_tree) = Some (- 2147483648)" by code_simp
  then obtain s' where "sabridge_get_used_bytes demo_env 0 tree_root False tall_tree = Some (- 2147483648, s')" by auto
  moreover have "dr_resourcetype tree_root = dav_repos_COLLECTION" by code_simp
  ultimately show ?thesis using run used_bytes_counts_once [of demo_env 0 tree_root False tall_tree "- 2147483648" s']
    by (fastforce simp: Let_def)
qed

end
