(* ===== verification/LockHooks.thy ===== *)
theory LockHooks
  imports Copying Locks Handlers
begin

text \<open>
  The rest of \<^verbatim>\<open>lock.c\<close> and of \<^verbatim>\<open>lock_bridge.c\<close>: making a lock on a path where there is nothing yet, turning a
  lock-null resource into a resource, removing and refreshing locks, and the removal of the locks that a resource
  has through a binding that is about to go.
\<close>

text \<open>What these handlers take from outside: the conversions of times, the clock, an uninitialised structure, what a token with a quote in it
  makes of a query, the user agent, and a new identifier.\<close>

record lenv =
  le_to_ansi :: "datetime \<Rightarrow> int"
  le_of_ansi :: "int \<Rightarrow> datetime"
  le_now :: int
  le_junk :: dbms_bind_list
  le_injected :: "string \<Rightarrow> lock_join_row \<Rightarrow> bool"
  le_user_agent :: "string option"
  le_uuid :: string

section \<open>Statements only shrink the table of locked resources\<close>

definition shrinks :: "db \<Rightarrow> db \<Rightarrow> bool" where
  "shrinks s s' \<longleftrightarrow> length (fault s') \<le> length (fault s) \<and> (\<exists>P. locks_resources s' = filter P (locks_resources s))"

definition lock_weight :: "db \<Rightarrow> nat" where
  "lock_weight s = length (fault s) + length (locks_resources s)"

lemma shrinks_refl [simp]: "shrinks s s"
  by (auto simp: shrinks_def intro: exI [of _ "\<lambda>x. True"])

lemma shrinks_trans [trans]: "shrinks s t \<Longrightarrow> shrinks t u \<Longrightarrow> shrinks s u"
  unfolding shrinks_def by (metis filter_filter order_trans)

lemma shrinks_weight: "shrinks s s' \<Longrightarrow> lock_weight s' \<le> lock_weight s"
  unfolding shrinks_def lock_weight_def by (metis add_mono length_filter_le)

lemma shrinks_lost_row:
  assumes "shrinks s s'" "x \<in> set (locks_resources s)" "x \<notin> set (locks_resources s')"
  shows "lock_weight s' < lock_weight s"
proof -
  from assms(1) obtain P where P: "length (fault s') \<le> length (fault s)" "locks_resources s' = filter P (locks_resources s)"
    by (auto simp: shrinks_def)
  with assms(2,3) have "\<not> P x" by auto
  with assms(2) P show ?thesis by (simp add: lock_weight_def length_filter_less add_le_less_mono)
qed

lemma next_fault_shrinks: "next_fault s = (b, s') \<Longrightarrow> shrinks s s' \<and> (b \<longrightarrow> length (fault s') < length (fault s))"
  by (auto simp: next_fault_def shrinks_def split: list.splits intro: exI [of _ "\<lambda>x. True"])

lemma run_stmt_shrinks:
  assumes "run_stmt f s = (b, s')" "\<And>t u. f t = Some u \<Longrightarrow> shrinks t u"
  shows "shrinks s s'"
  using assms(1) next_fault_shrinks [of s]
  by (auto simp: run_stmt_def split: prod.splits bool.splits option.splits dest: assms(2) intro: shrinks_trans)

lemma run_select_shrinks: "run_select s = (b, s') \<Longrightarrow> shrinks s s'"
  by (erule run_stmt_shrinks) simp

lemma exec_or_500_shrinks:
  assumes "exec_or_500 m f s = (e, s')" "\<And>t u. f t = Some u \<Longrightarrow> shrinks t u"
  shows "shrinks s s'"
  using assms by (auto simp: exec_or_500_def split: prod.splits bool.splits intro: run_stmt_shrinks)

lemma delete_locks_shrinks: "shrinks s (delete_locks P s)"
  unfolding shrinks_def delete_locks_def Let_def by (intro conjI exI) simp_all

lemma filter_shrinks: "fault t = fault s \<Longrightarrow> locks_resources t = filter P (locks_resources s) \<Longrightarrow> shrinks s t"
  by (auto simp: shrinks_def)

lemma same_shrinks: "fault t = fault s \<Longrightarrow> locks_resources t = locks_resources s \<Longrightarrow> shrinks s t"
  by (rule filter_shrinks [of _ _ "\<lambda>x. True"]) simp_all

lemma delete_frames_shrink:
  "shrinks s (delete_aces A s)" "shrinks s (delete_binds B s)" "shrinks s (delete_deltav P s)"
  by (rule same_shrinks; simp add: row_simps)+

lemma delete_principals_shrinks: "shrinks s (delete_principals P s)"
  unfolding delete_principals_def by (rule shrinks_trans [OF _ delete_locks_shrinks]) (rule same_shrinks, simp_all)

lemma if_none_some: "(if b then None else Some x) = Some y \<Longrightarrow> y = x"
  by (simp split: if_splits)

lemma delete_resources_shrinks:
  assumes "delete_resources P s = Some s'"
  shows "shrinks s s'"
proof -
  define t where "t = s\<lparr>resources := filter (\<lambda>r. \<not> P (r_id r)) (resources s),
     collections := filter (\<lambda>(i, v). \<not> P i) (collections s), media := filter (\<lambda>m. \<not> P (m_resource_id m)) (media s),
     properties := filter (\<lambda>p. \<not> P (p_resource_id p)) (properties s), redirectrefs := filter (\<lambda>(i, d). \<not> P i) (redirectrefs s),
     cleanup := filter (\<lambda>(i, r). \<not> P r) (cleanup s), locks_resources := filter (\<lambda>(l, r). \<not> P r) (locks_resources s),
     acl_inheritance := filter (\<lambda>(i, p). \<not> P i) (acl_inheritance s)\<rparr>"
  have t: "s' = delete_principals P (delete_deltav P (delete_locks (\<lambda>l. P (l_resource_id l))
      (delete_binds (\<lambda>b. P (b_collection_id b) \<or> P (b_resource_id b)) (delete_aces (\<lambda>a. P (a_resource_id a)) t))))"
    using if_none_some [OF assms [unfolded delete_resources_def Let_def]] unfolding t_def .
  have "shrinks s t" by (rule filter_shrinks [of _ _ "\<lambda>(l, r). \<not> P r"]) (simp_all add: t_def)
  note shrinks_trans [OF this delete_frames_shrink(1)]
  note shrinks_trans [OF this delete_frames_shrink(2)]
  note shrinks_trans [OF this delete_locks_shrinks]
  note shrinks_trans [OF this delete_frames_shrink(3)]
  note shrinks_trans [OF this delete_principals_shrinks]
  then show ?thesis unfolding t .
qed

lemma delete_exp_locks_shrinks:
  assumes "dbms_delete_exp_locks ex t = Some (e, s')"
  shows "shrinks t s'"
proof -
  obtain u where u: "run_select t = (False, u)"
    using assms by (cases "run_select t") (auto simp: dbms_delete_exp_locks_def split: bool.splits)
  obtain f v where v: "exec_or_500 ''DBMS Error retrieving locks'' (\<lambda>s. Some (delete_locks (\<lambda>l. l_id l \<in> set ex) s)) u = (f, v)" by fastforce
  have 1: "shrinks t u" "shrinks u v"
    by (rule run_select_shrinks [OF u], rule exec_or_500_shrinks [OF v]) (auto intro: delete_locks_shrinks)
  let ?roots = "map l_resource_id (filter (\<lambda>l. l_id l \<in> set ex) (locks u))"
  let ?nulls = "map r_id (filter (\<lambda>r. r_id r \<in> set ?roots \<and> r_type r = type_name dav_repos_LOCKNULL) (resources u))"
  define g where "g = (\<lambda>s. if length ?nulls = 1
    then delete_resources (\<lambda>i. i \<in> set ?nulls \<and> i \<notin> set (map l_resource_id (locks s))) s else None)"
  have "dbms_delete_exp_locks ex t = (case f of Some e \<Rightarrow> Some (Some e, v)
      | None \<Rightarrow> if ?nulls = [] then Some (None, v) else Some (exec_or_500 ''DBMS Error retrieving locks'' g v))"
    unfolding dbms_delete_exp_locks_def Let_def g_def u v by (simp only: prod.case bool.case v)
  with assms have "s' = v \<or> exec_or_500 ''DBMS Error retrieving locks'' g v = (e, s')"
    by (simp only: option.inject prod.inject split: option.splits if_splits) auto
  moreover have "g x = Some y \<Longrightarrow> shrinks x y" for x y
    unfolding g_def by (simp only: option.distinct split: if_splits) (rule delete_resources_shrinks)
  ultimately have "shrinks v s'" by (auto intro: exec_or_500_shrinks)
  with 1 show ?thesis by (blast intro: shrinks_trans)
qed

lemma make_lock_id [simp]: "lk_lock_id (make_lock f root sn res ind r) = l_id (fst r)"
  by (simp add: make_lock_def case_prod_beta)

lemma get_locks_shrinks:
  assumes "dbms_get_locks f now root sn res s = Some (Inr ks, s')"
  shows "shrinks s s' \<and> (\<forall>k \<in> set ks. (lk_lock_id k, sn) \<in> set (locks_resources s))"
proof -
  obtain b t where t: "run_select s = (b, t)" by (cases "run_select s")
  let ?rows = "filter (\<lambda>(l, rid, n). rid = sn) (lock_join t)"
  obtain xs ex where x: "read_locks f now root sn res False ?rows = (xs, ex)" by (cases "read_locks f now root sn res False ?rows")
  have b: "\<not> b" "ks = xs" "s' = t \<or> (\<exists>e. dbms_delete_exp_locks ex t = Some (e, s'))"
    using assms t x by (auto simp: dbms_get_locks_def dbms_get_locks_by_where_str_def case_prod_beta split: bool.splits if_splits)
  have 1: "shrinks t s'" using b(3) by (auto intro: delete_exp_locks_shrinks)
  have same: "locks_resources t = locks_resources s" using run_select_same [OF t] by (simp add: tables_eqD)
  have ids: "set (map lk_lock_id (fst (read_locks f now root sn res ind rows))) \<subseteq> (\<lambda>(l, rid, n). l_id l) ` set rows" for ind rows
    by (induction rows arbitrary: ind) (auto simp: Let_def case_prod_beta)
  have join: "(l, rid, n) \<in> set (lock_join t) \<Longrightarrow> (l_id l, rid) \<in> set (locks_resources t)" for l rid n
    by (auto simp: lock_join_def find_Some_iff find_Some_iff2 split: option.splits)
  have "(lk_lock_id k, sn) \<in> set (locks_resources s)" if "k \<in> set ks" for k
  proof -
    have "lk_lock_id k \<in> (\<lambda>(l, rid, n). l_id l) ` set ?rows"
      using ids [of False ?rows] that x b(2) by (auto simp: subset_iff)
    then show ?thesis using join same by auto
  qed
  with 1 run_select_shrinks [OF t] show ?thesis by (blast intro: shrinks_trans)
qed

lemma get_locks_error: "dbms_get_locks f now root sn res s = Some (Inl e, s') \<Longrightarrow> shrinks s s'"
  by (auto simp: dbms_get_locks_def dbms_get_locks_by_where_str_def split: prod.splits bool.splits if_splits dest: run_select_shrinks)

lemma search_shrinks: "search src excl ff h s = (x, s') \<Longrightarrow> shrinks s s'"
proof (induction src excl ff h s rule: search.induct)
  case (1 src excl ff h s)
  obtain b t where t: "run_select s = (b, t)" by (cases "run_select s")
  note st = run_select_shrinks [OF t]
  show ?case
  proof (cases b)
    case True
    with "1.prems" t st show ?thesis by (simp add: search.simps [of src excl ff h s])
  next
    case False
    let ?rows = "filter (\<lambda>b. b_resource_id b \<in> set ff \<and> b_id b \<notin> set (excl_ids excl)) (binds t)"
    obtain p h' new where l: "level_rows src ?rows h [] = (p, h', new)" by (cases "level_rows src ?rows h []")
    show ?thesis
    proof (cases "p = None \<and> new \<noteq> []")
      case True
      with "1.prems" t l False have "search src [] (ff @ new) h' t = (x, s')" by (simp add: search.simps [of src excl ff h s])
      with "1.IH" [of False t p "(h', new)" h' new] t l False True have "shrinks t s'" by simp
      with st show ?thesis by (rule shrinks_trans)
    next
      case 2: False
      with "1.prems" t l False have "s' = t" by (auto simp: search.simps [of src excl ff h s] split: option.splits if_splits)
      with st show ?thesis by simp
    qed
  qed
qed

lemma shortest_path_shrinks: "dbms_find_shortest_path a b s = (x, s') \<Longrightarrow> shrinks s s'"
  by (auto simp: dbms_find_shortest_path_def dbms_find_shortest_path_excl_binds_def split: if_splits intro: search_shrinks)

lemma remove_indirect_shrinks:
  assumes "dbms_remove_indirect_lock k sn s = (e, s')"
  shows "shrinks s s' \<and> ((lk_lock_id k, sn) \<notin> set (locks_resources s') \<or> length (fault s') < length (fault s))"
proof -
  have "shrinks s s'"
    using assms unfolding dbms_remove_indirect_lock_def
    by (rule exec_or_500_shrinks) (auto simp: shrinks_def split: prod.splits)
  moreover have "(lk_lock_id k, sn) \<notin> set (locks_resources s') \<or> length (fault s') < length (fault s)"
    using assms by (auto simp: dbms_remove_indirect_lock_def exec_or_500_def run_stmt_def next_fault_def
        split: prod.splits bool.splits list.splits if_splits)
  ultimately show ?thesis ..
qed

lemma shrinks_rows: "shrinks s s' \<Longrightarrow> set (locks_resources s') \<subseteq> set (locks_resources s)"
  by (auto simp: shrinks_def)

lemma shrinks_fault: "shrinks s s' \<Longrightarrow> length (fault s') < length (fault s) \<Longrightarrow> lock_weight s' < lock_weight s"
  unfolding shrinks_def lock_weight_def by (metis add_less_le_mono length_filter_le)

lemma remove_unreachable_shrinks:
  assumes "remove_unreachable sn ks b s = (b', s')" "shrinks s0 s" "\<forall>k \<in> set ks. (lk_lock_id k, sn) \<in> set (locks_resources s0)"
    "b \<longrightarrow> lock_weight s < lock_weight s0"
  shows "shrinks s0 s' \<and> (b' \<longrightarrow> lock_weight s' < lock_weight s0)"
  using assms
proof (induction sn ks b s rule: remove_unreachable.induct)
  case (2 sn k ks b s)
  obtain p t where p: "dbms_find_shortest_path (lk_res_id k) sn s = (p, t)" by fastforce
  obtain e u where u: "dbms_remove_indirect_lock k sn t = (e, u)" by fastforce
  have st: "shrinks s0 t" using shortest_path_shrinks [OF p] "2.prems"(2) by (blast intro: shrinks_trans)
  note r = remove_indirect_shrinks [OF u]
  have su: "shrinks s0 u" using st r by (blast intro: shrinks_trans)
  have wt: "lock_weight t \<le> lock_weight s" by (rule shrinks_weight [OF shortest_path_shrinks [OF p]])
  have wu: "lock_weight u < lock_weight s0"
  proof (cases "(lk_lock_id k, sn) \<in> set (locks_resources u)")
    case False
    with "2.prems"(3) su show ?thesis by (auto intro: shrinks_lost_row)
  next
    case True
    with r have "lock_weight u < lock_weight t" by (blast intro: shrinks_fault)
    also have "\<dots> \<le> lock_weight s0" by (rule shrinks_weight [OF st])
    finally show ?thesis .
  qed
  show ?case
  proof (cases "\<exists>q. p = Inr (Some q)")
    case True
    then obtain q where q: "p = Inr (Some q)" ..
    have "remove_unreachable sn ks b t = (b', s')" using "2.prems"(1) p q by simp
    moreover have "b \<longrightarrow> lock_weight t < lock_weight s0" using "2.prems"(4) wt by auto
    ultimately show ?thesis using "2.IH"(3) [of p t "Some q" q] p q st "2.prems"(3) by simp
  next
    case False
    then have "remove_unreachable sn ks True u = (b', s')"
      using "2.prems"(1) p u by (auto split: sum.splits option.splits)
    moreover have "\<forall>j \<in> set ks. (lk_lock_id j, sn) \<in> set (locks_resources s0)" using "2.prems"(3) by simp
    ultimately show ?thesis using "2.IH"(1,2) p u False su wu by (cases p) (auto split: option.splits)
  qed
qed auto

lemma remove_all_indirect_shrinks:
  assumes "sabridge_remove_all_indirect f now root sn s = Some (b, s')"
  shows "shrinks s s' \<and> (b \<longrightarrow> lock_weight s' < lock_weight s)"
proof -
  obtain x t where x: "dbms_get_locks f now root sn False s = Some (x, t)"
    using assms by (auto simp: sabridge_remove_all_indirect_def split: option.splits)
  show ?thesis
  proof (cases x)
    case (Inl e)
    with assms x show ?thesis by (auto simp: sabridge_remove_all_indirect_def dest: get_locks_error)
  next
    case (Inr ks)
    with assms x have "remove_unreachable sn ks False t = (b, s')" by (simp add: sabridge_remove_all_indirect_def)
    with get_locks_shrinks [OF x [unfolded Inr]] show ?thesis by (intro remove_unreachable_shrinks) auto
  qed
qed

end
