(* ===== verification/LockOps.thy ===== *)
theory LockOps
  imports LockHooks Streams VersionFacts
begin

text \<open>
  The handlers of \<^verbatim>\<open>lock.c\<close> on top of the statements of \<^verbatim>\<open>dbms_locks.c\<close>, and the loop of \<^verbatim>\<open>lock_bridge.c\<close> that removes the locks that
  resources lose with a binding. A lock is handed to the server and stored by a later call.
\<close>

section \<open>Locks that go with a binding\<close>

lemma get_children_shrinks:
  assumes "sabridge_get_collection_children acl r 1 s = Some (x, s')"
  shows "shrinks s s'"
proof -
  from get_children_depth1 [OF assms] obtain y where "dbms_get_collection_resource acl [r] s = Some (y, s')" by blast
  then show ?thesis
    by (auto simp: dbms_get_collection_resource_def Let_def split: list.splits option.splits prod.splits bool.splits
        dest: run_select_shrinks)
qed

text \<open>
  The queue starts with the resource of the binding. When an element loses a lock and is a collection, the members of the first
  resource, not those of the element, are appended. Every such step removes a row of the table of locked resources
  or uses up a fault, so the loop ends, on cyclic graphs too.
\<close>

function unlink_loop :: "lenv \<Rightarrow> dav_repos_resource \<Rightarrow> dav_repos_resource list \<Rightarrow> db \<Rightarrow> db option" where
  "unlink_loop le r [] s = Some s"
| "unlink_loop le r (x # xs) s =
     (case sabridge_remove_all_indirect (le_to_ansi le) (le_now le) (dr_root_path x) (dr_serialno x) s of
        None \<Rightarrow> None
      | Some (removed, s1) \<Rightarrow>
          if \<not> removed \<or> \<not> is_collection (dr_resourcetype x) then unlink_loop le r xs s1
          else case sabridge_get_collection_children None r 1 s1 of
            None \<Rightarrow> None
          | Some (c, s2) \<Rightarrow> unlink_loop le r (case c of Inl e \<Rightarrow> xs | Inr (cs, n) \<Rightarrow> xs @ cs) s2)"
  by pat_completeness auto

termination
proof (relation "measures [\<lambda>(le, r, xs, s). lock_weight s, \<lambda>(le, r, xs, s). length xs]", goal_cases)
  case (2 le r x xs s a removed s1)
  then have "shrinks s s1" using remove_all_indirect_shrinks by metis
  then have "lock_weight s1 \<le> lock_weight s" by (rule shrinks_weight)
  then show ?case by (auto simp: less_le)
next
  case (3 le r x xs s a removed s1 b c s2)
  then have "lock_weight s1 < lock_weight s" "shrinks s1 s2"
    using remove_all_indirect_shrinks get_children_shrinks by metis+
  then show ?case using shrinks_weight by force
qed simp

text \<open>The binding is taken out of the table and put back with a new number; with it go the rows of locks that run through it.\<close>

definition sabridge_remove_indirect_locks_d_inf :: "env \<Rightarrow> lenv \<Rightarrow> dav_repos_resource \<Rightarrow> db
    \<Rightarrow> (dav_error option \<times> dav_repos_resource \<times> db) option" where
  "sabridge_remove_indirect_locks_d_inf env le r s =
     (case sabridge_retrieve_parent (e_dirstr env) r s of
        None \<Rightarrow> None
      | Some (p, r, s) \<Rightarrow>
          let name = basename (column (dr_uri r))
          in case dbms_get_bind (zero_bind\<lparr>parent_id := dr_serialno p, bind_name := Some name\<rparr>) s of (e, b, s) \<Rightarrow>
             case dbms_delete_bind (parent_id b) (resource_id b) name s of (e, s) \<Rightarrow>
               (case unlink_loop le r [r] s of
                  None \<Rightarrow> None
                | Some s \<Rightarrow>
                    (case dbms_insert_bind (e_now env) (resource_id b) (parent_id b) (Some name) s of (e, s) \<Rightarrow> Some (e, r, s))))"

section \<open>Handlers\<close>

definition dav_repos_open_lockdb :: "bool \<Rightarrow> dav_error option" where
  "dav_repos_open_lockdb have_db =
     (if have_db then None else Some (dav_new_error HTTP_INTERNAL_SERVER_ERROR ''Couldn't initialzise connection to database''))"

definition dav_repos_remove_locknull_state :: "env \<Rightarrow> dav_repos_resource \<Rightarrow> session \<Rightarrow> outcome" where
  "dav_repos_remove_locknull_state env r sn =
     (case dr_resource r of
        None \<Rightarrow> None
      | Some rs \<Rightarrow>
          if rs_type rs \<noteq> DAV_RESOURCE_TYPE_REGULAR
          then Some (Some (dav_new_error HTTP_INTERNAL_SERVER_ERROR ''locknull can only become a resource or coll''), r, sn)
          else let t = (if \<not> rs_collection rs then if \<not> rs_versioned rs then dav_repos_RESOURCE else dav_repos_VERSIONED
                        else if \<not> rs_versioned rs then dav_repos_COLLECTION else dav_repos_VERSIONED_COLLECTION)
               in step_ok (if e_acl_hooks env then dav_repos_create_initial_acl env (e_principal env) r sn else Some (None, r, sn))
                    (\<lambda>r sn. case dbms_update_resource_type r t (sn_db sn) of (e, r, s) \<Rightarrow> Some (e, r, put_db s sn)))"

text \<open>On a path where there is nothing a lock-null resource is made, or an empty resource for a client that does not know these; an error of
  the latter is not looked at.\<close>

definition lock_target :: "env \<Rightarrow> lenv \<Rightarrow> dav_repos_resource \<Rightarrow> session \<Rightarrow> outcome" where
  "lock_target env le r sn =
     (if dr_serialno r \<noteq> 0 then Some (None, r, sn)
      else if use_locknull (le_user_agent le)
      then (case sabridge_insert_resource env False True (r\<lparr>dr_resourcetype := dav_repos_LOCKNULL\<rparr>) None sn of
              None \<Rightarrow> None
            | Some (Some e, r, p, sn) \<Rightarrow> Some (Some e, r, sn)
            | Some (None, r, p, sn) \<Rightarrow>
                (case dav_repos_update_dbr_resource r of
                   None \<Rightarrow> None
                 | Some r \<Rightarrow> if e_acl_hooks env then dav_repos_inherit_aces env r sn else Some (None, r, sn)))
      else case dr_resource r of
        None \<Rightarrow> None
      | Some rs \<Rightarrow>
          map_option (\<lambda>(e, r, p, sn). (None, r, sn))
            (dav_repos_create_resource env False False (r\<lparr>dr_resource := Some (rs\<lparr>rs_collection := False\<rparr>)\<rparr>) None sn))"

definition dav_repos_create_lock :: "env \<Rightarrow> lenv \<Rightarrow> dav_repos_resource \<Rightarrow> session
    \<Rightarrow> ((dav_error + dav_lock) \<times> dav_repos_resource \<times> session) option" where
  "dav_repos_create_lock env le r sn =
     (case lock_target env le r sn of
        None \<Rightarrow> None
      | Some (Some e, r, sn) \<Rightarrow> Some (Inl e, r, sn)
      | Some (None, r, sn) \<Rightarrow>
          map_option (\<lambda>k. (Inr (k\<lparr>lk_res_id := dr_serialno r\<rparr>), r, sn)) (dav_repos_alloc_lock (le_uuid le) None))"

definition dav_repos_find_lock :: "lenv \<Rightarrow> dav_repos_resource \<Rightarrow> string \<Rightarrow> db \<Rightarrow> ((dav_error + dav_lock option) \<times> db) option" where
  "dav_repos_find_lock le r token s =
     map_option (\<lambda>(x, s). (case x of Inl e \<Rightarrow> Inl e | Inr ks \<Rightarrow> Inr (case ks of [] \<Rightarrow> None | k # _ \<Rightarrow> Some k), s))
       (dbms_find_lock_by_token (le_injected le) (le_to_ansi le) (le_now le) (dr_root_path r) (dr_serialno r) token s)"

definition dav_repos_has_locks :: "dav_repos_resource \<Rightarrow> db \<Rightarrow> (dav_error + nat) \<times> db" where
  "dav_repos_has_locks r s = dbms_resource_has_locks (dr_serialno r) s"

definition dav_repos_remove_lock :: "env \<Rightarrow> lenv \<Rightarrow> string option \<Rightarrow> dav_repos_resource \<Rightarrow> db
    \<Rightarrow> (dav_error option \<times> dav_repos_resource \<times> db) option" where
  "dav_repos_remove_lock env le token r s =
     (case token of
        Some t \<Rightarrow> (case dbms_remove_lock t s of (e, s) \<Rightarrow> Some (e, r, s))
      | None \<Rightarrow>
          (case dr_uri r of
             None \<Rightarrow> None
           | Some u \<Rightarrow>
               (case dbms_remove_direct_locks_w_prefix (drop (length (dr_root_path r)) u) s of
                  (Some e, s) \<Rightarrow> Some (Some e, r, s)
                | (None, s) \<Rightarrow> sabridge_remove_indirect_locks_d_inf env le r s)))"

text \<open>The time 1 stands for storing locks again after their resources were moved; the error of the insertion is overwritten.\<close>

fun restore_locks :: "lenv \<Rightarrow> dav_repos_resource \<Rightarrow> dav_lock list \<Rightarrow> dav_error option \<Rightarrow> db \<Rightarrow> (dav_error option \<times> dav_lock list \<times> db) option" where
  "restore_locks le r [] err s = Some (err, [], s)"
| "restore_locks le r (k # ks) err s =
     (case sabridge_new_dbr_from_dbr r of
        None \<Rightarrow> None
      | Some root \<Rightarrow>
          (case sabridge_get_property (root\<lparr>dr_uri := Some (lk_lockroot k)\<rparr>) s of
             None \<Rightarrow> None
           | Some (Some e, root, s) \<Rightarrow> Some (Some e, k # ks, s)
           | Some (None, root, s) \<Rightarrow>
               (case dbms_insert_lock (le_of_ansi le) (dr_root_path root) (dr_serialno root) k s of (e, k, s) \<Rightarrow>
                case dbms_get_path_binds (drop (length (dr_root_path r)) (lk_lockroot k)) s of ((bs, level), s) \<Rightarrow>
                case dbms_insert_binds_locks k bs level s of (e, s) \<Rightarrow>
                  (case (if lk_depth k = 0 then Some (Inr ([], 0), s) else sabridge_get_collection_children None root DAV_INFINITY s) of
                     None \<Rightarrow> None
                   | Some (c, s) \<Rightarrow>
                       (case dbms_add_indirect_locked_children
                               (dr_serialno root # (case c of Inl e \<Rightarrow> [] | Inr (cs, n) \<Rightarrow> map dr_serialno cs)) k s of
                          (e, s) \<Rightarrow> map_option (\<lambda>(e, ks, s). (e, k # ks, s)) (restore_locks le r ks e s))))))"

definition dav_repos_refresh_locks :: "lenv \<Rightarrow> dav_repos_resource \<Rightarrow> dav_lock list \<Rightarrow> int \<Rightarrow> db
    \<Rightarrow> (dav_error option \<times> dav_lock list \<times> db) option" where
  "dav_repos_refresh_locks le r ks new_time s =
     (if new_time = 1 then restore_locks le r ks None s
      else case ks of
        [] \<Rightarrow> None
      | k # ks \<Rightarrow>
          map_option (\<lambda>(e, k, s). (e, k # ks, s))
            (dbms_refresh_lock (le_injected le) (le_to_ansi le) (le_of_ansi le) (le_now le) (dr_root_path r) (dr_serialno r) k new_time s))"

text \<open>The lookup of the root of a lock makes a request of its own; \<open>sub_req\<close> stands for it.\<close>

definition dav_repos_lookup_resource :: "lenv \<Rightarrow> (string \<Rightarrow> dav_resource option) \<Rightarrow> dav_repos_resource \<Rightarrow> string \<Rightarrow> db
    \<Rightarrow> ((dav_error + dav_resource option) \<times> db) option" where
  "dav_repos_lookup_resource le sub_req r token s =
     map_option (\<lambda>(x, s).
       (case x of
          Inr (Some k) \<Rightarrow> Inr (sub_req (dr_root_path r @ lk_lockroot k))
        | _ \<Rightarrow> Inl (dav_new_error HTTP_CONFLICT ''Locktoken not legal''), s)) (dav_repos_find_lock le r token s)"

section \<open>The loop returns\<close>

lemma delete_exp_locks_healthy:
  assumes "fault s = []"
  shows "\<exists>e s'. dbms_delete_exp_locks ex s = Some (e, s') \<and> fault s' = []"
proof -
  from assms obtain e s' where r: "dbms_delete_exp_locks ex s = Some (e, s')"
    using delete_exp_healthy [of s ex] by blast
  from delete_exp_locks_shrinks [OF r] assms have "fault s' = []" by (simp add: shrinks_def)
  with r show ?thesis by blast
qed

lemma shrinks_healthy: "shrinks s s' \<Longrightarrow> fault s = [] \<Longrightarrow> fault s' = []"
  by (simp add: shrinks_def)

lemma remove_all_indirect_healthy:
  assumes "fault s = []"
  shows "sabridge_remove_all_indirect f now root sn s \<noteq> None"
proof -
  obtain ks ex where rows: "read_locks f now root sn False False (filter (\<lambda>(l, rid, n). rid = sn) (lock_join s)) = (ks, ex)" by fastforce
  obtain e s' where "dbms_delete_exp_locks ex s = Some (e, s')" using delete_exp_locks_healthy [OF assms, of ex] by blast
  with rows assms have "dbms_get_locks f now root sn False s \<noteq> None"
    by (simp add: dbms_get_locks_def dbms_get_locks_by_where_str_def stmt_simps)
  then show ?thesis by (auto simp: sabridge_remove_all_indirect_def split: sum.split)
qed

lemma children_healthy:
  assumes "fault s = []" "dr_resource r \<noteq> None"
  shows "\<exists>x s'. sabridge_get_collection_children None r 1 s = Some (x, s')"
proof -
  have one: "(1 :: int) = DAV_INFINITY \<longleftrightarrow> False" by (simp add: DAV_INFINITY_def)
  from assms(2) obtain item where "sabridge_new_dbr_from_dbr r = Some item" by (auto simp: sabridge_new_dbr_from_dbr_def)
  with assms(1) show ?thesis
    by (simp add: sabridge_get_collection_children_def dbms_get_collection_resource_def stmt_simps Let_def levels_loop.simps one
        split: prod.splits)
qed


text \<open>A collection in itself: its binding \<open>c\<close> in the root, and \<open>me\<close> in itself. A lock covers it that was taken on a resource from which it cannot
  be reached.\<close>

definition loop_files :: db where
  "loop_files = empty_db\<lparr>resources := [a_resource 2 ''Collection'', a_resource 30 ''Collection'', a_resource 31 ''Resource''],
     collections := [(2, 0), (30, 0)],
     binds := [a_bind 1 ''c'' 2 30, a_bind 2 ''me'' 30 30], principals := [(1, ''root'')],
     locks := [\<lparr>l_id = 5, l_uuid = ''u'', l_resource_id = 31, l_owner_id = 1, l_form = ''X'', l_depth = 1, l_expires_at = [], l_owner_info = [],
       l_lockroot = ''/x''\<rparr>],
     locks_resources := [(5, 30)]\<rparr>"

definition plain_lenv :: lenv where
  "plain_lenv = \<lparr>le_to_ansi = (\<lambda>t. 0), le_of_ansi = (\<lambda>n. []), le_now = 100, le_junk = zero_bind, le_injected = (\<lambda>t r. False),
     le_user_agent = None, le_uuid = []\<rparr>"


end
