(* ===== verification/Queries.thy ===== *)
theory Queries
  imports Config Handlers
begin

text \<open>
  The first half of \<^verbatim>\<open>search.c\<close>: a \<open>SEARCH\<close> request is an XML document, and the handlers turn it into the text of a
  query. A document is the tree that the parser of the APR library builds; the search context of the code
  is a record that the handlers pass on. Text is put together as the code does it, by
  \<open>apr_pstrcat\<close>, which ends at the first null pointer, and by formats, which print a null pointer as
  \<^verbatim>\<open>(null)\<close>. An outer \<open>None\<close> is a read through a null or uninitialised pointer.
\<close>

section \<open>Documents, the context, and what is outside\<close>

datatype xml = Elem (x_name: string) (x_ns: int) (x_attrs: "(string \<times> string) list") (x_text: "string option") (x_children: "xml list")

abbreviation sq :: string where "sq \<equiv> [CHR 0x27]"
abbreviation dq :: string where "dq \<equiv> [CHR 0x22]"

text \<open>Of mod_dav, the HTTP server and APR: finding a child by name (with its later siblings, as a pointer into
  the list gives them), the text of an element without white space around it, the natural comparison of strings, URLs, the
  lookup of a URI, the order in which a hash table is run through, the text of a URI and of a principal in a response, quoting,
  the escape function of the driver, the styles of dates, and the line end of the build.\<close>

record senv =
  sv_find_child :: "xml \<Rightarrow> string \<Rightarrow> xml list"
  sv_find_child_no_ns :: "xml \<Rightarrow> string \<Rightarrow> xml list"
  sv_cdata :: "xml \<Rightarrow> string"
  sv_natcmp :: "string \<Rightarrow> string \<Rightarrow> bool"
  sv_is_url :: "string \<Rightarrow> bool"
  sv_uri_path :: "string \<Rightarrow> string option"
  sv_getparents :: "string \<Rightarrow> string"
  sv_lookup :: "string \<Rightarrow> db \<Rightarrow> (dav_repos_resource \<times> db) option"
  sv_order :: "(string \<times> string) list \<Rightarrow> (string \<times> string) list"
  sv_response_href :: "string option \<Rightarrow> string option"
  sv_owner_href :: "string \<Rightarrow> string"
  sv_quote :: "string \<Rightarrow> string"
  sv_escape :: "string \<Rightarrow> string"
  sv_iso8601 :: "string \<Rightarrow> string"
  sv_rfc822 :: "string \<Rightarrow> string"
  sv_cr :: string
  sv_answer :: "string \<Rightarrow> string option list list option"

text \<open>The context. The table of namespaces of the resource, the cache of the request and the database are what the code reaches through
  \<open>db_r\<close> and \<open>db\<close>. A hash table that is run through is a list of its entries.\<close>

record search_ctx =
  sx_query :: "string option"
  sx_select :: "string option"
  sx_from :: "string option"
  sx_where :: "string option"
  sx_where_cond :: "string option"
  sx_orderby :: "string option"
  sx_limit :: "string option"
  sx_offset :: "string option"
  sx_off :: "string option"
  sx_err_msg :: "string option"
  sx_nresults :: "string option"
  sx_prop_map :: "(string \<times> string) list"
  sx_bitmarks_map :: "(string \<times> string) list"
  sx_namespace_map :: "id \<rightharpoonup> string"
  sx_namespaces :: "string list"
  sx_media_props_req :: bool
  sx_is_bit_query :: bool
  sx_bitmark_support_req :: bool
  sx_b4_name :: "string option"
  sx_b2_rid :: int
  sx_search_graph_seed :: "string option"
  sx_search_graph_cond :: "string option"
  sx_uri :: string
  sx_ns_id_hash :: "string \<rightharpoonup> id"
  sx_cache :: dav_repos_cache
  sx_db :: db

type_synonym parsed = "(nat \<times> search_ctx) option"

abbreviation (input) HTTP_OK :: nat where "HTTP_OK \<equiv> 200"

definition apr_pstrcat :: "string option list \<Rightarrow> string" where
  "apr_pstrcat xs = concat (map the (takeWhile (\<lambda>x. x \<noteq> None) xs))"

definition fmt :: "string option \<Rightarrow> string" where
  "fmt x = (case x of None \<Rightarrow> ''(null)'' | Some t \<Rightarrow> t)"

text \<open>\<open>apr_hash_set\<close>: an entry is replaced in place; a null value removes it.\<close>

fun hash_set :: "string \<Rightarrow> 'a option \<Rightarrow> (string \<times> 'a) list \<Rightarrow> (string \<times> 'a) list" where
  "hash_set k None m = filter (\<lambda>(j, v). j \<noteq> k) m"
| "hash_set k (Some x) [] = [(k, x)]"
| "hash_set k (Some x) ((j, v) # m) = (if j = k then (k, x) # m else (j, v) # hash_set k (Some x) m)"

definition then_ok :: "parsed \<Rightarrow> (search_ctx \<Rightarrow> parsed) \<Rightarrow> parsed" where
  "then_ok m f = (case m of None \<Rightarrow> None | Some (r, c) \<Rightarrow> if r = HTTP_OK then f c else Some (r, c))"

definition bad :: "string \<Rightarrow> search_ctx \<Rightarrow> parsed" where
  "bad msg c = Some (HTTP_BAD_REQUEST, c\<lparr>sx_err_msg := Some msg\<rparr>)"

section \<open>Names of properties\<close>

definition get_ns_id :: "string \<Rightarrow> search_ctx \<Rightarrow> id \<times> search_ctx" where
  "get_ns_id ns c =
     (case dbms_get_ns_id ns (sx_ns_id_hash c) (sx_cache c) (sx_db c) of
        ((e, i), h, ca, s) \<Rightarrow>
          (i, c\<lparr>sx_ns_id_hash := h, sx_cache := ca, sx_db := s, sx_namespace_map := (sx_namespace_map c)(i \<mapsto> ns)\<rparr>))"

definition get_prop_key :: "string \<Rightarrow> id \<Rightarrow> string" where
  "get_prop_key propname ns_id = propname @ ''_'' @ show_long ns_id"

text \<open>The number 0 is that of \<open>DAV:\<close>; an element without a namespace has a negative one, which reads before the array.\<close>

definition get_ns_uri :: "string list \<Rightarrow> int \<Rightarrow> string option" where
  "get_ns_uri ns_xlate ns =
     (if ns = 0 then Some ''DAV:'' else if 0 < ns \<and> nat ns < length ns_xlate then Some (ns_xlate ! nat ns) else None)"

definition get_liveprop_map :: "(string \<times> string) list" where
  "get_liveprop_map =
     [(''creationdate'', ''created_at''), (''displayname'', ''displayname''), (''getcontentlanguage'', ''contentlanguage''),
      (''getcontenttype'', ''media.mimetype''), (''getcontentlength'', ''media.size''), (''getlastmodified'', ''media.updated_at''),
      (''getetag'', ''media.sha1''), (''resourcetype'', ''type''), (''resource-id'', ''resources.uuid''), (''owner'', ''principals.name''),
      (''lastmodified'', ''resources.lastmodified''), (''popularity'', ''resources.views''), (''coolness'', ''resources.coolness''),
      (''edits'', ''resources.edits'')]"

definition prop_attr_lookup :: "xml \<Rightarrow> string \<Rightarrow> search_ctx \<Rightarrow> string option \<times> search_ctx" where
  "prop_attr_lookup prop pkey c =
     (if x_ns prop = 0
      then (case map_of get_liveprop_map (x_name prop) of
              None \<Rightarrow> (None, c)
            | Some a \<Rightarrow> (Some a, if strstr a ''media.'' then c\<lparr>sx_media_props_req := True\<rparr> else c))
      else (Some (dq @ pkey @ dq), c))"

text \<open>The common beginning of the handlers of a property: its namespace, key and attribute.\<close>

definition name_property :: "xml \<Rightarrow> search_ctx \<Rightarrow> (id \<times> string \<times> search_ctx) option" where
  "name_property prop c =
     (case get_ns_uri (sx_namespaces c) (x_ns prop) of
        None \<Rightarrow> None
      | Some ns \<Rightarrow> (case get_ns_id ns c of (i, c) \<Rightarrow> Some (i, get_prop_key (x_name prop) i, c)))"

section \<open>\<open>SELECT\<close>\<close>

fun select_props :: "xml list \<Rightarrow> search_ctx \<Rightarrow> search_ctx option" where
  "select_props [] c = Some c"
| "select_props (p # ps) c =
     (case name_property p c of
        None \<Rightarrow> None
      | Some (i, pkey, c) \<Rightarrow>
          (case prop_attr_lookup p pkey c of
             (attr, c) \<Rightarrow> select_props ps (c\<lparr>sx_prop_map := hash_set pkey attr (sx_prop_map c)\<rparr>)))"

fun select_bitmarks :: "xml list \<Rightarrow> search_ctx \<Rightarrow> search_ctx option" where
  "select_bitmarks [] c = Some c"
| "select_bitmarks (p # ps) c =
     (case get_ns_uri (sx_namespaces c) (x_ns p) of
        None \<Rightarrow> None
      | Some ns \<Rightarrow> select_bitmarks ps (c\<lparr>sx_bitmarks_map := hash_set (x_name p) (Some ns) (sx_bitmarks_map c)\<rparr>))"

fun select_all :: "(string \<times> string) list \<Rightarrow> search_ctx \<Rightarrow> search_ctx" where
  "select_all [] c = c"
| "select_all ((propname, attr) # ps) c =
     (case get_ns_id ''DAV:'' c of
        (i, c) \<Rightarrow> select_all ps (c\<lparr>sx_prop_map := hash_set (get_prop_key propname i) (Some attr) (sx_prop_map c), sx_media_props_req := True\<rparr>))"

definition parse_select :: "senv \<Rightarrow> xml \<Rightarrow> search_ctx \<Rightarrow> parsed" where
  "parse_select sv el c =
     (let prop = sv_find_child sv el ''prop''; bm = sv_find_child_no_ns sv el ''bitmark''; everything = sv_find_child sv el ''allprop''
      in case (case prop of [] \<Rightarrow> Some (HTTP_OK, c)
               | p # _ \<Rightarrow>
                   (case x_children p of
                      [] \<Rightarrow> bad ''No prop information'' c
                    | q # qs \<Rightarrow> if x_children q \<noteq> [] then bad ''No prop information'' c
                               else map_option (\<lambda>c. (HTTP_OK, c)) (select_props (q # qs) c))) of
           None \<Rightarrow> None
         | Some (r, c) \<Rightarrow>
             if r \<noteq> HTTP_OK then Some (r, c)
             else case (case bm of [] \<Rightarrow> Some c
                        | b # _ \<Rightarrow> if x_children b = [] then Some c
                                  else map_option (\<lambda>c. c\<lparr>sx_bitmark_support_req := True\<rparr>) (select_bitmarks (x_children b) c)) of
               None \<Rightarrow> None
             | Some c \<Rightarrow>
                 let c = (if everything = [] then c else select_all (sv_order sv get_liveprop_map) c)
                 in if prop = [] \<and> everything = [] \<and> \<not> sx_bitmark_support_req c
                    then bad (''Unknown element name('' @ x_name el @ '') in select.Use <allprop> or <prop>'') c
                    else Some (HTTP_OK, c))"

section \<open>\<open>FROM\<close>\<close>

definition parse_depth :: "senv \<Rightarrow> xml \<Rightarrow> int" where
  "parse_depth sv el = (if sv_natcmp sv (sv_cdata sv el) ''infinity'' then DAV_INFINITY else atoi (sv_cdata sv el))"

definition starts :: "string \<Rightarrow> string \<Rightarrow> bool" where
  "starts u p \<longleftrightarrow> take (length p) u = p"

text \<open>The part of a path up to and with its \<open>d\<close>-th slash.\<close>

fun through_slash :: "nat \<Rightarrow> string \<Rightarrow> string" where
  "through_slash 0 u = []"
| "through_slash (Suc d) [] = []"
| "through_slash (Suc d) (x # u) = x # through_slash (if x = CHR ''/'' then d else Suc d) u"

definition scope_uri :: "senv \<Rightarrow> string \<Rightarrow> string \<Rightarrow> string option" where
  "scope_uri sv here href =
     map_option (\<lambda>u. if 1 < length u then dav_repos_chomp_slash u else u)
       (if sv_is_url sv href then sv_uri_path sv href
        else if hd href = CHR ''/'' then Some href
        else map_option (sv_getparents sv) (sv_uri_path sv (here @ ''/'' @ href)))"

text \<open>In a query for bits the scope only says whose bits and which: paths \<^verbatim>\<open>/home/<user>/bits/<name>\<close>, also below \<^verbatim>\<open>/!lime/root\<close>.\<close>

definition bit_scope :: "senv \<Rightarrow> string \<Rightarrow> search_ctx \<Rightarrow> search_ctx option" where
  "bit_scope sv path c =
     (let uri_depth = length (filter (\<lambda>x. x = CHR ''/'') path);
          is_bang_lime = starts path ''/!lime/root''
      in if 1 < uri_depth \<and> (starts path ''/home'' \<or> starts path ''/!lime/root/home'')
         then let c = (if uri_depth = 4 \<and> strstr path ''/bits/'' \<and> \<not> is_bang_lime then c\<lparr>sx_b4_name := Some (basename path)\<rparr> else c)
              in map_option (\<lambda>(ri, s). c\<lparr>sx_b2_rid := wrap_int (dr_serialno ri), sx_db := s\<rparr>)
                   (sv_lookup sv (through_slash (if is_bang_lime then 5 else 3) path) (sx_db c))
         else Some c)"

definition add_fragment :: "string \<Rightarrow> string \<Rightarrow> string option \<Rightarrow> string option" where
  "add_fragment sep fragment old = Some (case old of None \<Rightarrow> fragment | Some t \<Rightarrow> apr_pstrcat [Some t, Some sep, Some fragment])"

definition graph_scope :: "int \<Rightarrow> dav_repos_resource \<Rightarrow> search_ctx \<Rightarrow> search_ctx" where
  "graph_scope deep ri c =
     (let b = show_long (dr_bind_id ri);
          seed = ''('' @ b @ '', '' @ b @ '', '' @ sq @ fmt (dr_uri ri) @ sq @ '', '' @ show_long (dr_serialno ri) @ ''::bigint, 0, ARRAY['' @ b @ ''], false)'';
          cond = (if deep = DAV_INFINITY then ''(sg.root_bind_id = '' @ b @ '')''
                  else ''(sg.root_bind_id = '' @ b @ '' AND sg.depth < '' @ show_long deep @ '')'')
      in c\<lparr>sx_search_graph_seed := add_fragment '','' seed (sx_search_graph_seed c),
           sx_search_graph_cond := add_fragment '' OR '' cond (sx_search_graph_cond c)\<rparr>)"

definition parse_scope :: "senv \<Rightarrow> xml \<Rightarrow> search_ctx \<Rightarrow> parsed" where
  "parse_scope sv el c =
     (case x_children el of
        [] \<Rightarrow> None
      | h # rest \<Rightarrow>
          (let href = sv_cdata sv h
           in if href = [] then bad ''Missing href in <scope>'' c
              else case scope_uri sv (sx_uri c) href of
                None \<Rightarrow> bad ''Malformed HREF'' c
              | Some path \<Rightarrow>
                  (case rest of
                     [] \<Rightarrow> bad ''Missing depth in <scope>'' c
                   | d # _ \<Rightarrow>
                       if sx_is_bit_query c then map_option (\<lambda>c. (HTTP_OK, c)) (bit_scope sv path c)
                       else map_option (\<lambda>(ri, s). (HTTP_OK, graph_scope (parse_depth sv d) ri (c\<lparr>sx_db := s\<rparr>))) (sv_lookup sv path (sx_db c)))))"

text \<open>Every sibling after the first scope is taken for a scope.\<close>

fun parse_scopes :: "senv \<Rightarrow> xml list \<Rightarrow> search_ctx \<Rightarrow> parsed" where
  "parse_scopes sv [] c = Some (HTTP_OK, c)"
| "parse_scopes sv (x # xs) c = then_ok (parse_scope sv x c) (parse_scopes sv xs)"

definition parse_from :: "senv \<Rightarrow> xml \<Rightarrow> search_ctx \<Rightarrow> parsed" where
  "parse_from sv el c =
     (case sv_find_child sv el ''scope'' of
        [] \<Rightarrow> bad ''The FROM portion of query does not have a <scope> element'' c
      | xs \<Rightarrow> parse_scopes sv xs c)"

end
