(* ===== verification/Search.thy ===== *)
theory Search
  imports Queries
begin

text \<open>
  The second half of \<^verbatim>\<open>search.c\<close>: conditions, order and limits of a query, the text that is sent, the
  response made of the rows, the hook \<open>dav_repos_search_resource\<close> and the report on property values.
\<close>

section \<open>\<open>WHERE\<close>\<close>

definition add_cond :: "string option list \<Rightarrow> search_ctx \<Rightarrow> search_ctx" where
  "add_cond parts c = c\<lparr>sx_where_cond := Some (apr_pstrcat (sx_where_cond c # parts))\<rparr>"

definition start_cond :: "search_ctx \<Rightarrow> search_ctx" where
  "start_cond c = (if sx_where_cond c = None then c\<lparr>sx_where_cond := Some '' ''\<rparr> else c)"

definition get_comp_ops_map :: "(string \<times> string) list" where
  "get_comp_ops_map = [(''eq'', ''=''), (''lt'', ''<''), (''gt'', ''>''), (''lte'', ''<=''), (''gte'', ''>=''), (''like'', ''LIKE'')]"

text \<open>The type of a typed literal, after the prefix; without a colon the pointer is the number 1.\<close>

definition literal_type :: "xml \<Rightarrow> string option option" where
  "literal_type lit =
     (if x_name lit = ''typed-literal''
      then (case dav_find_attr (x_attrs lit) ''type'' of
              None \<Rightarrow> None
            | Some t \<Rightarrow> if CHR '':'' \<in> set t then Some (Some (tl (dropWhile (\<lambda>x. x \<noteq> CHR '':'') t))) else None)
      else Some None)"

definition parse_comp_ops :: "xml \<Rightarrow> search_ctx \<Rightarrow> parsed" where
  "parse_comp_ops el c =
     (case x_children el of
        [] \<Rightarrow> None
      | holder # others \<Rightarrow>
          (case x_children holder of
             [] \<Rightarrow> None
           | prop # _ \<Rightarrow>
               (case name_property prop c of
                  None \<Rightarrow> None
                | Some (ns_id, pkey, c) \<Rightarrow>
                    (let is_bitmark = (x_name holder = ''bitmark'')
                     in case (if is_bitmark then (Some ''value'', c) else prop_attr_lookup prop pkey c) of
                       (attr, c) \<Rightarrow>
                         (case (map_of get_comp_ops_map (x_name el), attr) of
                            (Some op, Some a) \<Rightarrow>
                              (case others of
                                 [] \<Rightarrow> None
                               | lit # _ \<Rightarrow>
                                   (case (literal_type lit, x_text lit) of
                                      (Some t, Some v) \<Rightarrow>
                                        (let a = (case t of None \<Rightarrow> a | Some t \<Rightarrow> a @ ''::'' @ t)
                                         in Some (HTTP_OK, add_cond (map Some
                                              (if is_bitmark
                                               then [''( resources.id IN (SELECT resource_id FROM resource_bitmarks WHERE namespace_id = '',
                                                     show_long ns_id, '' AND name = '', sq, x_name prop, sq, '' AND '', a, '' '', op, '' '', sq, v, sq, '' ))'']
                                               else [''( '', a, '' '', op, '' '', sq, v, sq, '' )''])) (start_cond c)))
                                    | _ \<Rightarrow> None))
                          | _ \<Rightarrow> Some (HTTP_BAD_REQUEST, c))))))"

definition parse_is_coll :: "search_ctx \<Rightarrow> parsed" where
  "parse_is_coll c = Some (HTTP_OK, add_cond [Some (''( type = '' @ sq @ ''Collection'' @ sq @ '' )'')] (start_cond c))"

definition parse_is_bit :: "search_ctx \<Rightarrow> parsed" where
  "parse_is_bit c =
     Some (HTTP_OK, add_cond [Some (''( type = '' @ sq @ ''Collection'' @ sq @ '' )'')] (start_cond (c\<lparr>sx_is_bit_query := True\<rparr>)))"

text \<open>An unknown property of \<open>DAV:\<close> has no attribute, and \<open>apr_pstrcat\<close> stops there.\<close>

definition parse_is_defined :: "xml \<Rightarrow> search_ctx \<Rightarrow> parsed" where
  "parse_is_defined el c =
     (case x_children el of
        [] \<Rightarrow> None
      | holder # _ \<Rightarrow>
          (case x_children holder of
             [] \<Rightarrow> None
           | prop # _ \<Rightarrow>
               (case name_property prop c of
                  None \<Rightarrow> None
                | Some (ns_id, pkey, c) \<Rightarrow>
                    (case prop_attr_lookup prop pkey c of
                       (attr, c) \<Rightarrow>
                         Some (HTTP_OK, add_cond [Some ''( '', attr, Some '' IS NOT NULL )'']
                           (start_cond (c\<lparr>sx_prop_map := hash_set pkey attr (sx_prop_map c)\<rparr>)))))))"

definition comp_op :: "string \<Rightarrow> bool" where
  "comp_op op \<longleftrightarrow> map_of get_comp_ops_map op \<noteq> None"

definition log_op :: "string \<Rightarrow> bool" where
  "log_op op \<longleftrightarrow> op = ''and'' \<or> op = ''or'' \<or> op = ''not''"

text \<open>\<open>parse_where\<close> finds the handler by the name of the element; \<open>parse_log_ops\<close> handles the operators, \<open>parse_ops\<close> is its loop
  over the operands after the first. The brackets of a negation are closed whatever its operand returned.\<close>

fun parse_where :: "senv \<Rightarrow> xml \<Rightarrow> search_ctx \<Rightarrow> parsed"
  and parse_log_ops :: "senv \<Rightarrow> string \<Rightarrow> xml list \<Rightarrow> search_ctx \<Rightarrow> parsed"
  and parse_ops :: "senv \<Rightarrow> string \<Rightarrow> xml list \<Rightarrow> search_ctx \<Rightarrow> parsed" where
  "parse_where sv (Elem op ns attrs t cs) c =
     (if comp_op op then parse_comp_ops (Elem op ns attrs t cs) c
      else if log_op op then parse_log_ops sv op cs c
      else if op = ''is-collection'' then parse_is_coll c
      else if op = ''is-bit'' then parse_is_bit c
      else if op = ''is-defined'' then parse_is_defined (Elem op ns attrs t cs) c
      else Some (HTTP_BAD_REQUEST, c))"
| "parse_log_ops sv op [] c = Some (HTTP_BAD_REQUEST, c)"
| "parse_log_ops sv op (x # xs) c =
     (if sv_natcmp sv op ''not''
      then map_option (\<lambda>(r, c). (r, add_cond [Some '' )''] c)) (parse_where sv x (add_cond [Some ''( NOT ''] (start_cond c)))
      else then_ok (parse_where sv x (add_cond [Some ''( ''] (start_cond c)))
             (\<lambda>c. then_ok (parse_ops sv op xs c) (\<lambda>c. Some (HTTP_OK, add_cond [Some '' )''] c))))"
| "parse_ops sv op [] c = Some (HTTP_OK, c)"
| "parse_ops sv op (x # xs) c =
     then_ok (parse_where sv x (add_cond [Some '' '', Some op, Some '' ''] c)) (\<lambda>c. parse_ops sv op xs c)"

section \<open>\<open>ORDER BY\<close>, \<open>LIMIT\<close>, \<open>OFFSET\<close>, and the whole request\<close>

definition add_order :: "string option list \<Rightarrow> search_ctx \<Rightarrow> search_ctx" where
  "add_order parts c = c\<lparr>sx_orderby := Some (apr_pstrcat (sx_orderby c # parts))\<rparr>"

definition parse_order :: "senv \<Rightarrow> xml \<Rightarrow> search_ctx \<Rightarrow> parsed" where
  "parse_order sv el c =
     (case x_children el of
        [] \<Rightarrow> Some (HTTP_BAD_REQUEST, c)
      | p # rest \<Rightarrow>
          if \<not> sv_natcmp sv (x_name p) ''prop'' then Some (HTTP_OK, c)
          else case x_children p of
            [] \<Rightarrow> Some (HTTP_BAD_REQUEST, c)
          | prop # _ \<Rightarrow>
              (case name_property prop c of
                 None \<Rightarrow> None
               | Some (ns_id, pkey, c) \<Rightarrow>
                   (case prop_attr_lookup prop pkey c of
                      (attr, c) \<Rightarrow>
                        (let descending = (case rest of [] \<Rightarrow> False | d # _ \<Rightarrow> sv_natcmp sv (x_name d) ''descending'')
                         in Some (HTTP_OK, add_order [Some (if descending then '' DESC '' else '' ASC '')] (add_order [attr] c))))))"

fun parse_orders :: "senv \<Rightarrow> xml list \<Rightarrow> search_ctx \<Rightarrow> parsed" where
  "parse_orders sv [] c = Some (HTTP_OK, c)"
| "parse_orders sv (x # xs) c =
     then_ok (parse_order sv x c) (\<lambda>c. parse_orders sv xs (if xs = [] then c else add_order [Some '', ''] c))"

definition parse_orderby :: "senv \<Rightarrow> xml \<Rightarrow> search_ctx \<Rightarrow> parsed" where
  "parse_orderby sv el c =
     (case sv_find_child sv el ''order'' of
        [] \<Rightarrow> bad ''The ORDERBY portion of query does not have a <order> element'' c
      | xs \<Rightarrow> parse_orders sv xs (c\<lparr>sx_orderby := Some '' ORDER BY ''\<rparr>))"

definition parse_limit :: "senv \<Rightarrow> xml \<Rightarrow> search_ctx \<Rightarrow> parsed" where
  "parse_limit sv el c =
     (case sv_find_child sv el ''nresults'' of [] \<Rightarrow> Some (HTTP_OK, c) | n # _ \<Rightarrow> Some (HTTP_OK, c\<lparr>sx_nresults := Some (sv_cdata sv n)\<rparr>))"

definition parse_offset :: "senv \<Rightarrow> xml \<Rightarrow> search_ctx \<Rightarrow> parsed" where
  "parse_offset sv el c = Some (HTTP_OK, c\<lparr>sx_offset := Some (sv_cdata sv el)\<rparr>)"

definition parse_query :: "senv \<Rightarrow> xml \<Rightarrow> search_ctx \<Rightarrow> parsed" where
  "parse_query sv root c =
     (case sv_find_child sv root ''basicsearch'' of
        [] \<Rightarrow> bad ''Requested search grammar not supported. We support only <basicsearch>'' c
      | b # _ \<Rightarrow>
          (case sv_find_child sv b ''select'' of
             [] \<Rightarrow> bad ''We don't have <select> element'' c
           | sel # _ \<Rightarrow>
               then_ok (parse_select sv sel c) (\<lambda>c.
               then_ok (case sv_find_child sv b ''where'' of
                          [] \<Rightarrow> Some (HTTP_OK, c)
                        | w # _ \<Rightarrow> (case x_children w of [] \<Rightarrow> None | x # _ \<Rightarrow> parse_where sv x c)) (\<lambda>c.
               case sv_find_child sv b ''from'' of
                 [] \<Rightarrow> bad ''We don't have <from> element'' c
               | f # _ \<Rightarrow>
                   then_ok (parse_from sv f c) (\<lambda>c.
                   then_ok (case sv_find_child sv b ''orderby'' of
                              [] \<Rightarrow> Some (HTTP_OK, c\<lparr>sx_orderby := Some '' ''\<rparr>) | o' # _ \<Rightarrow> parse_orderby sv o' c) (\<lambda>c.
                   then_ok (case sv_find_child sv b ''limit'' of [] \<Rightarrow> Some (HTTP_OK, c) | l # _ \<Rightarrow> parse_limit sv l c) (\<lambda>c.
                   case filter (\<lambda>x. x_name x = ''offset'') (x_children b) of
                     [] \<Rightarrow> Some (HTTP_OK, c) | o' # _ \<Rightarrow> parse_offset sv o' c)))))))"

section \<open>The text of the query\<close>

text \<open>The key of a property is taken apart at the underscores; the pieces of the name are put together without them.\<close>

definition get_prop_from_prop_key :: "string \<Rightarrow> string option \<times> int" where
  "get_prop_from_prop_key pkey =
     (let ts = tokens CHR ''_'' pkey
      in (if length ts \<le> 1 then None else Some (concat (butlast ts)), atoi (if ts = [] then [] else last ts)))"

definition bitmark_rows :: string where
  "bitmark_rows =
     '' SELECT resources.id AS resource_id, bitmarks.namespace_id, bitmarks.name, bitmarks.value, bitmark_resources.name AS bitmark_id'' @
     '' FROM resources INNER JOIN binds bitmarked_resources ON bitmarked_resources.name = resources.uuid'' @
     '' INNER JOIN binds bitmark_resources ON bitmark_resources.collection_id = bitmarked_resources.resource_id'' @
     '' INNER JOIN properties bitmarks ON bitmarks.resource_id = bitmark_resources.resource_id''"

fun bitmark_pairs :: "(string \<times> string) list \<Rightarrow> search_ctx \<Rightarrow> string \<times> search_ctx" where
  "bitmark_pairs [] c = ([], c)"
| "bitmark_pairs ((bm, ns) # bs) c =
     (case get_ns_id ns c of
        (i, c) \<Rightarrow> (case bitmark_pairs bs c of (t, c) \<Rightarrow> (''('' @ show_long i @ '', '' @ sq @ bm @ sq @ ''),'' @ t, c)))"

definition search_graph :: "search_ctx \<Rightarrow> string" where
  "search_graph c = apr_pstrcat
     [Some ''WITH RECURSIVE search_graph(root_bind_id, bind_id, url, resource_id, depth, visited_binds, cycle) AS ( VALUES '',
      sx_search_graph_seed c,
      Some ('' UNION ALL SELECT sg.root_bind_id, b.id, url || '' @ sq @ ''/'' @ sq @ '' || b.name, b.resource_id, sg.depth + 1, '' @
        ''visited_binds || b.id, b.id = ANY(visited_binds) FROM binds b, search_graph sg WHERE b.collection_id = sg.resource_id AND NOT cycle AND (''),
      sx_search_graph_cond c, Some '')) SELECT search_graph.url'']"

definition build_query_select :: "senv \<Rightarrow> search_ctx \<Rightarrow> search_ctx" where
  "build_query_select sv c =
     (let sel = (if sx_is_bit_query c
            then ''SELECT '' @ sq @ ''/'' @ sq @ '' || b1.name || '' @ sq @ ''/'' @ sq @ '' || b2.name || '' @ sq @ ''/'' @ sq @
                 '' || b3.name || '' @ sq @ ''/'' @ sq @ '' || b4.name AS path''
            else search_graph c)
      in case (if sx_bitmark_support_req c
               then (case bitmark_pairs (sv_order sv (sx_bitmarks_map c)) c of
                       (t, c) \<Rightarrow>
                         (butlast (''WITH resource_bitmarks AS ('' @ bitmark_rows @ '' AND bitmarks.value != '' @ sq @ sq @
                            '' AND (bitmarks.namespace_id, bitmarks.name) IN ('' @ t) @ '')'' @ '') '' @ sel, c))
               else (sel, c)) of
         (sel, c) \<Rightarrow>
           c\<lparr>sx_select := Some (sel @ concat (map (\<lambda>(k, v). '', '' @ v) (sv_order sv (sx_prop_map c))) @
             (if sx_bitmark_support_req c
              then '', concat(resource_bitmarks.name || '' @ sq @ ''>'' @ sq @ '' || resource_bitmarks.value || '' @ sq @ ''>'' @ sq @
                   '' || '' @ sq @ ''/bitmarks/'' @ sq @ '' || resources.uuid || '' @ sq @ ''/'' @ sq @
                   '' || resource_bitmarks.bitmark_id || '' @ sq @ ''>'' @ sq @ '' )''
              else []))\<rparr>)"

text \<open>A dead property joins a table of its own, named by its key.\<close>

definition dead_join :: "string \<Rightarrow> string option \<times> int \<Rightarrow> string" where
  "dead_join pkey prop =
     '' LEFT JOIN (SELECT resource_id, value AS '' @ dq @ pkey @ dq @ '' FROM properties WHERE name = '' @ sq @ fmt (fst prop) @ sq @
     '' AND namespace_id = '' @ show_long (snd prop) @ '') '' @ dq @ pkey @ ''_table'' @ dq @ '' ON '' @ dq @ pkey @ ''_table'' @ dq @
     ''.resource_id = resources.id ''"

fun dead_joins :: "(string \<times> string) list \<Rightarrow> search_ctx \<Rightarrow> string \<times> search_ctx" where
  "dead_joins [] c = ([], c)"
| "dead_joins ((k, v) # ps) c =
     (case get_ns_id ''DAV:'' c of
        (i, c) \<Rightarrow>
          (case dead_joins ps c of
             (t, c) \<Rightarrow> ((if snd (get_prop_from_prop_key k) \<noteq> i then dead_join k (get_prop_from_prop_key k) else []) @ t, c)))"

definition build_query_from :: "senv \<Rightarrow> search_ctx \<Rightarrow> search_ctx" where
  "build_query_from sv c =
     (case dead_joins (sv_order sv (sx_prop_map c)) c of
        (joins, c) \<Rightarrow>
          c\<lparr>sx_from := Some ('' FROM resources  LEFT JOIN principals ON principals.resource_id = resources.owner_id '' @
            (if sx_media_props_req c then '' LEFT JOIN media ON resources.id = media.resource_id '' else []) @
            (if sx_is_bit_query c
             then '' LEFT JOIN binds b4 ON b4.resource_id = resources.id INNER JOIN binds b3 ON b4.collection_id = b3.resource_id'' @
                  '' INNER JOIN binds b2 ON b3.collection_id = b2.resource_id INNER JOIN binds b1 ON b2.collection_id = b1.resource_id''
             else '' INNER JOIN search_graph ON resources.id = search_graph.resource_id '') @
            joins @
            (if sx_bitmark_support_req c then '' LEFT JOIN resource_bitmarks ON resource_bitmarks.resource_id = resources.id'' else []))\<rparr>)"

text \<open>Without a condition the variable is still null when the grouping is appended to it, and the grouping is lost.\<close>

definition build_query_where :: "senv \<Rightarrow> search_ctx \<Rightarrow> search_ctx" where
  "build_query_where sv c =
     (let add = (\<lambda>parts w. Some (apr_pstrcat (w # map Some parts)));
          w = sx_where c;
          w = (if sx_is_bit_query c
               then Some ('' WHERE b1.collection_id = '' @ show_long ROOT_COLLECTION_ID @ '' AND b1.name = '' @ sq @ ''home'' @ sq @
                     '' AND b3.name = '' @ sq @ ''bits'' @ sq) else w);
          w = (if sx_b2_rid c \<noteq> 0 then add ['' AND b2.resource_id = '' @ show_long (sx_b2_rid c) @ '' ''] w else w);
          w = (case sx_b4_name c of None \<Rightarrow> w | Some n \<Rightarrow> add ['' AND b4.name = '', sq, n, sq, '' ''] w);
          w = (case sx_where_cond c of None \<Rightarrow> w
               | Some cond \<Rightarrow> (case w of None \<Rightarrow> Some ('' WHERE '' @ cond) | Some u \<Rightarrow> Some (u @ '' AND '' @ cond)));
          w = (if sx_bitmark_support_req c
               then fold (\<lambda>(k, v). add ['', '', v]) (sv_order sv (sx_prop_map c))
                      (add [if sx_is_bit_query c then '' GROUP BY path'' else '' GROUP BY binds.id''] w)
               else w)
      in c\<lparr>sx_where := (if w = None then Some '' '' else w)\<rparr>)"

definition build_query_limit :: "search_ctx \<Rightarrow> search_ctx" where
  "build_query_limit c = c\<lparr>sx_limit := Some (case sx_nresults c of None \<Rightarrow> '' '' | Some n \<Rightarrow> '' LIMIT '' @ n)\<rparr>"

definition build_query_offset :: "search_ctx \<Rightarrow> search_ctx" where
  "build_query_offset c = (case sx_offset c of None \<Rightarrow> c | Some n \<Rightarrow> c\<lparr>sx_off := Some ('' OFFSET '' @ n)\<rparr>)"

definition build_query :: "senv \<Rightarrow> search_ctx \<Rightarrow> search_ctx" where
  "build_query sv c =
     (let c = build_query_offset (build_query_limit (build_query_from sv (build_query_where sv (build_query_select sv c))))
      in c\<lparr>sx_query := Some (apr_pstrcat [sx_select c, sx_from c, sx_where c, sx_orderby c, sx_limit c, sx_off c])\<rparr>)"

section \<open>The response\<close>

text \<open>The value of a property as the response shows it.\<close>

definition shown_value :: "senv \<Rightarrow> id \<Rightarrow> string option \<times> int \<Rightarrow> string \<Rightarrow> string option" where
  "shown_value sv dav prop v =
     (if snd prop \<noteq> dav then Some v
      else case fst prop of None \<Rightarrow> None
      | Some n \<Rightarrow>
          if n = ''creationdate'' \<or> n = ''lastmodified'' then Some (sv_iso8601 sv v)
          else if n = ''getlastmodified'' then Some (sv_rfc822 sv v)
          else if n = ''resource-id'' then map_option (\<lambda>u. ''<D:href>urn:uuid:'' @ u @ ''</D:href>'') (add_hyphens_to_uuid v)
          else if n = ''owner'' then Some (''<D:href>'' @ sv_owner_href sv v @ ''</D:href>'')
          else Some (sv_quote sv v))"

definition add_text :: "string option list \<Rightarrow> string option \<Rightarrow> string option" where
  "add_text parts old = Some (apr_pstrcat ((if old = None then Some '' '' else old) # parts))"

text \<open>One pass over the properties and the columns of a row: the properties with a value, those without, and the number of the next column.\<close>

fun search_mkresponse :: "senv \<Rightarrow> (string \<times> string) list \<Rightarrow> string option list \<Rightarrow> nat \<Rightarrow> string option \<Rightarrow> string option \<Rightarrow> search_ctx
    \<Rightarrow> (nat \<times> string option \<times> string option \<times> search_ctx) option" where
  "search_mkresponse sv [] dbrow i good_props bad_props c = Some (i, good_props, bad_props, c)"
| "search_mkresponse sv ((k, a) # ps) dbrow i good_props bad_props c =
     (if length dbrow \<le> i then None
      else
        (let prop = get_prop_from_prop_key k; ns = sx_namespace_map c (snd prop)
         in if dbrow ! i = None \<or> dbrow ! i = Some []
            then search_mkresponse sv ps dbrow (Suc i) good_props
                   (add_text [Some ''<'', fst prop, Some ('' xmlns='' @ dq), ns, Some (dq @ ''/>'')] bad_props) c
            else case get_ns_id ''DAV:'' c of
              (dav, c) \<Rightarrow>
                (case shown_value sv dav prop (the (dbrow ! i)) of
                   None \<Rightarrow> None
                 | Some v \<Rightarrow>
                     search_mkresponse sv ps dbrow (Suc i)
                       (add_text [Some ''<'', fst prop, Some ('' xmlns='' @ dq), ns, Some (dq @ ''>''), Some v, Some ''</'', fst prop, Some ''>'', Some (sv_cr sv)]
                          good_props) bad_props c)))"

record bitmark =
  bk_href :: "string option"
  bk_name :: string
  bk_value :: "string option"

type_synonym bitmarks = "(string \<times> bitmark list) list"

text \<open>The column of bitmarks holds names, values and hrefs, each ended by \<^verbatim>\<open>>\<close>; a name that was not asked for is skipped alone.\<close>

function read_bitmarks :: "string list \<Rightarrow> bitmarks \<Rightarrow> bitmarks" where
  "read_bitmarks [] bs = bs"
| "read_bitmarks (n # ts) bs =
     (if n \<in> fst ` set bs
      then read_bitmarks (drop 2 ts)
             (map (\<lambda>(k, vs). (k, if k = n
                then vs @ [\<lparr>bk_href = (case ts of v # h # _ \<Rightarrow> Some h | _ \<Rightarrow> None), bk_name = n,
                            bk_value = (case ts of v # _ \<Rightarrow> Some v | _ \<Rightarrow> None)\<rparr>] else vs)) bs)
      else read_bitmarks ts bs)"
  by pat_completeness auto
termination
  by (relation "measure (\<lambda>(ts, bs). length ts)") auto

definition good_bitmark :: "senv \<Rightarrow> bitmark \<Rightarrow> string option list" where
  "good_bitmark sv b =
     [Some (''<bitmark>'' @ sv_cr sv @ '' <href>''), sv_response_href sv (bk_href b), Some (''</href>'' @ sv_cr sv @ '' <''), Some (bk_name b), Some ''>'',
      bk_value b, Some ''</'', Some (bk_name b), Some (''>'' @ sv_cr sv @ ''</bitmark>'' @ sv_cr sv)]"

definition split_bitmarks :: "senv \<Rightarrow> bitmarks \<Rightarrow> string option \<times> string option" where
  "split_bitmarks sv bs =
     fold (\<lambda>(bm, vs) (good, bad).
       if vs = [] then (good, add_text [Some ''<'', Some bm, Some ''/>''] bad)
       else (fold (\<lambda>b. add_text (good_bitmark sv b)) vs good, bad)) bs (None, None)"

record search_hit =
  sh_href :: string
  sh_status :: nat
  sh_propstats :: string

text \<open>The elements of one response: properties found and not found, bitmarks found and not found.\<close>

definition flush :: "senv \<Rightarrow> string \<Rightarrow> string option \<Rightarrow> string option \<Rightarrow> bitmarks option \<Rightarrow> search_hit" where
  "flush sv href good_props bad_props bs =
     (let cr = sv_cr sv;
          ns = ''http://limebits.com/ns/1.0/'';
          marks = (case bs of None \<Rightarrow> (None, None) | Some bs \<Rightarrow> split_bitmarks sv bs)
      in \<lparr>sh_href = href, sh_status = 200, sh_propstats =
           (case good_props of None \<Rightarrow> []
            | Some t \<Rightarrow> ''<D:propstat>'' @ cr @ ''  <D:prop>'' @ cr @ t @ ''  </D:prop>'' @ cr @
                        ''  <D:status>HTTP/1.1 200 OK</D:status>'' @ cr @ ''</D:propstat>'' @ cr) @
           (case bad_props of None \<Rightarrow> []
            | Some t \<Rightarrow> ''<D:propstat>'' @ cr @ ''  <D:prop>'' @ cr @ t @ ''  </D:prop>'' @ cr @
                        ''  <D:status>HTTP/1.1 404 Not Found</D:status>'' @ cr @ ''</D:propstat>'' @ cr) @
           (case fst marks of None \<Rightarrow> []
            | Some t \<Rightarrow> ''<bitmarkstat xmlns='' @ dq @ ns @ dq @ ''>'' @ cr @ t @ ''  <status>HTTP/1.1 200 OK</status>'' @ cr @ ''</bitmarkstat>'' @ cr) @
           (case snd marks of None \<Rightarrow> []
            | Some t \<Rightarrow> ''<bitmarkstat xmlns='' @ dq @ ns @ dq @ ''>'' @ cr @ ''  <bitmark>'' @ cr @ t @ ''  </bitmark>'' @ cr @
                        ''  <status>HTTP/1.1 404 Not Found</status>'' @ cr @ ''</bitmarkstat>'' @ cr)\<rparr>)"

text \<open>What the loop over the rows keeps of the resource at hand.\<close>

record hit_state =
  hs_last_href :: string
  hs_good :: "string option"
  hs_bad :: "string option"
  hs_bitmarks :: "bitmarks option"
  hs_column :: nat

definition take_bitmarks :: "string option list \<Rightarrow> hit_state \<Rightarrow> hit_state option" where
  "take_bitmarks dbrow h =
     (case hs_bitmarks h of
        None \<Rightarrow> Some h
      | Some bs \<Rightarrow>
          if length dbrow \<le> hs_column h then None
          else case dbrow ! hs_column h of
            None \<Rightarrow> Some h
          | Some t \<Rightarrow> Some (h\<lparr>hs_bitmarks := Some (read_bitmarks (tokens CHR ''>'' t) bs)\<rparr>))"

definition first_row :: "senv \<Rightarrow> string \<Rightarrow> string option list \<Rightarrow> search_ctx \<Rightarrow> (hit_state \<times> search_ctx) option" where
  "first_row sv href dbrow c =
     map_option (\<lambda>(j, good, bad, c).
       (\<lparr>hs_last_href = href, hs_good = good, hs_bad = bad,
         hs_bitmarks = (if sx_bitmark_support_req c then Some (map (\<lambda>(bm, ns). (bm, [])) (sv_order sv (sx_bitmarks_map c))) else None),
         hs_column = j\<rparr>, c))
       (search_mkresponse sv (sv_order sv (sx_prop_map c)) dbrow 1 None None c)"

definition hit_of :: "senv \<Rightarrow> hit_state \<Rightarrow> search_hit" where
  "hit_of sv h = flush sv (hs_last_href h) (hs_good h) (hs_bad h) (hs_bitmarks h)"

fun result_rows :: "senv \<Rightarrow> string option list list \<Rightarrow> hit_state option \<Rightarrow> search_ctx \<Rightarrow> (search_hit list \<times> search_ctx) option" where
  "result_rows sv [] st c = Some (case st of None \<Rightarrow> [] | Some h \<Rightarrow> [hit_of sv h], c)"
| "result_rows sv (dbrow # rows) st c =
     (case dbrow of
        Some href # _ \<Rightarrow>
          (case st of
             Some h \<Rightarrow>
               if sv_natcmp sv href (hs_last_href h)
               then (case take_bitmarks dbrow h of None \<Rightarrow> None | Some h \<Rightarrow> result_rows sv rows (Some h) c)
               else (case first_row sv href dbrow c of
                       None \<Rightarrow> None
                     | Some (h', c) \<Rightarrow>
                         (case take_bitmarks dbrow h' of
                            None \<Rightarrow> None
                          | Some h' \<Rightarrow> map_option (\<lambda>(hits, c). (hit_of sv h # hits, c)) (result_rows sv rows (Some h') c)))
           | None \<Rightarrow>
               (case first_row sv href dbrow c of
                  None \<Rightarrow> None
                | Some (h', c) \<Rightarrow> (case take_bitmarks dbrow h' of None \<Rightarrow> None | Some h' \<Rightarrow> result_rows sv rows (Some h') c)))
      | _ \<Rightarrow> None)"

definition build_xml_response :: "senv \<Rightarrow> string option list list \<Rightarrow> search_ctx \<Rightarrow> (search_hit list \<times> search_ctx) option" where
  "build_xml_response sv rows c = result_rows sv rows None c"

section \<open>The hook and the report\<close>

definition dav_repos_set_option_head :: "string list" where
  "dav_repos_set_option_head =
     [''<DAV:basicsearch>'', ''<limebits:basicsearch xmlns:limebits='' @ dq @ ''http://limebits.com/ns/1.0/'' @ dq @ ''>'']"

definition fresh_ctx :: "string \<Rightarrow> string list \<Rightarrow> (string \<rightharpoonup> id) \<Rightarrow> dav_repos_cache \<Rightarrow> db \<Rightarrow> search_ctx" where
  "fresh_ctx req_uri nss h ca s =
     \<lparr>sx_query = None, sx_select = None, sx_from = None, sx_where = None, sx_where_cond = None, sx_orderby = None, sx_limit = None,
      sx_offset = None, sx_off = None, sx_err_msg = None, sx_nresults = None, sx_prop_map = [], sx_bitmarks_map = [],
      sx_namespace_map = Map.empty, sx_namespaces = nss, sx_media_props_req = False, sx_is_bit_query = False,
      sx_bitmark_support_req = False, sx_b4_name = None, sx_b2_rid = 0, sx_search_graph_seed = None, sx_search_graph_cond = None,
      sx_uri = req_uri, sx_ns_id_hash = h, sx_cache = ca, sx_db = s\<rparr>"

text \<open>What the server answers to a text: a text with a question mark is never sent, as its parameters are not set, and the number of its rows
  is read through a null pointer; otherwise it fails or has rows.\<close>

definition send :: "senv \<Rightarrow> string \<Rightarrow> db \<Rightarrow> (string option list list option \<times> db) option" where
  "send sv query s =
     (if CHR ''?'' \<in> set query then None
      else case run_select s of (failed, s) \<Rightarrow> Some (if failed then None else sv_answer sv query, s))"

definition dav_repos_search_resource :: "senv \<Rightarrow> xml option \<Rightarrow> search_ctx \<Rightarrow> ((dav_error + search_hit list) \<times> search_ctx) option" where
  "dav_repos_search_resource sv doc c =
     (case doc of
        None \<Rightarrow> Some (Inl (dav_new_error HTTP_BAD_REQUEST ''doc is NULL''), c)
      | Some root \<Rightarrow>
          (case parse_query sv root c of
             None \<Rightarrow> None
           | Some (r, c) \<Rightarrow>
               if r \<noteq> HTTP_OK then Some (Inl \<lparr>status = r, tagname = None, desc = sx_err_msg c\<rparr>, c)
               else let c = build_query sv c
                    in case send sv (the (sx_query c)) (sx_db c) of
                         None \<Rightarrow> None
                       | Some (None, s) \<Rightarrow> Some (Inl (dav_new_error HTTP_INTERNAL_SERVER_ERROR ''Error in executing query''), c\<lparr>sx_db := s\<rparr>)
                       | Some (Some rows, s) \<Rightarrow> map_option (\<lambda>(hits, c). (Inr hits, c)) (build_xml_response sv rows (c\<lparr>sx_db := s\<rparr>))))"

text \<open>The report on the values of a property: how many resources among the bits have each of some values. The name of the
  property and the name of the statistic go into the query as they are.\<close>

definition stats_query :: "id \<Rightarrow> string \<Rightarrow> string \<Rightarrow> string list \<Rightarrow> string" where
  "stats_query ns_id prop stat vs =
     (let value_set = butlast (''('' @ concat (map (\<lambda>v. sq @ v @ sq @ '','') vs)) @ '')'';
          value_table = butlast ('' '' @ concat (map (\<lambda>v. ''('' @ sq @ v @ sq @ ''),'') vs)) @ '' ''
      in ''WITH resource_bitmarks AS ('' @ bitmark_rows @ '' AND bitmarks.namespace_id = '' @ show_long ns_id @ '' AND bitmarks.name = '' @ sq @ prop @ sq @
         '' ) SELECT value, '' @ stat @ ''(value) - 1 FROM (SELECT resource_bitmarks.value FROM resources'' @
         '' LEFT JOIN principals ON principals.resource_id = resources.owner_id LEFT JOIN binds b4 ON b4.resource_id = resources.id'' @
         '' INNER JOIN binds b3 ON b4.collection_id = b3.resource_id INNER JOIN binds b2 ON b3.collection_id = b2.resource_id'' @
         '' INNER JOIN binds b1 ON b2.collection_id = b1.resource_id LEFT JOIN resource_bitmarks'' @
         '' ON resource_bitmarks.resource_id = resources.id WHERE b1.collection_id = 2 AND b1.name = '' @ sq @ ''home'' @ sq @
         '' AND b3.name = '' @ sq @ ''bits'' @ sq @ '' AND ( type = '' @ sq @ ''Collection'' @ sq @ '' ) AND resource_bitmarks.value IN '' @ value_set @
         '' UNION ALL VALUES '' @ value_table @ '') values GROUP BY value'')"

definition stats_page :: "senv \<Rightarrow> string \<Rightarrow> string \<Rightarrow> string \<Rightarrow> string option list list \<Rightarrow> string option" where
  "stats_page sv ns prop stat rows =
     (if list_all (\<lambda>r. 2 \<le> length r \<and> r ! 0 \<noteq> None) rows
      then Some (''<LB:property-stats xmlns:LB='' @ dq @ ''http://limebits.com/ns/1.0/'' @ dq @ ''>'' @ sv_cr sv @
        '' <LB:prop><ns1:'' @ prop @ '' xmlns:ns1='' @ dq @ ns @ dq @ ''/></LB:prop>'' @ sv_cr sv @ '' <LB:sample-set>'' @ sv_cr sv @
        concat (map (\<lambda>r. ''  <LB:stat>'' @ sv_cr sv @
          apr_pstrcat [Some ''   <LB:value>'', Some (sv_quote sv (the (r ! 0))), Some (''</LB:value>'' @ sv_cr sv @ ''   <LB:''), Some stat, Some ''>'', r ! 1,
            Some ''</LB:'', Some stat, Some (''>'' @ sv_cr sv)] @ ''  </LB:stat>'' @ sv_cr sv) rows) @
        '' </LB:sample-set>'' @ sv_cr sv @ ''</LB:property-stats>'' @ sv_cr sv)
      else None)"

definition dav_repos_deliver_property_stats :: "senv \<Rightarrow> xml \<Rightarrow> search_ctx \<Rightarrow> ((dav_error + string) \<times> search_ctx) option" where
  "dav_repos_deliver_property_stats sv root c =
     (let bad_request = dav_new_error HTTP_BAD_REQUEST ''Bad XML request in dav_repos_deliver_property_stats''
      in case sv_find_child_no_ns sv root ''prop'' of
           [] \<Rightarrow> Some (Inl bad_request, c)
         | p # _ \<Rightarrow>
             (case x_children p of
                [] \<Rightarrow> Some (Inl bad_request, c)
              | prop # _ \<Rightarrow>
                  (case get_ns_uri (sx_namespaces c) (x_ns prop) of
                     None \<Rightarrow> None
                   | Some ns \<Rightarrow>
                       (case dbms_get_ns_id ns (sx_ns_id_hash c) (sx_cache c) (sx_db c) of
                          ((err, i), h, ca, s) \<Rightarrow>
                            (let c = c\<lparr>sx_ns_id_hash := h, sx_cache := ca, sx_db := s\<rparr>
                             in case err of
                                  Some e \<Rightarrow> Some (Inl e, c)
                                | None \<Rightarrow>
                                    (case (sv_find_child_no_ns sv root ''sample-set'', sv_find_child_no_ns sv root ''stat'') of
                                       (sample # _, st # _) \<Rightarrow>
                                         (case x_children st of
                                            [] \<Rightarrow> Some (Inl bad_request, c)
                                          | stat # _ \<Rightarrow>
                                              if list_ex (\<lambda>v. x_text v = None) (x_children sample) then None
                                              else (case send sv (stats_query i (x_name prop) (x_name stat)
                                                       (map (\<lambda>v. sv_escape sv (the (x_text v))) (x_children sample))) (sx_db c) of
                                                      None \<Rightarrow> None
                                                    | Some (None, s) \<Rightarrow>
                                                        Some (Inl (dav_new_error HTTP_INTERNAL_SERVER_ERROR
                                                          ''Error executing query in dav_repos_deliver_property_stats''), c\<lparr>sx_db := s\<rparr>)
                                                    | Some (Some rows, s) \<Rightarrow>
                                                        map_option (\<lambda>t. (Inr t, c\<lparr>sx_db := s\<rparr>)) (stats_page sv ns (x_name prop) (x_name stat) rows)))
                                     | _ \<Rightarrow> Some (Inl bad_request, c)))))))"

end
