(* ===== verification/SearchFacts.thy ===== *)
theory SearchFacts
  imports Search
begin

text \<open>
  Facts on searches: the key of a property and what is read back from it, the brackets of a condition, and the grouping of the
  rows into responses.
\<close>

section \<open>Keys of properties\<close>

lemma splitc_append: "splitc k (a @ k # b) = splitc k a @ splitc k b"
proof (induction a)
  case (Cons x a)
  then show ?case by (cases "splitc k a") auto
qed simp

lemma tokens_append: "tokens k (a @ k # b) = tokens k a @ tokens k b"
  by (simp add: tokens_splitc splitc_append)

lemma concat_tokens: "concat (tokens k s) = filter (\<lambda>x. x \<noteq> k) s"
proof -
  have "concat (filter (\<lambda>t. t \<noteq> []) ts) = concat ts" for ts :: "char list list" by (induction ts) auto
  moreover have "concat (splitc k s) = filter (\<lambda>x. x \<noteq> k) s"
  proof (induction s)
    case (Cons x s)
    then show ?case by (cases "splitc k s") auto
  qed simp
  ultimately show ?thesis by (simp add: tokens_splitc)
qed

lemma show_long_digits:
  assumes "0 \<le> i"
  shows "show_long i \<noteq> []" "x \<in> set (show_long i) \<Longrightarrow> is_digit x"
proof -
  show "show_long i \<noteq> []" using assms by (simp add: show_long_def show_nat.simps [of "nat i"])
  assume "x \<in> set (show_long i)"
  then show "is_digit x" using assms show_nat_digits by (simp add: show_long_def del: show_nat.simps)
qed

lemma digits_value_acc:
  assumes "\<And>x. x \<in> set ds \<Longrightarrow> is_digit x"
  shows "foldl (\<lambda>n c. 10 * n + (of_char c - 48)) (int a) ds = int (atol_acc a ds)"
  using assms
proof (induction ds arbitrary: a)
  case (Cons d ds)
  have d: "is_digit d" "48 \<le> (of_char d :: nat)" using Cons.prems by (auto simp: is_digit_def)
  have "int (digit_val d) = of_char d - 48" using d by (simp add: digit_val_def of_nat_diff of_nat_of_char)
  then have "10 * int a + (of_char d - 48) = int (10 * a + digit_val d)" by simp
  moreover have "foldl (\<lambda>n c. 10 * n + (of_char c - 48)) (int (10 * a + digit_val d)) ds = int (atol_acc (10 * a + digit_val d) ds)"
    by (rule Cons.IH) (simp add: Cons.prems)
  ultimately show ?case using d(1) by simp
qed simp

lemma atoi_show_long:
  assumes "0 \<le> i"
  shows "atoi (show_long i) = i"
proof -
  note d = show_long_digits [OF assms]
  obtain x xs where x: "show_long i = x # xs" "is_digit x" using d by (cases "show_long i") auto
  have "\<not> isspace x" "x \<noteq> CHR ''-''" "x \<noteq> CHR ''+''" using x(2) by (auto simp: isspace_def is_digit_def)
  then have "atoi (show_long i) = digits_value (takeWhile is_digit (show_long i))"
    by (simp add: atoi_def x(1))
  also have "takeWhile is_digit (show_long i) = show_long i" using d(2) by (simp add: takeWhile_eq_all_conv)
  also have "digits_value (show_long i) = int (atol_acc 0 (show_long i))"
    unfolding digits_value_def using digits_value_acc [of "show_long i" 0] d(2) by simp
  also have "\<dots> = i" using assms by (simp add: show_long_def atol_acc_show_nat)
  finally show ?thesis .
qed



section \<open>Brackets\<close>

text \<open>\<open>closes d q s\<close> is what is left of a text after the bracket that closes the outermost of \<open>d\<close> open brackets; \<open>q\<close> is whether the
  text starts inside a string constant.\<close>

fun closes :: "nat \<Rightarrow> bool \<Rightarrow> string \<Rightarrow> string option" where
  "closes d q [] = None"
| "closes d q (x # s) =
     (if q then closes d (x \<noteq> CHR 0x27) s
      else if x = CHR 0x27 then closes d True s
      else if x = CHR ''('' then closes (Suc d) False s
      else if x = CHR '')'' then (if d \<le> 1 then Some s else closes (d - 1) False s)
      else closes d False s)"

definition one_group :: "string \<Rightarrow> bool" where
  "one_group g \<longleftrightarrow> g \<noteq> [] \<and> hd g = CHR ''('' \<and> closes 1 False (tl g) = Some []"

definition neutral :: "string \<Rightarrow> bool" where
  "neutral a \<longleftrightarrow> (\<forall>d r. closes (Suc d) False (a @ r) = closes (Suc d) False r)"

lemma closes_append:
  "closes (Suc k) q b = Some u \<Longrightarrow>
     closes (Suc k + d) q (b @ r) = (if d = 0 then Some (u @ r) else closes d False (u @ r))"
proof (induction "Suc k" q b arbitrary: k rule: closes.induct)
  case (2 q x s)
  show ?case
  proof (cases "\<not> q \<and> x = CHR '')''")
    case True
    with 2 show ?thesis by (cases k) auto
  next
    case False
    with 2 show ?thesis by (auto split: if_splits)
  qed
qed simp

lemma neutral_Nil [simp]: "neutral []"
  by (simp add: neutral_def)

lemma neutral_append: "neutral a \<Longrightarrow> neutral b \<Longrightarrow> neutral (a @ b)"
  by (simp add: neutral_def)

lemma neutral_clean:
  assumes "CHR 0x27 \<notin> set a" "CHR ''('' \<notin> set a" "CHR '')'' \<notin> set a"
  shows "neutral a"
  using assms by (induction a) (auto simp: neutral_def)

lemma closes_quoted:
  "CHR 0x27 \<notin> set v \<Longrightarrow> closes d True (v @ CHR 0x27 # r) = closes d False r"
  by (induction v) auto

lemma neutral_quoted:
  assumes "CHR 0x27 \<notin> set v"
  shows "neutral (sq @ v @ sq)"
  using closes_quoted [OF assms] by (simp add: neutral_def)

lemma one_group_neutral:
  assumes "one_group g"
  shows "neutral g"
  unfolding neutral_def
proof (intro allI)
  fix d r
  obtain b where b: "g = CHR ''('' # b" "closes (Suc 0) False b = Some []"
    using assms by (cases g) (auto simp: one_group_def)
  show "closes (Suc d) False (g @ r) = closes (Suc d) False r"
    using closes_append [OF b(2), of "Suc d" r] by (simp add: b(1))
qed

lemma one_group_bracketed:
  assumes "neutral a"
  shows "one_group (''('' @ a @ '')'')"
proof -
  have "closes (Suc 0) False (a @ '')'') = closes (Suc 0) False '')''" using assms unfolding neutral_def by blast
  then show ?thesis by (simp add: one_group_def)
qed

definition clean :: "string \<Rightarrow> bool" where
  "clean a \<longleftrightarrow> CHR 0x27 \<notin> set a \<and> CHR ''('' \<notin> set a \<and> CHR '')'' \<notin> set a"

lemma clean_neutral: "clean a \<Longrightarrow> neutral a"
  by (simp add: clean_def neutral_clean)

text \<open>Documents without quotes in names, types and literals, nor brackets in names and types, which test only known properties for existence.\<close>

fun plain :: "xml \<Rightarrow> bool" where
  "plain (Elem n ns attrs t cs) \<longleftrightarrow>
     clean n \<and> list_all (\<lambda>(k, v). clean v) attrs \<and> (case t of None \<Rightarrow> True | Some v \<Rightarrow> CHR 0x27 \<notin> set v) \<and> list_all plain cs \<and>
     (n = ''is-defined'' \<longrightarrow> (case cs of Elem hn hns has ht (Elem pn pns pas pt pcs # ps) # hs \<Rightarrow> pns \<noteq> 0 \<or> map_of get_liveprop_map pn \<noteq> None
                                    | _ \<Rightarrow> True))"

lemma apr_pstrcat_simps [simp]:
  "apr_pstrcat [] = []" "apr_pstrcat (Some t # xs) = t @ apr_pstrcat xs" "apr_pstrcat (None # xs) = []"
  by (simp_all add: apr_pstrcat_def)

definition cond_of :: "search_ctx \<Rightarrow> string" where
  "cond_of c = (case sx_where_cond c of None \<Rightarrow> '' '' | Some t \<Rightarrow> t)"

lemma add_cond_cond [simp]:
  "sx_where_cond c = Some t \<Longrightarrow> sx_where_cond (add_cond parts c) = Some (t @ apr_pstrcat parts)"
  by (simp add: add_cond_def)

lemma start_cond_cond [simp]: "sx_where_cond (start_cond c) = Some (cond_of c)"
  by (simp add: start_cond_def cond_of_def split: option.splits)

lemma cond_of_Some [simp]: "sx_where_cond c = Some t \<Longrightarrow> cond_of c = t"
  by (simp add: cond_of_def)

lemma get_ns_id_cond: "get_ns_id ns c = (i, c') \<Longrightarrow> sx_where_cond c' = sx_where_cond c"
  by (auto simp: get_ns_id_def split: prod.splits)

lemma name_property_cond:
  "name_property p c = Some (i, k, c') \<Longrightarrow> sx_where_cond c' = sx_where_cond c \<and> k = get_prop_key (x_name p) i"
  by (auto simp: name_property_def split: option.splits prod.splits dest: get_ns_id_cond)

lemma digit_clean: "is_digit x \<Longrightarrow> x \<noteq> CHR 0x27 \<and> x \<noteq> CHR ''('' \<and> x \<noteq> CHR '')''"
  by (auto simp: is_digit_def)

lemma clean_show_long: "clean (show_long i)"
proof -
  have "clean (show_nat n)" for n
    unfolding clean_def using show_nat_digits [of _ n] digit_clean by blast
  then show ?thesis by (auto simp: show_long_def clean_def simp del: show_nat.simps)
qed

lemma clean_append: "clean (a @ b) \<longleftrightarrow> clean a \<and> clean b"
  by (auto simp: clean_def)

lemma clean_attr:
  assumes "prop_attr_lookup p k c = (Some a, c')" "clean k"
  shows "clean a"
proof -
  have "list_all (\<lambda>(n, a). clean a) get_liveprop_map" by (simp add: get_liveprop_map_def clean_def)
  moreover have "map_of get_liveprop_map n = Some b \<Longrightarrow> (n, b) \<in> set get_liveprop_map" for n b by (rule map_of_SomeD)
  ultimately have "map_of get_liveprop_map n = Some b \<Longrightarrow> clean b" for n b by (fastforce simp: list_all_iff)
  then show ?thesis using assms by (auto simp: prop_attr_lookup_def clean_def split: if_splits option.splits)
qed

lemma prop_attr_lookup_cond: "prop_attr_lookup p k c = (a, c') \<Longrightarrow> sx_where_cond c' = sx_where_cond c"
  by (auto simp: prop_attr_lookup_def split: if_splits option.splits)

lemma plain_name: "plain x \<Longrightarrow> clean (x_name x)"
  by (cases x) simp

lemma plain_child: "plain x \<Longrightarrow> y \<in> set (x_children x) \<Longrightarrow> plain y"
  by (cases x) (auto simp: list_all_iff)

lemma plain_text: "plain x \<Longrightarrow> x_text x = Some v \<Longrightarrow> CHR 0x27 \<notin> set v"
  by (cases x) auto

lemma clean_key: "clean n \<Longrightarrow> clean (get_prop_key n i)"
  using clean_show_long [of i] by (simp add: get_prop_key_def clean_append) (simp add: clean_def)

lemma clean_find_attr: "dav_find_attr attrs k = Some v \<Longrightarrow> list_all (\<lambda>(k, v). clean v) attrs \<Longrightarrow> clean v"
  by (induction attrs k rule: dav_find_attr.induct) (auto split: if_splits)

lemma clean_type:
  assumes "literal_type lit = Some (Some ty)" "plain lit"
  shows "clean ty"
proof -
  obtain v where v: "dav_find_attr (x_attrs lit) ''type'' = Some v" "ty = tl (dropWhile (\<lambda>x. x \<noteq> CHR '':'') v)"
    using assms(1) by (auto simp: literal_type_def split: if_splits option.splits)
  have "list_all (\<lambda>(k, v). clean v) (x_attrs lit)" using assms(2) by (cases lit) simp
  with v(1) have "clean v" by (blast intro: clean_find_attr)
  moreover have "set (tl u) \<subseteq> set u" for u :: string by (cases u) auto
  then have "x \<in> set ty \<Longrightarrow> x \<in> set v" for x unfolding v(2) by (meson set_dropWhileD subsetD)
  ultimately show ?thesis by (auto simp: clean_def)
qed

lemma clean_op: "map_of get_comp_ops_map n = Some op \<Longrightarrow> clean op"
  by (auto simp: get_comp_ops_map_def clean_def split: if_splits)

lemma comparison_group:
  assumes "clean a" "clean op" "CHR 0x27 \<notin> set v"
  shows "one_group (''( '' @ a @ '' '' @ op @ '' '' @ sq @ v @ sq @ '' )'')"
proof -
  have "neutral ('' '' @ a @ '' '' @ op @ '' '')"
    using assms(1,2) by (auto simp: clean_def intro!: neutral_clean)
  from neutral_append [OF this neutral_append [OF neutral_quoted [OF assms(3)], of "'' ''"]]
  have "neutral (('' '' @ a @ '' '' @ op @ '' '') @ (sq @ v @ sq) @ '' '')" by (simp add: neutral_clean)
  from one_group_bracketed [OF this] show ?thesis by simp
qed

lemma bitmark_group:
  assumes "clean a" "clean op" "clean n" "clean i" "CHR 0x27 \<notin> set v"
  shows "one_group (''( resources.id IN (SELECT resource_id FROM resource_bitmarks WHERE namespace_id = '' @ i @ '' AND name = '' @
    sq @ n @ sq @ '' AND '' @ a @ '' '' @ op @ '' '' @ sq @ v @ sq @ '' ))'')"
proof -
  let ?b = "''SELECT resource_id FROM resource_bitmarks WHERE namespace_id = '' @ i @ '' AND name = ''"
  have 1: "neutral ?b" using assms(4) by (auto simp: clean_def intro!: neutral_clean)
  have 2: "neutral ('' AND '' @ a @ '' '' @ op @ '' '')" using assms(1,2) by (auto simp: clean_def intro!: neutral_clean)
  have 3: "neutral (sq @ n @ sq)" "neutral (sq @ v @ sq)" using assms(3,5) by (auto simp: clean_def intro!: neutral_quoted [simplified])
  have 4: "neutral '' ''" "neutral '' resources.id IN ''" by (rule neutral_clean; simp)+
  have "one_group (''('' @ (?b @ (sq @ n @ sq) @ ('' AND '' @ a @ '' '' @ op @ '' '') @ (sq @ v @ sq) @ '' '') @ '')'')"
    by (intro one_group_bracketed neutral_append 1 2 3 4)
  then have "neutral ('' resources.id IN '' @ (''('' @ (?b @ (sq @ n @ sq) @ ('' AND '' @ a @ '' '' @ op @ '' '') @ (sq @ v @ sq) @ '' '') @ '')''))"
    by (intro neutral_append 4 one_group_neutral)
  from one_group_bracketed [OF this] show ?thesis by simp
qed

lemma comp_ops_group:
  assumes "parse_comp_ops el c = Some (r, c')" "plain el"
  shows "r = HTTP_OK \<longrightarrow> (\<exists>g. sx_where_cond c' = Some (cond_of c @ g) \<and> one_group g)"
proof (cases "r = HTTP_OK")
  case True
  obtain holder others where el: "x_children el = holder # others"
    using assms(1) by (cases "x_children el") (simp_all add: parse_comp_ops_def)
  then have plain: "plain holder" using plain_child [OF assms(2)] by simp
  obtain pr ps where holder: "x_children holder = pr # ps"
    using assms(1) by (cases "x_children holder") (simp_all add: parse_comp_ops_def el)
  then have "plain pr" using plain_child [OF plain] by simp
  then have n: "clean (x_name pr)" by (simp add: plain_name)
  obtain i k c1 where 1: "name_property pr c = Some (i, k, c1)"
    using assms(1) by (auto simp: parse_comp_ops_def el holder split: option.splits)
  note N = name_property_cond [OF 1]
  let ?bm = "x_name holder = ''bitmark''"
  obtain attr c2 where 2: "(if ?bm then (Some ''value'', c1) else prop_attr_lookup pr k c1) = (attr, c2)" by fastforce
  then have c2: "cond_of c2 = cond_of c"
    using N by (auto simp: cond_of_def dest: prop_attr_lookup_cond split: if_splits)
  obtain op a where 3: "map_of get_comp_ops_map (x_name el) = Some op" "attr = Some a"
    using assms(1) True by (auto simp: parse_comp_ops_def el holder 1 2 Let_def split: option.splits)
  obtain lit ls where 4: "others = lit # ls"
    using assms(1) by (auto simp: parse_comp_ops_def el holder 1 2 3 Let_def split: list.splits)
  obtain ty v where 5: "literal_type lit = Some ty" "x_text lit = Some v"
    using assms(1) by (auto simp: parse_comp_ops_def el holder 1 2 3 4 Let_def split: option.splits)
  have lit: "plain lit" using assms(2) el 4 by (auto intro: plain_child)
  have a: "clean a"
    using 2 3(2) clean_attr [of pr k c1 a c2] clean_key [OF n, of i] N by (auto simp: clean_def split: if_splits)
  define b where "b = (case ty of None \<Rightarrow> a | Some t \<Rightarrow> a @ ''::'' @ t)"
  have b: "clean b"
    using a clean_type [of lit] 5(1) lit by (auto simp: b_def clean_append clean_def split: option.splits)
  note v = plain_text [OF lit 5(2)] and op = clean_op [OF 3(1)]
  have "sx_where_cond c' = Some (cond_of c @
      (if ?bm then ''( resources.id IN (SELECT resource_id FROM resource_bitmarks WHERE namespace_id = '' @ show_long i @ '' AND name = '' @
         sq @ x_name pr @ sq @ '' AND '' @ b @ '' '' @ op @ '' '' @ sq @ v @ sq @ '' ))''
       else ''( '' @ b @ '' '' @ op @ '' '' @ sq @ v @ sq @ '' )''))"
    using assms(1) by (auto simp: parse_comp_ops_def el holder 1 2 3 4 5 Let_def b_def c2 split: if_splits)
  then show ?thesis
    using comparison_group [OF b op v] bitmark_group [OF b op n clean_show_long v] by (auto split: if_splits)
qed simp

lemma type_group: "one_group (''( type = '' @ sq @ ''Collection'' @ sq @ '' )'')"
  by (simp add: one_group_def)

lemma attr_known:
  "prop_attr_lookup p k c = (a, c') \<Longrightarrow> x_ns p \<noteq> 0 \<or> map_of get_liveprop_map (x_name p) = Some b \<Longrightarrow> a \<noteq> None"
  by (auto simp: prop_attr_lookup_def split: if_splits) metis+

lemma is_defined_group:
  assumes "parse_is_defined el c = Some (r, c')" "plain el" "x_name el = ''is-defined''"
  shows "\<exists>g. sx_where_cond c' = Some (cond_of c @ g) \<and> one_group g"
proof -
  obtain holder others where el: "x_children el = holder # others"
    using assms(1) by (cases "x_children el") (simp_all add: parse_is_defined_def)
  then have plain: "plain holder" using plain_child [OF assms(2)] by simp
  obtain pr ps where holder: "x_children holder = pr # ps"
    using assms(1) by (cases "x_children holder") (simp_all add: parse_is_defined_def el)
  then have "plain pr" using plain_child [OF plain] by simp
  then have n: "clean (x_name pr)" by (simp add: plain_name)
  obtain i k c1 where 1: "name_property pr c = Some (i, k, c1)"
    using assms(1) by (auto simp: parse_is_defined_def el holder split: option.splits)
  note N = name_property_cond [OF 1]
  obtain attr c2 where 2: "prop_attr_lookup pr k c1 = (attr, c2)" by fastforce
  have "x_ns pr \<noteq> 0 \<or> map_of get_liveprop_map (x_name pr) \<noteq> None"
    using assms(2,3) el holder by (cases el; cases holder; cases pr) (auto simp: list_all_iff)
  then have "attr \<noteq> None" using attr_known [OF 2] by blast
  then obtain a where a: "attr = Some a" by blast
  have "clean a" using 2 N clean_attr [of pr k c1 a c2] clean_key [OF n, of i] by (simp add: a)
  then have "neutral ('' '' @ a @ '' IS NOT NULL '')" by (auto simp: clean_def intro!: neutral_clean)
  from one_group_bracketed [OF this] have "one_group (''( '' @ a @ '' IS NOT NULL )'')" by simp
  moreover have "sx_where_cond c' = Some (cond_of c @ ''( '' @ a @ '' IS NOT NULL )'')"
    using assms(1) conjunct1 [OF N] prop_attr_lookup_cond [OF 2]
    by (auto simp: parse_is_defined_def el holder 1 2 a cond_of_def start_cond_def add_cond_def split: option.splits)
  ultimately show ?thesis by blast
qed

lemma clean_log_op: "log_op op \<Longrightarrow> clean op"
  by (auto simp: log_op_def clean_def)

lemma then_ok_cases:
  assumes "then_ok m f = Some (r, c)"
  obtains c1 where "m = Some (HTTP_OK, c1)" "f c1 = Some (r, c)" | "m = Some (r, c)" "r \<noteq> HTTP_OK"
  using assms that by (auto simp: then_ok_def split: option.splits if_splits)

lemma parse_groups:
  "parse_where sv x c = Some (HTTP_OK, c') \<Longrightarrow> plain x \<Longrightarrow>
     \<exists>g. sx_where_cond c' = Some (cond_of c @ g) \<and> one_group g"
  "parse_log_ops sv op xs c = Some (HTTP_OK, c') \<Longrightarrow> log_op op \<Longrightarrow> list_all plain xs \<Longrightarrow>
     \<exists>g. sx_where_cond c' = Some (cond_of c @ g) \<and> one_group g"
  "parse_ops sv op xs c = Some (HTTP_OK, c') \<Longrightarrow> log_op op \<Longrightarrow> list_all plain xs \<Longrightarrow> sx_where_cond c = Some t \<Longrightarrow>
     \<exists>g. sx_where_cond c' = Some (t @ g) \<and> neutral g"
proof (induction sv x c and sv op xs c and sv op xs c arbitrary: c' and c' and c' t rule: parse_where_parse_log_ops_parse_ops.induct)
  case (1 sv op ns attrs u cs c)
  let ?el = "Elem op ns attrs u cs"
  consider (comp) "comp_op op" | (log) "\<not> comp_op op" "log_op op" | (coll) "\<not> comp_op op" "\<not> log_op op" "op = ''is-collection''"
    | (bit) "\<not> comp_op op" "\<not> log_op op" "op = ''is-bit''" | (defined) "\<not> comp_op op" "\<not> log_op op" "op = ''is-defined''"
    | (other) "\<not> comp_op op" "\<not> log_op op" "op \<noteq> ''is-collection''" "op \<noteq> ''is-bit''" "op \<noteq> ''is-defined''" by blast
  then show ?case
  proof cases
    case comp
    then show ?thesis using 1(2,3) comp_ops_group [of ?el c HTTP_OK c'] by simp
  next
    case log
    then show ?thesis using 1 by simp
  next
    case coll
    then show ?thesis using 1(2) type_group by (auto simp: parse_is_coll_def)
  next
    case bit
    then show ?thesis using 1(2) type_group by (auto simp: parse_is_bit_def start_cond_def cond_of_def add_cond_def split: option.splits)
  next
    case defined
    then have "parse_is_defined ?el c = Some (HTTP_OK, c')" using 1(2) by simp
    then show ?thesis by (rule is_defined_group) (use 1(3) defined in auto)
  next
    case other
    then show ?thesis using 1(2) by simp
  qed
next
  case (3 sv op x xs c)
  have plain: "plain x" "list_all plain xs" using 3(6) by auto
  show ?case
  proof (cases "sv_natcmp sv op ''not''")
    case True
    then obtain c1 where c1: "parse_where sv x (add_cond [Some ''( NOT ''] (start_cond c)) = Some (HTTP_OK, c1)" "c' = add_cond [Some '' )''] c1"
      using 3(4) by auto
    from 3(1) [OF True c1(1) plain(1)] obtain g where g: "sx_where_cond c1 = Some (cond_of c @ ''( NOT '' @ g)" "one_group g" by auto
    have lits: "neutral '' NOT ''" "neutral '' ''" by (rule neutral_clean; simp)+
    have "neutral ('' NOT '' @ g @ '' '')" by (rule neutral_append [OF lits(1) neutral_append [OF one_group_neutral [OF g(2)] lits(2)]])
    from one_group_bracketed [OF this] show ?thesis by (intro exI [of _ "''( NOT '' @ g @ '' )''"]) (simp add: c1(2) g(1))
  next
    case False
    then have f: "then_ok (parse_where sv x (add_cond [Some ''( ''] (start_cond c)))
        (\<lambda>c. then_ok (parse_ops sv op xs c) (\<lambda>c. Some (HTTP_OK, add_cond [Some '' )''] c))) = Some (HTTP_OK, c')" using 3(4) by simp
    from f obtain c1 where c1: "parse_where sv x (add_cond [Some ''( ''] (start_cond c)) = Some (HTTP_OK, c1)"
      "then_ok (parse_ops sv op xs c1) (\<lambda>c. Some (HTTP_OK, add_cond [Some '' )''] c)) = Some (HTTP_OK, c')" by (rule then_ok_cases) auto
    from c1(2) obtain c2 where c2: "parse_ops sv op xs c1 = Some (HTTP_OK, c2)" "c' = add_cond [Some '' )''] c2"
      by (rule then_ok_cases) simp_all
    from 3(2) [OF False c1(1) plain(1)] obtain g where g: "sx_where_cond c1 = Some (cond_of c @ ''( '' @ g)" "one_group g" by auto
    from 3(3) [OF False c2(1) 3(5) plain(2) g(1)] obtain h where h: "sx_where_cond c2 = Some ((cond_of c @ ''( '' @ g) @ h)" "neutral h" by blast
    have blank: "neutral '' ''" by (rule neutral_clean; simp)
    have "neutral ('' '' @ g @ h @ '' '')"
      by (rule neutral_append [OF blank neutral_append [OF one_group_neutral [OF g(2)] neutral_append [OF h(2) blank]]])
    from one_group_bracketed [OF this] show ?thesis by (intro exI [of _ "''( '' @ g @ h @ '' )''"]) (simp add: c2(2) h(1))
  qed
next
  case (5 sv op x xs c)
  have plain: "plain x" "list_all plain xs" using 5(5) by auto
  from 5(3) [unfolded parse_ops.simps] obtain c1 where c1:
    "parse_where sv x (add_cond [Some '' '', Some op, Some '' ''] c) = Some (HTTP_OK, c1)" "parse_ops sv op xs c1 = Some (HTTP_OK, c')"
    by (rule then_ok_cases) auto
  from 5(1) [OF c1(1) plain(1)] 5(6) obtain g where g: "sx_where_cond c1 = Some (t @ '' '' @ op @ '' '' @ g)" "one_group g" by auto
  from 5(2) [OF c1(2) 5(4) plain(2) g(1)] obtain h where h: "sx_where_cond c' = Some ((t @ '' '' @ op @ '' '' @ g) @ h)" "neutral h" by blast
  have blank: "neutral '' ''" by (rule neutral_clean; simp)
  have "neutral ('' '' @ op @ '' '' @ g @ h)"
    by (rule neutral_append [OF blank neutral_append [OF clean_neutral [OF clean_log_op [OF 5(4)]] neutral_append [OF blank
          neutral_append [OF one_group_neutral [OF g(2)] h(2)]]]])
  then show ?case by (intro exI [of _ "'' '' @ op @ '' '' @ g @ h"]) (simp add: h(1))
qed simp_all

text \<open>C24: The text of a condition is completely bracketed: for a document without quotes in its literals, what
  \<open>parse_where\<close> appends to the query for an element, however deeply operators are nested, is one group: its first
  bracket is closed by its last character and by none before, string constants left aside.\<close>

theorem where_is_one_group:
  assumes "parse_where sv x c = Some (HTTP_OK, c')" and "plain x"
  shows "\<exists>g. sx_where_cond c' = Some (cond_of c @ g) \<and> one_group g"
  using assms by (rule parse_groups)

definition display_is :: "string \<Rightarrow> xml" where
  "display_is v = Elem ''eq'' 0 [] None [Elem ''prop'' 0 [] None [Elem ''displayname'' 0 [] None []], Elem ''literal'' 0 [] (Some v) []]"

definition empty_ctx :: search_ctx where
  "empty_ctx = fresh_ctx ''/'' [] (\<lambda>n. if n = ''DAV:'' then Some 1 else None) \<lparr>c_namespaces = Map.empty, c_privileges = Map.empty\<rparr> empty_db"

definition plain_env :: senv where
  "plain_env = \<lparr>sv_find_child = (\<lambda>e n. dropWhile (\<lambda>x. x_name x \<noteq> n) (x_children e)),
     sv_find_child_no_ns = (\<lambda>e n. dropWhile (\<lambda>x. x_name x \<noteq> n) (x_children e)), sv_cdata = (\<lambda>e. case x_text e of None \<Rightarrow> [] | Some t \<Rightarrow> t),
     sv_natcmp = (=), sv_is_url = (\<lambda>u. False), sv_uri_path = Some, sv_getparents = (\<lambda>u. u),
     sv_lookup = (\<lambda>u s. Some (zero_dbr\<lparr>dr_uri := Some u, dr_serialno := 2\<rparr>, s)), sv_order = (\<lambda>m. m),
     sv_response_href = (\<lambda>h. h), sv_owner_href = (\<lambda>h. h), sv_quote = (\<lambda>t. t), sv_escape = (\<lambda>t. t), sv_iso8601 = (\<lambda>t. t),
     sv_rfc822 = (\<lambda>t. t), sv_cr = [], sv_answer = (\<lambda>q. Some [])\<rparr>"

abbreviation demo_where :: xml where
  "demo_where \<equiv> Elem ''and'' 0 [] None [display_is ''a'', Elem ''not'' 0 [] None [Elem ''is-collection'' 0 [] None []]]"

theorem where_is_one_group_witness:
  "map_option (\<lambda>(r, c). sx_where_cond c) (parse_where plain_env demo_where empty_ctx)
     = Some (Some ('' ( ( displayname = '' @ sq @ ''a'' @ sq @ '' ) and ( NOT ( type = '' @ sq @ ''Collection'' @ sq @ '' ) ) )'')) \<and>
   one_group (''( ( displayname = '' @ sq @ ''a'' @ sq @ '' ) and ( NOT ( type = '' @ sq @ ''Collection'' @ sq @ '' ) ) )'')"
proof -
  have run: "map_option (\<lambda>(r, c). (r, sx_where_cond c)) (parse_where plain_env demo_where empty_ctx)
     = Some (HTTP_OK, Some ('' ( ( displayname = '' @ sq @ ''a'' @ sq @ '' ) and ( NOT ( type = '' @ sq @ ''Collection'' @ sq @ '' ) ) )''))"
    by code_simp
  then obtain c' where c': "parse_where plain_env demo_where empty_ctx = Some (HTTP_OK, c')"
    "sx_where_cond c' = Some ('' ( ( displayname = '' @ sq @ ''a'' @ sq @ '' ) and ( NOT ( type = '' @ sq @ ''Collection'' @ sq @ '' ) ) )'')" by auto
  have "cond_of empty_ctx = '' ''" "plain demo_where" by code_simp+
  then show ?thesis using where_is_one_group [OF c'(1)] c' by auto
qed


section \<open>Responses\<close>

lemma first_row_href: "first_row sv href r c = Some (h, c') \<Longrightarrow> hs_last_href h = href"
  by (auto simp: first_row_def)

lemma take_bitmarks_href: "take_bitmarks r h = Some h' \<Longrightarrow> hs_last_href h' = hs_last_href h"
  by (auto simp: take_bitmarks_def split: option.splits if_splits)

lemma hit_of_href [simp]: "sh_href (hit_of sv h) = hs_last_href h" "sh_status (hit_of sv h) = 200"
  by (simp_all add: hit_of_def flush_def Let_def)

lemma result_rows_hrefs:
  assumes "result_rows sv rows st c = Some (hits, c')" "sv_natcmp sv = (=)"
  shows "map sh_href hits = remdups_adj ((case st of None \<Rightarrow> [] | Some h \<Rightarrow> [hs_last_href h]) @ map (\<lambda>r. the (hd r)) rows) \<and>
    (\<forall>h \<in> set hits. sh_status h = 200)"
  using assms(1)
proof (induction rows arbitrary: st c hits)
  case Nil
  then show ?case by (auto split: option.splits)
next
  case (Cons r rows)
  obtain href rest where r: "r = Some href # rest" using Cons.prems by (auto split: list.splits option.splits)
  show ?case
  proof (cases st)
    case None
    obtain h c1 h' where 1: "first_row sv href r c = Some (h, c1)" "take_bitmarks r h = Some h'" "result_rows sv rows (Some h') c1 = Some (hits, c')"
      using Cons.prems by (auto simp: r None split: option.splits)
    with Cons.IH [OF 1(3)] show ?thesis by (simp add: r None first_row_href [OF 1(1)] take_bitmarks_href [OF 1(2)])
  next
    case (Some g)
    show ?thesis
    proof (cases "href = hs_last_href g")
      case True
      obtain h' where 1: "take_bitmarks r g = Some h'" "result_rows sv rows (Some h') c = Some (hits, c')"
        using Cons.prems by (auto simp: r Some True assms(2) split: option.splits)
      with Cons.IH [OF 1(2)] show ?thesis by (simp add: r Some True take_bitmarks_href [OF 1(1)])
    next
      case False
      obtain h c1 h' hs where 1: "first_row sv href r c = Some (h, c1)" "take_bitmarks r h = Some h'"
        "result_rows sv rows (Some h') c1 = Some (hs, c')" "hits = hit_of sv g # hs"
        using Cons.prems False by (auto simp: r Some assms(2) split: option.splits)
      with Cons.IH [OF 1(3)] False show ?thesis
        by (simp add: r Some first_row_href [OF 1(1)] take_bitmarks_href [OF 1(2)])
    qed
  qed
qed



end
