(* ===== verification/Liveprops.thy ===== *)
theory Liveprops
  imports Search Streams
begin

text \<open>
  Live properties: the groups of \<^verbatim>\<open>liveprops.c\<close>, \<^verbatim>\<open>limebits_liveprops.c\<close>, \<^verbatim>\<open>quota_liveprops.c\<close>, \<^verbatim>\<open>binds_liveprops.c\<close>,
  \<^verbatim>\<open>redirect_liveprops.c\<close>, \<^verbatim>\<open>search_liveprops.c\<close> and \<^verbatim>\<open>support_liveprops.c\<close>. A group has a table of its
  properties, a function that appends the text of one of them for \<open>PROPFIND\<close>, and the steps of a \<open>PROPPATCH\<close>: validate, execute,
  commit or roll back. The element of a request is the tree of \<^theory_text>\<open>Queries\<close>; \<open>inner\<close> is the text inside it.
  An outer \<open>None\<close> is a read through a null pointer.
\<close>

section \<open>Tables\<close>

datatype dav_prop_insert = DAV_PROP_INSERT_NOTDEF | DAV_PROP_INSERT_NOTSUPP | DAV_PROP_INSERT_FORBIDDEN | DAV_PROP_INSERT_NAME
  | DAV_PROP_INSERT_VALUE | DAV_PROP_INSERT_SUPPORTED

datatype prop_op = DAV_PROP_OP_SET | DAV_PROP_OP_DELETE

datatype propid = P_creationdate | P_displayname | P_getcontentlanguage | P_getcontentlength | P_getcontenttype | P_getetag | P_getlastmodified
  | P_email | P_domain_map | P_used_bytes | P_login_to_all_domains | P_auto_version_new_children | P_limebar_state
  | P_quota_available_bytes | P_quota_used_bytes | P_resource_id | P_parent_set | P_redirect_lifetime | P_reftarget
  | P_supported_query_grammar_set | P_supported_live_property_set | P_supported_method_set | P_supported_report_set

record liveprop_spec =
  lp_name :: string
  lp_propid :: propid
  lp_writable :: bool

abbreviation spec :: "string \<Rightarrow> propid \<Rightarrow> bool \<Rightarrow> liveprop_spec" where
  "spec n p w \<equiv> \<lparr>lp_name = n, lp_propid = p, lp_writable = w\<rparr>"

fun get_livepropspec_from_id :: "liveprop_spec list \<Rightarrow> propid \<Rightarrow> liveprop_spec option" where
  "get_livepropspec_from_id [] p = None"
| "get_livepropspec_from_id (l # ls) p = (if lp_propid l = p then Some l else get_livepropspec_from_id ls p)"

definition list_all_liveprops :: "liveprop_spec list \<Rightarrow> string" where
  "list_all_liveprops ls = concat (map (\<lambda>l. ''<D:'' @ lp_name l @ ''/>'') ls)"

definition supported_text :: "string \<Rightarrow> string \<Rightarrow> string" where
  "supported_text cr name =
     ''<D:supported-live-property><D:prop>'' @ cr @ ''<D:'' @ name @ ''/>'' @ cr @ ''</D:prop></D:supported-live-property>'' @ cr"

definition valued_text :: "string \<Rightarrow> string \<Rightarrow> string" where
  "valued_text name v = ''<D:'' @ name @ ''>'' @ v @ ''</D:'' @ name @ ''>''"

section \<open>The basic properties\<close>

definition dav_repos_props :: "liveprop_spec list" where
  "dav_repos_props =
     [spec ''creationdate'' P_creationdate False, spec ''displayname'' P_displayname True, spec ''getcontentlanguage'' P_getcontentlanguage True,
      spec ''getcontentlength'' P_getcontentlength False, spec ''getcontenttype'' P_getcontenttype True, spec ''getetag'' P_getetag False,
      spec ''getlastmodified'' P_getlastmodified False]"

text \<open>A null value is not put into the table.\<close>

definition dav_repos_build_lpr_hash :: "senv \<Rightarrow> dav_repos_resource \<Rightarrow> (string \<times> string) list" where
  "dav_repos_build_lpr_hash sv r =
     (let h = hash_set ''creationdate'' (map_option (sv_iso8601 sv) (dr_created_at r)) [];
          h = hash_set ''getlastmodified'' (map_option (sv_rfc822 sv) (dr_updated_at r)) h;
          h = hash_set ''displayname'' (dr_displayname r) h
      in if dr_resourcetype r = dav_repos_COLLECTION \<or> dr_resourcetype r = dav_repos_VERSIONED_COLLECTION then h
         else let h = hash_set ''getcontentlength'' (if dr_getcontentlength r = - 1 then None else Some (show_long (dr_getcontentlength r))) h;
                  h = hash_set ''getetag'' (sabridge_getetag_dbr r) h;
                  h = hash_set ''getcontenttype'' (dr_getcontenttype r) h
              in hash_set ''getcontentlanguage'' (dr_getcontentlanguage r) h)"

definition dav_repos_insert_prop :: "senv \<Rightarrow> dav_repos_resource \<Rightarrow> propid \<Rightarrow> dav_prop_insert \<Rightarrow> (dav_prop_insert \<times> string) option" where
  "dav_repos_insert_prop sv r p what =
     (if dr_serialno r = 0 then Some (DAV_PROP_INSERT_NOTDEF, [])
      else case get_livepropspec_from_id dav_repos_props p of
        None \<Rightarrow> None
      | Some l \<Rightarrow>
          (case map_of (dav_repos_build_lpr_hash sv r) (lp_name l) of
             None \<Rightarrow> Some (DAV_PROP_INSERT_NOTDEF, [])
           | Some v \<Rightarrow>
               Some (what, if what = DAV_PROP_INSERT_VALUE then valued_text (lp_name l) (sv_quote sv v)
                           else if what = DAV_PROP_INSERT_NAME then ''<D:'' @ lp_name l @ ''/>'' @ sv_cr sv
                           else ''<D:supported-live-property><D:prop><D:'' @ lp_name l @ ''/></D:prop></D:supported-live-property>'')))"

definition dav_repos_is_writable :: "propid \<Rightarrow> bool" where
  "dav_repos_is_writable p = (case get_livepropspec_from_id dav_repos_props p of None \<Rightarrow> False | Some l \<Rightarrow> lp_writable l)"

definition isalpha :: "char \<Rightarrow> bool" where
  "isalpha c \<longleftrightarrow> (let n = (of_char c :: nat) in 65 \<le> n \<and> n \<le> 90 \<or> 97 \<le> n \<and> n \<le> 122)"

text \<open>The inner loop: \<open>i\<close> letters of the tag were read.\<close>

fun tag_loop :: "nat \<Rightarrow> string \<Rightarrow> bool" where
  "tag_loop i [] = True"
| "tag_loop i (x # tag) = (if 8 < i \<or> \<not> isalpha x then False else tag_loop (Suc i) tag)"

definition validate_language_tag :: "string \<Rightarrow> bool" where
  "validate_language_tag lang_tag = (let ts = tokens CHR ''-'' lang_tag in ts \<noteq> [] \<and> list_all (tag_loop 0) ts)"

text \<open>Validating a type makes a temporary copy of the body that is neither used nor removed. \<open>displayname_limit\<close> is a constant of mod_dav.\<close>

definition dav_repos_patch_validate ::
  "fenv \<Rightarrow> nat \<Rightarrow> dav_repos_resource \<Rightarrow> propid \<Rightarrow> xml \<Rightarrow> string \<Rightarrow> prop_op \<Rightarrow> io \<Rightarrow> (dav_error option \<times> io) option" where
  "dav_repos_patch_validate fe displayname_limit r p el inner operation io =
     (let conflict = (\<lambda>m. Some (dav_new_error HTTP_CONFLICT m))
      in if operation = DAV_PROP_OP_DELETE then Some (conflict ''This property cannot be removed'', io)
         else case p of
           P_displayname \<Rightarrow>
             Some (case x_text el of None \<Rightarrow> None | Some t \<Rightarrow> if displayname_limit < length t then conflict ''Invalid value specified'' else None, io)
         | P_getcontentlanguage \<Rightarrow>
             map_option (\<lambda>t. (if validate_language_tag t then None else conflict ''Invalid value specified'', io)) (x_text el)
         | P_getcontenttype \<Rightarrow>
             (case strip_whitespace (Some inner) of
                None \<Rightarrow> None
              | Some t \<Rightarrow>
                  map_option (\<lambda>(path, io). (if is_content_type_good t then None else conflict (''Couldn'' @ sq @ ''t pass filter''), io))
                    (sabridge_get_resource_file fe r io))
         | _ \<Rightarrow> Some (Some (dav_new_error HTTP_FORBIDDEN ''Cannot be modified''), io))"

definition dav_repos_patch_exec :: "propid \<Rightarrow> string \<Rightarrow> dav_repos_resource \<Rightarrow> dav_repos_resource option" where
  "dav_repos_patch_exec p inner r =
     (case p of
        P_displayname \<Rightarrow> Some (r\<lparr>dr_displayname := Some inner\<rparr>)
      | P_getcontentlanguage \<Rightarrow> Some (r\<lparr>dr_getcontentlanguage := Some inner\<rparr>)
      | P_getcontenttype \<Rightarrow> map_option (\<lambda>t. r\<lparr>dr_getcontenttype := t\<rparr>) (strip_whitespace (Some inner))
      | _ \<Rightarrow> Some r)"

definition dav_repos_patch_commit :: "datetime \<Rightarrow> propid \<Rightarrow> dav_repos_resource \<Rightarrow> db \<Rightarrow> dav_repos_resource \<times> db" where
  "dav_repos_patch_commit now p r s =
     (case p of
        P_displayname \<Rightarrow> (r, snd (dbms_set_property r s))
      | P_getcontentlanguage \<Rightarrow> (r, snd (dbms_set_property r s))
      | P_getcontenttype \<Rightarrow> snd (dbms_update_media_props now r s)
      | _ \<Rightarrow> (r, s))"

definition dav_repos_insert_all_liveprops :: "senv \<Rightarrow> bool \<Rightarrow> bool \<Rightarrow> dav_repos_resource \<Rightarrow> dav_prop_insert \<Rightarrow> string" where
  "dav_repos_insert_all_liveprops sv ours exists r what =
     (if \<not> ours then []
      else if \<not> exists then ''<D:resourcetype/>''
      else (if what = DAV_PROP_INSERT_SUPPORTED then ''<D:supported-live-property><D:prop>'' else []) @
           concat (map (\<lambda>(k, v). if what = DAV_PROP_INSERT_VALUE then valued_text k (sv_quote sv v) @ sv_cr sv
                      else if what = DAV_PROP_INSERT_NAME \<or> what = DAV_PROP_INSERT_SUPPORTED then ''<D:'' @ k @ ''/>'' else [])
             (sv_order sv (dav_repos_build_lpr_hash sv r))) @
           (if what = DAV_PROP_INSERT_SUPPORTED then ''</D:prop></D:supported-live-property>'' else []))"

section \<open>Groups without writable properties\<close>

text \<open>These groups share the form of their texts; for a name they append nothing.\<close>

definition simple_insert :: "string \<Rightarrow> liveprop_spec list \<Rightarrow> propid \<Rightarrow> dav_prop_insert \<Rightarrow> string \<Rightarrow> (dav_prop_insert \<times> string) option" where
  "simple_insert cr ls p what v =
     map_option (\<lambda>l. (what, if what = DAV_PROP_INSERT_VALUE then valued_text (lp_name l) v
                            else if what = DAV_PROP_INSERT_SUPPORTED then supported_text cr (lp_name l) else []))
       (get_livepropspec_from_id ls p)"

definition simple_insert_all :: "string \<Rightarrow> bool \<Rightarrow> bool \<Rightarrow> dav_prop_insert \<Rightarrow> string \<Rightarrow> string" where
  "simple_insert_all cr ours present what names =
     (if \<not> ours \<or> \<not> present then []
      else if what = DAV_PROP_INSERT_NAME then names
      else if what = DAV_PROP_INSERT_SUPPORTED
           then ''<D:supported-live-property><D:prop>'' @ cr @ names @ cr @ ''</D:prop></D:supported-live-property>''
      else [])"

definition dav_quota_props :: "liveprop_spec list" where
  "dav_quota_props = [spec ''quota-available-bytes'' P_quota_available_bytes False, spec ''quota-used-bytes'' P_quota_used_bytes False]"

definition is_regular :: "dav_resource \<Rightarrow> bool" where
  "is_regular rs \<longleftrightarrow> rs_exists rs \<and> rs_type rs = DAV_RESOURCE_TYPE_REGULAR"

definition dav_quota_insert_prop :: "senv \<Rightarrow> env \<Rightarrow> id \<Rightarrow> dav_resource \<Rightarrow> dav_repos_resource \<Rightarrow> propid \<Rightarrow> dav_prop_insert \<Rightarrow> db
    \<Rightarrow> ((dav_prop_insert \<times> string) \<times> db) option" where
  "dav_quota_insert_prop sv env garbage rs r p what s =
     (if p \<noteq> P_quota_available_bytes \<and> p \<noteq> P_quota_used_bytes \<or> \<not> is_regular rs then Some ((DAV_PROP_INSERT_NOTDEF, []), s)
      else case (if what \<noteq> DAV_PROP_INSERT_VALUE then Some (0, s)
                 else if p = P_quota_available_bytes then (case dbms_get_available_bytes (dr_owner_id r) s of ((e, n), s) \<Rightarrow> Some (n, s))
                 else sabridge_get_used_bytes env garbage r True s) of
             None \<Rightarrow> None
           | Some (n, s) \<Rightarrow> map_option (\<lambda>t. (t, s)) (simple_insert (sv_cr sv) dav_quota_props p what (show_long n)))"

definition dav_quota_insert_all_liveprops :: "senv \<Rightarrow> bool \<Rightarrow> dav_resource \<Rightarrow> dav_prop_insert \<Rightarrow> string" where
  "dav_quota_insert_all_liveprops sv ours rs what =
     simple_insert_all (sv_cr sv) ours (is_regular rs) what (''<D:quota-available-bytes/>'' @ sv_cr sv @ ''<D:quota-used-bytes/>'')"

definition dav_binds_props :: "liveprop_spec list" where
  "dav_binds_props = [spec ''resource-id'' P_resource_id False, spec ''parent-set'' P_parent_set False]"

text \<open>A resource without an identifier, or with one that is too short, is read past its end.\<close>

definition dav_binds_insert_prop :: "senv \<Rightarrow> dav_repos_resource \<Rightarrow> propid \<Rightarrow> dav_prop_insert \<Rightarrow> (dav_prop_insert \<times> string) option" where
  "dav_binds_insert_prop sv r p what =
     (if dr_resourcetype r = 0 then Some (DAV_PROP_INSERT_NOTDEF, [])
      else if what = DAV_PROP_INSERT_VALUE \<and> p = P_resource_id
           then (case Option.bind (dr_uuid r) add_hyphens_to_uuid of
                   None \<Rightarrow> None
                 | Some u \<Rightarrow> simple_insert (sv_cr sv) dav_binds_props p what (''<D:href>urn:uuid:'' @ u @ ''</D:href>''))
           else simple_insert (sv_cr sv) dav_binds_props p what [])"

definition dav_binds_insert_all_liveprops :: "senv \<Rightarrow> bool \<Rightarrow> dav_resource \<Rightarrow> dav_prop_insert \<Rightarrow> string" where
  "dav_binds_insert_all_liveprops sv ours rs what =
     simple_insert_all (sv_cr sv) ours (is_regular rs) what (''<D:resource-id/>'' @ sv_cr sv @ ''<D:parent-set/>'')"

definition dav_redirect_props :: "liveprop_spec list" where
  "dav_redirect_props = [spec ''redirect-lifetime'' P_redirect_lifetime False, spec ''reftarget'' P_reftarget False]"

definition is_redirect :: "dav_resource \<Rightarrow> bool" where
  "is_redirect rs \<longleftrightarrow> rs_exists rs \<and> rs_type rs = DAV_RESOURCE_TYPE_REDIRECTREF"

text \<open>A failure to read the row is not seen; the target may then be a null pointer.\<close>

definition dav_redirect_insert_prop :: "senv \<Rightarrow> dav_resource \<Rightarrow> dav_repos_resource \<Rightarrow> propid \<Rightarrow> dav_prop_insert \<Rightarrow> db
    \<Rightarrow> ((dav_prop_insert \<times> string) \<times> dav_repos_resource \<times> db) option" where
  "dav_redirect_insert_prop sv rs r p what s =
     (if p \<noteq> P_redirect_lifetime \<and> p \<noteq> P_reftarget \<or> \<not> is_redirect rs then Some ((DAV_PROP_INSERT_NOTDEF, []), r, s)
      else case (if what = DAV_PROP_INSERT_VALUE then (case dbms_get_redirect_props r s of (e, r, s) \<Rightarrow> (r, s)) else (r, s)) of
        (r, s) \<Rightarrow>
          if what = DAV_PROP_INSERT_VALUE \<and> p = P_reftarget \<and> dr_reftarget r = None then None
          else map_option (\<lambda>t. (t, r, s)) (simple_insert (sv_cr sv) dav_redirect_props p what
            (if p = P_redirect_lifetime then (if dr_redirect_lifetime r = DAV_REDIRECTREF_PERMANENT then ''<D:permanent/>'' else ''<D:temporary/>'')
             else ''<D:href>'' @ sv_quote sv (column (dr_reftarget r)) @ ''</D:href>'')))"

definition dav_redirect_insert_all_liveprops :: "senv \<Rightarrow> bool \<Rightarrow> dav_resource \<Rightarrow> dav_prop_insert \<Rightarrow> string" where
  "dav_redirect_insert_all_liveprops sv ours rs what =
     simple_insert_all (sv_cr sv) ours (is_redirect rs) what (''<D:redirect-lifetime/>'' @ sv_cr sv @ ''<D:reftarget/>'')"

definition dav_search_props :: "liveprop_spec list" where
  "dav_search_props = [spec ''supported-query-grammar-set'' P_supported_query_grammar_set False]"

definition dav_search_insert_prop :: "senv \<Rightarrow> propid \<Rightarrow> dav_prop_insert \<Rightarrow> (dav_prop_insert \<times> string) option" where
  "dav_search_insert_prop sv p what =
     simple_insert (sv_cr sv) dav_search_props p what
       (''<D:supported-query-grammar>'' @ sv_cr sv @ ''  <D:grammar><D:basicsearch/></D:grammar>'' @ sv_cr sv @
        ''</D:supported-query-grammar>'' @ sv_cr sv)"

definition dav_search_insert_all_liveprops :: "senv \<Rightarrow> bool \<Rightarrow> dav_resource \<Rightarrow> dav_prop_insert \<Rightarrow> string" where
  "dav_search_insert_all_liveprops sv ours rs what =
     simple_insert_all (sv_cr sv) ours (is_regular rs) what (''<D:supported-query-grammar-set/>'' @ sv_cr sv)"

definition dav_supported_props :: "liveprop_spec list" where
  "dav_supported_props = [spec ''supported-live-property-set'' P_supported_live_property_set False,
     spec ''supported-method-set'' P_supported_method_set False, spec ''supported-report-set'' P_supported_report_set False]"

text \<open>The values are made by mod_dav (\<open>options\<close>).\<close>

definition dav_supported_insert_prop :: "senv \<Rightarrow> (propid \<Rightarrow> string) \<Rightarrow> propid \<Rightarrow> dav_prop_insert \<Rightarrow> (dav_prop_insert \<times> string) option" where
  "dav_supported_insert_prop sv options p what =
     map_option (\<lambda>l. (what, if what = DAV_PROP_INSERT_VALUE then options p
                            else if what = DAV_PROP_INSERT_SUPPORTED then supported_text (sv_cr sv) (lp_name l) else []))
       (get_livepropspec_from_id dav_supported_props p)"

definition dav_supported_insert_all_liveprops :: "senv \<Rightarrow> bool \<Rightarrow> dav_resource \<Rightarrow> dav_prop_insert \<Rightarrow> string" where
  "dav_supported_insert_all_liveprops sv ours rs what =
     simple_insert_all (sv_cr sv) ours (is_regular rs) what
       (''<D:supported-live-property-set/>'' @ sv_cr sv @ ''<D:supported-method-set/>'' @ sv_cr sv @ ''<D:supported-report-set/>'' @ sv_cr sv)"

end
