(* ===== verification/Limebits.thy ===== *)
theory Limebits
  imports Liveprops PrincipalFacts
begin

text \<open>
  The live properties of \<^verbatim>\<open>limebits_liveprops.c\<close> and \<^verbatim>\<open>deltav_liveprops.c\<close> that a \<open>PROPPATCH\<close> can change: the domains and the
  login of a user, the state of the bar, the versioning of a resource and of new children. The request has the caches of privileges
  and of namespaces; the steps validate, execute, commit and roll back are called by mod_dav.
\<close>

section \<open>What is outside\<close>

text \<open>Besides the parameters of the streams and of the search: the principals that follow one in its chain, the entries of a hash
  table in the order in which it is run through, the name by which the server was defined, the status for a missing privilege, and
  an uninitialised number.\<close>

record penv =
  pe_fe :: fenv
  pe_sv :: senv
  pe_others :: "dav_principal \<Rightarrow> dav_principal list"
  pe_entries :: "(string \<rightharpoonup> string) \<Rightarrow> (string \<times> string) list"
  pe_defn_name :: string
  pe_denied :: nat
  pe_garbage :: id

type_synonym caches = "ace_cache_t option \<times> dav_repos_cache"

definition LIMEBITS_NS :: string where "LIMEBITS_NS = ''http://limebits.com/ns/1.0/''"

definition dav_limebits_props :: "liveprop_spec list" where
  "dav_limebits_props =
     [spec ''email'' P_email False, spec ''domain-map'' P_domain_map True, spec ''used-bytes'' P_used_bytes False,
      spec ''login-to-all-domains'' P_login_to_all_domains True, spec ''auto-version-new-children'' P_auto_version_new_children True,
      spec ''limebar-state'' P_limebar_state True]"

section \<open>Reading\<close>

definition is_allow_read_private_properties :: "penv \<Rightarrow> dav_repos_resource \<Rightarrow> caches \<Rightarrow> db \<Rightarrow> bool \<times> caches \<times> db" where
  "is_allow_read_private_properties pe r ca s =
     (case (case e_user (fe_env (pe_fe pe)) of None \<Rightarrow> (PRINCIPAL_UNAUTHENTICATED, s) | Some n \<Rightarrow> prin_by_name (fe_env (pe_fe pe)) n s) of
        (p, s) \<Rightarrow>
          (case sabridge_get_namespace_id LIMEBITS_NS (snd ca) s of
             ((e, ns), c, s) \<Rightarrow>
               (case dbms_is_allow ns ''read-private-properties'' p (pe_others pe p) (dr_serialno r) (fst ca) s of
                  (n, a, s) \<Rightarrow> (n \<noteq> 0, (a, c), s))))"

text \<open>The entries are not quoted.\<close>

definition domain_map_to_xml :: "(string \<times> string) list option \<Rightarrow> string option" where
  "domain_map_to_xml m =
     (case m of
        None \<Rightarrow> None
      | Some [] \<Rightarrow> None
      | Some es \<Rightarrow> Some ('' '' @ concat (map (\<lambda>(d, p).
          ''<lb:domain-map-entry><lb:domain>'' @ d @ ''</lb:domain><lb:path>'' @ p @ ''</lb:path></lb:domain-map-entry>'') es)))"

definition av_element :: "int \<Rightarrow> string option" where
  "av_element av =
     (if av = DAV_AV_CHECKOUT_CHECKIN then Some ''<D:checkout-checkin/>''
      else if av = DAV_AV_CHECKOUT_UNLOCKED_CHECKIN then Some ''<D:checkout-unlocked-checkin/>''
      else if av = DAV_AV_CHECKOUT then Some ''<D:checkout/>''
      else if av = DAV_AV_LOCKED_CHECKOUT then Some ''<D:locked-checkout/>''
      else if av = DAV_AV_VERSION_CONTROL then Some ''<lb:version-control/>''
      else None)"

text \<open>The value of a property; on the left, what the request is told without one.\<close>

definition limebits_value :: "penv \<Rightarrow> propid \<Rightarrow> dav_repos_resource \<Rightarrow> caches \<Rightarrow> db
    \<Rightarrow> ((dav_prop_insert + string option) \<times> dav_repos_resource \<times> caches \<times> db) option" where
  "limebits_value pe p r ca s =
     (case p of
        P_email \<Rightarrow>
          (case is_allow_read_private_properties pe r ca s of
             (ok, ca, s) \<Rightarrow>
               if \<not> ok then Some (Inl DAV_PROP_INSERT_FORBIDDEN, r, ca, s)
               else case dbms_get_user_email (dr_serialno r) s of (v, s) \<Rightarrow> Some (Inr v, r, ca, s))
      | P_domain_map \<Rightarrow>
          (case dbms_get_domain_map (dr_serialno r) s of
             (m, s) \<Rightarrow> Some (Inr (domain_map_to_xml (map_option (pe_entries pe) m)), r, ca, s))
      | P_used_bytes \<Rightarrow>
          map_option (\<lambda>(n, s). (Inr (Some (show_long n)), r, ca, s))
            (sabridge_get_used_bytes (fe_env (pe_fe pe)) (pe_garbage pe) r False s)
      | P_login_to_all_domains \<Rightarrow>
          (case is_allow_read_private_properties pe r ca s of
             (ok, ca, s) \<Rightarrow>
               if \<not> ok then Some (Inl DAV_PROP_INSERT_FORBIDDEN, r, ca, s)
               else case dbms_get_user_login_to_all_domains (dr_serialno r) s of
                 (b, s) \<Rightarrow> Some (Inr (Some (if b then ''true'' else ''false'')), r, ca, s))
      | P_auto_version_new_children \<Rightarrow>
          (case (if dr_av_new_children r = 0 then snd (dbms_get_collection_props r s) else (r, s)) of
             (r, s) \<Rightarrow> Some (Inr (av_element (dr_av_new_children r)), r, ca, s))
      | P_limebar_state \<Rightarrow> Some (Inr (Some (column (dr_limebar_state r))), r, ca, s)
      | _ \<Rightarrow> Some (Inr (Some []), r, ca, s))"

definition dav_limebits_insert_prop :: "penv \<Rightarrow> propid \<Rightarrow> dav_prop_insert \<Rightarrow> dav_repos_resource \<Rightarrow> caches \<Rightarrow> db
    \<Rightarrow> ((dav_prop_insert \<times> string) \<times> dav_repos_resource \<times> caches \<times> db) option" where
  "dav_limebits_insert_prop pe p what r ca s =
     (case get_livepropspec_from_id dav_limebits_props p of
        None \<Rightarrow> None
      | Some l \<Rightarrow>
          let xmlns = '' xmlns:lb='' @ sq @ LIMEBITS_NS @ sq; cr = sv_cr (pe_sv pe)
          in if what = DAV_PROP_INSERT_VALUE
             then map_option (\<lambda>(v, rest).
                    (case v of
                       Inl w \<Rightarrow> (w, [])
                     | Inr None \<Rightarrow> (DAV_PROP_INSERT_NOTSUPP, [])
                     | Inr (Some t) \<Rightarrow> (what, ''<lb:'' @ lp_name l @ xmlns @ ''>'' @ t @ ''</lb:'' @ lp_name l @ ''>''), rest))
                    (limebits_value pe p r ca s)
             else if what = DAV_PROP_INSERT_SUPPORTED
             then Some ((what, ''<D:supported-live-property><D:prop>'' @ cr @ ''<lb:'' @ lp_name l @ xmlns @ ''/>'' @ cr @
                               ''</D:prop></D:supported-live-property>'' @ cr), r, ca, s)
             else Some ((what, []), r, ca, s))"

section \<open>Writing\<close>

definition dav_limebits_is_writable :: "propid \<Rightarrow> bool" where "dav_limebits_is_writable p = True"

definition first_child_name :: "xml \<Rightarrow> string" where
  "first_child_name el = (case x_children el of [] \<Rightarrow> [] | c # cs \<Rightarrow> x_name c)"

definition dav_limebits_patch_validate :: "penv \<Rightarrow> dav_resource \<Rightarrow> dav_repos_resource \<Rightarrow> propid \<Rightarrow> xml \<Rightarrow> prop_op \<Rightarrow> caches \<Rightarrow> db
    \<Rightarrow> dav_error option \<times> caches \<times> db" where
  "dav_limebits_patch_validate pe rs r p el operation ca s =
     (let no = (\<lambda>st m. (Some (dav_new_error st m), ca, s)); deleted_on_user = (operation = DAV_PROP_OP_DELETE \<and> dr_resourcetype r = dav_repos_USER)
      in case p of
        P_domain_map \<Rightarrow> if deleted_on_user then no HTTP_FORBIDDEN (''lb:domain_map can'' @ sq @ ''t be deleted on principals'') else (None, ca, s)
      | P_login_to_all_domains \<Rightarrow>
          if deleted_on_user then no HTTP_FORBIDDEN (''lb:login-to-all-domains can'' @ sq @ ''t be deleted on principals'')
          else (case is_allow_read_private_properties pe r ca s of
             (ok, ca, s) \<Rightarrow>
               (if ok then None else Some (dav_new_error (pe_denied pe) ''lb:read-private-propertes privilege needed''), ca, s))
      | P_auto_version_new_children \<Rightarrow>
          if \<not> rs_collection rs \<or> operation = DAV_PROP_OP_DELETE then (None, ca, s)
          else let av = first_child_name el
               in if av = ''checkout-checkin'' \<or> av = ''version-control'' then (None, ca, s)
                  else if av = ''checkout-unlocked-checkin'' \<or> av = ''checkout'' \<or> av = ''locked-checkout''
                  then no HTTP_FORBIDDEN (av @ '' not supported currently'')
                  else no HTTP_BAD_REQUEST ''Undefined value for lb:auto-version-new-children''
      | P_limebar_state \<Rightarrow>
          if operation = DAV_PROP_OP_DELETE then no HTTP_FORBIDDEN (''lb:limebar-state can'' @ sq @ ''t be deleted'') else (None, ca, s)
      | _ \<Rightarrow> (None, ca, s))"

definition lb_find_child :: "xml \<Rightarrow> string \<Rightarrow> xml option" where
  "lb_find_child el tag = find (\<lambda>c. x_name c = tag) (x_children el)"

text \<open>An entry without a domain or without a path is read through a null pointer.\<close>

fun domain_entries :: "senv \<Rightarrow> string \<Rightarrow> xml list \<Rightarrow> (string \<times> string) list option \<Rightarrow> (string \<times> string) list option option" where
  "domain_entries sv filt [] m = Some m"
| "domain_entries sv filt (el # els) m =
     (case lb_find_child el ''domain'' of
        None \<Rightarrow> None
      | Some d \<Rightarrow>
          if strstr (sv_cdata sv d) filt then domain_entries sv filt els m
          else case lb_find_child el ''path'' of
            None \<Rightarrow> None
          | Some p \<Rightarrow>
              if strstr (sv_cdata sv p) ''!lime'' \<or> strstr (sv_cdata sv p) ''..'' then domain_entries sv filt els m
              else domain_entries sv filt els (Some (hash_set (sv_cdata sv d) (Some (sv_cdata sv p)) (case m of None \<Rightarrow> [] | Some m \<Rightarrow> m))))"

definition domain_map_elem_to_hash :: "senv \<Rightarrow> xml \<Rightarrow> string \<Rightarrow> (string \<rightharpoonup> string) option option" where
  "domain_map_elem_to_hash sv el filt = map_option (map_option map_of) (domain_entries sv filt (x_children el) None)"

datatype rollback_data = RB_null | RB_domains "(string \<rightharpoonup> string) option" | RB_login bool | RB_number int

record dav_liveprop_rollback =
  rb_propid :: propid
  rb_operation :: prop_op
  rb_data :: rollback_data

definition av_named :: "string \<Rightarrow> int option" where
  "av_named av =
     (if av = ''checkout-checkin'' then Some DAV_AV_CHECKOUT_CHECKIN
      else if av = ''checkout-unlocked-checkin'' then Some DAV_AV_CHECKOUT_UNLOCKED_CHECKIN
      else if av = ''checkout'' then Some DAV_AV_CHECKOUT
      else if av = ''locked-checkout'' then Some DAV_AV_LOCKED_CHECKOUT
      else None)"

definition limebits_av :: "prop_op \<Rightarrow> string \<Rightarrow> int \<Rightarrow> int" where
  "limebits_av operation av old =
     (if operation = DAV_PROP_OP_DELETE then DAV_AV_NONE
      else case av_named av of Some n \<Rightarrow> n | None \<Rightarrow> if av = ''version-control'' then DAV_AV_VERSION_CONTROL else old)"

definition dav_limebits_patch_exec :: "penv \<Rightarrow> propid \<Rightarrow> xml \<Rightarrow> string \<Rightarrow> prop_op \<Rightarrow> dav_repos_resource \<Rightarrow> db
    \<Rightarrow> (dav_error option \<times> dav_liveprop_rollback \<times> dav_repos_resource \<times> db) option" where
  "dav_limebits_patch_exec pe p el inner operation r s =
     (let ctx = (\<lambda>d. \<lparr>rb_propid = p, rb_operation = operation, rb_data = d\<rparr>); i = dr_serialno r
      in case p of
        P_domain_map \<Rightarrow>
          (case dbms_get_domain_map i s of
             (m, s) \<Rightarrow>
               if operation \<noteq> DAV_PROP_OP_SET then Some (None, ctx (RB_domains m), r, s)
               else map_option (\<lambda>new. case dbms_set_domain_map (e_escape (fe_env (pe_fe pe))) i (map_option (pe_entries pe) new) s of
                           (e, s) \<Rightarrow> (e, ctx (RB_domains m), r, s))
                      (domain_map_elem_to_hash (pe_sv pe) el (pe_defn_name pe)))
      | P_login_to_all_domains \<Rightarrow>
          (case dbms_get_user_login_to_all_domains i s of
             (cur, s) \<Rightarrow>
               if operation \<noteq> DAV_PROP_OP_SET \<or> (inner = ''true'') = cur then Some (None, ctx RB_null, r, s)
               else case dbms_set_user_login_to_all_domains i (inner = ''true'') s of (e, s) \<Rightarrow> Some (e, ctx (RB_login cur), r, s))
      | P_auto_version_new_children \<Rightarrow>
          Some (None, ctx (RB_number (dr_autoversion_type r)),
                r\<lparr>dr_av_new_children := limebits_av operation (first_child_name el) (dr_av_new_children r)\<rparr>, s)
      | P_limebar_state \<Rightarrow>
          if operation \<noteq> DAV_PROP_OP_SET then Some (None, ctx RB_null, r, s)
          else let r = r\<lparr>dr_limebar_state := Some inner\<rparr> in case dbms_set_limebar_state r s of (e, s) \<Rightarrow> Some (e, ctx RB_null, r, s)
      | _ \<Rightarrow> Some (None, ctx RB_null, r, s))"

text \<open>What the commit compares the new value with is the number that was saved, the versioning of the collection itself.\<close>

definition dav_limebits_patch_commit :: "dav_resource \<Rightarrow> dav_liveprop_rollback \<Rightarrow> dav_repos_resource \<Rightarrow> db \<Rightarrow> db" where
  "dav_limebits_patch_commit rs ctx r s =
     (if rb_propid ctx = P_auto_version_new_children \<and> rs_collection rs \<and> rb_operation ctx = DAV_PROP_OP_SET
         \<and> rb_data ctx \<noteq> RB_number (dr_av_new_children r)
      then snd (dbms_set_collection_new_children_av_type r s) else s)"

text \<open>No step saves data for an address, so that it is set to \<open>NULL\<close>, which the table refuses. The versioning of new
  children and the state of the bar are not restored.\<close>

definition dav_limebits_patch_rollback :: "penv \<Rightarrow> dav_liveprop_rollback \<Rightarrow> dav_repos_resource \<Rightarrow> db \<Rightarrow> dav_error option \<times> db" where
  "dav_limebits_patch_rollback pe ctx r s =
     (case (rb_propid ctx, rb_data ctx) of
        (P_email, d) \<Rightarrow>
          exec_or_500 ''Couldn't set principal email'' (\<lambda>s. if dr_serialno r \<in> user_ids s then None else Some s) (snd (run_select s))
      | (P_domain_map, RB_domains m) \<Rightarrow>
          dbms_set_domain_map (e_escape (fe_env (pe_fe pe))) (dr_serialno r) (map_option (pe_entries pe) m) s
      | (P_login_to_all_domains, RB_login b) \<Rightarrow> dbms_set_user_login_to_all_domains (dr_serialno r) b s
      | _ \<Rightarrow> (None, s))"

end
