(* ===== verification/Vprops.thy ===== *)
theory Vprops
  imports Limebits
begin

text \<open>
  The properties of versioning: the tables of them that \<^verbatim>\<open>deltav_bridge.c\<close> builds for a version-controlled resource, a version and a
  version history, and the live properties of \<^verbatim>\<open>deltav_liveprops.c\<close> on top of these.
\<close>

section \<open>The tables\<close>

definition href_of :: "senv \<Rightarrow> string \<Rightarrow> string option" where
  "href_of sv u = dav_repos_mk_href (sv_quote sv) (Some u)"

text \<open>The element of an automatic versioning, as the property of a resource shows it.\<close>

definition auto_version_element :: "int \<Rightarrow> string option" where
  "auto_version_element av =
     (if av = DAV_AV_CHECKOUT_CHECKIN then Some ''<D:checkout-checkin/>''
      else if av = DAV_AV_CHECKOUT_UNLOCKED_CHECKIN then Some ''<D:checkout-unlocked-checkin/>''
      else if av = DAV_AV_CHECKOUT then Some ''<D:checkout/>''
      else if av = DAV_AV_LOCKED_CHECKOUT then Some ''<D:locked-checkout/>''
      else None)"

text \<open>An error while the row of the history is read is not looked at.\<close>

definition sabridge_build_vcr_pr_hash :: "senv \<Rightarrow> dav_repos_resource \<Rightarrow> db \<Rightarrow> ((string \<times> string) list \<times> db) option" where
  "sabridge_build_vcr_pr_hash sv r s =
     (if dr_resourcetype r \<noteq> dav_repos_VERSIONED \<and> dr_resourcetype r \<noteq> dav_repos_VERSIONED_COLLECTION then Some ([], s)
      else case sabridge_new_dbr_from_dbr r of
        None \<Rightarrow> None
      | Some vhr \<Rightarrow>
          (case sabridge_get_property (vhr\<lparr>dr_serialno := dr_vhr_id r\<rparr>) s of
             None \<Rightarrow> None
           | Some (e, vhr, s) \<Rightarrow>
               let href = href_of sv (sabridge_mk_version_uri vhr (dr_vr_num r));
                   h = (if dr_checked_state r = DAV_RESOURCE_CHECKED_IN then hash_set ''checked-in'' href []
                        else if dr_checked_state r = DAV_RESOURCE_CHECKED_OUT
                        then hash_set ''checkin-fork'' (Some ''DAV:forbidden'') (hash_set ''checkout-fork'' (Some ''DAV:forbidden'')
                               (hash_set ''predecessor-set'' href (hash_set ''checked-out'' href [])))
                        else []);
                   h = hash_set ''version-history'' (href_of sv (sabridge_mk_vhr_uri vhr)) h;
                   h = (case auto_version_element (dr_autoversion_type r) of None \<Rightarrow> h | Some t \<Rightarrow> hash_set ''auto-version'' (Some t) h);
                   h = (if dr_resourcetype r = dav_repos_VERSIONED_COLLECTION then hash_set ''eclipsed-set'' (Some []) h else h)
               in Some (h, s)))"

text \<open>The neighbours of a version: its directory, with the numbers next to its own.\<close>

definition predecessor_set :: "senv \<Rightarrow> (string \<Rightarrow> string) \<Rightarrow> dav_repos_resource \<Rightarrow> string" where
  "predecessor_set sv dirstr r =
     (if dr_version r \<noteq> 1 then column (href_of sv (dirstr (column (dr_uri r)) @ show_long (dr_version r - 1))) else [])"

definition successor_set :: "senv \<Rightarrow> (string \<Rightarrow> string) \<Rightarrow> dav_repos_resource \<Rightarrow> string" where
  "successor_set sv dirstr r =
     (if \<not> dr_lastversion r then column (href_of sv (dirstr (column (dr_uri r)) @ ''/'' @ show_long (dr_version r + 1))) else [])"

definition bindings_text :: "senv \<Rightarrow> dav_repos_resource list \<Rightarrow> string" where
  "bindings_text sv cs =
     concat (map (\<lambda>c. apr_pstrcat [Some ''<D:version-controlled-binding>'', Some ''<D:binding-name>'', dr_displayname c, Some ''</D:binding-name>'',
       Some ''<D:version-history>'', href_of sv (sabridge_mk_vhr_uri c), Some ''</D:version-history>'', Some ''</D:version-controlled-binding>'']) cs)"

definition vr_table :: "senv \<Rightarrow> (string \<Rightarrow> string) \<Rightarrow> dav_repos_resource \<Rightarrow> dav_repos_resource \<Rightarrow> dav_repos_resource \<Rightarrow> (string \<times> string) list" where
  "vr_table sv dirstr vcr vhr r =
     (let h = hash_set ''successor-set'' (Some (successor_set sv dirstr r))
                (hash_set ''predecessor-set'' (Some (predecessor_set sv dirstr r)) []);
          h = (if dr_checked_state vcr = DAV_RESOURCE_CHECKED_OUT \<and> dr_checked_id vcr = dr_serialno r
               then hash_set ''checkout-set'' (dav_repos_mk_href (sv_quote sv) (dr_uri vcr)) h else h);
          h = hash_set ''version-name'' (Some (''V'' @ show_long (dr_version r))) h;
          h = (if dr_creator_displayname r \<noteq> None then hash_set ''creator-displayname'' (dr_creator_displayname r) h else h);
          h = (if dr_comment r \<noteq> None then hash_set ''comment'' (dr_comment r) h else h);
          h = hash_set ''getcontentlength'' (Some (show_long (dr_getcontentlength r))) h;
          h = (if dr_resourcetype r = dav_repos_VERSION
               then hash_set ''getlastmodified'' (Some (sv_rfc822 sv (column (dr_updated_at r)))) h else h);
          h = hash_set ''checkin-fork'' (Some ''DAV:forbidden'') (hash_set ''checkout-fork'' (Some ''DAV:forbidden'') h)
      in hash_set ''version-history'' (href_of sv (sabridge_mk_vhr_uri vhr)) h)"

text \<open>\<open>siblings\<close> are the resources that follow this one in its list: they are taken for its children when these cannot be read.\<close>

definition sabridge_build_vr_pr_hash :: "senv \<Rightarrow> (string \<Rightarrow> string) \<Rightarrow> dav_repos_resource list \<Rightarrow> dav_repos_resource \<Rightarrow> db
    \<Rightarrow> ((string \<times> string) list \<times> db) option" where
  "sabridge_build_vr_pr_hash sv dirstr siblings r s =
     (if dr_resourcetype r \<noteq> dav_repos_VERSION \<and> dr_resourcetype r \<noteq> dav_repos_COLLECTION_VERSION then Some ([], s)
      else case (dr_uri r, sabridge_new_dbr_from_dbr r) of
        (Some u, Some vcr) \<Rightarrow>
          (case sabridge_reverse_lookup (vcr\<lparr>dr_serialno := dr_vcr_id r, dr_resourcetype :=
                  (if dr_resourcetype r = dav_repos_VERSION then dav_repos_VERSIONED else dav_repos_VERSIONED_COLLECTION)\<rparr>) s of
             None \<Rightarrow> None
           | Some (e, vcr, s) \<Rightarrow>
               (case dbms_get_vcr_props vcr s of
                  (e, vcr, s) \<Rightarrow>
                    (case sabridge_new_dbr_from_dbr vcr of
                       None \<Rightarrow> None
                     | Some vhr \<Rightarrow>
                         (case sabridge_get_property (vhr\<lparr>dr_serialno := dr_vhr_id vcr\<rparr>) s of
                            None \<Rightarrow> None
                          | Some (e, vhr, s) \<Rightarrow>
                              let h = vr_table sv dirstr vcr vhr r
                              in if dr_resourcetype r \<noteq> dav_repos_COLLECTION_VERSION then Some (h, s)
                                 else case sabridge_get_collection_children None r 1 s of
                                   None \<Rightarrow> None
                                 | Some (cs, s) \<Rightarrow>
                                     Some (hash_set ''version-controlled-binding-set''
                                             (Some (bindings_text sv (case cs of Inl e \<Rightarrow> siblings | Inr (cs, n) \<Rightarrow> cs))) h, s)))))
      | _ \<Rightarrow> None)"

definition sabridge_build_vhr_pr_hash :: "senv \<Rightarrow> dav_repos_resource \<Rightarrow> db \<Rightarrow> ((string \<times> string) list \<times> dav_repos_resource \<times> db) option" where
  "sabridge_build_vhr_pr_hash sv vhr s =
     (if dr_resourcetype vhr \<noteq> dav_repos_VERSIONHISTORY then Some ([], vhr, s)
      else case (if dr_root_version_id vhr = 0 then snd (dbms_get_vhr_root_version_id vhr s) else (vhr, s)) of
        (vhr, s) \<Rightarrow>
          (case dbms_get_vhr_versions vhr s of
             None \<Rightarrow> None
           | Some (vs, s) \<Rightarrow>
               let vs = (case vs of Inl e \<Rightarrow> [] | Inr vs \<Rightarrow> vs); href = (\<lambda>v. dav_repos_mk_href (sv_quote sv) (dr_uri v));
                   root = Option.bind (find (\<lambda>v. dr_serialno v = dr_root_version_id vhr) vs) href
               in Some (hash_set ''version-set'' (Some (concat (map (column \<circ> href) vs))) (hash_set ''root-version'' root []), vhr, s)))"

text \<open>Other resources have no table.\<close>

definition sabridge_build_vpr_hash :: "senv \<Rightarrow> (string \<Rightarrow> string) \<Rightarrow> dav_repos_resource list \<Rightarrow> dav_repos_resource \<Rightarrow> db
    \<Rightarrow> ((string \<times> string) list option \<times> dav_repos_resource \<times> db) option" where
  "sabridge_build_vpr_hash sv dirstr siblings r s =
     (if dr_resourcetype r = dav_repos_VERSIONED \<or> dr_resourcetype r = dav_repos_VERSIONED_COLLECTION
      then map_option (\<lambda>(h, s). (Some h, r, s)) (sabridge_build_vcr_pr_hash sv r s)
      else if dr_resourcetype r = dav_repos_VERSION \<or> dr_resourcetype r = dav_repos_COLLECTION_VERSION
      then map_option (\<lambda>(h, s). (Some h, r, s)) (sabridge_build_vr_pr_hash sv dirstr siblings r s)
      else if dr_resourcetype r = dav_repos_VERSIONHISTORY
      then map_option (\<lambda>(h, r, s). (Some h, r, s)) (sabridge_build_vhr_pr_hash sv r s)
      else Some (None, r, s))"

section \<open>The live properties\<close>

text \<open>The properties of this group are named by their position in its table.\<close>

definition dav_deltav_props :: "(string \<times> bool) list" where
  "dav_deltav_props =
     [(''checked-in'', False), (''checked-out'', False), (''version-history'', False), (''checkout-fork'', False), (''checkin-fork'', False),
      (''auto-version'', True), (''eclipsed-set'', False), (''predecessor-set'', False), (''successor-set'', False), (''checkout-set'', False),
      (''version-name'', False), (''creator-displayname'', False), (''comment'', False), (''root-version'', False), (''version-set'', False),
      (''version-controlled-binding-set'', False)]"

definition dav_deltav_insert_prop :: "senv \<Rightarrow> (string \<Rightarrow> string) \<Rightarrow> dav_resource \<Rightarrow> string \<Rightarrow> dav_prop_insert \<Rightarrow> dav_repos_resource \<Rightarrow> db
    \<Rightarrow> ((dav_prop_insert \<times> string) \<times> dav_repos_resource \<times> db) option" where
  "dav_deltav_insert_prop sv dirstr rs name what r s =
     (if \<not> rs_exists rs then Some ((DAV_PROP_INSERT_NOTDEF, []), r, s)
      else if map_of dav_deltav_props name = None then None
      else map_option (\<lambda>(h, r, s).
        ((case Option.bind h (\<lambda>h. map_of h name) of
            None \<Rightarrow> (DAV_PROP_INSERT_NOTSUPP, [])
          | Some v \<Rightarrow>
              (what, if what = DAV_PROP_INSERT_VALUE then valued_text name v @ sv_cr sv
                     else if what = DAV_PROP_INSERT_NAME then ''<D:'' @ name @ ''/>'' @ sv_cr sv
                     else supported_text (sv_cr sv) name)), r, s)) (sabridge_build_vpr_hash sv dirstr [] r s))"

definition dav_deltav_is_writable :: "string \<Rightarrow> bool" where
  "dav_deltav_is_writable name = (case map_of dav_deltav_props name of None \<Rightarrow> True | Some w \<Rightarrow> w)"

definition dav_deltav_patch_validate :: "dav_resource \<Rightarrow> string \<Rightarrow> xml \<Rightarrow> prop_op \<Rightarrow> dav_error option" where
  "dav_deltav_patch_validate rs name el operation =
     (if name \<noteq> ''auto-version'' then None
      else if \<not> rs_versioned rs \<or> operation \<noteq> DAV_PROP_OP_SET then Some (dav_new_error HTTP_FORBIDDEN ''Not a set operation on a VCR'')
      else let av = first_child_name el
           in if av = ''checkout-checkin'' then None
              else if av = ''checkout-unlocked-checkin'' \<or> av = ''checkout'' \<or> av = ''locked-checkout''
              then Some (dav_new_error HTTP_FORBIDDEN (av @ '' supported currently''))
              else Some (dav_new_error HTTP_BAD_REQUEST ''Undefined value given for DAV:auto-version ''))"

record av_rollback =
  ar_operation :: prop_op
  ar_data :: int

text \<open>The data for a rollback, when this step makes them, and the changed structure.\<close>

definition dav_deltav_patch_exec :: "dav_resource \<Rightarrow> string \<Rightarrow> xml \<Rightarrow> prop_op \<Rightarrow> dav_repos_resource \<Rightarrow> (av_rollback option \<times> dav_repos_resource) option" where
  "dav_deltav_patch_exec rs name el operation r =
     (if name \<noteq> ''auto-version'' \<or> \<not> rs_versioned rs \<or> operation \<noteq> DAV_PROP_OP_SET then Some (None, r)
      else if x_children el = [] then None
      else Some (Some \<lparr>ar_operation = operation, ar_data = dr_autoversion_type r\<rparr>,
        r\<lparr>dr_autoversion_type := (case av_named (first_child_name el) of None \<Rightarrow> dr_autoversion_type r | Some n \<Rightarrow> n)\<rparr>))"

text \<open>Commit and rollback read the data, whether or not there are any. An error of the update is not looked at.\<close>

definition dav_deltav_patch_commit :: "dav_resource \<Rightarrow> av_rollback option \<Rightarrow> dav_repos_resource \<Rightarrow> db \<Rightarrow> (dav_repos_resource \<times> db) option" where
  "dav_deltav_patch_commit rs ctx r s =
     map_option (\<lambda>c.
       if rs_versioned rs \<and> ar_operation c = DAV_PROP_OP_SET \<and> dr_autoversion_type r \<noteq> ar_data c
       then snd (dbms_set_autoversion_type r (dr_autoversion_type r) s) else (r, s)) ctx"

definition dav_deltav_patch_rollback :: "dav_resource \<Rightarrow> av_rollback option \<Rightarrow> dav_repos_resource \<Rightarrow> dav_repos_resource option" where
  "dav_deltav_patch_rollback rs ctx r =
     map_option (\<lambda>c. if rs_versioned rs \<and> ar_operation c = DAV_PROP_OP_SET then r\<lparr>dr_autoversion_type := ar_data c\<rparr> else r) ctx"

definition dav_deltav_find_liveprop :: "bool \<Rightarrow> string \<Rightarrow> string \<Rightarrow> bool" where
  "dav_deltav_find_liveprop ours ns_uri name \<longleftrightarrow> ours \<and> ns_uri = ''DAV:'' \<and> map_of dav_deltav_props name \<noteq> None"

text \<open>All names of the table, those that are no property of this group too.\<close>

definition dav_deltav_insert_all_liveprops :: "senv \<Rightarrow> (string \<Rightarrow> string) \<Rightarrow> bool \<Rightarrow> dav_resource \<Rightarrow> dav_prop_insert \<Rightarrow> dav_repos_resource \<Rightarrow> db
    \<Rightarrow> (string \<times> dav_repos_resource \<times> db) option" where
  "dav_deltav_insert_all_liveprops sv dirstr ours rs what r s =
     (if \<not> ours \<or> what = DAV_PROP_INSERT_VALUE \<or> \<not> rs_exists rs then Some ([], r, s)
      else map_option (\<lambda>(h, r, s).
        ((case h of
            None \<Rightarrow> []
          | Some h \<Rightarrow>
              let names = concat (map (\<lambda>(k, v). ''<D:'' @ k @ ''/>'' @ sv_cr sv) (sv_order sv h)); cr = sv_cr sv
              in if what = DAV_PROP_INSERT_SUPPORTED
                 then ''<D:supported-live-property>'' @ cr @ ''<D:prop>'' @ cr @ names @ ''</D:prop>'' @ cr @ ''</D:supported-live-property>'' @ cr
                 else names), r, s)) (sabridge_build_vpr_hash sv dirstr [] r s))"

end
