(* ===== verification/Props.thy ===== *)
theory Props
  imports SearchFacts Locks ResourceFacts
begin

text \<open>
  The database of dead properties (\<^verbatim>\<open>props.c\<close>). A handle holds the resource, the hash table of its properties
  once it is built, and the position of the iteration. A property is stored as the text of its start tag and the
  text inside; its element is put together again when it is read. The last part shows that a property that was
  stored is read back as it was.
\<close>

section \<open>The handle and its table\<close>

record dav_db =
  db_r :: dav_repos_resource
  pr_hash :: "(string \<times> dav_repos_property) list option"
  pr_hash_index :: "(string \<times> dav_repos_property) list"

definition dav_repos_db_open :: "dav_repos_resource \<Rightarrow> dav_db" where
  "dav_repos_db_open r = \<lparr>db_r = r, pr_hash = None, pr_hash_index = []\<rparr>"

text \<open>A failure to read the properties is not seen: the table is then empty.\<close>

definition dav_repos_build_pr_hash :: "dav_db \<Rightarrow> db \<Rightarrow> dav_db \<times> db" where
  "dav_repos_build_pr_hash d s =
     (case dbms_fill_dead_property (db_r d) s of
        (err, r, s) \<Rightarrow>
          (d\<lparr>db_r := r, pr_hash := Some (fold (\<lambda>p h. hash_set (the (dav_repos_build_ns_name_key (Some (pr_namespace_name p)) (Some (pr_name p)))) (Some p) h)
             (dr_pr r) [])\<rparr>, s))"

definition ensure_pr_hash :: "dav_db \<Rightarrow> db \<Rightarrow> dav_db \<times> db" where
  "ensure_pr_hash d s = (if pr_hash d = None then dav_repos_build_pr_hash d s else (d, s))"

definition name_key :: "string \<times> string \<Rightarrow> string" where
  "name_key n = the (dav_repos_build_ns_name_key (Some (fst n)) (Some (snd n)))"

text \<open>The tag is the first word of the start tag without its bracket; from an empty text the pointer is the number 1.\<close>

definition get_dead_prop_elem :: "dav_repos_property \<Rightarrow> string option" where
  "get_dead_prop_elem p =
     (let sep = (\<lambda>x. x = CHR '' '' \<or> x = CHR ''>'');
          tag = takeWhile (\<lambda>x. \<not> sep x) (dropWhile sep (pr_xmlinfo p))
      in if tag = [] then None else Some (pr_xmlinfo p @ pr_value p @ ''</'' @ tl tag @ ''>''))"

text \<open>The answer is whether it was found, and the text.\<close>

definition dav_repos_db_output_value :: "string \<times> string \<Rightarrow> dav_db \<Rightarrow> db \<Rightarrow> (string option \<times> dav_db \<times> db) option" where
  "dav_repos_db_output_value n d s =
     (case ensure_pr_hash d s of
        (d, s) \<Rightarrow>
          (case map_of (the (pr_hash d)) (name_key n) of
             None \<Rightarrow> Some (None, d, s)
           | Some p \<Rightarrow> map_option (\<lambda>t. (Some t, d, s)) (get_dead_prop_elem p)))"

definition dav_repos_db_exists :: "string \<times> string \<Rightarrow> dav_db \<Rightarrow> db \<Rightarrow> bool \<times> dav_db \<times> db" where
  "dav_repos_db_exists n d s =
     (case ensure_pr_hash d s of (d, s) \<Rightarrow> (map_of (the (pr_hash d)) (name_key n) \<noteq> None, d, s))"

text \<open>The iteration over the names. A name without a namespace comes out with the blank that stands for it.\<close>

definition dav_repos_get_ns_name_key :: "string \<Rightarrow> string option \<times> string option" where
  "dav_repos_get_ns_name_key pkey =
     (case tokens (CHR 0x09) pkey of [] \<Rightarrow> (None, None) | [ns] \<Rightarrow> (Some ns, None) | ns # n # _ \<Rightarrow> (Some ns, Some n))"

definition name_here :: "dav_db \<Rightarrow> string option \<times> string option" where
  "name_here d = (case pr_hash_index d of [] \<Rightarrow> (None, None) | (k, p) # _ \<Rightarrow> dav_repos_get_ns_name_key k)"

definition dav_repos_db_first_name :: "((string \<times> dav_repos_property) list \<Rightarrow> (string \<times> dav_repos_property) list) \<Rightarrow> dav_db \<Rightarrow> db
    \<Rightarrow> (string option \<times> string option) \<times> dav_db \<times> db" where
  "dav_repos_db_first_name order d s =
     (case ensure_pr_hash d s of
        (d, s) \<Rightarrow> (let d = d\<lparr>pr_hash_index := order (the (pr_hash d))\<rparr> in (name_here d, d, s)))"

definition dav_repos_db_next_name :: "dav_db \<Rightarrow> (string option \<times> string option) \<times> dav_db" where
  "dav_repos_db_next_name d = (let d = d\<lparr>pr_hash_index := tl (pr_hash_index d)\<rparr> in (name_here d, d))"

section \<open>Storing and removing\<close>

text \<open>\<open>inner\<close> and \<open>full\<close> are what \<open>apr_xml_to_text\<close> makes of the element: the text inside it and all of it. The
  start tag is the text up to the first bracket, without the slash of an empty element.\<close>

definition start_tag :: "string \<Rightarrow> string option" where
  "start_tag full =
     (let t = takeWhile (\<lambda>x. x \<noteq> CHR ''>'') full
      in if CHR ''>'' \<notin> set full \<or> t = [] then None else Some ((if last t = CHR ''/'' then butlast t else t) @ ''>''))"

definition ns_of_resource :: "string \<Rightarrow> dav_db \<Rightarrow> dav_repos_cache \<Rightarrow> db \<Rightarrow> (dav_error option \<times> id) \<times> dav_db \<times> dav_repos_cache \<times> db" where
  "ns_of_resource ns d ca s =
     (case dbms_get_ns_id ns (dr_ns_id_hash (db_r d)) ca s of
        (r, h, ca, s) \<Rightarrow> (r, d\<lparr>db_r := (db_r d)\<lparr>dr_ns_id_hash := h\<rparr>\<rparr>, ca, s))"

definition dav_repos_db_store :: "dav_resource_type \<Rightarrow> string \<times> string \<Rightarrow> string \<Rightarrow> string \<Rightarrow> dav_db \<Rightarrow> dav_repos_cache \<Rightarrow> db
    \<Rightarrow> (dav_error option \<times> dav_db \<times> dav_repos_cache \<times> db) option" where
  "dav_repos_db_store type n inner full d ca s =
     (if type = DAV_RESOURCE_TYPE_VERSION \<or> type = DAV_RESOURCE_TYPE_HISTORY
      then Some (Some (dav_new_error HTTP_CONFLICT ''You can not set props for version resource.''), d, ca, s)
      else case start_tag full of
        None \<Rightarrow> None
      | Some xmlinfo \<Rightarrow>
          (case ns_of_resource (fst n) d ca s of
             ((Some e, i), d, ca, s) \<Rightarrow> Some (Some e, d, ca, s)
           | ((None, i), d, ca, s) \<Rightarrow>
               (case dbms_set_dead_property (db_r d) \<lparr>pr_serialno = 0, pr_ns_id = i, pr_name = snd n, pr_xmlinfo = xmlinfo, pr_value = inner,
                   pr_namespace_name = []\<rparr> s of
                  (err, s) \<Rightarrow> Some (err, d, ca, s))))"

definition dav_repos_db_remove :: "string \<times> string \<Rightarrow> dav_db \<Rightarrow> dav_repos_cache \<Rightarrow> db \<Rightarrow> dav_error option \<times> dav_db \<times> dav_repos_cache \<times> db" where
  "dav_repos_db_remove n d ca s =
     (case ns_of_resource (fst n) d ca s of
        ((Some e, i), d, ca, s) \<Rightarrow> (Some e, d, ca, s)
      | ((None, i), d, ca, s) \<Rightarrow>
          (case dbms_del_dead_property (db_r d) \<lparr>pr_serialno = 0, pr_ns_id = i, pr_name = snd n, pr_xmlinfo = [], pr_value = [],
               pr_namespace_name = []\<rparr> s of
             (err, s) \<Rightarrow> (err, d, ca, s)))"

section \<open>The properties of locks\<close>

text \<open>\<open>dav_lock_query\<close> asks the hooks of the locks; the text of the active locks is made by mod_dav.\<close>

definition dav_repos_get_supportedlock :: "string \<Rightarrow> string" where
  "dav_repos_get_supportedlock cr =
     (let entry = (\<lambda>sc. ''<D:lockentry>'' @ cr @ ''<D:lockscope><D:'' @ sc @ ''/></D:lockscope>'' @ cr @
            ''<D:locktype><D:write/></D:locktype>'' @ cr @ ''</D:lockentry>'' @ cr)
      in cr @ entry ''exclusive'' @ entry ''shared'')"

definition dav_repos_insert_lock_prop ::
  "string \<Rightarrow> (dav_lock list \<Rightarrow> string) \<Rightarrow> (db \<Rightarrow> (dav_error + dav_lock list) \<times> db) option \<Rightarrow> db
     \<Rightarrow> dav_error option \<times> string option \<times> string option \<times> db" where
  "dav_repos_insert_lock_prop cr activelock lockdb s =
     (case lockdb of
        None \<Rightarrow> (None, None, None, s)
      | Some query \<Rightarrow>
          (case query s of
             (Inl e, s) \<Rightarrow>
               (Some \<lparr>status = status e, tagname = None, desc = Some (''DAV:lockdiscovery could not be determined due to a problem fetching '' @
                  ''the locks for this resource.'')\<rparr>, None, None, s)
           | (Inr ks, s) \<Rightarrow> (None, if ks = [] then None else Some (activelock ks), Some (dav_repos_get_supportedlock cr), s)))"

section \<open>Reading back what was stored\<close>

text \<open>Namespaces have unique numbers and names, and the next number is fresh.\<close>

definition namespaces_inv :: "db \<Rightarrow> bool" where
  "namespaces_inv s \<longleftrightarrow> distinct (map fst (namespaces s)) \<and> distinct (map snd (namespaces s)) \<and>
     (\<forall>(i, n) \<in> set (namespaces s). 0 < i \<and> i < next_ns s) \<and> 0 < next_ns s"

lemma find_namespace:
  assumes "find (\<lambda>(i, n). n = ns) xs = Some (i, m)"
  shows "(i, ns) \<in> set xs"
  using assms by (auto simp: find_Some_iff) (metis nth_mem)

lemma find_no_namespace:
  assumes "find (\<lambda>(i, n). n = ns) xs = None"
  shows "ns \<notin> snd ` set xs"
  using assms by (auto simp: find_None_iff)

lemma ns_id_found:
  assumes run: "dbms_get_ns_id ns Map.empty ca s = ((None, i), h, ca', t)" and ca: "c_namespaces ca = Map.empty"
    and ok: "fault s = []" and inv: "namespaces_inv s"
  shows "(i, ns) \<in> set (namespaces t) \<and> namespaces_inv t \<and> fault t = [] \<and> properties t = properties s \<and>
    (account_inv s \<longrightarrow> account_inv t) \<and> set (namespaces t) \<subseteq> insert (i, ns) (set (namespaces s))"
proof (cases "find (\<lambda>(i, n). n = ns) (namespaces s)")
  case (Some x)
  obtain j m where x: "x = (j, m)" by fastforce
  have j: "(j, ns) \<in> set (namespaces s)" by (rule find_namespace [OF Some [unfolded x]])
  then have "0 < j" using inv by (auto simp: namespaces_inv_def)
  with run Some x ca have "i = j" "t = s"
    by (auto simp: dbms_get_ns_id_def sabridge_get_namespace_id_def dbms_get_namespace_id_def stmt_simps ok split: if_splits)
  with j inv ok show ?thesis by auto
next
  case None
  have new: "i = next_ns s" "t = s\<lparr>namespaces := namespaces s @ [(next_ns s, ns)], next_ns := next_ns s + 1\<rparr>"
    using run None ca inv
    by (auto simp: dbms_get_ns_id_def sabridge_get_namespace_id_def dbms_get_namespace_id_def dbms_insert_ns_def stmt_simps ok
        split: if_splits)
  have "quota_exact t = quota_exact s" unfolding new(2) by (intro quota_exact_cong) (simp_all add: owners_def)
  then have "account_inv s \<longrightarrow> account_inv t" by (simp add: account_inv_def resources_inv_def new(2))
  moreover have "namespaces_inv t" using inv find_no_namespace [OF None] by (auto simp: namespaces_inv_def new(2))
  ultimately show ?thesis using ok by (simp add: new)
qed

lemma set_dead_property_healthy:
  assumes "dbms_set_dead_property r pr s = (None, s')" "fault s = []"
  shows "namespaces s' = namespaces s \<and> fault s' = []"
proof -
  have once: "charge_once i ns u = Some u' \<Longrightarrow> namespaces u' = namespaces u \<and> fault u' = fault u" for i ns u u'
    by (auto simp: charge_once_def charge_select split: list.splits)
  show ?thesis
    using assms
    by (auto simp: dbms_set_dead_property_def db_insert_property_def exec_or_500_def stmt_simps insert_property_row_def
        update_property_rows_def Let_def charge_select split: if_splits option.splits dest!: once charge_select(5,6))
qed

lemma map_of_hash_set: "map_of (hash_set k (Some v) m) = (map_of m)(k \<mapsto> v)"
  by (induction k "Some v" m rule: hash_set.induct) (auto simp: fun_eq_iff)

lemma map_of_fold_hash_set:
  "map_of (fold (\<lambda>p h. hash_set (f p) (Some p) h) ps m) = map_of m ++ map_of (rev (map (\<lambda>p. (f p, p)) ps))"
  by (induction ps arbitrary: m) (auto simp: map_of_hash_set)

lemma map_of_unique:
  assumes "p \<in> set ps" "\<And>q. q \<in> set ps \<Longrightarrow> f q = f p \<Longrightarrow> q = p"
  shows "map_of (rev (map (\<lambda>q. (f q, q)) ps)) (f p) = Some p"
proof -
  have "map_of (rev (map (\<lambda>q. (f q, q)) ps)) (f p) \<noteq> None"
    using assms(1) unfolding map_of_eq_None_iff by (simp add: image_image)
  then obtain q where q: "map_of (rev (map (\<lambda>q. (f q, q)) ps)) (f p) = Some q" by blast
  then have "(f p, q) \<in> set (map (\<lambda>q. (f q, q)) ps)" by (auto dest: map_of_SomeD)
  then have "q = p" using assms(2) by auto
  with q show ?thesis by simp
qed

lemma name_key_inj:
  assumes "name_key (a, n) = name_key (b, m)" "CHR 0x09 \<notin> set a" "CHR 0x09 \<notin> set b" "b \<noteq> []" "b \<noteq> NULL_NAMESPACE"
  shows "a = b \<and> n = m"
proof -
  let ?n = "\<lambda>x. if length x = 0 then NULL_NAMESPACE else x"
  have "splitc CHR 0x09 (?n a @ CHR 0x09 # n) = ?n a # splitc CHR 0x09 n"
    "splitc CHR 0x09 (?n b @ CHR 0x09 # m) = ?n b # splitc CHR 0x09 m"
    by (rule splitc_append_sep; use assms(2,3) in \<open>simp add: NULL_NAMESPACE_def\<close>)+
  moreover have e: "?n a @ CHR 0x09 # n = ?n b @ CHR 0x09 # m"
    using assms(1) by (simp add: name_key_def dav_repos_build_ns_name_key_def)
  ultimately have "?n a = ?n b" by simp
  with assms(4,5) have "a = b" by (auto split: if_splits)
  with e show ?thesis by simp
qed

lemma filled_properties:
  "p \<in> set (concat (map (property_of s) (by_name (filter (\<lambda>p. p_resource_id p = i) (properties s))))) \<longleftrightarrow>
     (\<exists>w \<in> set (properties s). p_resource_id w = i \<and> (\<exists>n. (p_namespace_id w, n) \<in> set (namespaces s) \<and>
        p = \<lparr>pr_serialno = i, pr_ns_id = p_namespace_id w, pr_name = p_name w, pr_xmlinfo = p_xmlinfo w, pr_value = p_value w,
              pr_namespace_name = n\<rparr>))"
  by (auto simp: by_name_def property_of_def)

lemma built_hash:
  assumes s: "fault s = []" "distinct (map snd (namespaces s))" "distinct (map prop_key (properties s))"
    and w: "w \<in> set (properties s)" "p_resource_id w = dr_serialno r" "(p_namespace_id w, ns) \<in> set (namespaces s)"
    and tab: "\<forall>(i, n) \<in> set (namespaces s). CHR 0x09 \<notin> set n" and ns: "ns \<noteq> []" "ns \<noteq> NULL_NAMESPACE" and r: "dr_pr r = []"
  shows "\<exists>d h. dav_repos_build_pr_hash (dav_repos_db_open r) s = (d, s) \<and> pr_hash d = Some h \<and>
    map_of h (name_key (ns, p_name w)) = Some \<lparr>pr_serialno = dr_serialno r, pr_ns_id = p_namespace_id w, pr_name = p_name w,
       pr_xmlinfo = p_xmlinfo w, pr_value = p_value w, pr_namespace_name = ns\<rparr>"
proof -
  let ?ps = "concat (map (property_of s) (by_name (filter (\<lambda>p. p_resource_id p = dr_serialno r) (properties s))))"
  let ?p = "\<lparr>pr_serialno = dr_serialno r, pr_ns_id = p_namespace_id w, pr_name = p_name w,
       pr_xmlinfo = p_xmlinfo w, pr_value = p_value w, pr_namespace_name = ns\<rparr> :: dav_repos_property"
  let ?f = "\<lambda>p. name_key (pr_namespace_name p, pr_name p)"
  have unique: "q = ?p" if q: "q \<in> set ?ps" "?f q = ?f ?p" for q
  proof -
    from q(1) [unfolded filled_properties] obtain v n where v: "v \<in> set (properties s)" "p_resource_id v = dr_serialno r" "(p_namespace_id v, n) \<in> set (namespaces s)"
      "q = \<lparr>pr_serialno = dr_serialno r, pr_ns_id = p_namespace_id v, pr_name = p_name v, pr_xmlinfo = p_xmlinfo v, pr_value = p_value v,
              pr_namespace_name = n\<rparr>" by blast
    have "CHR 0x09 \<notin> set n" "CHR 0x09 \<notin> set ns" using tab v(3) w(3) by auto
    with q(2) ns have "n = ns \<and> p_name v = p_name w" by (intro name_key_inj) (simp_all add: v(4))
    moreover from this have "(p_namespace_id v, n) = (p_namespace_id w, ns)"
      using v(3) w(3) s(2) by (intro inj_onD [of snd "set (namespaces s)"]) (simp_all add: distinct_map)
    ultimately have "p_namespace_id v = p_namespace_id w" "n = ns" "p_name v = p_name w" by auto
    then have "prop_key v = prop_key w" using v(2) w(2) by (simp add: prop_key_def)
    with s(3) v(1) w(1) have "v = w" by (auto simp: distinct_map inj_on_def)
    with \<open>n = ns\<close> show ?thesis by (simp add: v(4))
  qed
  have "?p \<in> set ?ps" unfolding filled_properties using w by blast
  from map_of_unique [OF this, where f = ?f, OF unique]
  have "map_of (rev (map (\<lambda>q. (?f q, q)) ?ps)) (name_key (ns, p_name w)) = Some ?p" by simp
  then show ?thesis
    using s(1) r
    by (simp add: dav_repos_build_pr_hash_def dav_repos_db_open_def dbms_fill_dead_property_def stmt_simps Let_def map_of_fold_hash_set
        name_key_def)
qed

definition stored :: "id \<Rightarrow> id \<Rightarrow> string \<Rightarrow> string \<Rightarrow> string \<Rightarrow> db \<Rightarrow> bool" where
  "stored i ns_id n xmlinfo v s \<longleftrightarrow> (\<exists>w \<in> set (properties s). prop_key w = (i, ns_id, n) \<and> p_xmlinfo w = xmlinfo \<and> p_value w = v)"

lemma set_dead_property_stored:
  assumes "dbms_set_dead_property r pr s = (None, s')"
  shows "stored (dr_serialno r) (pr_ns_id pr) (pr_name pr) (pr_xmlinfo pr) (pr_value pr) s'"
proof -
  have "prop_map s' (dr_serialno r, pr_ns_id pr, pr_name pr) = Some (pr_xmlinfo pr, pr_value pr)"
    using dead_property_map [of r pr s] assms by simp
  then have "((dr_serialno r, pr_ns_id pr, pr_name pr), pr_xmlinfo pr, pr_value pr)
      \<in> set (map (\<lambda>p. (prop_key p, p_xmlinfo p, p_value p)) (properties s'))" unfolding prop_map_def by (rule map_of_SomeD)
  then show ?thesis by (auto simp: stored_def)
qed

text \<open>The shape of the text that \<open>apr_xml_to_text\<close> makes: a start tag without a closing bracket inside, the text inside, an end
  tag; or an empty element.\<close>

definition well_formed :: "string \<Rightarrow> string \<Rightarrow> string \<Rightarrow> string \<Rightarrow> bool" where
  "well_formed tag attrs inner full \<longleftrightarrow> tag \<noteq> [] \<and> CHR '' '' \<notin> set tag \<and> CHR ''>'' \<notin> set (tag @ attrs) \<and> (attrs = [] \<or> hd attrs = CHR '' '') \<and>
     last (tag @ attrs) \<noteq> CHR ''/'' \<and>
     (full = ''<'' @ tag @ attrs @ ''>'' @ inner @ ''</'' @ tag @ ''>'' \<or> inner = [] \<and> full = ''<'' @ tag @ attrs @ ''/>'')"

lemma takeWhile_to: "P x \<Longrightarrow> \<forall>y \<in> set a. \<not> P y \<Longrightarrow> takeWhile (\<lambda>y. \<not> P y) (a @ x # b) = a"
  by (induction a) auto

lemma start_tag_text:
  assumes "well_formed tag attrs inner full"
  shows "start_tag full = Some (''<'' @ tag @ attrs @ ''>'')"
proof -
  have f: "CHR ''>'' \<notin> set (tag @ attrs)" "last (tag @ attrs) \<noteq> CHR ''/''" "tag \<noteq> []" using assms by (auto simp: well_formed_def)
  have t: "takeWhile (\<lambda>x. x \<noteq> CHR ''>'') ((''<'' @ tag @ attrs) @ CHR ''>'' # b) = ''<'' @ tag @ attrs" for b
    by (rule takeWhile_to [where P = "\<lambda>x. x = CHR ''>''"]) (use f(1) in auto)
  have u: "takeWhile (\<lambda>x. x \<noteq> CHR ''>'') ((''<'' @ tag @ attrs @ ''/'') @ ''>'') = ''<'' @ tag @ attrs @ ''/''"
    by (rule takeWhile_to [where P = "\<lambda>x. x = CHR ''>''"]) (use f(1) in auto)
  from assms consider "full = ''<'' @ tag @ attrs @ ''>'' @ inner @ ''</'' @ tag @ ''>''" | "full = ''<'' @ tag @ attrs @ ''/>''"
    by (auto simp: well_formed_def)
  then show ?thesis
  proof cases
    case 1
    with t [of "inner @ ''</'' @ tag @ ''>''"] f show ?thesis by (auto simp: start_tag_def Let_def)
  next
    case 2
    with u f show ?thesis by (auto simp: start_tag_def Let_def butlast_append)
  qed
qed

lemma element_text:
  assumes "well_formed tag attrs inner full" "pr_xmlinfo p = ''<'' @ tag @ attrs @ ''>''" "pr_value p = inner"
  shows "get_dead_prop_elem p = Some (''<'' @ tag @ attrs @ ''>'' @ inner @ ''</'' @ tag @ ''>'')"
proof -
  let ?sep = "\<lambda>x. x = CHR '' '' \<or> x = CHR ''>''"
  obtain x rest where x: "attrs @ ''>'' = x # rest" "?sep x" using assms(1) by (cases attrs) (auto simp: well_formed_def)
  have n: "\<forall>y \<in> set (''<'' @ tag). \<not> ?sep y" using assms(1) by (auto simp: well_formed_def)
  have "takeWhile (\<lambda>y. \<not> ?sep y) ((''<'' @ tag) @ x # rest) = ''<'' @ tag" by (rule takeWhile_to [OF x(2) n])
  then show ?thesis using x(1) by (simp add: get_dead_prop_elem_def assms(2,3) Let_def)
qed

text \<open>C27: A property that a \<open>PROPPATCH\<close> stores is what a later \<open>PROPFIND\<close> shows. The start tag with all its
  attributes and the text inside come back with an end tag of the same name; an empty element comes back as a start tag and an end
  tag. The namespace may be new or known, the property may replace another one; other properties of the resource do not interfere.\<close>

theorem proppatch_propfind:
  assumes store: "dav_repos_db_store type (ns, n) inner full (dav_repos_db_open r) ca s = Some (None, d', ca', s')"
    and wf: "well_formed tag attrs inner full"
    and start: "dr_ns_id_hash r = Map.empty" "c_namespaces ca = Map.empty" "fault s = []" "account_inv s" "namespaces_inv s"
    and names: "\<forall>(i, m) \<in> set (namespaces s). CHR 0x09 \<notin> set m" "CHR 0x09 \<notin> set ns" "ns \<noteq> []" "ns \<noteq> NULL_NAMESPACE"
    and reader: "dr_serialno q = dr_serialno r" "dr_pr q = []"
  shows "\<exists>d. dav_repos_db_output_value (ns, n) (dav_repos_db_open q) s'
    = Some (Some (''<'' @ tag @ attrs @ ''>'' @ inner @ ''</'' @ tag @ ''>''), d, s')"
proof -
  obtain i h t where ns: "dbms_get_ns_id ns Map.empty ca s = ((None, i), h, ca', t)"
    and set_dead: "dbms_set_dead_property (r\<lparr>dr_ns_id_hash := h\<rparr>) \<lparr>pr_serialno = 0, pr_ns_id = i, pr_name = n,
       pr_xmlinfo = ''<'' @ tag @ attrs @ ''>'', pr_value = inner, pr_namespace_name = []\<rparr> t = (None, s')"
    using store start(1)
    by (auto simp: dav_repos_db_store_def start_tag_text [OF wf] ns_of_resource_def dav_repos_db_open_def split: if_splits prod.splits option.splits)
  have t: "(i, ns) \<in> set (namespaces t)" "namespaces_inv t" "fault t = []" "account_inv t"
    "set (namespaces t) \<subseteq> insert (i, ns) (set (namespaces s))"
    using ns_id_found [OF ns start(2,3,5)] start(4) by auto
  note keep = set_dead_property_healthy [OF set_dead t(3)]
  have "account_inv s'"
    by (rule account_inv_accounted [OF accounted.set_property [OF accounted.start set_dead] t(4)])
  then have keys: "distinct (map prop_key (properties s'))" by (simp add: account_inv_def resources_inv_def)
  obtain w where w: "w \<in> set (properties s')" "prop_key w = (dr_serialno r, i, n)" "p_xmlinfo w = ''<'' @ tag @ attrs @ ''>''" "p_value w = inner"
    using set_dead_property_stored [OF set_dead] by (auto simp: stored_def)
  have tab: "\<forall>(j, m) \<in> set (namespaces s'). CHR 0x09 \<notin> set m" using keep t(5) names(1,2) by auto
  have snds: "distinct (map snd (namespaces s'))" using keep t(2) by (simp add: namespaces_inv_def)
  have key: "p_resource_id w = dr_serialno q" "p_namespace_id w = i" "p_name w = n" using w(2) reader(1) by (auto simp: prop_key_def)
  have "(p_namespace_id w, ns) \<in> set (namespaces s')" using keep t(1) key by simp
  from built_hash [OF conjunct2 [OF keep] snds keys w(1) key(1) this tab names(3,4) reader(2)] obtain d hm where
    d: "dav_repos_build_pr_hash (dav_repos_db_open q) s' = (d, s')" "pr_hash d = Some hm"
       "map_of hm (name_key (ns, p_name w)) = Some \<lparr>pr_serialno = dr_serialno q, pr_ns_id = p_namespace_id w, pr_name = p_name w,
         pr_xmlinfo = p_xmlinfo w, pr_value = p_value w, pr_namespace_name = ns\<rparr>" by blast
  have unopened: "pr_hash (dav_repos_db_open q) = None" by (simp add: dav_repos_db_open_def)
  show ?thesis
    using d(3) element_text [OF wf, of "\<lparr>pr_serialno = dr_serialno q, pr_ns_id = p_namespace_id w, pr_name = p_name w,
         pr_xmlinfo = p_xmlinfo w, pr_value = p_value w, pr_namespace_name = ns\<rparr>"] w(3,4)
    by (simp add: dav_repos_db_output_value_def ensure_pr_hash_def unopened d(1,2) key(3))
qed

abbreviation note_text :: string where
  "note_text \<equiv> ''<n:note xmlns:n='' @ sq @ ''urn:x'' @ sq @ ''>hi</n:note>''"

definition note_files :: db where
  "note_files = sample_files\<lparr>next_ns := 2\<rparr>"

theorem proppatch_propfind_witness:
  "\<exists>d' ca' s' d. dav_repos_db_store DAV_RESOURCE_TYPE_REGULAR (''urn:x'', ''note'') ''hi'' note_text (dav_repos_db_open sample_file)
      \<lparr>c_namespaces = Map.empty, c_privileges = Map.empty\<rparr> note_files = Some (None, d', ca', s') \<and>
    dav_repos_db_output_value (''urn:x'', ''note'') (dav_repos_db_open sample_file) s' = Some (Some note_text, d, s')"
proof -
  let ?ca = "\<lparr>c_namespaces = Map.empty, c_privileges = Map.empty\<rparr> :: dav_repos_cache"
  have "map_option fst (dav_repos_db_store DAV_RESOURCE_TYPE_REGULAR (''urn:x'', ''note'') ''hi'' note_text (dav_repos_db_open sample_file) ?ca note_files)
      = Some None" by code_simp
  then obtain d' ca' s' where 1: "dav_repos_db_store DAV_RESOURCE_TYPE_REGULAR (''urn:x'', ''note'') ''hi'' note_text (dav_repos_db_open sample_file)
      ?ca note_files = Some (None, d', ca', s')" by auto
  have "well_formed ''n:note'' ('' xmlns:n='' @ sq @ ''urn:x'' @ sq) ''hi'' note_text" by (simp add: well_formed_def)
  moreover have "dr_ns_id_hash sample_file = Map.empty" "dr_pr sample_file = []" by (simp_all add: sample_file_def zero_dbr_def)
  moreover have "fault note_files = []" "namespaces_inv note_files" "\<forall>(i, m) \<in> set (namespaces note_files). CHR 0x09 \<notin> set m"
    by (simp_all add: note_files_def sample_files_def empty_db_def namespaces_inv_def)
  moreover have "account_inv note_files" unfolding account_inv_def by code_simp
  ultimately show ?thesis using 1 proppatch_propfind [OF 1, of "''n:note''" "'' xmlns:n='' @ sq @ ''urn:x'' @ sq" sample_file]
    by (fastforce simp: NULL_NAMESPACE_def)
qed

end
