(* ===== verification/LiveFacts.thy ===== *)
theory LiveFacts
  imports Vprops Props StreamFacts
begin

text \<open>
  Facts on the live properties: the language tags that are accepted, the links between the versions of a history, the versioning of new
  children, and the domains of a user, written by a \<open>PROPPATCH\<close> and read by a \<open>PROPFIND\<close>.
\<close>

section \<open>Language tags\<close>

lemma tag_loop_iff: "i \<le> 9 \<Longrightarrow> tag_loop i tag \<longleftrightarrow> i + length tag \<le> 9 \<and> list_all isalpha tag"
  by (induction i tag rule: tag_loop.induct) auto


section \<open>Links between versions\<close>

lemma map_of_hash_set_upd: "map_of (hash_set k x m) = (map_of m)(k := x)"
proof (cases x)
  case None
  have "map_of (filter (\<lambda>(j, v). j \<noteq> k) m) = (map_of m)(k := None)" by (induction m) (auto simp: fun_eq_iff)
  with None show ?thesis by simp
qed (simp add: map_of_hash_set)

lemma vr_table_links:
  "map_of (vr_table sv dirstr vcr vhr r) ''predecessor-set'' = Some (predecessor_set sv dirstr r)"
  "map_of (vr_table sv dirstr vcr vhr r) ''successor-set'' = Some (successor_set sv dirstr r)"
  by (simp_all add: vr_table_def Let_def map_of_hash_set_upd)

text \<open>C21: In the table of a version with the address of the version \<open>n\<close> of its history, the predecessor set names the version \<open>n - 1\<close>,
  unless \<open>n\<close> is 1; the successor set, unless the version is the last, is the address of the version \<open>n + 1\<close> with one more slash before the number,
  which is another address.\<close>

theorem version_links:
  assumes run: "sabridge_build_vr_pr_hash sv dirstr siblings r s = Some (h, s')"
    and type: "dr_resourcetype r = dav_repos_VERSION \<or> dr_resourcetype r = dav_repos_COLLECTION_VERSION"
    and here: "dr_uri r = Some (sabridge_mk_version_uri vhr (dr_version r))"
    and dir: "dirstr (sabridge_mk_version_uri vhr (dr_version r)) = dr_root_path vhr @ ''/history/'' @ show_long (dr_serialno vhr) @ ''/''"
  shows "map_of h ''predecessor-set'' =
      Some (if dr_version r = 1 then [] else column (href_of sv (sabridge_mk_version_uri vhr (dr_version r - 1)))) \<and>
    map_of h ''successor-set'' =
      Some (if dr_lastversion r then []
            else column (href_of sv (dr_root_path vhr @ ''/history/'' @ show_long (dr_serialno vhr) @ ''//'' @ show_long (dr_version r + 1)))) \<and>
    dr_root_path vhr @ ''/history/'' @ show_long (dr_serialno vhr) @ ''//'' @ show_long (dr_version r + 1)
      \<noteq> sabridge_mk_version_uri vhr (dr_version r + 1)"
proof -
  have "map_of h ''predecessor-set'' = Some (predecessor_set sv dirstr r) \<and> map_of h ''successor-set'' = Some (successor_set sv dirstr r)"
    using run type by (auto simp: sabridge_build_vr_pr_hash_def Let_def map_of_hash_set vr_table_links split: option.splits prod.splits if_splits)
  moreover have "dr_root_path vhr @ ''/history/'' @ show_long (dr_serialno vhr) @ ''//'' @ show_long n \<noteq> sabridge_mk_version_uri vhr n" for n
  proof
    assume "dr_root_path vhr @ ''/history/'' @ show_long (dr_serialno vhr) @ ''//'' @ show_long n = sabridge_mk_version_uri vhr n"
    then have "length (CHR ''/'' # show_long n) = length (show_long n)" by (simp add: sabridge_mk_version_uri_def)
    then show False by simp
  qed
  moreover have "dirstr (column (dr_uri r)) = dr_root_path vhr @ ''/history/'' @ show_long (dr_serialno vhr) @ ''/''"
    using dir here by (simp add: column_def)
  then have "predecessor_set sv dirstr r =
      (if dr_version r = 1 then [] else column (href_of sv (sabridge_mk_version_uri vhr (dr_version r - 1))))"
    "successor_set sv dirstr r = (if dr_lastversion r then []
      else column (href_of sv (dr_root_path vhr @ ''/history/'' @ show_long (dr_serialno vhr) @ ''//'' @ show_long (dr_version r + 1))))"
    by (simp_all add: predecessor_set_def successor_set_def sabridge_mk_version_uri_def)
  ultimately show ?thesis by simp
qed

section \<open>The versioning of new children\<close>

text \<open>C18: Of a request that passed validation, on a healthy connection, the versioning of the new children of a collection is stored exactly when the
  property is set and the value differs from the number of the collection's own automatic versioning; a value that equals
  this number is dropped, and a deletion stores nothing. Other collections and all other tables stay.\<close>

theorem av_new_children_commit:
  assumes "dav_limebits_patch_validate pe rs r P_auto_version_new_children el operation ca s0 = (None, ca', s)"
    and "rs_collection rs" and "fault s = []" and "map_of (collections s) (dr_serialno r) = Some old"
    and exec: "dav_limebits_patch_exec pe P_auto_version_new_children el inner operation r s = Some (e, ctx, r', s')"
  defines "av \<equiv> if first_child_name el = ''checkout-checkin'' then DAV_AV_CHECKOUT_CHECKIN else DAV_AV_VERSION_CONTROL"
  shows "dav_limebits_patch_commit rs ctx r' s' = s\<lparr>collections := map (\<lambda>(i, n).
      (i, if i = dr_serialno r \<and> operation = DAV_PROP_OP_SET \<and> av \<noteq> dr_autoversion_type r then av else n)) (collections s)\<rparr>"
proof -
  have e: "e = None" "ctx = \<lparr>rb_propid = P_auto_version_new_children, rb_operation = operation, rb_data = RB_number (dr_autoversion_type r)\<rparr>"
    "r' = r\<lparr>dr_av_new_children := limebits_av operation (first_child_name el) (dr_av_new_children r)\<rparr>" "s' = s"
    using exec by (simp_all add: dav_limebits_patch_exec_def Let_def)
  have "operation = DAV_PROP_OP_DELETE \<or> first_child_name el \<in> {''checkout-checkin'', ''version-control''}"
    using assms(1,2) by (auto simp: dav_limebits_patch_validate_def Let_def split: if_splits)
  then have "operation = DAV_PROP_OP_DELETE \<or> limebits_av operation (first_child_name el) (dr_av_new_children r) = av"
    by (auto simp: limebits_av_def av_named_def av_def)
  moreover have "map (\<lambda>(i, n). (i, n)) (collections s) = collections s" by simp
  ultimately show ?thesis using e assms(2,3)
    by (cases operation) (auto simp: dav_limebits_patch_commit_def dbms_set_collection_new_children_av_type_def exec_or_500_healthy intro!: arg_cong [where f = "\<lambda>c. s\<lparr>collections := c\<rparr>"])
qed

section \<open>Domains\<close>

text \<open>The entry of a request, read by name.\<close>

definition entry_of :: "senv \<Rightarrow> xml \<Rightarrow> string \<times> string \<Rightarrow> bool" where
  "entry_of sv c e \<longleftrightarrow> map_option (sv_cdata sv) (lb_find_child c ''domain'') = Some (fst e) \<and>
     map_option (sv_cdata sv) (lb_find_child c ''path'') = Some (snd e)"

definition legal :: "string \<Rightarrow> string \<times> string \<Rightarrow> bool" where
  "legal filt e \<longleftrightarrow> \<not> strstr (fst e) filt \<and> \<not> strstr (snd e) ''!lime'' \<and> \<not> strstr (snd e) ''..''"

abbreviation table_of :: "(string \<times> string) list option \<Rightarrow> (string \<rightharpoonup> string)" where
  "table_of m \<equiv> (case m of None \<Rightarrow> Map.empty | Some l \<Rightarrow> map_of l)"

lemma domain_entries_legal:
  assumes "list_all2 (entry_of sv) cs es"
  shows "\<exists>m'. domain_entries sv filt cs m = Some m' \<and> table_of m' = table_of m ++ map_of (rev (filter (legal filt) es)) \<and>
    (m' = None \<longleftrightarrow> m = None \<and> filter (legal filt) es = [])"
  using assms
proof (induction arbitrary: m rule: list_all2_induct)
  case (Cons c cs e es)
  from Cons.hyps(1) obtain d p where dp: "lb_find_child c ''domain'' = Some d" "lb_find_child c ''path'' = Some p"
    "sv_cdata sv d = fst e" "sv_cdata sv p = snd e" by (auto simp: entry_of_def)
  show ?case
  proof (cases "legal filt e")
    case True
    define h where "h = hash_set (fst e) (Some (snd e)) (case m of None \<Rightarrow> [] | Some l \<Rightarrow> l)"
    have step: "domain_entries sv filt (c # cs) m = domain_entries sv filt cs (Some h)" using dp True by (simp add: legal_def h_def)
    have "table_of (Some h) = table_of m ++ map_of [e]" by (cases m; cases e) (simp_all add: h_def map_of_hash_set)
    moreover have "map_of (rev (filter (legal filt) (e # es))) = map_of [e] ++ map_of (rev (filter (legal filt) es))"
      using True by (simp del: map_of.simps)
    ultimately have "table_of (Some h) ++ map_of (rev (filter (legal filt) es)) = table_of m ++ map_of (rev (filter (legal filt) (e # es)))"
      by (simp only: map_add_assoc)
    with Cons.IH [of "Some h"] step True show ?thesis by auto
  next
    case False
    then have "domain_entries sv filt (c # cs) m = domain_entries sv filt cs m" using dp by (auto simp: legal_def)
    with Cons.IH [of m] False show ?thesis by simp
  qed
qed simp

text \<open>C32: A user's domains are set as a whole by a \<open>PROPPATCH\<close> and shown by a later \<open>PROPFIND\<close>: of the entries of the request those with a
  legal domain and path, of several for one domain the last. This holds on a healthy connection, for a principal, when at least one
  entry is legal, the texts are within the limits of the columns, and no question mark is in the statement.\<close>

theorem domain_map_proppatch_propfind:
  assumes "fault s = []" and "dr_serialno r \<in> principal_ids s"
    and entries: "list_all2 (entry_of (pe_sv pe)) (x_children el) es"
    and "filter (legal (pe_defn_name pe)) es \<noteq> []"
    and order: "\<And>h. finite (dom h) \<Longrightarrow> map_of (pe_entries pe h) = h \<and> distinct (map fst (pe_entries pe h))"
    and "\<And>e. e \<in> set es \<Longrightarrow> length (fst e) \<le> 255 \<and> length (snd e) \<le> 255"
  defines "m \<equiv> map_of (rev (filter (legal (pe_defn_name pe)) es))"
  assumes "CHR ''?'' \<notin> set (joinc CHR '','' (map (domain_value (e_escape (fe_env (pe_fe pe))) (dr_serialno r)) (pe_entries pe m)))"
  shows "\<exists>ctx s'. dav_limebits_patch_exec pe P_domain_map el inner DAV_PROP_OP_SET r s = Some (None, ctx, r, s') \<and>
    limebits_value pe P_domain_map r ca s' = Some (Inr (domain_map_to_xml (Some (pe_entries pe m))), r, ca, s')"
proof -
  obtain h where h: "domain_entries (pe_sv pe) (pe_defn_name pe) (x_children el) None = Some (Some h)" "map_of h = m"
    using domain_entries_legal [OF entries, of "pe_defn_name pe" None] assms(4) by (auto simp: m_def)
  have fin: "finite (dom m)" by (simp add: m_def finite_dom_map_of)
  have m: "map_of (pe_entries pe m) = m" "distinct (map fst (pe_entries pe m))" using order [OF fin] by simp_all
  have "m \<noteq> Map.empty" using assms(4) by (simp add: m_def)
  then have ne: "pe_entries pe m \<noteq> []" using m(1) by auto
  have "(d, p) \<in> set es" if "(d, p) \<in> set (pe_entries pe m)" for d p
  proof -
    have "m d = Some p" using that m by (metis map_of_is_SomeI)
    then have "(d, p) \<in> set (rev (filter (legal (pe_defn_name pe)) es))" by (auto simp: m_def dest: map_of_SomeD)
    then show ?thesis by simp
  qed
  then have "list_all (\<lambda>(d, p). length d \<le> 255 \<and> length p \<le> 255) (pe_entries pe m)"
    using assms(6) by (fastforce simp: list_all_iff)
  then obtain s' where s': "dbms_set_domain_map (e_escape (fe_env (pe_fe pe))) (dr_serialno r) (Some (pe_entries pe m)) s = (None, s')"
    "dbms_get_domain_map (dr_serialno r) s' = (Some m, s')"
    using domain_map_round_trip [OF assms(1,2) ne m(2) _ assms(8)] m(1) by auto
  have "dbms_get_domain_map (dr_serialno r) s = (fst (dbms_get_domain_map (dr_serialno r) s), s)"
    using assms(1) by (simp add: dbms_get_domain_map_def run_stmt_healthy Let_def)
  then obtain old where "dbms_get_domain_map (dr_serialno r) s = (old, s)" by blast
  with h s' show ?thesis
    by (simp add: dav_limebits_patch_exec_def domain_map_elem_to_hash_def limebits_value_def Let_def)
qed

section \<open>Examples\<close>

definition version_one :: dav_repos_resource where
  "version_one = zero_dbr\<lparr>dr_resource := Some zero_resource, dr_serialno := 24, dr_resourcetype := dav_repos_VERSION,
     dr_uri := Some ''/history/21/1'', dr_version := 1, dr_vcr_id := 20\<rparr>"

theorem version_links_witness:
  "\<exists>h s'. sabridge_build_vr_pr_hash plain_env dirstr_parent [] version_one (sn_db out_file) = Some (h, s') \<and>
     map_of h ''predecessor-set'' = Some [] \<and> map_of h ''successor-set'' = Some ''<D:href>/history/21//2</D:href>''"
proof -
  let ?vhr = "zero_dbr\<lparr>dr_serialno := 21\<rparr>"
  have "sabridge_build_vr_pr_hash plain_env dirstr_parent [] version_one (sn_db out_file) \<noteq> None" by code_simp
  then obtain h s' where run: "sabridge_build_vr_pr_hash plain_env dirstr_parent [] version_one (sn_db out_file) = Some (h, s')" by auto
  have a: "dr_resourcetype version_one = dav_repos_VERSION \<or> dr_resourcetype version_one = dav_repos_COLLECTION_VERSION"
    "dr_uri version_one = Some (sabridge_mk_version_uri ?vhr (dr_version version_one))"
    "dirstr_parent (sabridge_mk_version_uri ?vhr (dr_version version_one)) =
       dr_root_path ?vhr @ ''/history/'' @ show_long (dr_serialno ?vhr) @ ''/''" by code_simp+
  have "dr_version version_one = 1" "\<not> dr_lastversion version_one"
    "column (href_of plain_env (dr_root_path ?vhr @ ''/history/'' @ show_long (dr_serialno ?vhr) @ ''//'' @ show_long (dr_version version_one + 1)))
       = ''<D:href>/history/21//2</D:href>''" by code_simp+
  with version_links [OF run a] run show ?thesis by simp
qed

definition small_penv :: penv where
  "small_penv = \<lparr>pe_fe = file_env, pe_sv = plain_env, pe_others = (\<lambda>p. []),
     pe_entries = (\<lambda>h. map (\<lambda>k. (k, the (h k))) (sorted_list_of_set (dom h))), pe_defn_name = ''reserved'', pe_denied = 401, pe_garbage = 0\<rparr>"

abbreviation named_child :: "string \<Rightarrow> xml" where
  "named_child n \<equiv> Elem ''auto-version-new-children'' 1 [] None [Elem n 0 [] None []]"

theorem av_new_children_commit_witness:
  "dav_limebits_patch_commit (zero_resource\<lparr>rs_collection := True\<rparr>)
     \<lparr>rb_propid = P_auto_version_new_children, rb_operation = DAV_PROP_OP_SET, rb_data = RB_number 1\<rparr>
     (zero_dbr\<lparr>dr_serialno := 2, dr_autoversion_type := 1, dr_av_new_children := 1\<rparr>) (empty_db\<lparr>collections := [(2, 5)]\<rparr>)
   = empty_db\<lparr>collections := [(2, 5)]\<rparr>"
proof -
  let ?r = "zero_dbr\<lparr>dr_serialno := 2, dr_autoversion_type := 1\<rparr>" and ?s = "empty_db\<lparr>collections := [(2, 5)]\<rparr>"
  let ?rs = "zero_resource\<lparr>rs_collection := True\<rparr>" and ?el = "named_child ''checkout-checkin''" and ?ca = "(None, \<lparr>c_namespaces = Map.empty, c_privileges = Map.empty\<rparr>)"
  have v: "dav_limebits_patch_validate small_penv ?rs ?r P_auto_version_new_children ?el DAV_PROP_OP_SET ?ca ?s = (None, ?ca, ?s)"
    by (simp add: dav_limebits_patch_validate_def first_child_name_def)
  have e: "dav_limebits_patch_exec small_penv P_auto_version_new_children ?el [] DAV_PROP_OP_SET ?r ?s =
    Some (None, \<lparr>rb_propid = P_auto_version_new_children, rb_operation = DAV_PROP_OP_SET, rb_data = RB_number 1\<rparr>,
          ?r\<lparr>dr_av_new_children := 1\<rparr>, ?s)"
    by (simp add: dav_limebits_patch_exec_def limebits_av_def av_named_def first_child_name_def DAV_AV_CHECKOUT_CHECKIN_def)
  have "rs_collection ?rs" "fault ?s = []" "map_of (collections ?s) (dr_serialno ?r) = Some 5" by (simp_all add: empty_db_def)
  from av_new_children_commit [OF v this e] show ?thesis by (simp add: first_child_name_def DAV_AV_CHECKOUT_CHECKIN_def)
qed

abbreviation domain_entry :: "string \<Rightarrow> string \<Rightarrow> xml" where
  "domain_entry d p \<equiv> Elem ''domain-map-entry'' 1 [] None [Elem ''domain'' 1 [] (Some d) [], Elem ''path'' 1 [] (Some p) []]"

theorem domain_map_proppatch_propfind_witness:
  "\<exists>ctx s'. dav_limebits_patch_exec small_penv P_domain_map
       (Elem ''domain-map'' 1 [] None [domain_entry ''a.org'' ''/../x'', domain_entry ''b.org'' ''/site'']) [] DAV_PROP_OP_SET
       (zero_dbr\<lparr>dr_serialno := 11\<rparr>) small_group = Some (None, ctx, zero_dbr\<lparr>dr_serialno := 11\<rparr>, s') \<and>
     limebits_value small_penv P_domain_map (zero_dbr\<lparr>dr_serialno := 11\<rparr>) (None, \<lparr>c_namespaces = Map.empty, c_privileges = Map.empty\<rparr>) s' =
       Some (Inr (domain_map_to_xml (Some [(''b.org'', ''/site'')])), zero_dbr\<lparr>dr_serialno := 11\<rparr>, (None, \<lparr>c_namespaces = Map.empty, c_privileges = Map.empty\<rparr>), s')"
proof -
  let ?r = "zero_dbr\<lparr>dr_serialno := 11\<rparr>" and ?es = "[(''a.org'', ''/../x''), (''b.org'', ''/site'')]"
  let ?el = "Elem ''domain-map'' 1 [] None [domain_entry ''a.org'' ''/../x'', domain_entry ''b.org'' ''/site'']"
  have p: "pe_defn_name small_penv = ''reserved''" "e_escape (fe_env (pe_fe small_penv)) = (\<lambda>x. x)"
    by (simp_all add: small_penv_def file_env_def demo_env_def)
  have "filter (legal ''reserved'') ?es = [(''b.org'', ''/site'')]" by code_simp
  then have f: "filter (legal (pe_defn_name small_penv)) ?es = [(''b.org'', ''/site'')]" by (simp only: p)
  have m: "pe_entries small_penv [''b.org'' \<mapsto> ''/site''] = [(''b.org'', ''/site'')]" by (simp add: small_penv_def)
  have mm: "map_of (rev [(''b.org'', ''/site'')]) = [''b.org'' \<mapsto> ''/site'']" by simp
  have healthy: "fault small_group = []" and user: "dr_serialno ?r \<in> principal_ids small_group" by code_simp+
  have entries: "list_all2 (entry_of (pe_sv small_penv)) (x_children ?el) ?es"
    by (simp add: entry_of_def lb_find_child_def small_penv_def plain_env_def)
  have order: "map_of (pe_entries small_penv h) = h \<and> distinct (map fst (pe_entries small_penv h))" if "finite (dom h)" for h
    using that by (auto simp: small_penv_def map_of_map_keys comp_def dom_def fun_eq_iff)
  have some: "filter (legal (pe_defn_name small_penv)) ?es \<noteq> []" by (simp only: f list.distinct not_False_eq_True)
  have short: "length (fst e) \<le> 255 \<and> length (snd e) \<le> 255" if "e \<in> set ?es" for e
    using that by auto
  have em: "pe_entries small_penv (map_of (rev (filter (legal (pe_defn_name small_penv)) ?es))) = [(''b.org'', ''/site'')]"
    by (simp only: f mm m)
  have "CHR ''?'' \<notin> set (joinc CHR '','' (map (domain_value (\<lambda>x. x) (dr_serialno ?r)) [(''b.org'', ''/site'')]))" by code_simp
  then have "CHR ''?'' \<notin> set (joinc CHR '','' (map (domain_value (e_escape (fe_env (pe_fe small_penv))) (dr_serialno ?r))
      (pe_entries small_penv (map_of (rev (filter (legal (pe_defn_name small_penv)) ?es))))))" unfolding em unfolding p .
  from domain_map_proppatch_propfind [OF healthy user entries some order short this, unfolded em] show ?thesis by simp
qed

end
