(* ===== verification/Spec2Isabelle.thy ===== *)
theory Spec2Isabelle
  imports Util Dbd AclFacts ResourceFacts Collector PrincipalFacts VersionFacts Copying StreamFacts Transactions Config Walks LockOps SearchFacts LiveFacts
begin

text \<open>
  Limestone is a provider for mod_dav: it keeps a tree of WebDAV resources in tables of a PostgreSQL (or MySQL) database and their bodies
  in files. The sources are the C files of \<^verbatim>\<open>src/limestone\<close>. A request goes through the hooks of \<^verbatim>\<open>repos.c\<close>, \<^verbatim>\<open>bind.c\<close>,
  \<^verbatim>\<open>lock.c\<close>, \<^verbatim>\<open>version.c\<close>, \<^verbatim>\<open>acl.c\<close>, \<^verbatim>\<open>search.c\<close>, \<^verbatim>\<open>props.c\<close> and the files of live properties; these call the functions of the bridge
  (\<^verbatim>\<open>bridge.c\<close>, \<^verbatim>\<open>deltav_bridge.c\<close>, \<^verbatim>\<open>lock_bridge.c\<close>), and the bridge calls the statements of the files \<^verbatim>\<open>dbms_*.c\<close>. A thread collects
  garbage (\<^verbatim>\<open>gc.c\<close>).

  \<^bold>\<open>Theories and sources\<close>

  \<^item> \<^theory_text>\<open>Prelude\<close>: errors, strings, tokens, decimal numbers, coding locales. \<^theory_text>\<open>Util\<close>: \<^verbatim>\<open>util.c\<close>. \<^theory_text>\<open>Dbd\<close>: the assembly of a statement in
    \<^verbatim>\<open>dbms_dbd.c\<close>. \<^theory_text>\<open>Store\<close>: the tables, the running of a statement, the cascades of a deletion.
  \<^item> \<^theory_text>\<open>Binds\<close>, \<^theory_text>\<open>Paths\<close>: \<^verbatim>\<open>dbms_bind.c\<close>, the lookup of a URI and the search for a shortest path.
  \<^item> \<^theory_text>\<open>Membership\<close>, \<^theory_text>\<open>Principals\<close>, \<^theory_text>\<open>PrincipalFacts\<close>: \<^verbatim>\<open>dbms_principal.c\<close>, \<^verbatim>\<open>principal.c\<close>, \<^verbatim>\<open>acl_liveprops.c\<close>.
  \<^item> \<^theory_text>\<open>Acl\<close>, \<^theory_text>\<open>AclFacts\<close>: \<^verbatim>\<open>dbms_acl.c\<close>, the decisions and updates of \<^verbatim>\<open>acl.c\<close>.
  \<^item> \<^theory_text>\<open>Resources\<close>, \<^theory_text>\<open>ResourceFacts\<close>: the rows of \<^verbatim>\<open>dbms.c\<close>, \<^verbatim>\<open>dbms_quota.c\<close>, \<^verbatim>\<open>dbms_redirect.c\<close>. \<^theory_text>\<open>Children\<close>: listings.
  \<^item> \<^theory_text>\<open>Deltav\<close>, \<^theory_text>\<open>Versions\<close>, \<^theory_text>\<open>Frames\<close>, \<^theory_text>\<open>VersionFacts\<close>: \<^verbatim>\<open>dbms_deltav.c\<close>, \<^verbatim>\<open>deltav_util.c\<close>, \<^verbatim>\<open>deltav_bridge.c\<close>, \<^verbatim>\<open>version.c\<close>.
  \<^item> \<^theory_text>\<open>Lifecycle\<close>, \<^theory_text>\<open>Collector\<close>: reading, unbinding and deleting in \<^verbatim>\<open>bridge.c\<close>, and \<^verbatim>\<open>gc.c\<close>. \<^theory_text>\<open>Creation\<close>, \<^theory_text>\<open>Copying\<close>: insertion, copies,
    moves, the hooks of \<^verbatim>\<open>bind.c\<close>. \<^theory_text>\<open>Streams\<close>, \<^theory_text>\<open>StreamFacts\<close>: bodies in \<^verbatim>\<open>repos.c\<close>. \<^theory_text>\<open>Handlers\<close>, \<^theory_text>\<open>Walks\<close>: the other hooks of \<^verbatim>\<open>repos.c\<close> and
    \<^verbatim>\<open>redirect.c\<close>.
  \<^item> \<^theory_text>\<open>Locks\<close>, \<^theory_text>\<open>LockHooks\<close>, \<^theory_text>\<open>LockOps\<close>: \<^verbatim>\<open>dbms_locks.c\<close>, \<^verbatim>\<open>lock.c\<close>, \<^verbatim>\<open>lock_bridge.c\<close>.
  \<^item> \<^theory_text>\<open>Transactions\<close>: \<^verbatim>\<open>transaction.c\<close>, \<^verbatim>\<open>dbms_transaction.c\<close>. \<^theory_text>\<open>Config\<close>: \<^verbatim>\<open>mod_dav_repos.c\<close>.
  \<^item> \<^theory_text>\<open>Queries\<close>, \<^theory_text>\<open>Search\<close>, \<^theory_text>\<open>SearchFacts\<close>: \<^verbatim>\<open>search.c\<close>. \<^theory_text>\<open>Props\<close>: \<^verbatim>\<open>props.c\<close>.
  \<^item> \<^theory_text>\<open>Liveprops\<close>, \<^theory_text>\<open>Limebits\<close>, \<^theory_text>\<open>Vprops\<close>, \<^theory_text>\<open>LiveFacts\<close>: the files of live properties and the tables of \<^verbatim>\<open>deltav_bridge.c\<close>.

  \<^bold>\<open>Conventions\<close>

  A definition has the name of the function it models. The record \<open>db\<close> is the database, one list of rows for each table; \<open>dav_repos_resource\<close> and the
  other records are the structures of the code. State is passed and returned: what a function writes through a pointer is part of its
  result. The schedule \<open>fault\<close> of the database says of each statement to come whether it fails; a failed statement changes nothing.
  Rows come in the order of the list where a query has no \<open>ORDER BY\<close>. A column that is \<open>NULL\<close> reads as the empty string. An outer \<open>None\<close> is undefined
  behaviour (a null or uninitialised pointer) or a loop that does not end; an error of the code is a value of \<open>dav_error\<close>.
  Numbers of rows are integers; where the code truncates (the sum of the used bytes, the exclusive or of characters) the model does.

  Parameters stand for what is not under \<^verbatim>\<open>src\<close>: the drivers and their escape functions, the clock (it stands still during a request), the
  generator of identifiers, digests, the file system's answers, mod_dav's document and principal functions, the order in which a hash table of APR
  is run through, and the answer of the server to the text of a search.

  \<^bold>\<open>What the lemmas show\<close>

  Paths and bindings: lookup follows the graph, the search is sound, complete and shortest. Groups: the cached membership is the closure of the
  direct one. Access: the decision is that of the best entry; listings agree with it when no protected entry bears on it. Lifecycle: the
  collector removes what cannot be reached and nothing else. Quota: the charged bytes are exact and a request over them is rolled back. Versions: the
  hooks refine a machine of states and numbers. Streams and properties: what was written is read. Search: the text of a condition is one group unless a literal
  has a quote. Locks and walks: the loops return and each resource counts once. Laws that several components share are locales with
  interpretations on the model: codecs (decimal numbers, lock tokens, types, paths of lists), a directory of bindings, the queue of the collector, and
  the frames of creation.

  \<^bold>\<open>Termination\<close>

  No fuel is used. The search and the listing of levels measure the collections that were not met yet; the loops of copying and unbinding
  measure bindings; the loop over locks measures the rows of locked resources with the faults to come; loops over text are structural or measure the text.

  \<^bold>\<open>Not modelled\<close>

  \<^item> The rendering of access control lists and privileges as XML and the \<open>REPORT\<close>s of \<^verbatim>\<open>acl.c\<close> and \<^verbatim>\<open>version.c\<close>, with
    \<^verbatim>\<open>UPDATE\<close>: they print structures that the modelled functions return.
  \<^item> Opening and closing connections, toggling constraints on MySQL, the registration of hooks, the log, starting and stopping
    the thread of the collector: glue to libraries.
  \<^item> That PostgreSQL refuses all statements after a failed one until the transaction ends; deferred foreign keys are checked at the statement, except on
    the tables of versions; a rule of the quota that fires for several rows takes the first.
  \<^item> \<^verbatim>\<open>adduser\<close>, the scripts, the migrations of the database, the tests.
\<close>

end
